(* ===== verification/Prelude.thy ===== *)
theory Prelude
  imports Complex_Main "HOL-Library.AList" "HOL-Library.List_Lexorder" "HOL-Library.Char_ord"
begin

text \<open>
  The shared base of the development: Python's insertion ordered dictionaries as association
  lists, the truthiness idioms the code uses on strings, the ASCII string methods, and the
  collections of simplification rules the component theories add to.
\<close>

named_theorems dict_simps \<open>reads of a dictionary after a write\<close>
named_theorems record_defs \<open>definitions that only build a record\<close>

section \<open>Dictionaries\<close>

text \<open>
  A Python \<^verbatim>\<open>dict\<close> keeps the order in which its keys were first inserted, and several
  loops of the code depend on that order. \<^verbatim>\<open>d[k] = v\<close> replaces in place or appends, which
  is \<^const>\<open>AList.update\<close>; \<^verbatim>\<open>del d[k]\<close> and \<^verbatim>\<open>d.pop(k, None)\<close> are
  \<^const>\<open>AList.delete\<close>; \<^verbatim>\<open>d.get(k)\<close> is \<^const>\<open>map_of\<close>.
\<close>

type_synonym ('k, 'v) dict = "('k \<times> 'v) list"

abbreviation dict_ok :: "('k, 'v) dict \<Rightarrow> bool" where
  "dict_ok d \<equiv> distinct (map fst d)"

abbreviation dget :: "('k, 'v) dict \<Rightarrow> 'k \<Rightarrow> 'v option" where
  "dget d k \<equiv> map_of d k"

abbreviation dset :: "'k \<Rightarrow> 'v \<Rightarrow> ('k, 'v) dict \<Rightarrow> ('k, 'v) dict" where
  "dset k v d \<equiv> AList.update k v d"

abbreviation ddel :: "'k \<Rightarrow> ('k, 'v) dict \<Rightarrow> ('k, 'v) dict" where
  "ddel k d \<equiv> AList.delete k d"

abbreviation dvalues :: "('k, 'v) dict \<Rightarrow> 'v list" where
  "dvalues d \<equiv> map snd d"

lemma dget_dset [simp, dict_simps]: "dget (dset k v d) = (dget d)(k \<mapsto> v)"
  by (rule update_conv')

lemma dget_ddel [simp, dict_simps]: "dget (ddel k d) = (dget d)(k := None)"
  by (rule delete_conv')

lemma dict_ok_dset [simp, intro]: "dict_ok d \<Longrightarrow> dict_ok (dset k v d)"
  by (rule distinct_update)

lemma dict_ok_ddel [simp, intro]: "dict_ok d \<Longrightarrow> dict_ok (ddel k d)"
  by (rule distinct_delete)

lemma dget_Some_mem: "dict_ok d \<Longrightarrow> dget d k = Some v \<longleftrightarrow> (k, v) \<in> set d"
  by (rule map_of_eq_Some_iff)

declare map_of_eq_Some_iff [simp del] Some_eq_map_of_iff [simp del]

lemma mem_dvalues: "dict_ok d \<Longrightarrow> v \<in> set (dvalues d) \<longleftrightarrow> (\<exists>k. dget d k = Some v)"
  by (force simp: dget_Some_mem)

text \<open>
  The loop \<^verbatim>\<open>for key, record in list(items.items()): if p(record): items[key] = f(record);
  count += 1\<close>, which the stores use for every bulk update: it walks a snapshot of the items
  and writes into the live dictionary.
\<close>

fun update_loop ::
  "('v \<Rightarrow> bool) \<Rightarrow> ('v \<Rightarrow> 'v) \<Rightarrow> ('k \<times> 'v) list \<Rightarrow> ('k, 'v) dict \<Rightarrow> nat \<Rightarrow> ('k, 'v) dict \<times> nat" where
  "update_loop p f [] d n = (d, n)"
| "update_loop p f ((k, r) # rest) d n =
     (if p r then update_loop p f rest (dset k (f r) d) (Suc n) else update_loop p f rest d n)"

definition update_where ::
  "('v \<Rightarrow> bool) \<Rightarrow> ('v \<Rightarrow> 'v) \<Rightarrow> ('k, 'v) dict \<Rightarrow> ('k, 'v) dict \<times> nat" where
  "update_where p f d = update_loop p f d d 0"

text \<open>The loop \<^verbatim>\<open>for key in keys: del items[key]\<close>.\<close>

fun del_loop :: "'k list \<Rightarrow> ('k, 'v) dict \<Rightarrow> ('k, 'v) dict" where
  "del_loop [] d = d"
| "del_loop (k # ks) d = del_loop ks (ddel k d)"

definition delete_where :: "('k \<Rightarrow> 'v \<Rightarrow> bool) \<Rightarrow> ('k, 'v) dict \<Rightarrow> ('k, 'v) dict \<times> nat" where
  "delete_where p d =
     (let keys = map fst (filter (\<lambda>(k, r). p k r) d) in (del_loop keys d, length keys))"

lemma dset_mem_append:
  "k \<notin> fst ` set xs \<Longrightarrow> dset k v (xs @ (k, u) # ys) = xs @ (k, v) # ys"
  by (induction xs) auto

lemma update_loop_append:
  assumes "dict_ok (done @ todo)"
  shows "update_loop p f todo (done @ todo) n =
    (done @ map (\<lambda>(k, r). (k, if p r then f r else r)) todo,
     n + length (filter (\<lambda>(k, r). p r) todo))"
  using assms
proof (induction todo arbitrary: "done" n)
  case Nil
  then show ?case by simp
next
  case (Cons kr todo)
  obtain k r where kr: "kr = (k, r)" by (cases kr)
  have fresh: "k \<notin> fst ` set done" using Cons.prems kr by auto
  have ok: "dict_ok ((done @ [(k, if p r then f r else r)]) @ todo)" using Cons.prems kr by simp
  show ?case
    using kr dset_mem_append [OF fresh, of "f r" r todo] Cons.IH [OF ok]
    by (cases "p r") simp_all
qed

lemma update_where_eq:
  "dict_ok d \<Longrightarrow> update_where p f d =
     (map (\<lambda>(k, r). (k, if p r then f r else r)) d, length (filter (p \<circ> snd) d))"
  using update_loop_append [of "[]" d p f 0]
  by (simp add: update_where_def comp_def case_prod_beta')

lemma map_of_map_value: "map_of (map (\<lambda>(k, r). (k, g r)) d) k = map_option g (map_of d k)"
  by (induction d) auto

lemma map_fst_map_value: "map fst (map (\<lambda>(k, r). (k, g r)) d) = map fst d"
  by (induction d) auto

lemma dget_update_where [dict_simps]:
  "dict_ok d \<Longrightarrow>
    dget (fst (update_where p f d)) k = map_option (\<lambda>r. if p r then f r else r) (dget d k)"
  by (simp add: update_where_eq map_of_map_value [where g = "\<lambda>r. if p r then f r else r"])

lemma dict_ok_update_where [simp, intro]: "dict_ok d \<Longrightarrow> dict_ok (fst (update_where p f d))"
  by (simp add: update_where_eq map_fst_map_value [where g = "\<lambda>r. if p r then f r else r"]
      del: map_map)

lemma dget_del_loop: "dget (del_loop ks d) k = (if k \<in> set ks then None else dget d k)"
  by (induction ks arbitrary: d) auto

lemma dict_ok_del_loop: "dict_ok d \<Longrightarrow> dict_ok (del_loop ks d)"
  by (induction ks arbitrary: d) auto

lemma dict_ok_delete_where [simp, intro]: "dict_ok d \<Longrightarrow> dict_ok (fst (delete_where p d))"
  by (simp add: delete_where_def Let_def dict_ok_del_loop)

lemma dget_delete_where [dict_simps]:
  assumes "dict_ok d"
  shows "dget (fst (delete_where p d)) k =
    (case dget d k of None \<Rightarrow> None | Some r \<Rightarrow> if p k r then None else Some r)"
proof (cases "dget d k")
  case None
  then show ?thesis by (simp add: delete_where_def Let_def dget_del_loop)
next
  case (Some r)
  then have "(k, r') \<in> set d \<longleftrightarrow> r' = r" for r'
    using assms by (metis dget_Some_mem option.inject)
  then have "k \<in> set (map fst (filter (\<lambda>(k, r). p k r) d)) \<longleftrightarrow> p k r"
    by (force simp: image_iff)
  with Some show ?thesis by (simp add: delete_where_def Let_def dget_del_loop)
qed

section \<open>JSON values\<close>

text \<open>
  A decoded JSON value, for the fields the code keeps without looking inside. A number is an
  exact rational, which stands for Python's \<^verbatim>\<open>int\<close> and \<^verbatim>\<open>float\<close> together.
\<close>

datatype json =
  JNull
| JBool bool
| JNum rat
| JStr string
| JArr "json list"
| JObj "(string \<times> json) list"

type_synonym json_object = "(string \<times> json) list"

text \<open>\<^verbatim>\<open>d.get(k)\<close>, with \<^const>\<open>JNull\<close> for a missing key, and the truth of a value.\<close>

definition jget :: "json_object \<Rightarrow> string \<Rightarrow> json" where
  "jget d k = (case dget d k of Some v \<Rightarrow> v | None \<Rightarrow> JNull)"

definition truthy :: "json \<Rightarrow> bool" where
  "truthy v = (case v of JNull \<Rightarrow> False | JBool b \<Rightarrow> b | JNum n \<Rightarrow> n \<noteq> 0 | JStr s \<Rightarrow> s \<noteq> [] | JArr xs \<Rightarrow> xs \<noteq> [] | JObj o' \<Rightarrow> o' \<noteq> [])"

section \<open>Strings\<close>

text \<open>
  A Python \<^verbatim>\<open>str\<close> is a \<^typ>\<open>string\<close>, a list of characters with codes below 256, the
  Latin-1 part of Unicode. \<^verbatim>\<open>isspace\<close>, \<^verbatim>\<open>isdigit\<close> and \<^verbatim>\<open>lower\<close> are those of Python on that
  range: the digits of \<^verbatim>\<open>isdigit\<close> include the three superscripts. \<open>is_digit\<close> and \<open>is_alpha\<close>
  are the ASCII classes of the code's regular expressions, and \<open>upper\<close> folds a to z only.
\<close>

abbreviation code :: "char \<Rightarrow> nat" where
  "code c \<equiv> of_char c"

definition is_upper :: "char \<Rightarrow> bool" where
  "is_upper c = (65 \<le> code c \<and> code c \<le> 90)"

definition is_lower :: "char \<Rightarrow> bool" where
  "is_lower c = (97 \<le> code c \<and> code c \<le> 122)"

definition is_alpha :: "char \<Rightarrow> bool" where
  "is_alpha c = (is_upper c \<or> is_lower c)"

definition is_digit :: "char \<Rightarrow> bool" where
  "is_digit c = (48 \<le> code c \<and> code c \<le> 57)"

definition is_alnum :: "char \<Rightarrow> bool" where
  "is_alnum c = (is_alpha c \<or> is_digit c)"

definition is_space :: "char \<Rightarrow> bool" where
  "is_space c = (code c = 32 \<or> (9 \<le> code c \<and> code c \<le> 13) \<or> (28 \<le> code c \<and> code c \<le> 31) \<or>
     code c = 133 \<or> code c = 160)"

definition py_isdigit :: "char \<Rightarrow> bool" where
  "py_isdigit c = (is_digit c \<or> code c = 178 \<or> code c = 179 \<or> code c = 185)"

definition is_ascii :: "char \<Rightarrow> bool" where
  "is_ascii c = (code c < 128)"

definition lower_char :: "char \<Rightarrow> char" where
  "lower_char c =
     (if is_upper c \<or> (192 \<le> code c \<and> code c \<le> 222 \<and> code c \<noteq> 215)
      then char_of (code c + 32) else c)"

definition upper_char :: "char \<Rightarrow> char" where
  "upper_char c = (if is_lower c then char_of (code c - 32) else c)"

abbreviation lower :: "string \<Rightarrow> string" where
  "lower s \<equiv> map lower_char s"

abbreviation upper :: "string \<Rightarrow> string" where
  "upper s \<equiv> map upper_char s"

text \<open>\<^verbatim>\<open>s.strip()\<close>, \<^verbatim>\<open>s.startswith(p)\<close> and \<^verbatim>\<open>p in s\<close>.\<close>

definition strip :: "string \<Rightarrow> string" where
  "strip s = rev (dropWhile is_space (rev (dropWhile is_space s)))"

fun startswith :: "string \<Rightarrow> string \<Rightarrow> bool" where
  "startswith s [] = True"
| "startswith [] (p # ps) = False"
| "startswith (c # cs) (p # ps) = (c = p \<and> startswith cs ps)"

fun contains :: "string \<Rightarrow> string \<Rightarrow> bool" where
  "contains p [] = (p = [])"
| "contains p (c # cs) = (startswith (c # cs) p \<or> contains p cs)"

text \<open>\<^verbatim>\<open>s.rstrip(c)\<close> and \<^verbatim>\<open>s.removesuffix(p)\<close>.\<close>

definition rstrip_char :: "char \<Rightarrow> string \<Rightarrow> string" where
  "rstrip_char c s = rev (dropWhile (\<lambda>x. x = c) (rev s))"

definition removesuffix :: "string \<Rightarrow> string \<Rightarrow> string" where
  "removesuffix p s = (if startswith (rev s) (rev p) then take (length s - length p) s else s)"

text \<open>The decimal form of a number, \<^verbatim>\<open>str(n)\<close>.\<close>

fun nat_str :: "nat \<Rightarrow> string" where
  "nat_str n = (if n < 10 then [char_of (48 + n)] else nat_str (n div 10) @ [char_of (48 + n mod 10)])"

declare nat_str.simps [simp del]

definition int_str :: "int \<Rightarrow> string" where
  "int_str n = (if n < 0 then CHR ''-'' # nat_str (nat (- n)) else nat_str (nat n))"

text \<open>\<^verbatim>\<open>hmac.compare_digest\<close> on strings raises \<^verbatim>\<open>TypeError\<close>, here \<^const>\<open>None\<close>, off ASCII.\<close>

definition compare_digest :: "string \<Rightarrow> string \<Rightarrow> bool option" where
  "compare_digest a b = (if list_all is_ascii a \<and> list_all is_ascii b then Some (a = b) else None)"

text \<open>\<^verbatim>\<open>a or b\<close> on strings: the first one that is not empty.\<close>

definition str_or :: "string \<Rightarrow> string \<Rightarrow> string" where
  "str_or a b = (if a = [] then b else a)"

text \<open>\<^verbatim>\<open>tuple(dict.fromkeys(xs))\<close>: the first occurrence of each element, in order.\<close>

fun fromkeys_from :: "'a list \<Rightarrow> 'a list \<Rightarrow> 'a list" where
  "fromkeys_from seen [] = []"
| "fromkeys_from seen (x # xs) =
     (if x \<in> set seen then fromkeys_from seen xs else x # fromkeys_from (x # seen) xs)"

definition fromkeys :: "'a list \<Rightarrow> 'a list" where
  "fromkeys xs = fromkeys_from [] xs"

text \<open>\<^verbatim>\<open>s.split(sep)\<close> at one character.\<close>

fun split_char :: "char \<Rightarrow> string \<Rightarrow> string list" where
  "split_char sep [] = [[]]"
| "split_char sep (c # cs) =
     (if c = sep then [] # split_char sep cs
      else (case split_char sep cs of part # parts \<Rightarrow> (c # part) # parts | [] \<Rightarrow> [[c]]))"

definition digits_value :: "string \<Rightarrow> nat" where
  "digits_value ds = foldl (\<lambda>n d. n * 10 + (code d - 48)) 0 ds"

text \<open>
  \<^verbatim>\<open>int\<close> of a string: at most 4300 digits with single underscores between them, a sign and
  blanks around.
\<close>

definition max_int_digits :: nat where "max_int_digits = 4300"

fun int_digits :: "string \<Rightarrow> string option" where
  "int_digits [] = None"
| "int_digits [c] = (if is_digit c then Some [c] else None)"
| "int_digits (c # d # rest) =
     (if \<not> is_digit c then None
      else if d = CHR ''_'' then map_option ((#) c) (int_digits rest)
      else map_option ((#) c) (int_digits (d # rest)))"

definition int_of_string :: "string \<Rightarrow> int option" where
  "int_of_string s =
     (case strip s of
        [] \<Rightarrow> None
      | c # cs \<Rightarrow>
          (case int_digits (if c = CHR ''-'' \<or> c = CHR ''+'' then cs else c # cs) of
             None \<Rightarrow> None
           | Some ds \<Rightarrow>
               if length ds > max_int_digits then None
               else Some (if c = CHR ''-'' then - int (digits_value ds) else int (digits_value ds))))"

lemma str_or_simps [simp]: "str_or [] b = b" "a \<noteq> [] \<Longrightarrow> str_or a b = a"
  by (simp_all add: str_or_def)

lemma str_or_nonempty: "b \<noteq> [] \<Longrightarrow> str_or a b \<noteq> []"
  by (simp add: str_or_def)

lemma startswith_append [simp]: "startswith (p @ s) p"
  by (induction p) simp_all

lemma startswith_iff: "startswith s p \<longleftrightarrow> (\<exists>t. s = p @ t)"
  by (induction s p rule: startswith.induct) auto

lemma set_fromkeys_from: "set (fromkeys_from seen xs) = set xs - set seen"
  by (induction seen xs rule: fromkeys_from.induct) auto

lemma distinct_fromkeys_from: "distinct (fromkeys_from seen xs)"
  by (induction seen xs rule: fromkeys_from.induct) (auto simp: set_fromkeys_from)

lemma set_fromkeys [simp]: "set (fromkeys xs) = set xs"
  by (simp add: fromkeys_def set_fromkeys_from)

lemma fromkeys_from_distinct: "distinct xs \<Longrightarrow> set xs \<inter> set seen = {} \<Longrightarrow> fromkeys_from seen xs = xs"
  by (induction xs arbitrary: seen) auto

lemma fromkeys_id [simp]: "distinct xs \<Longrightarrow> fromkeys xs = xs"
  by (simp add: fromkeys_def fromkeys_from_distinct)

lemma dset_new: "k \<notin> fst ` set d \<Longrightarrow> dset k v d = d @ [(k, v)]"
  by (induction d) auto

lemma distinct_fromkeys [simp]: "distinct (fromkeys xs)"
  by (simp add: fromkeys_def distinct_fromkeys_from)

text \<open>The digest the concrete instances of the properties use, injective and readable.\<close>

definition demo_hash :: "string \<Rightarrow> string" where
  "demo_hash t = ''h'' @ t"

end
