(* ===== verification/Clock.thy ===== *)
theory Clock
  imports Prelude
begin

text \<open>
  Time as the identity code handles it: an aware UTC \<^verbatim>\<open>datetime\<close> is a count of
  microseconds since 1970, a \<^verbatim>\<open>timedelta\<close> a count of microseconds, and the stored
  timestamps are the ISO 8601 strings written by \<^verbatim>\<open>now_iso\<close> and \<^verbatim>\<open>_iso\<close> and read back by
  \<^verbatim>\<open>_parse\<close> (dynamodb.py, identity/sessions.py, identity/lockout.py, identity/storage.py).
  The main facts are the round trip of the stored form and its length.
\<close>

type_synonym datetime = int
type_synonym timedelta = int

definition second :: timedelta where
  "second = 1000000"

text \<open>\<^verbatim>\<open>int(moment.timestamp())\<close>: whole epoch seconds, truncated towards zero.\<close>

definition int_timestamp :: "datetime \<Rightarrow> int" where
  "int_timestamp t = (if 0 \<le> t then t div second else - ((- t) div second))"

definition ttl_at :: "datetime \<Rightarrow> int" where
  "ttl_at moment = int_timestamp moment"

definition ttl_in :: "datetime \<Rightarrow> timedelta \<Rightarrow> int" where
  "ttl_in wall seconds = ttl_at (wall + seconds)"

definition is_expired :: "datetime \<Rightarrow> int \<Rightarrow> bool" where
  "is_expired now expires_at = (expires_at \<le> int_timestamp now)"

section \<open>The proleptic Gregorian calendar\<close>

text \<open>
  Days are counted from 1970. The year is found inside its 400 year era, with years that
  start on 1 March so that the leap day is the last day of its year.
\<close>

definition year_start :: "int \<Rightarrow> int" where
  "year_start y = 365 * y + y div 4 - y div 100 + y div 400"

definition year_of_era :: "int \<Rightarrow> int" where
  "year_of_era doe = (let y = doe div 365 in if year_start y \<le> doe then y else y - 1)"

definition month_start :: "int \<Rightarrow> int" where
  "month_start mp = (153 * mp + 2) div 5"

definition civil_of_days :: "int \<Rightarrow> int \<times> int \<times> int" where
  "civil_of_days n =
     (let z = n + 719468; era = z div 146097; doe = z mod 146097; yoe = year_of_era doe;
          doy = doe - year_start yoe; mp = (5 * doy + 2) div 153;
          m = (if mp < 10 then mp + 3 else mp - 9)
      in (yoe + 400 * era + (if m \<le> 2 then 1 else 0), m, doy - month_start mp + 1))"

definition days_of_civil :: "int \<Rightarrow> int \<Rightarrow> int \<Rightarrow> int" where
  "days_of_civil y m d =
     (let y' = (if m \<le> 2 then y - 1 else y); mp = (if m \<le> 2 then m + 9 else m - 3)
      in y' div 400 * 146097 + year_start (y' mod 400) + month_start mp + d - 1 - 719468)"

definition leap_year :: "int \<Rightarrow> bool" where
  "leap_year y = (y mod 4 = 0 \<and> (y mod 100 \<noteq> 0 \<or> y mod 400 = 0))"

definition days_in_month :: "int \<Rightarrow> int \<Rightarrow> int" where
  "days_in_month y m =
     (if m = 2 then (if leap_year y then 29 else 28)
      else if m \<in> {4, 6, 9, 11} then 30 else 31)"

definition valid_date :: "int \<Rightarrow> int \<Rightarrow> int \<Rightarrow> bool" where
  "valid_date y m d =
     (1 \<le> y \<and> y \<le> 9999 \<and> 1 \<le> m \<and> m \<le> 12 \<and> 1 \<le> d \<and> d \<le> days_in_month y m)"

lemma year_start_era: "year_start 400 = 146097"
  by (simp add: year_start_def)

lemma year_start_lower: "0 \<le> y \<Longrightarrow> 365 * y \<le> year_start y"
  using zdiv_mono2 [of y 4 100] by (simp add: year_start_def pos_imp_zdiv_nonneg_iff)

lemma year_start_upper:
  assumes "0 \<le> y" and "y \<le> 400"
  shows "year_start y \<le> 365 * y + 100"
proof -
  have "y div 4 \<le> 100" and "y div 400 \<le> 1" using assms by auto
  moreover have "y div 400 \<le> y div 100" using assms by (intro zdiv_mono2) auto
  ultimately show ?thesis by (simp add: year_start_def)
qed

lemma year_of_era_bounds:
  assumes "0 \<le> doe" and "doe < 146097"
  defines "y \<equiv> year_of_era doe"
  shows "0 \<le> y" and "y < 400" and "year_start y \<le> doe" and "doe < year_start (y + 1)"
proof -
  let ?q = "doe div 365"
  have q: "0 \<le> ?q" "?q \<le> 400" "365 * ?q \<le> doe" "doe < 365 * ?q + 365" using assms(1,2) by auto
  consider (at) "year_start ?q \<le> doe" "y = ?q" | (before) "\<not> year_start ?q \<le> doe" "y = ?q - 1"
    unfolding y_def year_of_era_def Let_def by meson
  then have "0 \<le> y \<and> y < 400 \<and> year_start y \<le> doe \<and> doe < year_start (y + 1)"
  proof cases
    case at
    have "?q \<noteq> 400"
    proof
      assume "?q = 400"
      with at(1) have "year_start 400 \<le> doe" by simp
      then show False using assms(2) by (simp add: year_start_era)
    qed
    moreover have "365 * (?q + 1) \<le> year_start (?q + 1)"
      using q(1) by (intro year_start_lower) simp
    ultimately show ?thesis using at q by simp
  next
    case before
    have "?q \<noteq> 0"
    proof
      assume "?q = 0"
      with before(1) show False using assms(1) by (simp add: year_start_def)
    qed
    moreover have "year_start (?q - 1) \<le> 365 * (?q - 1) + 100"
      using q(1,2) \<open>?q \<noteq> 0\<close> by (intro year_start_upper) auto
    ultimately show ?thesis using before q by simp
  qed
  then show "0 \<le> y" and "y < 400" and "year_start y \<le> doe" and "doe < year_start (y + 1)"
    by simp_all
qed

lemma div_succ:
  assumes "1 < (k :: int)"
  shows "(y + 1) div k = y div k + (if (y + 1) mod k = 0 then 1 else 0)"
proof -
  have r: "0 \<le> y mod k" "y mod k < k" using assms by auto
  have step: "(y + 1) div k = y div k + (y mod k + 1) div k"
    using assms div_add1_eq [of y 1 k] by simp
  have m: "(y + 1) mod k = (y mod k + 1) mod k" by (simp add: mod_add_left_eq)
  show ?thesis
  proof (cases "y mod k + 1 = k")
    case True
    then show ?thesis using step m assms by simp
  next
    case False
    then have "(y mod k + 1) div k = 0" "(y mod k + 1) mod k = y mod k + 1" using r by simp_all
    then show ?thesis using step m r by simp
  qed
qed

lemma year_length:
  "year_start (y + 1) = year_start y + (if leap_year (y + 1) then 366 else 365)"
proof -
  have "(y + 1) mod 400 = 0 \<longrightarrow> (y + 1) mod 100 = 0" "(y + 1) mod 100 = 0 \<longrightarrow> (y + 1) mod 4 = 0"
    unfolding mod_eq_0_iff_dvd
    using dvd_trans [of 100 400 "y + 1"] dvd_trans [of 4 100 "y + 1"] by simp_all
  moreover define p q r where "p = ((y + 1) mod 4 = 0)" and "q = ((y + 1) mod 100 = 0)"
    and "r = ((y + 1) mod 400 = 0)"
  ultimately have imp: "r \<longrightarrow> q" "q \<longrightarrow> p" by (simp_all only: p_def q_def r_def)
  have leap: "leap_year (y + 1) = (p \<and> (\<not> q \<or> r))"
    by (simp only: leap_year_def p_def q_def r_def)
  define a b c where "a = y div 4" and "b = y div 100" and "c = y div 400"
  have "year_start (y + 1) = 365 * (y + 1) + (a + (if p then 1 else 0)) - (b + (if q then 1 else 0))
      + (c + (if r then 1 else 0))"
    unfolding year_start_def a_def b_def c_def p_def q_def r_def
    by (subst (1 2 3) div_succ, simp, simp, simp, rule refl)
  moreover have "year_start y = 365 * y + a - b + c"
    by (simp only: year_start_def a_def b_def c_def)
  ultimately show ?thesis unfolding leap using imp by (cases p; cases q; cases r) simp_all
qed

lemma leap_year_era: "leap_year (y + 400 * era) = leap_year y"
proof -
  have "(y + 400 * era) mod 4 = y mod 4" "(y + 400 * era) mod 100 = y mod 100"
    "(y + 400 * era) mod 400 = y mod 400"
    using mod_mult_self2 [of y 4 "100 * era"] mod_mult_self2 [of y 100 "4 * era"]
      mod_mult_self2 [of y 400 era] by simp_all
  then show ?thesis by (simp add: leap_year_def)
qed

lemma month_day_bounds:
  assumes "0 \<le> doy" and "doy \<le> 365" and "doy = 365 \<longrightarrow> leap"
  defines "mp \<equiv> (5 * doy + 2) div 153"
  shows "0 \<le> mp" and "mp \<le> 11" and "1 \<le> doy - month_start mp + 1"
    and "doy - month_start mp + 1 \<le>
      (if mp = 11 then if leap then 29 else 28 else if mp \<in> {1, 3, 6, 8} then 30 else 31)"
proof -
  have "153 * mp \<le> 5 * doy + 2" "5 * doy + 2 < 153 * mp + 153" unfolding mp_def by auto
  moreover from this show "0 \<le> mp" "mp \<le> 11" using assms(1,2) by auto
  moreover from \<open>0 \<le> mp\<close> \<open>mp \<le> 11\<close> have "mp \<in> {0, 1, 2, 3, 4, 5, 6, 7, 8, 9, 10, 11}"
    unfolding insert_iff empty_iff by presburger
  ultimately have "1 \<le> doy - month_start mp + 1 \<and> doy - month_start mp + 1 \<le>
      (if mp = 11 then if leap then 29 else 28 else if mp \<in> {1, 3, 6, 8} then 30 else 31)"
    using assms(2,3) by (auto simp: month_start_def)
  then show "1 \<le> doy - month_start mp + 1" and "doy - month_start mp + 1 \<le>
      (if mp = 11 then if leap then 29 else 28 else if mp \<in> {1, 3, 6, 8} then 30 else 31)"
    by simp_all
qed

lemma civil_of_days_cases:
  obtains era yoe doy mp where
    "n + 719468 = era * 146097 + year_start yoe + doy"
    "0 \<le> yoe" "yoe < 400" "0 \<le> doy" "doy \<le> 365" "doy = 365 \<longrightarrow> leap_year (yoe + 1)"
    "mp = (5 * doy + 2) div 153"
    "civil_of_days n = (yoe + 400 * era + (if mp < 10 then 0 else 1),
       (if mp < 10 then mp + 3 else mp - 9), doy - month_start mp + 1)"
proof -
  define era doe where "era = (n + 719468) div 146097" and "doe = (n + 719468) mod 146097"
  define yoe where "yoe = year_of_era doe"
  define doy where "doy = doe - year_start yoe"
  define mp where "mp = (5 * doy + 2) div 153"
  have doe: "0 \<le> doe" "doe < 146097" by (simp_all add: doe_def)
  have yoe: "0 \<le> yoe" "yoe < 400" "year_start yoe \<le> doe" "doe < year_start (yoe + 1)"
    using year_of_era_bounds [OF doe] by (simp_all add: yoe_def)
  then have doy: "0 \<le> doy" "doy \<le> 365" "doy = 365 \<longrightarrow> leap_year (yoe + 1)"
    using year_length [of yoe] by (auto simp: doy_def split: if_splits)
  have "0 \<le> mp" using doy(1) by (simp add: mp_def)
  then have "civil_of_days n = (yoe + 400 * era + (if mp < 10 then 0 else 1),
       (if mp < 10 then mp + 3 else mp - 9), doy - month_start mp + 1)"
    using month_day_bounds(2) [OF doy(1,2), of True]
    by (simp add: civil_of_days_def Let_def era_def doe_def yoe_def doy_def mp_def)
  moreover have "n + 719468 = era * 146097 + year_start yoe + doy"
    by (simp add: era_def doe_def doy_def)
  ultimately show ?thesis using that yoe(1,2) doy mp_def by blast
qed

lemma days_of_civil_of_days:
  assumes "civil_of_days n = (y, m, d)"
  shows "days_of_civil y m d = n"
proof -
  obtain era yoe doy mp where
    n: "n + 719468 = era * 146097 + year_start yoe + doy"
    and b: "0 \<le> yoe" "yoe < 400" "0 \<le> doy" "doy \<le> 365"
    and mp: "mp = (5 * doy + 2) div 153"
    and c: "civil_of_days n = (yoe + 400 * era + (if mp < 10 then 0 else 1),
       (if mp < 10 then mp + 3 else mp - 9), doy - month_start mp + 1)"
    by (rule civil_of_days_cases)
  have mp': "0 \<le> mp" "mp \<le> 11" using month_day_bounds(1,2) [OF b(3,4), of True] mp by simp_all
  have "(yoe + 400 * era) div 400 = era" "(yoe + 400 * era) mod 400 = yoe" using b by simp_all
  with assms c n mp' show ?thesis by (auto simp: days_of_civil_def Let_def split: if_splits)
qed

lemma civil_of_days_valid:
  assumes "civil_of_days n = (y, m, d)" and "1 \<le> y" and "y \<le> 9999"
  shows "valid_date y m d"
proof -
  obtain era yoe doy mp where
    b: "0 \<le> doy" "doy \<le> 365" "doy = 365 \<longrightarrow> leap_year (yoe + 1)"
    and mp: "mp = (5 * doy + 2) div 153"
    and c: "civil_of_days n = (yoe + 400 * era + (if mp < 10 then 0 else 1),
       (if mp < 10 then mp + 3 else mp - 9), doy - month_start mp + 1)"
    by (rule civil_of_days_cases)
  note day = month_day_bounds [OF b, folded mp]
  have leap: "leap_year (yoe + 400 * era + 1) = leap_year (yoe + 1)"
    using leap_year_era [of "yoe + 1" era] by (simp add: algebra_simps)
  from assms c day show ?thesis
    by (auto simp: valid_date_def days_in_month_def leap split: if_splits)
qed

section \<open>Stored timestamps\<close>

text \<open>
  \<^verbatim>\<open>now_iso\<close> and \<^verbatim>\<open>_iso\<close> write \<^verbatim>\<open>YYYY-MM-DDTHH:MM:SSZ\<close>, dropping the microseconds;
  \<^verbatim>\<open>_stamp\<close> (identity/lockout.py) keeps three digits of them. The functions are defined for
  every integer, and describe Python where the year is between 1 and 9999, which is the
  range of \<^verbatim>\<open>datetime\<close>.
\<close>

definition digit_char :: "int \<Rightarrow> char" where
  "digit_char k = char_of (nat (48 + k))"

definition pad2 :: "int \<Rightarrow> string" where
  "pad2 n = [digit_char (n div 10), digit_char (n mod 10)]"

definition pad3 :: "int \<Rightarrow> string" where
  "pad3 n = digit_char (n div 100) # pad2 (n mod 100)"

definition pad4 :: "int \<Rightarrow> string" where
  "pad4 n = pad2 (n div 100) @ pad2 (n mod 100)"

definition iso_date :: "int \<Rightarrow> string" where
  "iso_date days =
     (case civil_of_days days of (y, m, d) \<Rightarrow> pad4 y @ ''-'' @ pad2 m @ ''-'' @ pad2 d)"

definition iso_time :: "int \<Rightarrow> string" where
  "iso_time sod = pad2 (sod div 3600) @ '':'' @ pad2 (sod mod 3600 div 60) @ '':'' @ pad2 (sod mod 60)"

definition iso_naive :: "datetime \<Rightarrow> string" where
  "iso_naive t =
     iso_date (t div second div 86400) @ ''T'' @ iso_time (t div second mod 86400)"

definition iso_seconds :: "datetime \<Rightarrow> string" where
  "iso_seconds t = iso_naive t @ ''Z''"

definition iso_millis :: "datetime \<Rightarrow> string" where
  "iso_millis t = iso_naive t @ ''.'' @ pad3 (t mod second div 1000) @ ''Z''"

text \<open>
  \<^verbatim>\<open>datetime.fromisoformat\<close>, for the extended forms: a date, then optionally any separator
  character and a time \<^verbatim>\<open>HH:MM[:SS[.fraction]]\<close>, then optionally an offset
  \<^verbatim>\<open>+HH:MM[:SS]\<close> or \<^verbatim>\<open>-HH:MM[:SS]\<close>. Every other input is a \<^verbatim>\<open>ValueError\<close>, the value
  \<^const>\<open>None\<close>. The basic forms without separators and the week dates, which Python also
  reads and nothing in the package writes, are outside this reader.
\<close>

definition undigit :: "char \<Rightarrow> int option" where
  "undigit c = (if is_digit c then Some (int (code c) - 48) else None)"

fun read_digits :: "nat \<Rightarrow> string \<Rightarrow> (int \<times> string) option" where
  "read_digits 0 s = Some (0, s)"
| "read_digits (Suc n) [] = None"
| "read_digits (Suc n) (c # cs) =
     (case undigit c of None \<Rightarrow> None
      | Some k \<Rightarrow> (case read_digits n cs of None \<Rightarrow> None
                   | Some (v, rest) \<Rightarrow> Some (k * 10 ^ n + v, rest)))"

fun read_char :: "char \<Rightarrow> string \<Rightarrow> string option" where
  "read_char p [] = None"
| "read_char p (c # cs) = (if c = p then Some cs else None)"

definition read_date :: "string \<Rightarrow> (int \<times> string) option" where
  "read_date s = Option.bind (read_digits 4 s) (\<lambda>(y, s).
     Option.bind (read_char CHR ''-'' s) (\<lambda>s. Option.bind (read_digits 2 s) (\<lambda>(m, s).
     Option.bind (read_char CHR ''-'' s) (\<lambda>s. Option.bind (read_digits 2 s) (\<lambda>(d, s).
     if valid_date y m d then Some (days_of_civil y m d, s) else None)))))"

fun read_fraction :: "nat \<Rightarrow> string \<Rightarrow> int \<times> string" where
  "read_fraction n [] = (0, [])"
| "read_fraction n (c # cs) =
     (case undigit c of None \<Rightarrow> (0, c # cs)
      | Some k \<Rightarrow> (case read_fraction (n - 1) cs of (v, rest) \<Rightarrow>
          ((if n = 0 then 0 else k * 10 ^ (n - 1)) + v, rest)))"

definition read_seconds :: "string \<Rightarrow> (timedelta \<times> string) option" where
  "read_seconds s =
     (case read_char CHR '':'' s of None \<Rightarrow> Some (0, s)
      | Some s \<Rightarrow> Option.bind (read_digits 2 s) (\<lambda>(sec, s).
          if sec \<ge> 60 then None
          else case s of
            (p # c # cs) \<Rightarrow>
              if (p = CHR ''.'' \<or> p = CHR '','') \<and> is_digit c
              then (case read_fraction 6 (c # cs) of (us, s) \<Rightarrow> Some (sec * second + us, s))
              else Some (sec * second, s)
          | _ \<Rightarrow> Some (sec * second, s)))"

definition read_time :: "string \<Rightarrow> (timedelta \<times> string) option" where
  "read_time s = Option.bind (read_digits 2 s) (\<lambda>(h, s).
     Option.bind (read_char CHR '':'' s) (\<lambda>s. Option.bind (read_digits 2 s) (\<lambda>(mi, s).
     Option.bind (read_seconds s) (\<lambda>(us, s).
     if h < 24 \<and> mi < 60 then Some ((h * 3600 + mi * 60) * second + us, s) else None))))"

definition read_offset :: "string \<Rightarrow> timedelta option option" where
  "read_offset s =
     (case s of [] \<Rightarrow> Some None
      | c # cs \<Rightarrow>
          if c = CHR ''+'' \<or> c = CHR ''-''
          then (case read_time cs of
                  Some (us, []) \<Rightarrow> Some (Some (if c = CHR ''-'' then - us else us))
                | _ \<Rightarrow> None)
          else None)"

definition fromisoformat :: "string \<Rightarrow> (datetime \<times> timedelta option) option" where
  "fromisoformat s = Option.bind (read_date s) (\<lambda>(days, s).
     case s of [] \<Rightarrow> Some (days * 86400 * second, None)
     | sep # s \<Rightarrow> Option.bind (read_time s) (\<lambda>(us, s).
         map_option (\<lambda>off. (days * 86400 * second + us, off)) (read_offset s)))"

definition replace_Z :: "string \<Rightarrow> string" where
  "replace_Z s = concat (map (\<lambda>c. if c = CHR ''Z'' then ''+00:00'' else [c]) s)"

text \<open>\<^verbatim>\<open>_parse\<close>: a stored timestamp, or \<^const>\<open>None\<close> for anything unreadable. A naive value
  is taken as UTC.\<close>

definition parse_stamp :: "string \<Rightarrow> datetime option" where
  "parse_stamp value =
     (if value = [] then None
      else map_option (\<lambda>(t, off). case off of None \<Rightarrow> t | Some o' \<Rightarrow> t - o')
             (fromisoformat (replace_Z value)))"

section \<open>The round trip\<close>

lemma code_digit_char: "0 \<le> k \<Longrightarrow> k \<le> 9 \<Longrightarrow> int (code (digit_char k)) = 48 + k"
  by (simp add: digit_char_def of_char_of)

lemma undigit_digit_char [simp]: "0 \<le> k \<Longrightarrow> k \<le> 9 \<Longrightarrow> undigit (digit_char k) = Some k"
  using code_digit_char [of k] by (simp add: undigit_def is_digit_def)

lemma is_digit_digit_char [simp]: "0 \<le> k \<Longrightarrow> k \<le> 9 \<Longrightarrow> is_digit (digit_char k)"
  using code_digit_char [of k] by (simp add: is_digit_def)

lemma is_digit_not_Z: "is_digit c \<Longrightarrow> c \<noteq> CHR ''Z''"
  by (auto simp: is_digit_def)

lemma read_pad2 [simp]:
  "0 \<le> n \<Longrightarrow> n < 100 \<Longrightarrow> read_digits 2 (pad2 n @ r) = Some (n, r)"
  by (simp add: pad2_def numeral_2_eq_2)

lemma read_pad4 [simp]:
  assumes "0 \<le> n" and "n < 10000"
  shows "read_digits 4 (pad4 n @ r) = Some (n, r)"
proof -
  have b: "n div 100 mod 10 \<le> 9" "n div 100 div 10 \<le> 9" "n mod 100 div 10 \<le> 9" "n mod 100 mod 10 \<le> 9"
    using assms by auto
  have four: "(4 :: nat) = Suc (Suc (Suc (Suc 0)))" by simp
  have "n div 100 div 10 * 10 + n div 100 mod 10 = n div 100"
    "n mod 100 div 10 * 10 + n mod 100 mod 10 = n mod 100" "n div 100 * 100 + n mod 100 = n"
    by simp_all
  then have sum: "n div 100 div 10 * 1000 + (n div 100 mod 10 * 100
      + (n mod 100 div 10 * 10 + n mod 100 mod 10)) = n"
    by linarith
  have "0 \<le> n div 100 div 10" "0 \<le> n div 100 mod 10" "0 \<le> n mod 100 div 10" "0 \<le> n mod 100 mod 10"
    using assms by (simp_all add: pos_imp_zdiv_nonneg_iff)
  note digits = undigit_digit_char [OF this(1) b(2)] undigit_digit_char [OF this(2) b(1)]
    undigit_digit_char [OF this(3) b(3)] undigit_digit_char [OF this(4) b(4)]
  show ?thesis
    using sum unfolding pad4_def pad2_def four append_Cons append_Nil read_digits.simps digits
    by simp
qed

lemma replace_Z_simps [simp]:
  "replace_Z [] = []"
  "replace_Z (c # cs) = (if c = CHR ''Z'' then ''+00:00'' else [c]) @ replace_Z cs"
  by (simp_all add: replace_Z_def)

lemma replace_Z_append [simp]: "replace_Z (xs @ ys) = replace_Z xs @ replace_Z ys"
  by (simp add: replace_Z_def)

lemma replace_Z_pad2 [simp]: "0 \<le> n \<Longrightarrow> n < 100 \<Longrightarrow> replace_Z (pad2 n) = pad2 n"
  using is_digit_not_Z [OF is_digit_digit_char, of "n div 10"]
    is_digit_not_Z [OF is_digit_digit_char, of "n mod 10"]
  by (simp add: pad2_def)

lemma replace_Z_pad3 [simp]: "0 \<le> n \<Longrightarrow> n < 1000 \<Longrightarrow> replace_Z (pad3 n) = pad3 n"
  using is_digit_not_Z [OF is_digit_digit_char, of "n div 100"] replace_Z_pad2 [of "n mod 100"]
  by (simp add: pad3_def)

lemma replace_Z_pad4 [simp]: "0 \<le> n \<Longrightarrow> n < 10000 \<Longrightarrow> replace_Z (pad4 n) = pad4 n"
  by (simp add: pad4_def)

definition in_datetime_range :: "datetime \<Rightarrow> bool" where
  "in_datetime_range t =
     (case civil_of_days (t div second div 86400) of (y, m, d) \<Rightarrow> 1 \<le> y \<and> y \<le> 9999)"

lemma civil_bounds:
  assumes "civil_of_days n = (y, m, d)" and "1 \<le> y" and "y \<le> 9999"
  shows "0 \<le> y" "y < 10000" "0 \<le> m" "m < 100" "0 \<le> d" "d < 100"
proof -
  have "valid_date y m d" using assms by (rule civil_of_days_valid)
  then show "0 \<le> y" "y < 10000" "0 \<le> m" "m < 100" "0 \<le> d" "d < 100"
    by (auto simp: valid_date_def days_in_month_def split: if_splits)
qed

lemma read_iso_date:
  assumes "civil_of_days n = (y, m, d)" and "1 \<le> y" and "y \<le> 9999"
  shows "read_date (replace_Z (iso_date n) @ r) = Some (n, r)"
  using civil_bounds [OF assms] civil_of_days_valid [OF assms] days_of_civil_of_days [OF assms(1)]
  by (simp add: iso_date_def assms(1) read_date_def)

lemma sod_parts:
  assumes "0 \<le> (sod :: int)" and "sod < 86400"
  shows "0 \<le> sod div 3600" "sod div 3600 < 24" "0 \<le> sod mod 3600 div 60" "sod mod 3600 div 60 < 60"
    "0 \<le> sod mod 60" "sod mod 60 < 60" "sod div 3600 * 3600 + sod mod 3600 div 60 * 60 + sod mod 60 = sod"
proof -
  show "0 \<le> sod div 3600" "sod div 3600 < 24" "0 \<le> sod mod 60" "sod mod 60 < 60"
    "0 \<le> sod mod 3600 div 60" using assms by (auto simp: pos_imp_zdiv_nonneg_iff)
  have r: "sod mod 3600 < 3600" by simp
  then show "sod mod 3600 div 60 < 60" by linarith
  have "sod mod 3600 mod 60 = sod mod 60" by (rule mod_mod_cancel) simp
  moreover have "sod div 3600 * 3600 + sod mod 3600 = sod"
    "sod mod 3600 div 60 * 60 + sod mod 3600 mod 60 = sod mod 3600" by simp_all
  ultimately show "sod div 3600 * 3600 + sod mod 3600 div 60 * 60 + sod mod 60 = sod" by linarith
qed

lemma replace_Z_iso_time:
  assumes "0 \<le> sod" and "sod < 86400"
  shows "replace_Z (iso_time sod) = iso_time sod"
proof -
  have "0 \<le> sod mod 60" "sod mod 60 < 100" using sod_parts(5,6) [OF assms] by linarith+
  then have "replace_Z (pad2 (sod mod 60)) = pad2 (sod mod 60)" by (rule replace_Z_pad2)
  with sod_parts [OF assms] show ?thesis by (simp add: iso_time_def)
qed

lemma read_utc_offset: "read_offset ''+00:00'' = Some (Some 0)"
  by code_simp

lemma read_iso_time:
  assumes "0 \<le> sod" and "sod < 86400"
    and "read_seconds ('':'' @ pad2 (sod mod 60) @ r) = Some ((sod mod 60) * second + us, r')"
  shows "read_time (iso_time sod @ r) = Some (sod * second + us, r')"
proof -
  note b = sod_parts [OF assms(1,2)]
  have "(sod div 3600 * 3600 + sod mod 3600 div 60 * 60) * second + sod mod 60 * second = sod * second"
    using b(7) by (metis distrib_right)
  with assms(3) b show ?thesis by (simp add: read_time_def iso_time_def)
qed

lemma read_seconds_plain:
  "0 \<le> n \<Longrightarrow> n < 60 \<Longrightarrow> read_seconds ('':'' @ pad2 n @ ''+00:00'') = Some (n * second + 0, ''+00:00'')"
  by (simp add: read_seconds_def)

lemma read_fraction_pad3:
  assumes "0 \<le> n" and "n < 1000"
  shows "read_fraction 6 (pad3 n @ ''+00:00'') = (n * 1000, ''+00:00'')"
proof -
  have "0 \<le> n div 100" "n div 100 \<le> 9" "0 \<le> n mod 100 div 10" "n mod 100 div 10 \<le> 9"
    "0 \<le> n mod 100 mod 10" "n mod 100 mod 10 \<le> 9"
    using assms by (auto simp: pos_imp_zdiv_nonneg_iff)
  note digits = undigit_digit_char [OF this(1,2)] undigit_digit_char [OF this(3,4)]
    undigit_digit_char [OF this(5,6)]
  have plus: "undigit CHR ''+'' = None" by code_simp
  have "n div 100 * 100 + n mod 100 = n" "n mod 100 div 10 * 10 + n mod 100 mod 10 = n mod 100"
    by simp_all
  then have "n div 100 * 100000 + (n mod 100 div 10 * 10000 + n mod 100 mod 10 * 1000) = n * 1000"
    by linarith
  then show ?thesis
    by (simp add: pad3_def pad2_def digits plus)
qed

lemma read_seconds_millis:
  assumes "0 \<le> n" "n < 60" "0 \<le> ms" "ms < 1000"
  shows "read_seconds ('':'' @ pad2 n @ ''.'' @ pad3 ms @ ''+00:00'')
    = Some (n * second + ms * 1000, ''+00:00'')"
proof -
  obtain c cs where c: "pad3 ms = c # cs" "is_digit c"
    using assms(3,4) by (simp add: pad3_def pos_imp_zdiv_nonneg_iff)
  have "read_digits 2 (pad2 n @ CHR ''.'' # pad3 ms @ ''+00:00'')
      = Some (n, CHR ''.'' # pad3 ms @ ''+00:00'')"
    using assms(1,2) by simp
  then show ?thesis
    using assms c read_fraction_pad3 [OF assms(3,4)] by (simp add: read_seconds_def)
qed

lemma iso_naive_nonempty [simp]: "iso_naive t \<noteq> []"
  by (simp add: iso_naive_def iso_date_def pad4_def pad2_def split: prod.split)

lemma parse_naive:
  assumes "in_datetime_range t"
    and "read_time (iso_time (t div second mod 86400) @ replace_Z r)
      = Some (t div second mod 86400 * second + us, ''+00:00'')"
  shows "parse_stamp (iso_naive t @ r) = Some (t div second * second + us)"
proof -
  let ?days = "t div second div 86400" and ?sod = "t div second mod 86400"
  obtain y m d where c: "civil_of_days ?days = (y, m, d)" by (cases "civil_of_days ?days") auto
  have y: "1 \<le> y" "y \<le> 9999" using assms(1) c by (simp_all add: in_datetime_range_def)
  have "replace_Z (iso_naive t @ r) =
      replace_Z (iso_date ?days) @ CHR ''T'' # (iso_time ?sod @ replace_Z r)"
    by (simp add: iso_naive_def replace_Z_iso_time)
  then have "fromisoformat (replace_Z (iso_naive t @ r)) =
      Some (?days * 86400 * second + (?sod * second + us), Some 0)"
    using read_iso_date [OF c y, of "CHR ''T'' # (iso_time ?sod @ replace_Z r)"] assms(2)
    by (simp add: fromisoformat_def read_utc_offset)
  moreover have "?days * 86400 * second + ?sod * second = t div second * second"
    by (metis distrib_right div_mult_mod_eq)
  ultimately show ?thesis by (simp add: parse_stamp_def)
qed

lemma parse_iso_seconds:
  assumes "in_datetime_range t"
  shows "parse_stamp (iso_seconds t) = Some (t div second * second)"
proof -
  have "read_time (iso_time (t div second mod 86400) @ replace_Z ''Z'')
      = Some (t div second mod 86400 * second + 0, ''+00:00'')"
    using read_seconds_plain by (intro read_iso_time) simp_all
  from parse_naive [OF assms this] show ?thesis by (simp add: iso_seconds_def)
qed

lemma parse_iso_millis:
  assumes "in_datetime_range t"
  shows "parse_stamp (iso_millis t) = Some (t div 1000 * 1000)"
proof -
  let ?ms = "t mod second div 1000"
  have ms: "0 \<le> ?ms" "?ms < 1000" by (auto simp: second_def pos_imp_zdiv_nonneg_iff)
  have "read_time (iso_time (t div second mod 86400) @ replace_Z (''.'' @ pad3 ?ms @ ''Z''))
      = Some (t div second mod 86400 * second + ?ms * 1000, ''+00:00'')"
    using read_seconds_millis ms by (intro read_iso_time) simp_all
  from parse_naive [OF assms this]
  have "parse_stamp (iso_millis t) = Some (t div second * second + ?ms * 1000)"
    by (simp add: iso_millis_def)
  moreover have "t div second * second + ?ms * 1000 = t div 1000 * 1000"
  proof -
    have "t mod second mod 1000 = t mod 1000" unfolding second_def by (rule mod_mod_cancel) simp
    moreover have "t div second * second + t mod second = t"
      "t mod second div 1000 * 1000 + t mod second mod 1000 = t mod second"
      "t div 1000 * 1000 + t mod 1000 = t" by simp_all
    ultimately show ?thesis by linarith
  qed
  ultimately show ?thesis by simp
qed

lemma iso_seconds_nonempty [simp]: "iso_seconds t \<noteq> []"
  by (simp add: iso_seconds_def)

lemma parse_stamp_empty [simp]: "parse_stamp [] = None"
  by (simp add: parse_stamp_def)

end
