(* ===== verification/Stores.thy ===== *)
theory Stores
  imports Clock
begin

text \<open>
  The identity stores of identity/storage.py: the record types, the abstract store classes as
  records of operations, and the in-memory implementations, one dictionary each. The abstract
  class \<^verbatim>\<open>RefreshTokenStore\<close> and \<^verbatim>\<open>IdentityTokenStore\<close> are also stated as locales, with the
  laws their docstrings promise, and the in-memory stores are shown to satisfy them.
  A method argument that defaults to \<^verbatim>\<open>None\<close> and falls back to \<^verbatim>\<open>now_iso()\<close> takes the wall
  clock \<open>wall\<close>, and the empty string stands for \<^verbatim>\<open>None\<close>.
\<close>

definition now_iso :: "datetime \<Rightarrow> string" where
  "now_iso wall = iso_seconds wall"

section \<open>Records\<close>

record credential =
  cr_user_id :: string
  cr_type :: string
  cr_secret :: string
  cr_created_at :: string
  cr_updated_at :: string
  cr_attributes :: "(string, json) dict"

record refresh_token =
  rt_token_hash :: string
  rt_family_id :: string
  rt_user_id :: string
  rt_generation :: int
  rt_created_at :: string
  rt_expires_at :: int
  rt_consumed_at :: string
  rt_successor_hash :: string
  rt_revoked :: bool
  rt_device :: string
  rt_ip_first_seen :: string
  rt_family_started_at :: string
  rt_auth_time :: int
  rt_amr :: "string list"
  rt_ip_last_seen :: string
  rt_client :: string
  rt_platform :: string
  rt_browser :: string

definition rt_is_consumed :: "refresh_token \<Rightarrow> bool" where
  "rt_is_consumed r = (rt_consumed_at r \<noteq> [])"

datatype token_purpose = VerifyEmail | ResetPassword | MfaTicket | DesktopHandoff | ChangeEmail

text \<open>
  The values the code puts into a token's \<^verbatim>\<open>attributes\<close>, and \<^verbatim>\<open>str(v)\<close> and \<^verbatim>\<open>int(v)\<close> on them.
  Quotes inside a listed string are not escaped, as no code stores them. \<open>int\<close> of a string
  reads a decimal number or raises \<^verbatim>\<open>ValueError\<close>, and of a list raises \<^verbatim>\<open>TypeError\<close>.
\<close>

datatype attribute = AttrStr string | AttrInt int | AttrList "string list"

fun join :: "string \<Rightarrow> string list \<Rightarrow> string" where
  "join sep [] = []"
| "join sep [x] = x"
| "join sep (x # xs) = x @ sep @ join sep xs"

fun attr_str :: "attribute \<Rightarrow> string" where
  "attr_str (AttrStr s) = s"
| "attr_str (AttrInt n) = int_str n"
| "attr_str (AttrList xs) = ''['' @ join '', '' (map (\<lambda>x. [char_of (39::nat)] @ x @ [char_of (39::nat)]) xs) @ '']''"

fun read_decimal :: "int \<Rightarrow> string \<Rightarrow> int option" where
  "read_decimal n [] = Some n"
| "read_decimal n (c # cs) = (if is_digit c then read_decimal (10 * n + int (code c) - 48) cs else None)"

definition int_of_str :: "string \<Rightarrow> int option" where
  "int_of_str s =
     (case strip s of
        [] \<Rightarrow> None
      | c # cs \<Rightarrow>
          if cs \<noteq> [] \<and> c = CHR ''-'' then map_option uminus (read_decimal 0 cs)
          else if cs \<noteq> [] \<and> c = CHR ''+'' then read_decimal 0 cs
          else read_decimal 0 (c # cs))"

fun attr_int :: "attribute \<Rightarrow> int option" where
  "attr_int (AttrInt n) = Some n"
| "attr_int (AttrStr s) = int_of_str s"
| "attr_int (AttrList xs) = None"

record identity_token =
  it_token_hash :: string
  it_purpose :: token_purpose
  it_user_id :: string
  it_created_at :: string
  it_expires_at :: int
  it_consumed_at :: string
  it_attributes :: "(string, attribute) dict"

record totp_factor =
  tf_user_id :: string
  tf_secret_ciphertext :: string
  tf_secret_nonce :: string
  tf_wrapped_data_key :: string
  tf_created_at :: string
  tf_activated_at :: string
  tf_last_used_step :: int
  tf_secret_scheme :: string

definition tf_is_active :: "totp_factor \<Rightarrow> bool" where
  "tf_is_active f = (tf_activated_at f \<noteq> [])"

record recovery_code =
  rc_user_id :: string
  rc_code_hash :: string
  rc_created_at :: string
  rc_used_at :: string

record passkey =
  pk_user_id :: string
  pk_credential_id :: string
  pk_public_key :: string
  pk_sign_count :: int
  pk_name :: string
  pk_created_at :: string
  pk_last_used_at :: string
  pk_transports :: "string list"
  pk_aaguid :: string
  pk_backup_eligible :: bool
  pk_backup_state :: bool
  pk_user_verified :: bool

datatype challenge_purpose = RegisterPasskey | LoginPasskey | StepUpPasskey

record webauthn_challenge =
  wc_challenge_id :: string
  wc_challenge :: string
  wc_purpose :: challenge_purpose
  wc_created_at :: string
  wc_expires_at :: int
  wc_user_id :: string

section \<open>Refresh tokens\<close>

text \<open>
  The abstract \<^verbatim>\<open>RefreshTokenStore\<close>. The methods whose base raises
  \<^verbatim>\<open>NotImplementedError\<close> answer \<^const>\<open>None\<close> for it.
\<close>

record 's refresh_ops =
  op_get :: "'s \<Rightarrow> string \<Rightarrow> refresh_token option"
  op_put :: "'s \<Rightarrow> refresh_token \<Rightarrow> 's"
  op_consume :: "'s \<Rightarrow> string \<Rightarrow> string \<Rightarrow> string \<Rightarrow> refresh_token option \<times> 's"
  op_revoke_family :: "'s \<Rightarrow> string \<Rightarrow> 's \<times> nat"
  op_revoke_all_for_user :: "'s \<Rightarrow> string \<Rightarrow> string \<Rightarrow> ('s \<times> nat) option"
  op_revoke_all_for_device :: "'s \<Rightarrow> string \<Rightarrow> string \<Rightarrow> ('s \<times> nat) option"
  op_latest_by_family :: "'s \<Rightarrow> string \<Rightarrow> refresh_token list option"
  op_set_family_auth_time :: "'s \<Rightarrow> string \<Rightarrow> int \<Rightarrow> ('s \<times> nat) option"
  op_family_amr :: "'s \<Rightarrow> string \<Rightarrow> string list option"
  op_delete_all_for_user :: "'s \<Rightarrow> string \<Rightarrow> ('s \<times> nat) option"

type_synonym refresh_memory = "(string, refresh_token) dict"

definition mem_refresh_get :: "refresh_memory \<Rightarrow> string \<Rightarrow> refresh_token option" where
  "mem_refresh_get s h = dget s h"

definition mem_refresh_put :: "refresh_memory \<Rightarrow> refresh_token \<Rightarrow> refresh_memory" where
  "mem_refresh_put s r = dset (rt_token_hash r) r s"

definition mem_refresh_consume ::
  "datetime \<Rightarrow> refresh_memory \<Rightarrow> string \<Rightarrow> string \<Rightarrow> string \<Rightarrow> refresh_token option \<times> refresh_memory" where
  "mem_refresh_consume wall s h successor_hash consumed_at =
     (case dget s h of
        None \<Rightarrow> (None, s)
      | Some existing \<Rightarrow>
          if rt_is_consumed existing then (None, s)
          else (Some existing,
                dset h (existing\<lparr>rt_consumed_at := str_or consumed_at (now_iso wall),
                                 rt_successor_hash := successor_hash\<rparr>) s))"

definition mem_refresh_revoke_family :: "refresh_memory \<Rightarrow> string \<Rightarrow> refresh_memory \<times> nat" where
  "mem_refresh_revoke_family s family_id =
     update_where (\<lambda>r. rt_family_id r = family_id \<and> \<not> rt_revoked r)
       (\<lambda>r. r\<lparr>rt_revoked := True\<rparr>) s"

definition mem_refresh_set_auth_time :: "refresh_memory \<Rightarrow> string \<Rightarrow> int \<Rightarrow> refresh_memory \<times> nat" where
  "mem_refresh_set_auth_time s family_id auth_time =
     update_where (\<lambda>r. rt_family_id r = family_id \<and> rt_auth_time r < auth_time)
       (\<lambda>r. r\<lparr>rt_auth_time := auth_time\<rparr>) s"

definition mem_refresh_family_amr :: "refresh_memory \<Rightarrow> string \<Rightarrow> string list" where
  "mem_refresh_family_amr s family_id =
     (case find (\<lambda>r. rt_family_id r = family_id \<and> rt_amr r \<noteq> []) (dvalues s) of
        None \<Rightarrow> [] | Some r \<Rightarrow> rt_amr r)"

definition mem_refresh_revoke_user ::
  "refresh_memory \<Rightarrow> string \<Rightarrow> string \<Rightarrow> refresh_memory \<times> nat" where
  "mem_refresh_revoke_user s user_id except_family_id =
     update_where (\<lambda>r. rt_family_id r \<noteq> except_family_id \<and> rt_user_id r = user_id \<and> \<not> rt_revoked r)
       (\<lambda>r. r\<lparr>rt_revoked := True\<rparr>) s"

fun latest_loop :: "string \<Rightarrow> refresh_token list \<Rightarrow> (string, refresh_token) dict \<Rightarrow> (string, refresh_token) dict" where
  "latest_loop user_id [] latest = latest"
| "latest_loop user_id (r # rs) latest =
     (if rt_user_id r \<noteq> user_id then latest_loop user_id rs latest
      else case dget latest (rt_family_id r) of
          None \<Rightarrow> latest_loop user_id rs (dset (rt_family_id r) r latest)
        | Some current \<Rightarrow>
            if rt_generation r > rt_generation current
            then latest_loop user_id rs (dset (rt_family_id r) r latest)
            else latest_loop user_id rs latest)"

definition mem_refresh_latest :: "refresh_memory \<Rightarrow> string \<Rightarrow> refresh_token list" where
  "mem_refresh_latest s user_id = sort_key rt_family_id (dvalues (latest_loop user_id (dvalues s) []))"

fun revoke_families :: "refresh_memory \<Rightarrow> string list \<Rightarrow> refresh_memory \<times> nat" where
  "revoke_families s [] = (s, 0)"
| "revoke_families s (f # fs) =
     (case mem_refresh_revoke_family s f of (s, n) \<Rightarrow>
        case revoke_families s fs of (s, m) \<Rightarrow> (s, n + m))"

definition mem_refresh_revoke_device ::
  "refresh_memory \<Rightarrow> string \<Rightarrow> string \<Rightarrow> refresh_memory \<times> nat" where
  "mem_refresh_revoke_device s user_id device =
     revoke_families s
       (sort (fromkeys (map rt_family_id
          (filter (\<lambda>r. rt_user_id r = user_id \<and> rt_device r = device) (dvalues s)))))"

definition mem_refresh_delete_user :: "refresh_memory \<Rightarrow> string \<Rightarrow> refresh_memory \<times> nat" where
  "mem_refresh_delete_user s user_id = delete_where (\<lambda>_ r. rt_user_id r = user_id) s"

definition memory_refresh_ops :: "datetime \<Rightarrow> refresh_memory refresh_ops" where
  "memory_refresh_ops wall =
     \<lparr>op_get = mem_refresh_get,
      op_put = mem_refresh_put,
      op_consume = mem_refresh_consume wall,
      op_revoke_family = mem_refresh_revoke_family,
      op_revoke_all_for_user = (\<lambda>s u f. Some (mem_refresh_revoke_user s u f)),
      op_revoke_all_for_device = (\<lambda>s u d. Some (mem_refresh_revoke_device s u d)),
      op_latest_by_family = (\<lambda>s u. Some (mem_refresh_latest s u)),
      op_set_family_auth_time = (\<lambda>s f t. Some (mem_refresh_set_auth_time s f t)),
      op_family_amr = (\<lambda>s f. Some (mem_refresh_family_amr s f)),
      op_delete_all_for_user = (\<lambda>s u. Some (mem_refresh_delete_user s u))\<rparr>"

section \<open>Credentials\<close>

type_synonym credential_memory = "(string \<times> string, credential) dict"

definition mem_credential_get :: "credential_memory \<Rightarrow> string \<Rightarrow> string \<Rightarrow> credential option" where
  "mem_credential_get s user_id credential_type = dget s (user_id, credential_type)"

definition mem_credential_put :: "datetime \<Rightarrow> credential_memory \<Rightarrow> credential \<Rightarrow> credential_memory" where
  "mem_credential_put wall s r =
     (let now = now_iso wall; existing = dget s (cr_user_id r, cr_type r)
      in dset (cr_user_id r, cr_type r)
           \<lparr>cr_user_id = cr_user_id r, cr_type = cr_type r, cr_secret = cr_secret r,
            cr_created_at = str_or (cr_created_at r)
              (case existing of None \<Rightarrow> now | Some e \<Rightarrow> cr_created_at e),
            cr_updated_at = str_or (cr_updated_at r) now,
            cr_attributes = cr_attributes r\<rparr> s)"

definition mem_credential_delete :: "credential_memory \<Rightarrow> string \<Rightarrow> string \<Rightarrow> credential_memory" where
  "mem_credential_delete s user_id credential_type = ddel (user_id, credential_type) s"

definition mem_credential_delete_user :: "credential_memory \<Rightarrow> string \<Rightarrow> credential_memory \<times> nat" where
  "mem_credential_delete_user s user_id = delete_where (\<lambda>k _. fst k = user_id) s"

section \<open>Identity tokens\<close>

record 's token_ops =
  ot_get :: "'s \<Rightarrow> string \<Rightarrow> identity_token option"
  ot_put :: "'s \<Rightarrow> identity_token \<Rightarrow> 's"
  ot_consume :: "'s \<Rightarrow> string \<Rightarrow> string \<Rightarrow> identity_token option \<times> 's"
  ot_revoke_for_user :: "'s \<Rightarrow> string \<Rightarrow> token_purpose \<Rightarrow> 's \<times> nat"
  ot_delete_all_for_user :: "'s \<Rightarrow> string \<Rightarrow> ('s \<times> nat) option"

type_synonym token_memory = "(string, identity_token) dict"

definition mem_token_get :: "token_memory \<Rightarrow> string \<Rightarrow> identity_token option" where
  "mem_token_get s h = dget s h"

definition mem_token_put :: "token_memory \<Rightarrow> identity_token \<Rightarrow> token_memory" where
  "mem_token_put s r = dset (it_token_hash r) r s"

definition mem_token_consume ::
  "datetime \<Rightarrow> token_memory \<Rightarrow> string \<Rightarrow> string \<Rightarrow> identity_token option \<times> token_memory" where
  "mem_token_consume wall s h consumed_at =
     (case dget s h of
        None \<Rightarrow> (None, s)
      | Some existing \<Rightarrow>
          if it_consumed_at existing \<noteq> [] then (None, s)
          else (Some existing,
                dset h (existing\<lparr>it_consumed_at := str_or consumed_at (now_iso wall)\<rparr>) s))"

definition mem_token_revoke_user ::
  "datetime \<Rightarrow> token_memory \<Rightarrow> string \<Rightarrow> token_purpose \<Rightarrow> token_memory \<times> nat" where
  "mem_token_revoke_user wall s user_id purpose =
     update_where
       (\<lambda>r. it_user_id r = user_id \<and> it_purpose r = purpose \<and> it_consumed_at r = [])
       (\<lambda>r. r\<lparr>it_consumed_at := now_iso wall\<rparr>) s"

definition mem_token_delete_user :: "token_memory \<Rightarrow> string \<Rightarrow> token_memory \<times> nat" where
  "mem_token_delete_user s user_id = delete_where (\<lambda>_ r. it_user_id r = user_id) s"

definition memory_token_ops :: "datetime \<Rightarrow> token_memory token_ops" where
  "memory_token_ops wall =
     \<lparr>ot_get = mem_token_get,
      ot_put = mem_token_put,
      ot_consume = mem_token_consume wall,
      ot_revoke_for_user = mem_token_revoke_user wall,
      ot_delete_all_for_user = (\<lambda>s u. Some (mem_token_delete_user s u))\<rparr>"

section \<open>TOTP factors and recovery codes\<close>

type_synonym totp_memory = "(string, totp_factor) dict"

definition mem_totp_get :: "totp_memory \<Rightarrow> string \<Rightarrow> totp_factor option" where
  "mem_totp_get s user_id = dget s user_id"

definition mem_totp_put :: "totp_memory \<Rightarrow> totp_factor \<Rightarrow> totp_memory" where
  "mem_totp_put s r = dset (tf_user_id r) r s"

definition mem_totp_activate ::
  "datetime \<Rightarrow> totp_memory \<Rightarrow> string \<Rightarrow> int \<Rightarrow> string \<Rightarrow> bool \<times> totp_memory" where
  "mem_totp_activate wall s user_id step activated_at =
     (case dget s user_id of
        None \<Rightarrow> (False, s)
      | Some existing \<Rightarrow>
          if tf_is_active existing then (False, s)
          else (True, dset user_id
                 (existing\<lparr>tf_activated_at := str_or activated_at (now_iso wall),
                           tf_last_used_step := step\<rparr>) s))"

definition mem_totp_record_use :: "totp_memory \<Rightarrow> string \<Rightarrow> int \<Rightarrow> bool \<times> totp_memory" where
  "mem_totp_record_use s user_id step =
     (case dget s user_id of
        None \<Rightarrow> (False, s)
      | Some existing \<Rightarrow>
          if step \<le> tf_last_used_step existing then (False, s)
          else (True, dset user_id (existing\<lparr>tf_last_used_step := step\<rparr>) s))"

definition mem_totp_delete :: "totp_memory \<Rightarrow> string \<Rightarrow> totp_memory" where
  "mem_totp_delete s user_id = ddel user_id s"

type_synonym recovery_memory = "(string \<times> string, recovery_code) dict"

fun mem_recovery_put_many :: "recovery_memory \<Rightarrow> recovery_code list \<Rightarrow> recovery_memory" where
  "mem_recovery_put_many s [] = s"
| "mem_recovery_put_many s (r # rs) =
     mem_recovery_put_many (dset (rc_user_id r, rc_code_hash r) r s) rs"

definition mem_recovery_list :: "recovery_memory \<Rightarrow> string \<Rightarrow> recovery_code list" where
  "mem_recovery_list s user_id = map snd (filter (\<lambda>(k, _). fst k = user_id) s)"

definition mem_recovery_consume ::
  "datetime \<Rightarrow> recovery_memory \<Rightarrow> string \<Rightarrow> string \<Rightarrow> string \<Rightarrow> bool \<times> recovery_memory" where
  "mem_recovery_consume wall s user_id code_hash used_at =
     (case dget s (user_id, code_hash) of
        None \<Rightarrow> (False, s)
      | Some existing \<Rightarrow>
          if rc_used_at existing \<noteq> [] then (False, s)
          else (True, dset (user_id, code_hash)
                 (existing\<lparr>rc_used_at := str_or used_at (now_iso wall)\<rparr>) s))"

definition mem_recovery_delete_user :: "recovery_memory \<Rightarrow> string \<Rightarrow> recovery_memory \<times> nat" where
  "mem_recovery_delete_user s user_id = delete_where (\<lambda>k _. fst k = user_id) s"

section \<open>Passkeys and WebAuthn challenges\<close>

datatype store_error = KeyError string

type_synonym passkey_memory = "(string \<times> string, passkey) dict"

definition mem_passkey_get :: "passkey_memory \<Rightarrow> string \<Rightarrow> string \<Rightarrow> passkey option" where
  "mem_passkey_get s user_id credential_id = dget s (user_id, credential_id)"

definition mem_passkey_find :: "passkey_memory \<Rightarrow> string \<Rightarrow> passkey option" where
  "mem_passkey_find s credential_id =
     map_option snd (find (\<lambda>(k, _). snd k = credential_id) s)"

definition mem_passkey_list :: "passkey_memory \<Rightarrow> string \<Rightarrow> passkey list" where
  "mem_passkey_list s user_id = map snd (filter (\<lambda>(k, _). fst k = user_id) s)"

definition mem_passkey_put :: "datetime \<Rightarrow> passkey_memory \<Rightarrow> passkey \<Rightarrow> store_error + passkey_memory" where
  "mem_passkey_put wall s r =
     (let key = (pk_user_id r, pk_credential_id r)
      in if dget s key \<noteq> None
         then Inl (KeyError (''passkey '' @ take 12 (pk_credential_id r) @ '' is already registered''))
         else Inr (dset key (r\<lparr>pk_created_at := str_or (pk_created_at r) (now_iso wall)\<rparr>) s))"

definition mem_passkey_record_use ::
  "passkey_memory \<Rightarrow> string \<Rightarrow> string \<Rightarrow> int \<Rightarrow> string \<Rightarrow> passkey_memory" where
  "mem_passkey_record_use s user_id credential_id sign_count used_at =
     (case dget s (user_id, credential_id) of
        None \<Rightarrow> s
      | Some existing \<Rightarrow> dset (user_id, credential_id)
          (existing\<lparr>pk_sign_count := sign_count, pk_last_used_at := used_at\<rparr>) s)"

definition mem_passkey_delete :: "passkey_memory \<Rightarrow> string \<Rightarrow> string \<Rightarrow> bool \<times> passkey_memory" where
  "mem_passkey_delete s user_id credential_id =
     (dget s (user_id, credential_id) \<noteq> None, ddel (user_id, credential_id) s)"

definition mem_passkey_rename ::
  "passkey_memory \<Rightarrow> string \<Rightarrow> string \<Rightarrow> string \<Rightarrow> bool \<times> passkey_memory" where
  "mem_passkey_rename s user_id credential_id name =
     (case dget s (user_id, credential_id) of
        None \<Rightarrow> (False, s)
      | Some existing \<Rightarrow> (True, dset (user_id, credential_id) (existing\<lparr>pk_name := name\<rparr>) s))"

definition mem_passkey_delete_user :: "passkey_memory \<Rightarrow> string \<Rightarrow> passkey_memory \<times> nat" where
  "mem_passkey_delete_user s user_id = delete_where (\<lambda>k _. fst k = user_id) s"

type_synonym challenge_memory = "(string, webauthn_challenge) dict"

definition mem_challenge_put :: "challenge_memory \<Rightarrow> webauthn_challenge \<Rightarrow> challenge_memory" where
  "mem_challenge_put s r = dset (wc_challenge_id r) r s"

definition mem_challenge_consume ::
  "datetime \<Rightarrow> challenge_memory \<Rightarrow> string \<Rightarrow> webauthn_challenge option \<times> challenge_memory" where
  "mem_challenge_consume wall s challenge_id =
     (case dget s challenge_id of
        None \<Rightarrow> (None, s)
      | Some existing \<Rightarrow>
          (if is_expired wall (wc_expires_at existing) then None else Some existing,
           ddel challenge_id s))"

definition mem_challenge_delete_user :: "challenge_memory \<Rightarrow> string \<Rightarrow> challenge_memory \<times> nat" where
  "mem_challenge_delete_user s user_id =
     (if user_id = [] then (s, 0) else delete_where (\<lambda>_ r. wc_user_id r = user_id) s)"

section \<open>The contract of a refresh token store\<close>

text \<open>
  What the abstract class promises its client, over a view \<open>rows\<close> of the table as a map
  from token hash to record. \<open>ok\<close> is the store's own representation invariant.
\<close>

definition revoked_where :: "(refresh_token \<Rightarrow> bool) \<Rightarrow> refresh_token option \<Rightarrow> refresh_token option" where
  "revoked_where p = map_option (\<lambda>r. if p r then r\<lparr>rt_revoked := True\<rparr> else r)"

locale refresh_store =
  fixes S :: "'s refresh_ops"
    and rows :: "'s \<Rightarrow> string \<Rightarrow> refresh_token option"
    and ok :: "'s \<Rightarrow> bool"
  assumes rows_keyed: "ok s \<Longrightarrow> rows s h = Some r \<Longrightarrow> rt_token_hash r = h"
    and get_rows: "ok s \<Longrightarrow> op_get S s h = rows s h"
    and put_ok: "ok s \<Longrightarrow> ok (op_put S s r)"
    and put_rows: "ok s \<Longrightarrow> rows (op_put S s r) = (rows s)(rt_token_hash r \<mapsto> r)"
    and consume_ok: "ok s \<Longrightarrow> ok (snd (op_consume S s h x c))"
    and consume_wins: "ok s \<Longrightarrow> rows s h = Some r \<Longrightarrow> \<not> rt_is_consumed r \<Longrightarrow> c \<noteq> [] \<Longrightarrow>
      fst (op_consume S s h x c) = Some r \<and>
      rows (snd (op_consume S s h x c)) =
        (rows s)(h \<mapsto> r\<lparr>rt_consumed_at := c, rt_successor_hash := x\<rparr>)"
    and consume_loses: "ok s \<Longrightarrow> (\<And>r. rows s h = Some r \<Longrightarrow> rt_is_consumed r) \<Longrightarrow>
      fst (op_consume S s h x c) = None \<and> rows (snd (op_consume S s h x c)) = rows s"
    and revoke_ok: "ok s \<Longrightarrow> ok (fst (op_revoke_family S s f))"
    and revoke_rows: "ok s \<Longrightarrow> rows (fst (op_revoke_family S s f)) h =
      revoked_where (\<lambda>r. rt_family_id r = f) (rows s h)"
    and revoke_user: "ok s \<Longrightarrow> op_revoke_all_for_user S s u f = Some (s', n) \<Longrightarrow>
      ok s' \<and> rows s' h =
        revoked_where (\<lambda>r. rt_user_id r = u \<and> rt_family_id r \<noteq> f) (rows s h)"
    and revoke_device: "ok s \<Longrightarrow> op_revoke_all_for_device S s u d = Some (s', n) \<Longrightarrow>
      ok s' \<and> rows s' h =
        revoked_where (\<lambda>r. \<exists>h' r'. rows s h' = Some r' \<and> rt_user_id r' = u \<and> rt_device r' = d \<and>
          rt_family_id r' = rt_family_id r) (rows s h)"
    and set_auth_time: "ok s \<Longrightarrow> op_set_family_auth_time S s f t = Some (s', n) \<Longrightarrow>
      ok s' \<and> rows s' h =
        map_option (\<lambda>r. if rt_family_id r = f \<and> rt_auth_time r < t then r\<lparr>rt_auth_time := t\<rparr> else r)
          (rows s h)"
    and latest_sound: "ok s \<Longrightarrow> op_latest_by_family S s u = Some rs \<Longrightarrow> r \<in> set rs \<Longrightarrow>
      rows s (rt_token_hash r) = Some r \<and> rt_user_id r = u"
    and latest_newest: "ok s \<Longrightarrow> op_latest_by_family S s u = Some rs \<Longrightarrow> r \<in> set rs \<Longrightarrow>
      rows s h = Some r' \<Longrightarrow> rt_user_id r' = u \<Longrightarrow> rt_family_id r' = rt_family_id r \<Longrightarrow>
      rt_generation r' \<le> rt_generation r"

section \<open>The in-memory refresh store keeps the contract\<close>

definition refresh_memory_ok :: "refresh_memory \<Rightarrow> bool" where
  "refresh_memory_ok s = (dict_ok s \<and> (\<forall>(h, r) \<in> set s. rt_token_hash r = h))"

lemma refresh_memory_okI:
  "dict_ok s \<Longrightarrow> (\<And>h r. dget s h = Some r \<Longrightarrow> rt_token_hash r = h) \<Longrightarrow> refresh_memory_ok s"
  by (auto simp: refresh_memory_ok_def)

lemma refresh_memory_okD:
  "refresh_memory_ok s \<Longrightarrow> dict_ok s"
  "refresh_memory_ok s \<Longrightarrow> dget s h = Some r \<Longrightarrow> rt_token_hash r = h"
  by (auto simp: refresh_memory_ok_def dest: map_of_SomeD)

lemma refresh_memory_ok_empty [simp]: "refresh_memory_ok []"
  by (simp add: refresh_memory_ok_def)

lemma refresh_memory_update_where:
  assumes "refresh_memory_ok s" and "\<And>r. rt_token_hash (f r) = rt_token_hash r"
  shows "refresh_memory_ok (fst (update_where p f s))"
proof (rule refresh_memory_okI)
  show "dict_ok (fst (update_where p f s))" using assms(1) by (auto dest: refresh_memory_okD)
next
  fix h r
  assume "dget (fst (update_where p f s)) h = Some r"
  then show "rt_token_hash r = h"
    using assms refresh_memory_okD by (auto simp: dget_update_where split: if_splits)
qed

lemma mem_revoke_family_rows:
  assumes "refresh_memory_ok s"
  shows "dget (fst (mem_refresh_revoke_family s f)) h = revoked_where (\<lambda>r. rt_family_id r = f) (dget s h)"
proof -
  have "r\<lparr>rt_revoked := True\<rparr> = r" if "rt_revoked r" for r :: refresh_token using that by simp
  then show ?thesis
    using refresh_memory_okD(1) [OF assms]
    by (cases "dget s h") (auto simp: mem_refresh_revoke_family_def dget_update_where revoked_where_def)
qed

lemma mem_revoke_family_ok:
  "refresh_memory_ok s \<Longrightarrow> refresh_memory_ok (fst (mem_refresh_revoke_family s f))"
  by (simp add: mem_refresh_revoke_family_def refresh_memory_update_where)

lemma revoke_families_spec:
  "refresh_memory_ok s \<Longrightarrow> refresh_memory_ok (fst (revoke_families s fs)) \<and>
    dget (fst (revoke_families s fs)) h = revoked_where (\<lambda>r. rt_family_id r \<in> set fs) (dget s h)"
proof (induction fs arbitrary: s)
  case Nil
  then show ?case by (cases "dget s h") (simp_all add: revoked_where_def)
next
  case (Cons f fs)
  obtain s1 n where s1: "mem_refresh_revoke_family s f = (s1, n)" by force
  obtain s2 m where s2: "revoke_families s1 fs = (s2, m)" by force
  have "refresh_memory_ok s1" using mem_revoke_family_ok [OF Cons.prems, of f] s1 by simp
  from Cons.IH [OF this] show ?case
    using mem_revoke_family_rows [OF Cons.prems, of f h] s1 s2
    by (cases "dget s h") (auto simp: revoked_where_def)
qed

lemma latest_loop_spec:
  assumes "dict_ok latest"
    and "\<And>f c. dget latest f = Some c \<Longrightarrow> rt_family_id c = f \<and> rt_user_id c = u"
  shows "dict_ok (latest_loop u rs latest) \<and>
    (\<forall>f c. dget (latest_loop u rs latest) f = Some c \<longrightarrow>
       rt_family_id c = f \<and> rt_user_id c = u \<and> (c \<in> set rs \<or> dget latest f = Some c)) \<and>
    (\<forall>r \<in> set rs. rt_user_id r = u \<longrightarrow>
       (\<exists>c. dget (latest_loop u rs latest) (rt_family_id r) = Some c \<and> rt_generation r \<le> rt_generation c)) \<and>
    (\<forall>f c. dget latest f = Some c \<longrightarrow>
       (\<exists>c'. dget (latest_loop u rs latest) f = Some c' \<and> rt_generation c \<le> rt_generation c'))"
  using assms
proof (induction rs arbitrary: latest)
  case Nil
  then show ?case by auto
next
  case (Cons r rs)
  show ?case
  proof (cases "rt_user_id r = u \<and>
      (\<forall>c. dget latest (rt_family_id r) = Some c \<longrightarrow> rt_generation c < rt_generation r)")
    case True
    let ?l = "dset (rt_family_id r) r latest"
    have step: "latest_loop u (r # rs) latest = latest_loop u rs ?l"
      using True by (auto split: option.splits)
    have "dict_ok ?l" "\<And>f c. dget ?l f = Some c \<Longrightarrow> rt_family_id c = f \<and> rt_user_id c = u"
      using Cons.prems True by (auto split: if_splits)
    note IH = Cons.IH [OF this]
    have kept: "\<exists>c'. dget (latest_loop u rs ?l) f = Some c' \<and> rt_generation c \<le> rt_generation c'"
      if "dget ?l f = Some c" for f c
      using IH that by blast
    have old: "\<exists>c'. dget ?l f = Some c' \<and> rt_generation c \<le> rt_generation c'"
      if "dget latest f = Some c" for f c
      using that True by (cases "f = rt_family_id r") fastforce+
    have new: "dget ?l (rt_family_id r) = Some r" by simp
    have a4: "\<exists>c'. dget (latest_loop u rs ?l) f = Some c' \<and> rt_generation c \<le> rt_generation c'"
      if "dget latest f = Some c" for f c
      using old [OF that] kept order_trans by blast
    have a2: "rt_family_id c = f \<and> rt_user_id c = u \<and> (c \<in> set (r # rs) \<or> dget latest f = Some c)"
      if "dget (latest_loop u rs ?l) f = Some c" for f c
    proof -
      have "rt_family_id c = f \<and> rt_user_id c = u \<and> (c \<in> set rs \<or> dget ?l f = Some c)"
        using IH that by blast
      then show ?thesis by (auto split: if_splits)
    qed
    have a3: "\<exists>c. dget (latest_loop u rs ?l) (rt_family_id r') = Some c \<and> rt_generation r' \<le> rt_generation c"
      if "r' \<in> set (r # rs)" "rt_user_id r' = u" for r'
    proof (cases "r' = r")
      case True
      with kept [OF new] show ?thesis by simp
    next
      case False
      with that have "r' \<in> set rs" by simp
      with that(2) IH show ?thesis by blast
    qed
    show ?thesis unfolding step using IH a2 a3 a4 by blast
  next
    case False
    then have step: "latest_loop u (r # rs) latest = latest_loop u rs latest"
      by (auto split: option.splits)
    have "\<exists>c. dget latest (rt_family_id r) = Some c \<and> rt_generation r \<le> rt_generation c"
      if "rt_user_id r = u" using that False by force
    then have head: "\<exists>c. dget (latest_loop u rs latest) (rt_family_id r) = Some c \<and>
        rt_generation r \<le> rt_generation c" if "rt_user_id r = u"
      using that Cons.IH [OF Cons.prems] order_trans by blast
    have "\<exists>c. dget (latest_loop u rs latest) (rt_family_id r') = Some c \<and>
        rt_generation r' \<le> rt_generation c" if "r' \<in> set (r # rs)" "rt_user_id r' = u" for r'
    proof (cases "r' = r")
      case True
      with that(2) head show ?thesis by simp
    next
      case False
      with that have "r' \<in> set rs" by simp
      with that(2) Cons.IH [OF Cons.prems] show ?thesis by blast
    qed
    moreover have "set rs \<subseteq> set (r # rs)" by auto
    ultimately show ?thesis unfolding step
      using Cons.IH [OF Cons.prems] by blast
  qed
qed

lemma mem_refresh_put_ok:
  "refresh_memory_ok s \<Longrightarrow> refresh_memory_ok (mem_refresh_put s r)"
  by (rule refresh_memory_okI)
    (auto simp: mem_refresh_put_def refresh_memory_okD split: if_splits)

lemma mem_refresh_consume_ok:
  "refresh_memory_ok s \<Longrightarrow> refresh_memory_ok (snd (mem_refresh_consume wall s h x c))"
  by (rule refresh_memory_okI)
    (auto simp: mem_refresh_consume_def refresh_memory_okD split: option.splits if_splits)

lemma mem_revoke_user_spec:
  assumes "refresh_memory_ok s"
  shows "refresh_memory_ok (fst (mem_refresh_revoke_user s u f)) \<and>
    dget (fst (mem_refresh_revoke_user s u f)) h =
      revoked_where (\<lambda>r. rt_user_id r = u \<and> rt_family_id r \<noteq> f) (dget s h)"
proof -
  have "r\<lparr>rt_revoked := True\<rparr> = r" if "rt_revoked r" for r :: refresh_token using that by simp
  then show ?thesis
    using assms refresh_memory_okD(1) [OF assms]
    by (cases "dget s h") (auto simp: mem_refresh_revoke_user_def dget_update_where revoked_where_def
        refresh_memory_update_where)
qed

lemma mem_revoke_device_spec:
  assumes "refresh_memory_ok s"
  shows "refresh_memory_ok (fst (mem_refresh_revoke_device s u d)) \<and>
    dget (fst (mem_refresh_revoke_device s u d)) h =
      revoked_where (\<lambda>r. \<exists>h' r'. dget s h' = Some r' \<and> rt_user_id r' = u \<and> rt_device r' = d \<and>
          rt_family_id r' = rt_family_id r) (dget s h)"
proof -
  let ?fs = "sort (fromkeys (map rt_family_id
      (filter (\<lambda>r. rt_user_id r = u \<and> rt_device r = d) (dvalues s))))"
  have "dict_ok s" using assms by (rule refresh_memory_okD)
  note mem = mem_dvalues [OF this]
  define vs where "vs = dvalues s"
  have "set ?fs = rt_family_id ` {r \<in> set vs. rt_user_id r = u \<and> rt_device r = d}"
    unfolding vs_def [symmetric] by simp
  then have fs: "rt_family_id r \<in> set ?fs \<longleftrightarrow> (\<exists>r' \<in> set vs. rt_user_id r' = u \<and>
      rt_device r' = d \<and> rt_family_id r' = rt_family_id r)" for r
    by (simp only: image_iff) auto
  have members: "rt_family_id r \<in> set ?fs \<longleftrightarrow> (\<exists>h' r'. dget s h' = Some r' \<and> rt_user_id r' = u \<and>
      rt_device r' = d \<and> rt_family_id r' = rt_family_id r)" for r
    unfolding fs Bex_def vs_def mem by blast
  show ?thesis
    using revoke_families_spec [OF assms, of ?fs h]
    unfolding mem_refresh_revoke_device_def members .
qed

lemma mem_set_auth_time_spec:
  "refresh_memory_ok s \<Longrightarrow> refresh_memory_ok (fst (mem_refresh_set_auth_time s f t)) \<and>
    dget (fst (mem_refresh_set_auth_time s f t)) h =
      map_option (\<lambda>r. if rt_family_id r = f \<and> rt_auth_time r < t then r\<lparr>rt_auth_time := t\<rparr> else r)
        (dget s h)"
  by (simp add: mem_refresh_set_auth_time_def refresh_memory_update_where dget_update_where
      refresh_memory_okD(1))

lemma latest_loop_empty:
  shows "dict_ok (latest_loop u rs [])"
    and "dget (latest_loop u rs []) f = Some c \<Longrightarrow> rt_family_id c = f \<and> rt_user_id c = u \<and> c \<in> set rs"
    and "r \<in> set rs \<Longrightarrow> rt_user_id r = u \<Longrightarrow>
      \<exists>c. dget (latest_loop u rs []) (rt_family_id r) = Some c \<and> rt_generation r \<le> rt_generation c"
proof -
  have e: "dict_ok ([] :: (string, refresh_token) dict)"
    "\<And>f c. dget [] f = Some c \<Longrightarrow> rt_family_id c = f \<and> rt_user_id c = u" by simp_all
  note spec = latest_loop_spec [OF e, of rs]
  show "dict_ok (latest_loop u rs [])" using spec by (rule conjunct1)
  show "dget (latest_loop u rs []) f = Some c \<Longrightarrow> rt_family_id c = f \<and> rt_user_id c = u \<and> c \<in> set rs"
    using spec [THEN conjunct2, THEN conjunct1] by (metis map_of.simps(1) option.distinct(1))
  show "r \<in> set rs \<Longrightarrow> rt_user_id r = u \<Longrightarrow>
      \<exists>c. dget (latest_loop u rs []) (rt_family_id r) = Some c \<and> rt_generation r \<le> rt_generation c"
    using spec [THEN conjunct2, THEN conjunct2, THEN conjunct1] by blast
qed

lemma mem_latest_mem:
  assumes "refresh_memory_ok s" and "r \<in> set (mem_refresh_latest s u)"
  shows "dget (latest_loop u (dvalues s) []) (rt_family_id r) = Some r" and "rt_user_id r = u"
    and "dget s (rt_token_hash r) = Some r"
proof -
  let ?l = "latest_loop u (dvalues s) []"
  from assms(2) have "r \<in> set (dvalues ?l)" by (simp add: mem_refresh_latest_def)
  then obtain f where f: "dget ?l f = Some r"
    unfolding mem_dvalues [OF latest_loop_empty(1)] by blast
  note facts = latest_loop_empty(2) [OF f]
  show "dget ?l (rt_family_id r) = Some r" using f facts by simp
  show "rt_user_id r = u" using facts by simp
  from facts obtain h where "dget s h = Some r"
    using mem_dvalues [OF refresh_memory_okD(1) [OF assms(1)], of r] by blast
  then show "dget s (rt_token_hash r) = Some r" using refresh_memory_okD(2) [OF assms(1)] by simp
qed

lemma mem_latest_newest:
  assumes "refresh_memory_ok s" and "r \<in> set (mem_refresh_latest s u)"
    and "dget s h = Some r'" and "rt_user_id r' = u" and "rt_family_id r' = rt_family_id r"
  shows "rt_generation r' \<le> rt_generation r"
proof -
  have "r' \<in> set (dvalues s)"
    using assms(3) mem_dvalues [OF refresh_memory_okD(1) [OF assms(1)], of r'] by blast
  then obtain c where "dget (latest_loop u (dvalues s) []) (rt_family_id r') = Some c"
    and "rt_generation r' \<le> rt_generation c"
    using latest_loop_empty(3) [of r' "dvalues s" u] assms(4) by blast
  with mem_latest_mem(1) [OF assms(1,2)] assms(5) show ?thesis by simp
qed

interpretation mem_refresh: refresh_store "memory_refresh_ops wall" map_of refresh_memory_ok for wall
proof
  fix s :: refresh_memory and h x c f u d :: string and r r' :: refresh_token
    and s' :: refresh_memory and n :: nat and t :: int and rs :: "refresh_token list"
  assume ok: "refresh_memory_ok s"
  note D = refresh_memory_okD [OF ok]
  show "map_of s h = Some r \<Longrightarrow> rt_token_hash r = h" by (rule D)
  show "op_get (memory_refresh_ops wall) s h = map_of s h"
    by (simp add: memory_refresh_ops_def mem_refresh_get_def)
  show "refresh_memory_ok (op_put (memory_refresh_ops wall) s r)"
    using ok by (simp add: memory_refresh_ops_def mem_refresh_put_ok)
  show "map_of (op_put (memory_refresh_ops wall) s r) = (map_of s)(rt_token_hash r \<mapsto> r)"
    by (simp add: memory_refresh_ops_def mem_refresh_put_def)
  show "refresh_memory_ok (snd (op_consume (memory_refresh_ops wall) s h x c))"
    using ok by (simp add: memory_refresh_ops_def mem_refresh_consume_ok)
  show "map_of s h = Some r \<Longrightarrow> \<not> rt_is_consumed r \<Longrightarrow> c \<noteq> [] \<Longrightarrow>
      fst (op_consume (memory_refresh_ops wall) s h x c) = Some r \<and>
      map_of (snd (op_consume (memory_refresh_ops wall) s h x c)) =
        (map_of s)(h \<mapsto> r\<lparr>rt_consumed_at := c, rt_successor_hash := x\<rparr>)"
    by (simp add: memory_refresh_ops_def mem_refresh_consume_def)
  show "(\<And>r. map_of s h = Some r \<Longrightarrow> rt_is_consumed r) \<Longrightarrow>
      fst (op_consume (memory_refresh_ops wall) s h x c) = None \<and>
      map_of (snd (op_consume (memory_refresh_ops wall) s h x c)) = map_of s"
    by (auto simp: memory_refresh_ops_def mem_refresh_consume_def split: option.splits)
  show "refresh_memory_ok (fst (op_revoke_family (memory_refresh_ops wall) s f))"
    using ok by (simp add: memory_refresh_ops_def mem_revoke_family_ok)
  show "map_of (fst (op_revoke_family (memory_refresh_ops wall) s f)) h =
      revoked_where (\<lambda>r. rt_family_id r = f) (map_of s h)"
    using ok by (simp add: memory_refresh_ops_def mem_revoke_family_rows)
  show "op_revoke_all_for_user (memory_refresh_ops wall) s u f = Some (s', n) \<Longrightarrow>
      refresh_memory_ok s' \<and> map_of s' h =
        revoked_where (\<lambda>r. rt_user_id r = u \<and> rt_family_id r \<noteq> f) (map_of s h)"
    using mem_revoke_user_spec [OF ok, of u f h] by (simp add: memory_refresh_ops_def)
  show "op_revoke_all_for_device (memory_refresh_ops wall) s u d = Some (s', n) \<Longrightarrow>
      refresh_memory_ok s' \<and> map_of s' h =
        revoked_where (\<lambda>r. \<exists>h' r'. map_of s h' = Some r' \<and> rt_user_id r' = u \<and> rt_device r' = d \<and>
          rt_family_id r' = rt_family_id r) (map_of s h)"
    using mem_revoke_device_spec [OF ok, of u d h] by (simp add: memory_refresh_ops_def)
  show "op_set_family_auth_time (memory_refresh_ops wall) s f t = Some (s', n) \<Longrightarrow>
      refresh_memory_ok s' \<and> map_of s' h =
        map_option (\<lambda>r. if rt_family_id r = f \<and> rt_auth_time r < t then r\<lparr>rt_auth_time := t\<rparr> else r)
          (map_of s h)"
    using mem_set_auth_time_spec [OF ok, of f t h] by (simp add: memory_refresh_ops_def)
  show "op_latest_by_family (memory_refresh_ops wall) s u = Some rs \<Longrightarrow> r \<in> set rs \<Longrightarrow>
      map_of s (rt_token_hash r) = Some r \<and> rt_user_id r = u"
    using mem_latest_mem [OF ok, of r u] by (simp add: memory_refresh_ops_def)
  show "op_latest_by_family (memory_refresh_ops wall) s u = Some rs \<Longrightarrow> r \<in> set rs \<Longrightarrow>
      map_of s h = Some r' \<Longrightarrow> rt_user_id r' = u \<Longrightarrow> rt_family_id r' = rt_family_id r \<Longrightarrow>
      rt_generation r' \<le> rt_generation r"
    using mem_latest_newest [OF ok, of r u h r'] by (simp add: memory_refresh_ops_def)
qed

section \<open>The contract of an identity token store\<close>

text \<open>
  What \<^verbatim>\<open>IdentityTokenStore\<close> promises: a token is consumed by one caller only, and a
  consumed row stays consumed. \<open>it_spent\<close> says that a row is stored and spent.
\<close>

definition it_spent :: "(string \<Rightarrow> identity_token option) \<Rightarrow> string \<Rightarrow> bool" where
  "it_spent rows h = (\<exists>r. rows h = Some r \<and> it_consumed_at r \<noteq> [])"

locale token_store =
  fixes T :: "'s token_ops"
    and rows :: "'s \<Rightarrow> string \<Rightarrow> identity_token option"
    and ok :: "'s \<Rightarrow> bool"
  assumes token_get: "ok s \<Longrightarrow> ot_get T s h = rows s h"
    and token_put_ok: "ok s \<Longrightarrow> ok (ot_put T s r)"
    and token_put: "ok s \<Longrightarrow> rows (ot_put T s r) = (rows s)(it_token_hash r \<mapsto> r)"
    and token_consume_ok: "ok s \<Longrightarrow> ok (snd (ot_consume T s h c))"
    and token_consume_wins: "ok s \<Longrightarrow> rows s h = Some r \<Longrightarrow> it_consumed_at r = [] \<Longrightarrow>
      fst (ot_consume T s h c) = Some r \<and>
      (\<exists>c'. c' \<noteq> [] \<and> (c \<noteq> [] \<longrightarrow> c' = c) \<and>
         rows (snd (ot_consume T s h c)) = (rows s)(h \<mapsto> r\<lparr>it_consumed_at := c'\<rparr>))"
    and token_consume_loses: "ok s \<Longrightarrow> (\<And>r. rows s h = Some r \<Longrightarrow> it_consumed_at r \<noteq> []) \<Longrightarrow>
      fst (ot_consume T s h c) = None \<and> rows (snd (ot_consume T s h c)) = rows s"
    and token_revoke_ok: "ok s \<Longrightarrow> ok (fst (ot_revoke_for_user T s u p))"
    and token_revoke: "ok s \<Longrightarrow> \<exists>c. c \<noteq> [] \<and> rows (fst (ot_revoke_for_user T s u p)) h =
      map_option (\<lambda>r. if it_user_id r = u \<and> it_purpose r = p \<and> it_consumed_at r = []
                      then r\<lparr>it_consumed_at := c\<rparr> else r) (rows s h)"
begin

lemma consume_result:
  assumes "ok s"
  shows "fst (ot_consume T s h c) =
    (case rows s h of None \<Rightarrow> None | Some r \<Rightarrow> if it_consumed_at r = [] then Some r else None)"
  using token_consume_wins [OF assms, of h _ c] token_consume_loses [OF assms, of h c]
  by (auto split: option.splits)

lemma consume_spent:
  "ok s \<Longrightarrow> fst (ot_consume T s h c) = Some r \<Longrightarrow> it_spent (rows (snd (ot_consume T s h c))) h"
  using token_consume_wins [of s h r c] consume_result [of s h c]
  by (auto simp: it_spent_def split: option.splits if_splits)

lemma consume_keeps_spent:
  assumes "ok s" and "it_spent (rows s) k"
  shows "it_spent (rows (snd (ot_consume T s h c))) k"
proof (cases "\<exists>r. rows s h = Some r \<and> it_consumed_at r = []")
  case True
  then obtain r where r: "rows s h = Some r" "it_consumed_at r = []" by blast
  from token_consume_wins [OF assms(1) this, of c] obtain c' where
    rows: "rows (snd (ot_consume T s h c)) = (rows s)(h \<mapsto> r\<lparr>it_consumed_at := c'\<rparr>)" by blast
  have "k \<noteq> h" using assms(2) r by (auto simp: it_spent_def)
  then show ?thesis using assms(2) by (simp add: it_spent_def rows)
next
  case False
  with token_consume_loses [OF assms(1), of h c] assms(2) show ?thesis by auto
qed

lemma revoke_keeps_spent:
  "ok s \<Longrightarrow> it_spent (rows s) k \<Longrightarrow> it_spent (rows (fst (ot_revoke_for_user T s u p))) k"
  using token_revoke [of s u p k] by (auto simp: it_spent_def)

lemma put_keeps_spent:
  "ok s \<Longrightarrow> it_spent (rows s) k \<Longrightarrow> rows s (it_token_hash r) = None \<Longrightarrow>
    it_spent (rows (ot_put T s r)) k"
  by (auto simp: it_spent_def token_put)

lemma spent_not_consumed: "ok s \<Longrightarrow> it_spent (rows s) h \<Longrightarrow> fst (ot_consume T s h c) = None"
  using consume_result [of s h c] by (auto simp: it_spent_def split: option.splits)

end

definition token_memory_ok :: "token_memory \<Rightarrow> bool" where
  "token_memory_ok s = dict_ok s"

interpretation mem_token: token_store "memory_token_ops wall" map_of token_memory_ok for wall
proof
  fix s :: token_memory and h c u :: string and r :: identity_token and p :: token_purpose
  assume "token_memory_ok s"
  then have ok: "dict_ok s" by (simp add: token_memory_ok_def)
  note ops = memory_token_ops_def token_memory_ok_def mem_token_get_def mem_token_put_def
    mem_token_consume_def mem_token_revoke_user_def
  show "ot_get (memory_token_ops wall) s h = map_of s h"
    and "token_memory_ok (ot_put (memory_token_ops wall) s r)"
    and "map_of (ot_put (memory_token_ops wall) s r) = (map_of s)(it_token_hash r \<mapsto> r)"
    and "token_memory_ok (fst (ot_revoke_for_user (memory_token_ops wall) s u p))"
    using ok by (simp_all add: ops dict_ok_dset dict_ok_update_where)
  show "token_memory_ok (snd (ot_consume (memory_token_ops wall) s h c))"
    using ok by (auto simp: ops split: option.splits)
  show "map_of s h = Some r \<Longrightarrow> it_consumed_at r = [] \<Longrightarrow>
      fst (ot_consume (memory_token_ops wall) s h c) = Some r \<and>
      (\<exists>c'. c' \<noteq> [] \<and> (c \<noteq> [] \<longrightarrow> c' = c) \<and>
         map_of (snd (ot_consume (memory_token_ops wall) s h c)) = (map_of s)(h \<mapsto> r\<lparr>it_consumed_at := c'\<rparr>))"
    by (rule conjI, simp add: ops, rule exI [of _ "str_or c (now_iso wall)"])
      (auto simp: ops str_or_def now_iso_def)
  show "(\<And>r. map_of s h = Some r \<Longrightarrow> it_consumed_at r \<noteq> []) \<Longrightarrow>
      fst (ot_consume (memory_token_ops wall) s h c) = None \<and>
      map_of (snd (ot_consume (memory_token_ops wall) s h c)) = map_of s"
    by (auto simp: ops split: option.splits)
  show "\<exists>c. c \<noteq> [] \<and> map_of (fst (ot_revoke_for_user (memory_token_ops wall) s u p)) h =
      map_option (\<lambda>r. if it_user_id r = u \<and> it_purpose r = p \<and> it_consumed_at r = []
                      then r\<lparr>it_consumed_at := c\<rparr> else r) (map_of s h)"
    using ok by (intro exI [of _ "now_iso wall"] conjI)
      (simp add: now_iso_def, simp add: ops dget_update_where)
qed

end
