(* ===== verification/Sessions.thy ===== *)
theory Sessions
  imports Stores
begin

text \<open>
  Refresh families, identity/sessions.py: \<^verbatim>\<open>SessionService\<close> over any store with the
  operations of \<^verbatim>\<open>RefreshTokenStore\<close>, and the labels read from a user agent. \<^verbatim>\<open>rotate\<close> is
  given as its three phases (check, mint, settle), so that runs of several requests can be
  interleaved at the store operations that separate them.
\<close>

section \<open>Labels read from a user agent\<close>

definition product_name_char :: "char \<Rightarrow> bool" where
  "product_name_char c = (is_alnum c \<or> c \<in> set ''._-'')"

definition product_version_char :: "char \<Rightarrow> bool" where
  "product_version_char c = (is_alnum c \<or> c \<in> set ''._+-'')"

text \<open>
  One match of \<^verbatim>\<open>_PRODUCT_TOKEN\<close> at the start of the text: a letter and up to 47 name
  characters, a slash, and at least one version character. No name character is a slash, so
  the greedy name is the only one that can match.
\<close>

definition product_token_at :: "string \<Rightarrow> (string \<times> string) option" where
  "product_token_at s =
     (let name = takeWhile product_name_char s
      in if name \<noteq> [] \<and> is_alpha (hd name) \<and> length name \<le> 48
         then (case dropWhile product_name_char s of
                 [] \<Rightarrow> None
               | c # v \<Rightarrow>
                   if c = CHR ''/'' \<and> takeWhile product_version_char v \<noteq> []
                   then Some (name, dropWhile product_version_char v) else None)
         else None)"

definition browser_tokens :: "string list" where
  "browser_tokens =
     [''mozilla'', ''applewebkit'', ''khtml'', ''gecko'', ''chrome'', ''chromium'', ''crios'',
      ''fxios'', ''safari'', ''firefox'', ''version'', ''mobile'', ''edg'', ''edge'', ''edga'',
      ''edgios'', ''opr'', ''opera'', ''samsungbrowser'', ''electron'', ''cfnetwork'', ''darwin'',
      ''headlesschrome'', ''yabrowser'', ''vivaldi'', ''brave'', ''ucbrowser'', ''duckduckgo'',
      ''build'', ''android'', ''wv'', ''trident'', ''msie'']"

definition browser_needles :: "(string \<times> string) list" where
  "browser_needles =
     [(''edg/'', ''Edge''), (''edga/'', ''Edge''), (''edgios/'', ''Edge''), (''edge/'', ''Edge''),
      (''opr/'', ''Opera''), (''opera'', ''Opera''), (''samsungbrowser/'', ''Samsung Internet''),
      (''firefox/'', ''Firefox''), (''fxios/'', ''Firefox''), (''chrome/'', ''Chrome''),
      (''chromium/'', ''Chrome''), (''crios/'', ''Chrome''), (''safari/'', ''Safari'')]"

definition platform_needles :: "(string \<times> string) list" where
  "platform_needles =
     [(''iphone'', ''iOS''), (''ipad'', ''iOS''), (''ipod'', ''iOS''), (''cfnetwork'', ''iOS''),
      (''android'', ''Android''), (''cros '', ''ChromeOS''), (''windows'', ''Windows''),
      (''win32'', ''Windows''), (''win64'', ''Windows''), (''macintosh'', ''macOS''),
      (''mac os x'', ''macOS''), (''macos'', ''macOS''), (''darwin'', ''macOS''),
      (''linux'', ''Linux''), (''x11'', ''Linux'')]"

lemma length_dropWhile_less: "xs \<noteq> [] \<Longrightarrow> length (dropWhile P (tl xs)) < length xs"
  by (cases xs) (auto simp: le_imp_less_Suc length_dropWhile_le)

lemma product_token_at_shorter:
  assumes "product_token_at s = Some (name, rest)"
  shows "length rest < length s"
proof -
  obtain c v where "dropWhile product_name_char s = c # v" "rest = dropWhile product_version_char v"
    using assms by (auto simp: product_token_at_def Let_def split: if_splits list.splits)
  then have "length rest \<le> length v" "length v < length (dropWhile product_name_char s)"
    by (simp_all add: length_dropWhile_le)
  moreover have "length (dropWhile product_name_char s) \<le> length s" by (rule length_dropWhile_le)
  ultimately show ?thesis by linarith
qed

text \<open>The scan of \<^verbatim>\<open>finditer\<close>: after a match it goes on behind the match, else one character on.\<close>

function client_from_user_agent :: "string \<Rightarrow> string" where
  "client_from_user_agent [] = []"
| "client_from_user_agent (c # cs) =
     (case product_token_at (c # cs) of
        None \<Rightarrow> client_from_user_agent cs
      | Some (name, rest) \<Rightarrow>
          if lower name \<notin> set browser_tokens then name else client_from_user_agent rest)"
  by pat_completeness auto
termination
  by (relation "measure length") (auto dest: product_token_at_shorter)

definition first_needle :: "(string \<times> string) list \<Rightarrow> string \<Rightarrow> string" where
  "first_needle table lowered =
     (case find (\<lambda>(needle, _). contains needle lowered) table of
        None \<Rightarrow> [] | Some (_, label) \<Rightarrow> label)"

definition browser_from_user_agent :: "string \<Rightarrow> string" where
  "browser_from_user_agent user_agent =
     (if user_agent = [] \<or> client_from_user_agent user_agent \<noteq> [] then []
      else first_needle browser_needles (lower user_agent))"

definition platform_from_user_agent :: "string \<Rightarrow> string" where
  "platform_from_user_agent user_agent = first_needle platform_needles (lower user_agent)"

definition oauth_client_device_prefix :: string where
  "oauth_client_device_prefix = ''mcp:''"

definition oauth_client_of_device :: "string \<Rightarrow> string" where
  "oauth_client_of_device device =
     (if \<not> startswith device oauth_client_device_prefix then []
      else takeWhile (\<lambda>c. c \<noteq> CHR '':'') (drop (length oauth_client_device_prefix) device))"

section \<open>The service\<close>

definition unknown_device :: string where
  "unknown_device = ''unknown''"

record issued_refresh =
  ir_token :: string
  ir_family_id :: string
  ir_user_id :: string
  ir_generation :: int
  ir_expires_at :: int
  ir_device :: string
  ir_auth_time :: int
  ir_amr :: "string list"

record presented_session =
  ps_user_id :: string
  ps_family_id :: string
  ps_auth_time :: int
  ps_amr :: "string list"
  ps_device :: string

record session_summary =
  sm_family_id :: string
  sm_device :: string
  sm_ip :: string
  sm_started_at :: string
  sm_last_active_at :: string
  sm_expires_at :: int
  sm_amr :: "string list"
  sm_last_ip :: string
  sm_client :: string
  sm_platform :: string
  sm_client_id :: string
  sm_browser :: string

datatype rotation_outcome = Rotated | Replayed | Reuse | Expired | Revoked | Unknown

record rotation_result =
  rr_outcome :: rotation_outcome
  rr_issued :: "issued_refresh option"
  rr_family_id :: string
  rr_user_id :: string
  rr_revoked :: nat

definition rr_ok :: "rotation_result \<Rightarrow> bool" where
  "rr_ok r = (rr_issued r \<noteq> None)"

text \<open>
  The three settings \<^verbatim>\<open>SessionService\<close> reads, the store it is bound to, and \<^verbatim>\<open>hash_token\<close>.
  The digest is SHA-256 and stays a parameter: the code depends on it only as a function that
  does not map a fresh token onto a stored hash.
\<close>

record session_settings =
  refresh_token_ttl :: timedelta
  refresh_absolute_ttl :: timedelta
  refresh_reuse_grace :: timedelta

record 's session_service =
  ss_settings :: session_settings
  ss_store :: "'s refresh_ops"
  ss_hash :: "string \<Rightarrow> string"

text \<open>
  \<open>wall\<close> is what \<^verbatim>\<open>datetime.now(UTC)\<close> answers during the call, \<open>moment\<close> the \<^verbatim>\<open>now\<close>
  argument, and the fresh tokens and family ids the random functions return are arguments.
\<close>

definition family_started_at :: "datetime \<Rightarrow> refresh_token \<Rightarrow> datetime" where
  "family_started_at wall r =
     (case parse_stamp (rt_family_started_at r) of
        Some t \<Rightarrow> t
      | None \<Rightarrow> (case parse_stamp (rt_created_at r) of Some t \<Rightarrow> t | None \<Rightarrow> wall))"

definition record_auth_time :: "datetime \<Rightarrow> refresh_token \<Rightarrow> int" where
  "record_auth_time wall r =
     (if rt_auth_time r > 0 then rt_auth_time r else int_timestamp (family_started_at wall r))"

definition past_absolute_cap :: "session_settings \<Rightarrow> datetime \<Rightarrow> refresh_token \<Rightarrow> datetime \<Rightarrow> bool" where
  "past_absolute_cap cfg wall r moment =
     (family_started_at wall r + refresh_absolute_ttl cfg \<le> moment)"

record mint_request =
  mr_family_id :: string
  mr_user_id :: string
  mr_generation :: int
  mr_device :: string
  mr_ip :: string
  mr_started_at :: datetime
  mr_now :: datetime
  mr_auth_time :: int
  mr_amr :: "string list"
  mr_ip_last_seen :: string
  mr_client :: string
  mr_platform :: string
  mr_browser :: string

definition mint_expires_at :: "session_settings \<Rightarrow> mint_request \<Rightarrow> int" where
  "mint_expires_at cfg m =
     ttl_at (min (mr_now m + refresh_token_ttl cfg) (mr_started_at m + refresh_absolute_ttl cfg))"

definition minted_record ::
  "'s session_service \<Rightarrow> datetime \<Rightarrow> string \<Rightarrow> mint_request \<Rightarrow> refresh_token" where
  "minted_record svc wall token m =
     \<lparr>rt_token_hash = ss_hash svc token, rt_family_id = mr_family_id m, rt_user_id = mr_user_id m,
      rt_generation = mr_generation m, rt_created_at = now_iso wall,
      rt_expires_at = mint_expires_at (ss_settings svc) m, rt_consumed_at = [],
      rt_successor_hash = [], rt_revoked = False, rt_device = mr_device m,
      rt_ip_first_seen = mr_ip m, rt_family_started_at = iso_seconds (mr_started_at m),
      rt_auth_time = mr_auth_time m, rt_amr = mr_amr m, rt_ip_last_seen = mr_ip_last_seen m,
      rt_client = mr_client m, rt_platform = mr_platform m, rt_browser = mr_browser m\<rparr>"

definition mint ::
  "'s session_service \<Rightarrow> 's \<Rightarrow> datetime \<Rightarrow> string \<Rightarrow> mint_request \<Rightarrow> issued_refresh \<times> 's" where
  "mint svc s wall token m =
     (\<lparr>ir_token = token, ir_family_id = mr_family_id m, ir_user_id = mr_user_id m,
       ir_generation = mr_generation m, ir_expires_at = mint_expires_at (ss_settings svc) m,
       ir_device = mr_device m, ir_auth_time = mr_auth_time m, ir_amr = mr_amr m\<rparr>,
      op_put (ss_store svc) s (minted_record svc wall token m))"

definition start_family ::
  "'s session_service \<Rightarrow> 's \<Rightarrow> datetime \<Rightarrow> string \<Rightarrow> string \<Rightarrow> string \<Rightarrow> string \<Rightarrow> string \<Rightarrow> string \<Rightarrow>
   datetime \<Rightarrow> int option \<Rightarrow> string list \<Rightarrow> issued_refresh \<times> 's" where
  "start_family svc s wall family_id token user_id device ip user_agent moment auth_time amr =
     mint svc s wall token
       \<lparr>mr_family_id = family_id, mr_user_id = user_id, mr_generation = 1,
        mr_device = str_or device unknown_device, mr_ip = ip, mr_started_at = moment,
        mr_now = moment,
        mr_auth_time = (case auth_time of None \<Rightarrow> int_timestamp moment | Some t \<Rightarrow> t),
        mr_amr = fromkeys amr, mr_ip_last_seen = ip,
        mr_client = client_from_user_agent user_agent,
        mr_platform = platform_from_user_agent user_agent,
        mr_browser = browser_from_user_agent user_agent\<rparr>"

section \<open>Rotation\<close>

text \<open>
  The three parts of \<^verbatim>\<open>rotate\<close>. \<open>rotate_check\<close> reads the presented row and answers a
  refusal or the row to rotate; \<open>rotate_mint\<close> writes the successor; \<open>rotate_settle\<close> makes the
  conditional consume, and \<open>after_failed_consume\<close> decides when it lost. The empty result
  \<open>refused\<close> is \<^verbatim>\<open>RotationResult(outcome=...)\<close> with its defaults.
\<close>

definition refused :: "rotation_outcome \<Rightarrow> rotation_result" where
  "refused outcome =
     \<lparr>rr_outcome = outcome, rr_issued = None, rr_family_id = [], rr_user_id = [], rr_revoked = 0\<rparr>"

definition refused_for :: "rotation_outcome \<Rightarrow> refresh_token \<Rightarrow> nat \<Rightarrow> rotation_result" where
  "refused_for outcome r revoked =
     \<lparr>rr_outcome = outcome, rr_issued = None, rr_family_id = rt_family_id r,
      rr_user_id = rt_user_id r, rr_revoked = revoked\<rparr>"

definition issued_for :: "rotation_outcome \<Rightarrow> refresh_token \<Rightarrow> issued_refresh \<Rightarrow> rotation_result" where
  "issued_for outcome r issued =
     \<lparr>rr_outcome = outcome, rr_issued = Some issued, rr_family_id = rt_family_id r,
      rr_user_id = rt_user_id r, rr_revoked = 0\<rparr>"

definition rotate_check ::
  "'s session_service \<Rightarrow> 's \<Rightarrow> datetime \<Rightarrow> string \<Rightarrow> datetime \<Rightarrow> (rotation_result + refresh_token) \<times> 's" where
  "rotate_check svc s wall presented moment =
     (case op_get (ss_store svc) s (ss_hash svc presented) of
        None \<Rightarrow> (Inl (refused Unknown), s)
      | Some r \<Rightarrow>
          if rt_revoked r then (Inl (refused_for Revoked r 0), s)
          else if is_expired moment (rt_expires_at r)
               \<or> past_absolute_cap (ss_settings svc) wall r moment
          then (case op_revoke_family (ss_store svc) s (rt_family_id r) of
                  (s, revoked) \<Rightarrow> (Inl (refused_for Expired r revoked), s))
          else (Inr r, s))"

definition successor_request ::
  "datetime \<Rightarrow> refresh_token \<Rightarrow> string \<Rightarrow> string \<Rightarrow> datetime \<Rightarrow> mint_request" where
  "successor_request wall r ip user_agent moment =
     \<lparr>mr_family_id = rt_family_id r, mr_user_id = rt_user_id r,
      mr_generation = rt_generation r + 1, mr_device = str_or (rt_device r) unknown_device,
      mr_ip = str_or (rt_ip_first_seen r) ip, mr_started_at = family_started_at wall r,
      mr_now = moment, mr_auth_time = record_auth_time wall r, mr_amr = rt_amr r,
      mr_ip_last_seen = str_or ip (str_or (rt_ip_last_seen r) (rt_ip_first_seen r)),
      mr_client = str_or (rt_client r) (client_from_user_agent user_agent),
      mr_platform = str_or (rt_platform r) (platform_from_user_agent user_agent),
      mr_browser = str_or (rt_browser r) (browser_from_user_agent user_agent)\<rparr>"

definition rotate_mint ::
  "'s session_service \<Rightarrow> 's \<Rightarrow> datetime \<Rightarrow> string \<Rightarrow> refresh_token \<Rightarrow> string \<Rightarrow> string \<Rightarrow> datetime \<Rightarrow>
   issued_refresh \<times> 's" where
  "rotate_mint svc s wall token r ip user_agent moment =
     mint svc s wall token (successor_request wall r ip user_agent moment)"

definition within_grace :: "session_settings \<Rightarrow> refresh_token \<Rightarrow> datetime \<Rightarrow> bool" where
  "within_grace cfg current moment =
     (case parse_stamp (rt_consumed_at current) of
        None \<Rightarrow> False
      | Some consumed_at \<Rightarrow>
          refresh_reuse_grace cfg > 0 \<and> moment - consumed_at \<le> refresh_reuse_grace cfg
          \<and> rt_successor_hash current \<noteq> [])"

definition replay_request ::
  "datetime \<Rightarrow> refresh_token \<Rightarrow> refresh_token \<Rightarrow> datetime \<Rightarrow> mint_request" where
  "replay_request wall current successor moment =
     \<lparr>mr_family_id = rt_family_id current, mr_user_id = rt_user_id current,
      mr_generation = rt_generation successor,
      mr_device = str_or (rt_device current) unknown_device,
      mr_ip = rt_ip_first_seen current, mr_started_at = family_started_at wall current,
      mr_now = moment,
      mr_auth_time = max (record_auth_time wall current) (record_auth_time wall successor),
      mr_amr = rt_amr current,
      mr_ip_last_seen = str_or (rt_ip_last_seen successor)
        (str_or (rt_ip_last_seen current) (rt_ip_first_seen current)),
      mr_client = str_or (rt_client successor) (rt_client current),
      mr_platform = str_or (rt_platform successor) (rt_platform current),
      mr_browser = str_or (rt_browser successor) (rt_browser current)\<rparr>"

definition reuse_detected ::
  "'s session_service \<Rightarrow> 's \<Rightarrow> refresh_token \<Rightarrow> rotation_result \<times> 's" where
  "reuse_detected svc s current =
     (case op_revoke_family (ss_store svc) s (rt_family_id current) of
        (s, revoked) \<Rightarrow> (refused_for Reuse current revoked, s))"

definition after_failed_consume ::
  "'s session_service \<Rightarrow> 's \<Rightarrow> datetime \<Rightarrow> string \<Rightarrow> string \<Rightarrow> datetime \<Rightarrow> rotation_result \<times> 's" where
  "after_failed_consume svc s wall token token_hash moment =
     (case op_get (ss_store svc) s token_hash of
        None \<Rightarrow> (refused Unknown, s)
      | Some current \<Rightarrow>
          if rt_revoked current then (refused_for Revoked current 0, s)
          else if \<not> within_grace (ss_settings svc) current moment then reuse_detected svc s current
          else (case op_get (ss_store svc) s (rt_successor_hash current) of
                  None \<Rightarrow> reuse_detected svc s current
                | Some successor \<Rightarrow>
                    (case mint svc s wall token (replay_request wall current successor moment) of
                       (issued, s) \<Rightarrow> (issued_for Replayed current issued, s))))"

definition rotate_settle ::
  "'s session_service \<Rightarrow> 's \<Rightarrow> datetime \<Rightarrow> string \<Rightarrow> string \<Rightarrow> refresh_token \<Rightarrow> issued_refresh \<Rightarrow>
   datetime \<Rightarrow> rotation_result \<times> 's" where
  "rotate_settle svc s wall token presented r successor moment =
     (case op_consume (ss_store svc) s (ss_hash svc presented)
             (ss_hash svc (ir_token successor)) (iso_seconds moment) of
        (Some _, s) \<Rightarrow> (issued_for Rotated r successor, s)
      | (None, s) \<Rightarrow> after_failed_consume svc s wall token (ss_hash svc presented) moment)"

definition rotate_session ::
  "'s session_service \<Rightarrow> 's \<Rightarrow> datetime \<Rightarrow> string \<Rightarrow> string \<Rightarrow> string \<Rightarrow> string \<Rightarrow> string \<Rightarrow> datetime \<Rightarrow>
   rotation_result \<times> 's" where
  "rotate_session svc s wall token1 token2 presented ip user_agent moment =
     (case rotate_check svc s wall presented moment of
        (Inl result, s) \<Rightarrow> (result, s)
      | (Inr r, s) \<Rightarrow>
          (case rotate_mint svc s wall token1 r ip user_agent moment of
             (successor, s) \<Rightarrow> rotate_settle svc s wall token2 presented r successor moment))"

section \<open>The other operations\<close>

definition peek ::
  "'s session_service \<Rightarrow> 's \<Rightarrow> datetime \<Rightarrow> string \<Rightarrow> datetime \<Rightarrow> presented_session option" where
  "peek svc s wall presented moment =
     (if presented = [] then None
      else case op_get (ss_store svc) s (ss_hash svc presented) of
          None \<Rightarrow> None
        | Some r \<Rightarrow>
            if rt_revoked r then None
            else if rt_is_consumed r \<or> rt_successor_hash r \<noteq> [] then None
            else if is_expired moment (rt_expires_at r)
                 \<or> past_absolute_cap (ss_settings svc) wall r moment then None
            else Some \<lparr>ps_user_id = rt_user_id r, ps_family_id = rt_family_id r,
                       ps_auth_time = record_auth_time wall r, ps_amr = rt_amr r,
                       ps_device = str_or (rt_device r) unknown_device\<rparr>)"

definition revoke_family :: "'s session_service \<Rightarrow> 's \<Rightarrow> string \<Rightarrow> 's \<times> nat" where
  "revoke_family svc s family_id = op_revoke_family (ss_store svc) s family_id"

definition revoke_presented :: "'s session_service \<Rightarrow> 's \<Rightarrow> string \<Rightarrow> rotation_result \<times> 's" where
  "revoke_presented svc s presented =
     (case op_get (ss_store svc) s (ss_hash svc presented) of
        None \<Rightarrow> (refused Unknown, s)
      | Some r \<Rightarrow>
          (case op_revoke_family (ss_store svc) s (rt_family_id r) of
             (s, revoked) \<Rightarrow> (refused_for Revoked r revoked, s)))"

definition revoke_device :: "'s session_service \<Rightarrow> 's \<Rightarrow> string \<Rightarrow> string \<Rightarrow> 's \<times> nat" where
  "revoke_device svc s user_id device =
     (case op_revoke_all_for_device (ss_store svc) s user_id device of
        Some (s, n) \<Rightarrow> (s, n) | None \<Rightarrow> (s, 0))"

definition family_of :: "'s session_service \<Rightarrow> 's \<Rightarrow> string \<Rightarrow> string" where
  "family_of svc s presented =
     (if presented = [] then []
      else case op_get (ss_store svc) s (ss_hash svc presented) of
          None \<Rightarrow> [] | Some r \<Rightarrow> rt_family_id r)"

fun revoke_listed :: "'s session_service \<Rightarrow> 's \<Rightarrow> string \<Rightarrow> string list \<Rightarrow> 's \<times> nat" where
  "revoke_listed svc s except_family_id [] = (s, 0)"
| "revoke_listed svc s except_family_id (f # fs) =
     (if f \<noteq> except_family_id
      then (case op_revoke_family (ss_store svc) s f of (s, n) \<Rightarrow>
              case revoke_listed svc s except_family_id fs of (s, m) \<Rightarrow> (s, n + m))
      else revoke_listed svc s except_family_id fs)"

definition revoke_all_for_user ::
  "'s session_service \<Rightarrow> 's \<Rightarrow> string \<Rightarrow> string list option \<Rightarrow> string \<Rightarrow> 's \<times> nat" where
  "revoke_all_for_user svc s user_id family_ids except_family_id =
     (case family_ids of
        Some fs \<Rightarrow> revoke_listed svc s except_family_id fs
      | None \<Rightarrow>
          (case op_revoke_all_for_user (ss_store svc) s user_id except_family_id of
             Some (s, n) \<Rightarrow> (s, n) | None \<Rightarrow> (s, 0)))"

definition live_record :: "session_settings \<Rightarrow> datetime \<Rightarrow> datetime \<Rightarrow> refresh_token \<Rightarrow> bool" where
  "live_record cfg wall moment r =
     (\<not> rt_revoked r \<and> \<not> is_expired moment (rt_expires_at r) \<and> \<not> past_absolute_cap cfg wall r moment)"

definition summary_of :: "refresh_token \<Rightarrow> session_summary" where
  "summary_of r =
     \<lparr>sm_family_id = rt_family_id r, sm_device = str_or (rt_device r) unknown_device,
      sm_ip = rt_ip_first_seen r, sm_started_at = str_or (rt_family_started_at r) (rt_created_at r),
      sm_last_active_at = rt_created_at r, sm_expires_at = rt_expires_at r, sm_amr = rt_amr r,
      sm_last_ip = str_or (rt_ip_last_seen r) (rt_ip_first_seen r), sm_client = rt_client r,
      sm_platform = rt_platform r, sm_client_id = oauth_client_of_device (rt_device r),
      sm_browser = rt_browser r\<rparr>"

text \<open>\<^verbatim>\<open>sorted(xs, key=k, reverse=True)\<close>: descending, equal keys in their first order.\<close>

definition list_for_user ::
  "'s session_service \<Rightarrow> 's \<Rightarrow> datetime \<Rightarrow> string \<Rightarrow> datetime \<Rightarrow> session_summary list" where
  "list_for_user svc s wall user_id moment =
     (case op_latest_by_family (ss_store svc) s user_id of
        None \<Rightarrow> []
      | Some records \<Rightarrow>
          rev (sort_key sm_last_active_at
            (rev (map summary_of (filter (live_record (ss_settings svc) wall moment) records)))))"

definition revoke_owned_family ::
  "'s session_service \<Rightarrow> 's \<Rightarrow> datetime \<Rightarrow> string \<Rightarrow> string \<Rightarrow> datetime \<Rightarrow> nat option \<times> 's" where
  "revoke_owned_family svc s wall user_id family_id moment =
     (if family_id = [] then (None, s)
      else if family_id \<notin> sm_family_id ` set (list_for_user svc s wall user_id moment) then (None, s)
      else (case op_revoke_family (ss_store svc) s family_id of (s, n) \<Rightarrow> (Some n, s)))"

definition record_reauthentication :: "'s session_service \<Rightarrow> 's \<Rightarrow> string \<Rightarrow> int \<Rightarrow> 's \<times> nat" where
  "record_reauthentication svc s family_id auth_time =
     (if family_id = [] then (s, 0)
      else case op_set_family_auth_time (ss_store svc) s family_id auth_time of
          Some (s, n) \<Rightarrow> (s, n) | None \<Rightarrow> (s, 0))"

definition family_amr :: "'s session_service \<Rightarrow> 's \<Rightarrow> string \<Rightarrow> string list" where
  "family_amr svc s family_id =
     (if family_id = [] then []
      else case op_family_amr (ss_store svc) s family_id of Some amr \<Rightarrow> amr | None \<Rightarrow> [])"

end
