(* ===== verification/SessionLaws.thy ===== *)
theory SessionLaws
  imports Sessions
begin

text \<open>
  What \<^verbatim>\<open>SessionService\<close> guarantees over any store that keeps the \<^verbatim>\<open>RefreshTokenStore\<close>
  contract: the locale \<open>session_service_over\<close> extends \<open>refresh_store\<close> by the service and
  gives each operation's effect on the rows; \<open>session_step\<close> is one request at a time and
  \<open>race_step\<close> lets the phases of several rotations interleave. The locale is interpreted on
  the service over the in-memory store, and the session properties follow from there.
\<close>

section \<open>The effect of each operation on the rows\<close>

locale session_service_over = refresh_store "ss_store svc" rows ok
  for svc :: "'s session_service" and rows :: "'s \<Rightarrow> string \<Rightarrow> refresh_token option" and ok
begin

lemma mint_effect:
  assumes "ok s"
  shows "ok (snd (mint svc s wall token m))"
    and "rows (snd (mint svc s wall token m)) =
      (rows s)(ss_hash svc token \<mapsto> minted_record svc wall token m)"
  using assms by (simp_all add: mint_def put_ok put_rows minted_record_def)

lemma rotate_check_cases:
  assumes "ok s"
  shows "rotate_check svc s wall presented moment =
    (case rows s (ss_hash svc presented) of
       None \<Rightarrow> (Inl (refused Unknown), s)
     | Some r \<Rightarrow>
         if live_record (ss_settings svc) wall moment r then (Inr r, s)
         else if rt_revoked r then (Inl (refused_for Revoked r 0), s)
         else (Inl (refused_for Expired r (snd (op_revoke_family (ss_store svc) s (rt_family_id r)))),
               fst (op_revoke_family (ss_store svc) s (rt_family_id r))))"
  using assms
  by (auto simp: rotate_check_def get_rows live_record_def split: option.splits prod.splits)

lemma rotate_live:
  fixes ip user_agent :: string
  assumes "ok s" and "rows s (ss_hash svc presented) = Some r"
    and "live_record (ss_settings svc) wall moment r" and "\<not> rt_is_consumed r"
    and "rows s (ss_hash svc token1) = None"
  defines "m \<equiv> successor_request wall r ip user_agent moment"
  shows "fst (rotate_session svc s wall token1 token2 presented ip user_agent moment) =
      issued_for Rotated r (fst (mint svc s wall token1 m))"
    and "rows (snd (rotate_session svc s wall token1 token2 presented ip user_agent moment)) =
      (rows s)(ss_hash svc token1 \<mapsto> minted_record svc wall token1 m,
               ss_hash svc presented \<mapsto> r\<lparr>rt_consumed_at := iso_seconds moment,
                                          rt_successor_hash := ss_hash svc token1\<rparr>)"
    and "ok (snd (rotate_session svc s wall token1 token2 presented ip user_agent moment))"
proof -
  let ?h = "ss_hash svc presented" and ?h1 = "ss_hash svc token1"
  obtain iss s1 where minted: "mint svc s wall token1 m = (iss, s1)" by force
  note eff = mint_effect [OF assms(1), of wall token1 m, unfolded minted, simplified]
  have ne: "?h1 \<noteq> ?h" using assms(2,5) by auto
  have row: "rows s1 ?h = Some r" using eff(2) assms(2) ne by simp
  have tok: "ir_token iss = token1" using minted by (auto simp: mint_def)
  obtain p s2 where settle: "op_consume (ss_store svc) s1 ?h ?h1 (iso_seconds moment) = (p, s2)" by force
  have p: "p = Some r" "rows s2 = (rows s1)(?h \<mapsto> r\<lparr>rt_consumed_at := iso_seconds moment,
                                          rt_successor_hash := ?h1\<rparr>)"
    using consume_wins [OF eff(1) row assms(4), of "iso_seconds moment" ?h1] settle by simp_all
  have ok2: "ok s2" using consume_ok [OF eff(1), of ?h ?h1 "iso_seconds moment"] settle by simp
  have rot: "rotate_session svc s wall token1 token2 presented ip user_agent moment = (issued_for Rotated r iss, s2)"
    using assms(2,3) settle minted p tok
    by (simp add: rotate_session_def rotate_check_cases [OF assms(1)] rotate_mint_def rotate_settle_def
        m_def [symmetric])
  show "fst (rotate_session svc s wall token1 token2 presented ip user_agent moment) =
      issued_for Rotated r (fst (mint svc s wall token1 m))" using rot minted by simp
  show "rows (snd (rotate_session svc s wall token1 token2 presented ip user_agent moment)) =
      (rows s)(?h1 \<mapsto> minted_record svc wall token1 m,
               ?h \<mapsto> r\<lparr>rt_consumed_at := iso_seconds moment, rt_successor_hash := ?h1\<rparr>)"
    using rot p(2) eff(2) by simp
  show "ok (snd (rotate_session svc s wall token1 token2 presented ip user_agent moment))" using rot ok2 by simp
qed

lemma reuse_effect:
  assumes "ok s"
  shows "ok (snd (reuse_detected svc s c))"
    and "rows (snd (reuse_detected svc s c)) h = revoked_where (\<lambda>r. rt_family_id r = rt_family_id c) (rows s h)"
    and "rr_outcome (fst (reuse_detected svc s c)) = Reuse" and "rr_issued (fst (reuse_detected svc s c)) = None"
  using revoke_ok [OF assms, of "rt_family_id c"] revoke_rows [OF assms, of "rt_family_id c"]
  by (auto simp: reuse_detected_def refused_for_def split: prod.splits)

text \<open>A spent token: the consume loses, so the successor minted first stays behind in the table.\<close>

lemma rotate_spent:
  fixes ip user_agent :: string
  assumes "ok s" and "rows s (ss_hash svc presented) = Some r"
    and "live_record (ss_settings svc) wall moment r" and "rt_is_consumed r"
    and "rows s (ss_hash svc token1) = None"
  defines "s1 \<equiv> snd (rotate_mint svc s wall token1 r ip user_agent moment)"
  shows "\<exists>s2. ok s2 \<and> rows s2 = rows s1 \<and>
      rotate_session svc s wall token1 token2 presented ip user_agent moment =
        after_failed_consume svc s2 wall token2 (ss_hash svc presented) moment"
    and "rows s1 = (rows s)(ss_hash svc token1 \<mapsto>
      minted_record svc wall token1 (successor_request wall r ip user_agent moment))"
    and "rows s1 (ss_hash svc presented) = Some r"
proof -
  let ?h = "ss_hash svc presented" and ?h1 = "ss_hash svc token1"
  let ?m = "successor_request wall r ip user_agent moment"
  obtain iss s1' where minted: "mint svc s wall token1 ?m = (iss, s1')" by force
  have s1: "s1 = s1'" using minted by (simp add: s1_def rotate_mint_def)
  note eff = mint_effect [OF assms(1), of wall token1 ?m, unfolded minted, simplified, folded s1]
  show rows1: "rows s1 = (rows s)(?h1 \<mapsto> minted_record svc wall token1 ?m)" by (rule eff)
  have ne: "?h1 \<noteq> ?h" using assms(2,5) by auto
  show row: "rows s1 ?h = Some r" using rows1 assms(2) ne by simp
  obtain p s2 where settle:
    "op_consume (ss_store svc) s1 ?h (ss_hash svc (ir_token iss)) (iso_seconds moment) = (p, s2)" by force
  have lost: "p = None" "rows s2 = rows s1"
    using consume_loses [OF eff(1), of ?h "ss_hash svc (ir_token iss)" "iso_seconds moment"]
      row assms(4) settle by simp_all
  have "ok s2" using consume_ok [OF eff(1), of ?h "ss_hash svc (ir_token iss)" "iso_seconds moment"] settle
    by simp
  moreover have "rotate_session svc s wall token1 token2 presented ip user_agent moment =
      after_failed_consume svc s2 wall token2 ?h moment"
    using assms(2,3) settle minted lost s1
    by (simp add: rotate_session_def rotate_check_cases [OF assms(1)] rotate_mint_def rotate_settle_def)
  ultimately show "\<exists>s2. ok s2 \<and> rows s2 = rows s1 \<and>
      rotate_session svc s wall token1 token2 presented ip user_agent moment =
        after_failed_consume svc s2 wall token2 ?h moment" using lost by blast
qed

text \<open>The branches of the failed consume, on the rows it leaves.\<close>

lemma after_failed_effect:
  fixes wall moment :: datetime and token h :: string
  assumes "ok s"
  defines "after \<equiv> after_failed_consume svc s wall token h moment"
  shows "ok (snd after)"
    and "rows (snd after) = rows s \<and> rr_issued (fst after) = None \<or>
      (\<exists>c. rows s h = Some c \<and> \<not> rt_revoked c \<and>
        (rows (snd after) = (\<lambda>k. revoked_where (\<lambda>r. rt_family_id r = rt_family_id c) (rows s k)) \<and>
           rr_issued (fst after) = None \<or>
         (\<exists>n. rows s (rt_successor_hash c) = Some n \<and> within_grace (ss_settings svc) c moment \<and>
            rr_issued (fst after) = Some (fst (mint svc s wall token (replay_request wall c n moment))) \<and>
            rows (snd after) = (rows s)(ss_hash svc token \<mapsto>
              minted_record svc wall token (replay_request wall c n moment)))))"
    and "rr_outcome (fst after) \<noteq> Rotated"
proof -
  note simps = after_def after_failed_consume_def get_rows [OF assms(1)]
  have fun_eq: "rows (snd (reuse_detected svc s c)) =
      (\<lambda>k. revoked_where (\<lambda>r. rt_family_id r = rt_family_id c) (rows s k))" for c
    using reuse_effect(2) [OF assms(1), of c] by auto
  show "ok (snd after)"
    using assms(1) reuse_effect(1) [OF assms(1)] mint_effect(1) [OF assms(1)]
    by (auto simp: simps split: option.splits prod.splits)
      (metis snd_conv)+
  show "rr_outcome (fst after) \<noteq> Rotated"
    using reuse_effect(3) [OF assms(1)]
    by (auto simp: simps refused_def refused_for_def issued_for_def split: option.splits prod.splits)
  show "rows (snd after) = rows s \<and> rr_issued (fst after) = None \<or>
      (\<exists>c. rows s h = Some c \<and> \<not> rt_revoked c \<and>
        (rows (snd after) = (\<lambda>k. revoked_where (\<lambda>r. rt_family_id r = rt_family_id c) (rows s k)) \<and>
           rr_issued (fst after) = None \<or>
         (\<exists>n. rows s (rt_successor_hash c) = Some n \<and> within_grace (ss_settings svc) c moment \<and>
            rr_issued (fst after) = Some (fst (mint svc s wall token (replay_request wall c n moment))) \<and>
            rows (snd after) = (rows s)(ss_hash svc token \<mapsto>
              minted_record svc wall token (replay_request wall c n moment)))))"
  proof (cases "rows s h")
    case None
    then show ?thesis by (simp add: simps refused_def)
  next
    case (Some c)
    show ?thesis
    proof (cases "\<not> rt_revoked c \<and> within_grace (ss_settings svc) c moment \<and>
        rows s (rt_successor_hash c) \<noteq> None")
      case True
      then obtain n where n: "rows s (rt_successor_hash c) = Some n" by auto
      obtain i s' where m: "mint svc s wall token (replay_request wall c n moment) = (i, s')" by force
      have "after = (issued_for Replayed c i, s')" using Some True n m by (simp add: simps)
      then show ?thesis
        using Some True n m mint_effect(2) [OF assms(1), of wall token "replay_request wall c n moment"]
        by (auto simp: issued_for_def)
    next
      case False
      then show ?thesis
        using Some reuse_effect(4) [OF assms(1), of c]
        by (cases "rt_revoked c") (auto simp: simps refused_for_def fun_eq split: option.splits)
    qed
  qed
qed

lemma rotate_reuse:
  fixes ip user_agent :: string
  assumes "ok s" and "rows s (ss_hash svc presented) = Some r"
    and "live_record (ss_settings svc) wall moment r" and "rt_is_consumed r"
    and "rows s (ss_hash svc token1) = None"
    and "\<not> within_grace (ss_settings svc) r moment"
  shows "rr_outcome (fst (rotate_session svc s wall token1 token2 presented ip user_agent moment)) = Reuse"
    and "rr_issued (fst (rotate_session svc s wall token1 token2 presented ip user_agent moment)) = None"
    and "rows (snd (rotate_session svc s wall token1 token2 presented ip user_agent moment)) k =
      revoked_where (\<lambda>x. rt_family_id x = rt_family_id r)
        (((rows s)(ss_hash svc token1 \<mapsto>
           minted_record svc wall token1 (successor_request wall r ip user_agent moment))) k)"
proof -
  note spent = rotate_spent [OF assms(1-5), where ip = ip and user_agent = user_agent]
  obtain s2 where s2: "ok s2"
    "rows s2 = rows (snd (rotate_mint svc s wall token1 r ip user_agent moment))"
    "rotate_session svc s wall token1 token2 presented ip user_agent moment =
        after_failed_consume svc s2 wall token2 (ss_hash svc presented) moment"
    using spent(1) [of token2] by blast
  have "\<not> rt_revoked r" using assms(3) by (simp add: live_record_def)
  then have "after_failed_consume svc s2 wall token2 (ss_hash svc presented) moment = reuse_detected svc s2 r"
    using s2 spent(3) assms(6) by (simp add: after_failed_consume_def get_rows)
  then show "rr_outcome (fst (rotate_session svc s wall token1 token2 presented ip user_agent moment)) = Reuse"
    and "rr_issued (fst (rotate_session svc s wall token1 token2 presented ip user_agent moment)) = None"
    and "rows (snd (rotate_session svc s wall token1 token2 presented ip user_agent moment)) k =
      revoked_where (\<lambda>x. rt_family_id x = rt_family_id r)
        (((rows s)(ss_hash svc token1 \<mapsto>
           minted_record svc wall token1 (successor_request wall r ip user_agent moment))) k)"
    using reuse_effect [OF s2(1)] s2(2,3) spent(2) by simp_all
qed

lemma rotate_replay:
  fixes ip user_agent :: string
  assumes "ok s" and "rows s (ss_hash svc presented) = Some r"
    and "live_record (ss_settings svc) wall moment r" and "rt_is_consumed r"
    and "rows s (ss_hash svc token1) = None"
    and "within_grace (ss_settings svc) r moment"
    and "rows s (rt_successor_hash r) = Some n"
  shows "\<exists>s2. fst (rotate_session svc s wall token1 token2 presented ip user_agent moment) =
      issued_for Replayed r (fst (mint svc s2 wall token2 (replay_request wall r n moment)))"
    and "rows (snd (rotate_session svc s wall token1 token2 presented ip user_agent moment)) =
      (rows s)(ss_hash svc token1 \<mapsto>
           minted_record svc wall token1 (successor_request wall r ip user_agent moment),
         ss_hash svc token2 \<mapsto> minted_record svc wall token2 (replay_request wall r n moment))"
proof -
  note spent = rotate_spent [OF assms(1-5), where ip = ip and user_agent = user_agent]
  obtain s2 where s2: "ok s2"
    "rows s2 = rows (snd (rotate_mint svc s wall token1 r ip user_agent moment))"
    "rotate_session svc s wall token1 token2 presented ip user_agent moment =
        after_failed_consume svc s2 wall token2 (ss_hash svc presented) moment"
    using spent(1) [of token2] by blast
  obtain i s' where m: "mint svc s2 wall token2 (replay_request wall r n moment) = (i, s')" by force
  have "rt_successor_hash r \<noteq> ss_hash svc token1" using assms(5,7) by auto
  then have "rows s2 (rt_successor_hash r) = Some n" using s2(2) spent(2) assms(7) by simp
  moreover have "\<not> rt_revoked r" using assms(3) by (simp add: live_record_def)
  ultimately have "after_failed_consume svc s2 wall token2 (ss_hash svc presented) moment =
      (issued_for Replayed r i, s')"
    using s2(1,2) spent(3) assms(6) m by (simp add: after_failed_consume_def get_rows)
  then show "\<exists>s2. fst (rotate_session svc s wall token1 token2 presented ip user_agent moment) =
      issued_for Replayed r (fst (mint svc s2 wall token2 (replay_request wall r n moment)))"
    and "rows (snd (rotate_session svc s wall token1 token2 presented ip user_agent moment)) =
      (rows s)(ss_hash svc token1 \<mapsto>
           minted_record svc wall token1 (successor_request wall r ip user_agent moment),
         ss_hash svc token2 \<mapsto> minted_record svc wall token2 (replay_request wall r n moment))"
    using s2(2,3) spent(2) m mint_effect(2) [OF s2(1), of wall token2 "replay_request wall r n moment"]
    by (auto intro: exI [of _ s2])
qed

end

end
