(* ===== verification/SessionRuns.thy ===== *)
theory SessionRuns
  imports SessionLaws
begin

text \<open>
  Runs of the session service, and its properties over the in-memory store. \<open>session_step\<close> is one whole request of any kind;
  \<open>race_step\<close> splits each rotation at its store operations, so that the phases of several
  requests interleave. Fresh tokens hash to no stored row and a fresh family id is not in use,
  which is what 256 random bits and \<^verbatim>\<open>uuid4\<close> give.
\<close>

section \<open>One request at a time\<close>

definition fresh_token :: "'s session_service \<Rightarrow> 's \<Rightarrow> string \<Rightarrow> bool" where
  "fresh_token svc s token = (op_get (ss_store svc) s (ss_hash svc token) = None)"

definition fresh_family :: "'s session_service \<Rightarrow> 's \<Rightarrow> string \<Rightarrow> bool" where
  "fresh_family svc s f = (\<forall>h r. op_get (ss_store svc) s h = Some r \<longrightarrow> rt_family_id r \<noteq> f)"

inductive session_step :: "'s session_service \<Rightarrow> 's \<Rightarrow> 's \<Rightarrow> bool" for svc where
  step_start: "fresh_token svc s token \<Longrightarrow> fresh_family svc s f \<Longrightarrow> in_datetime_range moment \<Longrightarrow>
    session_step svc s
      (snd (start_family svc s wall f token user_id device ip user_agent moment auth_time amr))"
| step_rotate: "fresh_token svc s token1 \<Longrightarrow> fresh_token svc s token2 \<Longrightarrow>
    ss_hash svc token1 \<noteq> ss_hash svc token2 \<Longrightarrow>
    session_step svc s (snd (rotate_session svc s wall token1 token2 presented ip user_agent moment))"
| step_revoke_family: "session_step svc s (fst (revoke_family svc s f))"
| step_revoke_presented: "session_step svc s (snd (revoke_presented svc s presented))"
| step_revoke_device: "session_step svc s (fst (revoke_device svc s user_id device))"
| step_revoke_all: "session_step svc s (fst (revoke_all_for_user svc s user_id families f))"
| step_revoke_owned: "session_step svc s (snd (revoke_owned_family svc s wall user_id f moment))"
| step_reauth: "session_step svc s (fst (record_reauthentication svc s f t))"

text \<open>What every generation of a family inherits from the sign-in that started it.\<close>

record family_origin =
  fo_user :: string
  fo_device :: string
  fo_amr :: "string list"
  fo_birth :: datetime

definition descends :: "session_settings \<Rightarrow> family_origin \<Rightarrow> refresh_token \<Rightarrow> bool" where
  "descends cfg org r =
     (rt_user_id r = fo_user org \<and> rt_device r = fo_device org \<and> fo_device org \<noteq> [] \<and>
      rt_amr r = fo_amr org \<and> in_datetime_range (fo_birth org) \<and>
      rt_family_started_at r = iso_seconds (fo_birth org) \<and>
      rt_expires_at r \<le> int_timestamp (fo_birth org + refresh_absolute_ttl cfg))"

definition family_dead :: "('h \<Rightarrow> refresh_token option) \<Rightarrow> string \<Rightarrow> bool" where
  "family_dead rows f = (\<forall>h r. rows h = Some r \<longrightarrow> rt_family_id r = f \<longrightarrow> rt_revoked r)"

section \<open>How an operation may change a table\<close>

text \<open>
  \<open>frame\<close>: a write that keeps every row's identity and never lifts a revocation.
\<close>

definition same_origin :: "refresh_token \<Rightarrow> refresh_token \<Rightarrow> bool" where
  "same_origin r r' =
     (rt_family_id r' = rt_family_id r \<and> rt_user_id r' = rt_user_id r \<and> rt_device r' = rt_device r \<and>
      rt_amr r' = rt_amr r \<and> rt_family_started_at r' = rt_family_started_at r \<and>
      rt_expires_at r' = rt_expires_at r \<and> (rt_revoked r \<longrightarrow> rt_revoked r') \<and>
      (rt_is_consumed r \<longrightarrow> rt_is_consumed r'))"

definition frame :: "('h \<Rightarrow> refresh_token option) \<Rightarrow> ('h \<Rightarrow> refresh_token option) \<Rightarrow> bool" where
  "frame rows rows' = (\<forall>h. rel_option same_origin (rows h) (rows' h))"

lemma same_origin_refl [simp]: "same_origin r r"
  by (simp add: same_origin_def)

lemma same_origin_updates [simp]:
  "same_origin r (r\<lparr>rt_revoked := True\<rparr>)"
  "same_origin r (r\<lparr>rt_auth_time := t\<rparr>)"
  "c \<noteq> [] \<Longrightarrow> same_origin r (r\<lparr>rt_consumed_at := c, rt_successor_hash := x\<rparr>)"
  by (simp_all add: same_origin_def rt_is_consumed_def)

lemma same_origin_trans: "same_origin a b \<Longrightarrow> same_origin b c \<Longrightarrow> same_origin a c"
  by (simp add: same_origin_def)

lemma frame_refl [simp]: "frame rows rows"
  by (simp add: frame_def option.rel_refl)

lemma frame_trans: "frame a b \<Longrightarrow> frame b c \<Longrightarrow> frame a c"
  unfolding frame_def
proof
  fix h
  assume "\<forall>h. rel_option same_origin (a h) (b h)" "\<forall>h. rel_option same_origin (b h) (c h)"
  then have "rel_option same_origin (a h) (b h)" "rel_option same_origin (b h) (c h)" by blast+
  then show "rel_option same_origin (a h) (c h)"
    by (cases "a h"; cases "b h"; cases "c h") (auto intro: same_origin_trans)
qed

lemma frame_revoked: "(\<And>h. rows' h = revoked_where p (rows h)) \<Longrightarrow> frame rows rows'"
  by (auto simp: frame_def revoked_where_def option.rel_map intro: option.rel_refl)

lemma frame_at: "frame rows rows' \<Longrightarrow> rel_option same_origin (rows h) (rows' h)"
  unfolding frame_def by blast

lemma frameD: "frame rows rows' \<Longrightarrow> rows' h = Some r' \<Longrightarrow> \<exists>r. rows h = Some r \<and> same_origin r r'"
  using frame_at [of rows rows' h] by (cases "rows h") auto

lemma frame_Some: "frame rows rows' \<Longrightarrow> rows h = Some r \<Longrightarrow> \<exists>r'. rows' h = Some r' \<and> same_origin r r'"
  using frame_at [of rows rows' h] by (cases "rows' h") auto

lemma frame_None: "frame rows rows' \<Longrightarrow> rows' h = None \<longleftrightarrow> rows h = None"
  using frame_at [of rows rows' h] by (cases "rows h"; cases "rows' h") auto

lemma frame_dead: "frame rows rows' \<Longrightarrow> family_dead rows f \<Longrightarrow> family_dead rows' f"
  unfolding family_dead_def by (fastforce dest: frameD simp: same_origin_def)

lemma revoked_where_dead:
  assumes "\<And>h. rows' h = revoked_where (\<lambda>r. rt_family_id r = f) (rows h)"
  shows "family_dead rows' f"
  unfolding family_dead_def
proof (intro allI impI)
  fix h r'
  assume r': "rows' h = Some r'" "rt_family_id r' = f"
  then obtain r where r: "rows h = Some r" using assms [of h] by (cases "rows h") (auto simp: revoked_where_def)
  then have "r' = (if rt_family_id r = f then r\<lparr>rt_revoked := True\<rparr> else r)"
    using r'(1) assms [of h] by (simp add: revoked_where_def)
  then show "rt_revoked r'" using r'(2) by (simp split: if_splits)
qed

lemma same_origin_descends: "same_origin r r' \<Longrightarrow> descends cfg org r \<Longrightarrow> descends cfg org r'"
  by (simp add: descends_def same_origin_def)

text \<open>\<open>child_of\<close>: a row minted into the family of an unrevoked row.\<close>

definition child_of :: "session_settings \<Rightarrow> refresh_token \<Rightarrow> refresh_token \<Rightarrow> bool" where
  "child_of cfg r c =
     (rt_family_id c = rt_family_id r \<and> rt_user_id c = rt_user_id r \<and>
      rt_device c = str_or (rt_device r) unknown_device \<and> rt_amr c = rt_amr r \<and>
      (\<exists>wall. rt_family_started_at c = iso_seconds (family_started_at wall r) \<and>
        rt_expires_at c \<le> int_timestamp (family_started_at wall r + refresh_absolute_ttl cfg)))"

inductive table_write ::
  "session_settings \<Rightarrow> ('h \<Rightarrow> refresh_token option) \<Rightarrow> ('h \<Rightarrow> refresh_token option) \<Rightarrow> bool" for cfg where
  write_frame: "frame rows rows' \<Longrightarrow> table_write cfg rows rows'"
| write_child: "rows h = None \<Longrightarrow> rows h0 = Some r \<Longrightarrow> \<not> rt_revoked r \<Longrightarrow> child_of cfg r c \<Longrightarrow>
    table_write cfg rows (rows(h \<mapsto> c))"

lemma int_timestamp_mono: "a \<le> b \<Longrightarrow> int_timestamp a \<le> int_timestamp b"
proof -
  assume ab: "a \<le> b"
  consider "0 \<le> a" | "a < 0" "0 \<le> b" | "b < 0" using ab by linarith
  then show ?thesis
  proof cases
    case 1
    then show ?thesis using ab by (simp add: int_timestamp_def zdiv_mono1 second_def)
  next
    case 2
    then have "0 \<le> b div second" "0 \<le> (- a) div second"
      by (simp_all add: second_def pos_imp_zdiv_nonneg_iff)
    then show ?thesis using 2 by (simp add: int_timestamp_def)
  next
    case 3
    then show ?thesis using ab by (simp add: int_timestamp_def zdiv_mono1 second_def)
  qed
qed

lemma mint_expires_capped:
  "mint_expires_at cfg m \<le> int_timestamp (mr_started_at m + refresh_absolute_ttl cfg)"
  by (simp add: mint_expires_at_def ttl_at_def int_timestamp_mono)

lemma child_successor:
  "child_of (ss_settings svc) r (minted_record svc wall token (successor_request wall r ip user_agent moment))"
  using mint_expires_capped [of "ss_settings svc" "successor_request wall r ip user_agent moment"]
  by (auto simp: child_of_def minted_record_def successor_request_def)

lemma child_replay:
  "child_of (ss_settings svc) r (minted_record svc wall token (replay_request wall r n moment))"
  using mint_expires_capped [of "ss_settings svc" "replay_request wall r n moment"]
  by (auto simp: child_of_def minted_record_def replay_request_def)

lemma iso_seconds_trunc: "iso_seconds (t div second * second) = iso_seconds t"
  by (simp add: iso_seconds_def iso_naive_def second_def)

lemma child_descends:
  assumes "descends cfg org r" and "child_of cfg r c"
  shows "descends cfg org c"
proof -
  let ?b = "fo_birth org"
  have range: "in_datetime_range ?b" and started: "rt_family_started_at r = iso_seconds ?b"
    using assms(1) by (simp_all add: descends_def)
  then have at: "family_started_at wall r = ?b div second * second" for wall
    by (simp add: family_started_at_def parse_iso_seconds)
  have "?b div second * second \<le> ?b" by (simp add: second_def)
  then have "int_timestamp (?b div second * second + refresh_absolute_ttl cfg) \<le>
      int_timestamp (?b + refresh_absolute_ttl cfg)" by (intro int_timestamp_mono) simp
  then show ?thesis
    using assms range by (auto simp: descends_def child_of_def at iso_seconds_trunc)
qed

lemma table_write_descends:
  assumes "table_write cfg rows rows'"
    and "\<And>h r. rows h = Some r \<Longrightarrow> descends cfg (org (rt_family_id r)) r"
  shows "rows' h = Some r \<Longrightarrow> descends cfg (org (rt_family_id r)) r"
  using assms
proof (induction arbitrary: h r rule: table_write.induct)
  case (write_frame rows rows')
  from frameD [OF write_frame.hyps write_frame.prems(1)]
  obtain r0 where r0: "rows h = Some r0" "same_origin r0 r" by blast
  from r0(2) have "rt_family_id r = rt_family_id r0" by (simp add: same_origin_def)
  with same_origin_descends [OF r0(2) write_frame.prems(2) [OF r0(1)]] show ?case by simp
next
  case (write_child rows h1 h0 r0 c)
  have "rt_family_id c = rt_family_id r0" using write_child.hyps(4) by (simp add: child_of_def)
  with child_descends [OF write_child.prems(2) [OF write_child.hyps(2)] write_child.hyps(4)]
  show ?case using write_child.prems by (cases "h = h1") auto
qed

lemma table_write_dead: "table_write cfg rows rows' \<Longrightarrow> family_dead rows f \<Longrightarrow> family_dead rows' f"
proof (induction rule: table_write.induct)
  case (write_child rows h h0 r c)
  then show ?case by (auto simp: family_dead_def child_of_def)
qed (rule frame_dead)

lemma table_writes_dead: "(table_write cfg)\<^sup>*\<^sup>* rows rows' \<Longrightarrow> family_dead rows f \<Longrightarrow> family_dead rows' f"
  by (induction rule: rtranclp_induct) (auto intro: table_write_dead)

lemma table_writes_descends:
  assumes "(table_write cfg)\<^sup>*\<^sup>* rows rows'"
    and "\<And>h r. rows h = Some r \<Longrightarrow> descends cfg (org (rt_family_id r)) r"
  shows "rows' h = Some r \<Longrightarrow> descends cfg (org (rt_family_id r)) r"
  using assms by (induction arbitrary: h r rule: rtranclp_induct) (auto elim: table_write_descends)

definition family_known :: "('h \<Rightarrow> refresh_token option) \<Rightarrow> string \<Rightarrow> bool" where
  "family_known rows f = (\<exists>h r. rows h = Some r \<and> rt_family_id r = f)"

lemma table_write_known:
  assumes "table_write cfg rows rows'" and "family_known rows f"
  shows "family_known rows' f"
  using assms
proof (induction rule: table_write.induct)
  case (write_frame rows rows')
  then obtain h r where "rows h = Some r" "rt_family_id r = f" by (auto simp: family_known_def)
  with frame_Some [OF write_frame.hyps, of h r] show ?case
    by (auto simp: family_known_def same_origin_def)
next
  case (write_child rows h h0 r c)
  then obtain k x where "rows k = Some x" "rt_family_id x = f" by (auto simp: family_known_def)
  then show ?case
    using write_child.hyps(1) by (auto simp: family_known_def intro!: exI [of _ k] exI [of _ x])
qed

lemma table_writes_known:
  "(table_write cfg)\<^sup>*\<^sup>* rows rows' \<Longrightarrow> family_known rows f \<Longrightarrow> family_known rows' f"
  by (induction rule: rtranclp_induct) (auto intro: table_write_known)

section \<open>Every request is a sequence of such writes\<close>

context session_service_over
begin

lemma fresh_rows: "ok s \<Longrightarrow> fresh_token svc s token \<longleftrightarrow> rows s (ss_hash svc token) = None"
  by (simp add: fresh_token_def get_rows)

lemma revoke_frame:
  "ok s \<Longrightarrow> ok (fst (op_revoke_family (ss_store svc) s f)) \<and>
    frame (rows s) (rows (fst (op_revoke_family (ss_store svc) s f)))"
  using revoke_rows [of s f] by (auto intro: frame_revoked revoke_ok)

lemma after_failed_writes:
  assumes "ok s" and "rows s (ss_hash svc token) = None"
  shows "(table_write (ss_settings svc))\<^sup>*\<^sup>* (rows s) (rows (snd (after_failed_consume svc s wall token h moment)))"
    and "rr_issued (fst (after_failed_consume svc s wall token h moment)) = Some i \<Longrightarrow>
      \<exists>c. rows s h = Some c \<and> \<not> rt_revoked c \<and> ir_family_id i = rt_family_id c"
proof -
  let ?out = "after_failed_consume svc s wall token h moment"
  note eff = after_failed_effect(2) [OF assms(1), of wall token h moment]
  show "(table_write (ss_settings svc))\<^sup>*\<^sup>* (rows s) (rows (snd ?out))"
    using eff
  proof (elim disjE exE conjE)
    fix c n
    assume "rows s h = Some c" "\<not> rt_revoked c"
      "rows (snd ?out) = (rows s)(ss_hash svc token \<mapsto>
          minted_record svc wall token (replay_request wall c n moment))"
    then show ?thesis
      using write_child [of "rows s" "ss_hash svc token" h c, OF assms(2) _ _ child_replay]
      by (auto intro!: r_into_rtranclp)
  qed (auto intro!: r_into_rtranclp write_frame frame_revoked)
  show "rr_issued (fst ?out) = Some i \<Longrightarrow>
      \<exists>c. rows s h = Some c \<and> \<not> rt_revoked c \<and> ir_family_id i = rt_family_id c"
    using eff by (auto simp: mint_def replay_request_def)
qed

lemma rotate_writes:
  fixes wall moment :: datetime and presented ip user_agent :: string
  assumes "ok s" and "rows s (ss_hash svc token1) = None" and "rows s (ss_hash svc token2) = None"
    and "ss_hash svc token1 \<noteq> ss_hash svc token2"
  defines "out \<equiv> rotate_session svc s wall token1 token2 presented ip user_agent moment"
  shows "ok (snd out)"
    and "(table_write (ss_settings svc))\<^sup>*\<^sup>* (rows s) (rows (snd out))"
    and "rr_issued (fst out) = Some i \<Longrightarrow>
      \<exists>c. rows s (ss_hash svc presented) = Some c \<and> \<not> rt_revoked c \<and> ir_family_id i = rt_family_id c"
proof -
  let ?cfg = "ss_settings svc" and ?h = "ss_hash svc presented" and ?h1 = "ss_hash svc token1"
  consider (unknown) "rows s ?h = None"
    | (refused) r where "rows s ?h = Some r" "\<not> live_record ?cfg wall moment r"
    | (live) r where "rows s ?h = Some r" "live_record ?cfg wall moment r" "\<not> rt_is_consumed r"
    | (spent) r where "rows s ?h = Some r" "live_record ?cfg wall moment r" "rt_is_consumed r"
    by (cases "rows s ?h") auto
  then have "ok (snd out) \<and> (table_write ?cfg)\<^sup>*\<^sup>* (rows s) (rows (snd out)) \<and>
      (rr_issued (fst out) = Some i \<longrightarrow>
        (\<exists>c. rows s ?h = Some c \<and> \<not> rt_revoked c \<and> ir_family_id i = rt_family_id c))"
  proof cases
    case unknown
    then have "out = (refused Unknown, s)"
      by (simp add: out_def rotate_session_def rotate_check_cases [OF assms(1)])
    then show ?thesis using assms(1) by (simp add: refused_def)
  next
    case refused
    then have "out = (refused_for Revoked r 0, s) \<or>
        out = (refused_for Expired r (snd (op_revoke_family (ss_store svc) s (rt_family_id r))),
               fst (op_revoke_family (ss_store svc) s (rt_family_id r)))"
      by (simp add: out_def rotate_session_def rotate_check_cases [OF assms(1)])
    then show ?thesis
      using assms(1) revoke_frame [OF assms(1), of "rt_family_id r"]
      by (auto simp: refused_for_def intro!: write_frame r_into_rtranclp)
  next
    case live
    note L = rotate_live [OF assms(1) live assms(2), of token2 ip user_agent, folded out_def]
    let ?c = "minted_record svc wall token1 (successor_request wall r ip user_agent moment)"
    have not_rev: "\<not> rt_revoked r" using live(2) by (simp add: live_record_def)
    have first: "table_write ?cfg (rows s) ((rows s)(?h1 \<mapsto> ?c))"
      by (rule write_child [of "rows s" ?h1 ?h r, OF assms(2) live(1) not_rev child_successor])
    have "?h \<noteq> ?h1" using live(1) assms(2) by auto
    then have "frame ((rows s)(?h1 \<mapsto> ?c)) (rows (snd out))"
      using live(1) by (auto simp: L(2) frame_def option.rel_refl)
    then have "(table_write ?cfg)\<^sup>*\<^sup>* (rows s) (rows (snd out))"
      using first write_frame by (meson converse_rtranclp_into_rtranclp r_into_rtranclp)
    then show ?thesis
      using L(1,3) live(1) not_rev by (auto simp: issued_for_def mint_def successor_request_def)
  next
    case spent
    note sp = rotate_spent [OF assms(1) spent assms(2), where ip = ip and user_agent = user_agent]
    let ?c = "minted_record svc wall token1 (successor_request wall r ip user_agent moment)"
    obtain s2 where s2: "ok s2"
      "rows s2 = rows (snd (rotate_mint svc s wall token1 r ip user_agent moment))"
      "out = after_failed_consume svc s2 wall token2 ?h moment"
      using sp(1) [of token2] out_def by blast
    have rows2: "rows s2 = (rows s)(?h1 \<mapsto> ?c)" using s2(2) sp(2) by simp
    have not_rev: "\<not> rt_revoked r" using spent(2) by (simp add: live_record_def)
    have first: "table_write ?cfg (rows s) (rows s2)"
      unfolding rows2 by (rule write_child [of "rows s" ?h1 ?h r, OF assms(2) spent(1) not_rev child_successor])
    have free: "rows s2 (ss_hash svc token2) = None" using rows2 assms(3,4) by simp
    have "rows s2 ?h = Some r" using s2(2) sp(3) by simp
    then show ?thesis
      using after_failed_writes [OF s2(1) free, of wall ?h moment, folded s2(3)] first
        after_failed_effect(1) [OF s2(1), of wall token2 ?h moment, folded s2(3)] spent(1)
      by (auto intro: converse_rtranclp_into_rtranclp)
  qed
  then show "ok (snd out)" and "(table_write ?cfg)\<^sup>*\<^sup>* (rows s) (rows (snd out))"
    and "rr_issued (fst out) = Some i \<Longrightarrow>
      \<exists>c. rows s ?h = Some c \<and> \<not> rt_revoked c \<and> ir_family_id i = rt_family_id c"
    by blast+
qed

lemma frame_ops:
  assumes "ok s"
  shows "ok (fst (revoke_family svc s f)) \<and> frame (rows s) (rows (fst (revoke_family svc s f)))"
    and "ok (snd (revoke_presented svc s presented)) \<and>
      frame (rows s) (rows (snd (revoke_presented svc s presented)))"
    and "ok (fst (revoke_device svc s u d)) \<and> frame (rows s) (rows (fst (revoke_device svc s u d)))"
    and "ok (snd (revoke_owned_family svc s wall u f moment)) \<and>
      frame (rows s) (rows (snd (revoke_owned_family svc s wall u f moment)))"
    and "ok (fst (record_reauthentication svc s f t)) \<and>
      frame (rows s) (rows (fst (record_reauthentication svc s f t)))"
proof -
  note rev = revoke_frame [OF assms]
  show "ok (fst (revoke_family svc s f)) \<and> frame (rows s) (rows (fst (revoke_family svc s f)))"
    using rev by (simp add: revoke_family_def)
  show "ok (snd (revoke_presented svc s presented)) \<and>
      frame (rows s) (rows (snd (revoke_presented svc s presented)))"
    using assms rev by (auto simp: revoke_presented_def split: option.splits prod.splits) (metis fst_conv)+
  show "ok (snd (revoke_owned_family svc s wall u f moment)) \<and>
      frame (rows s) (rows (snd (revoke_owned_family svc s wall u f moment)))"
    using assms rev [of f] by (auto simp: revoke_owned_family_def split: prod.splits)
  show "ok (fst (revoke_device svc s u d)) \<and> frame (rows s) (rows (fst (revoke_device svc s u d)))"
    using assms revoke_device [of s u d]
    by (auto simp: revoke_device_def split: option.splits intro: frame_revoked)
  show "ok (fst (record_reauthentication svc s f t)) \<and>
      frame (rows s) (rows (fst (record_reauthentication svc s f t)))"
    using assms set_auth_time [of s f t]
    by (auto simp: record_reauthentication_def frame_def option.rel_map split: option.splits
        intro!: option.rel_refl)
qed

lemma revoke_listed_frame:
  "ok s \<Longrightarrow> ok (fst (revoke_listed svc s x fs)) \<and> frame (rows s) (rows (fst (revoke_listed svc s x fs)))"
proof (induction fs arbitrary: s)
  case (Cons f fs)
  obtain s1 n where s1: "op_revoke_family (ss_store svc) s f = (s1, n)" by force
  have "ok s1" "frame (rows s) (rows s1)" using revoke_frame [OF Cons.prems, of f] s1 by simp_all
  then show ?case
    using Cons.IH [of s1] Cons.IH [OF Cons.prems] s1
    by (auto split: prod.splits intro: frame_trans)
qed simp

lemma revoke_all_frame:
  "ok s \<Longrightarrow> ok (fst (revoke_all_for_user svc s u fs x)) \<and>
    frame (rows s) (rows (fst (revoke_all_for_user svc s u fs x)))"
  using revoke_listed_frame [of s x] revoke_user [of s u x]
  by (auto simp: revoke_all_for_user_def split: option.splits intro: frame_revoked)

text \<open>Every step other than a sign-in writes the table by frames and children only.\<close>

lemma start_rows:
  fixes wall moment :: datetime and f token user_id device ip user_agent :: string
    and auth_time :: "int option" and amr :: "string list"
  assumes "ok s"
  defines "out \<equiv> snd (start_family svc s wall f token user_id device ip user_agent moment auth_time amr)"
  shows "ok out"
    and "\<exists>c. rows out = (rows s)(ss_hash svc token \<mapsto> c) \<and> rt_family_id c = f \<and>
      rt_user_id c = user_id \<and> rt_device c = str_or device unknown_device \<and> rt_amr c = fromkeys amr \<and>
      rt_family_started_at c = iso_seconds moment \<and>
      rt_expires_at c \<le> int_timestamp (moment + refresh_absolute_ttl (ss_settings svc))"
proof -
  define m where "m = \<lparr>mr_family_id = f, mr_user_id = user_id, mr_generation = 1,
        mr_device = str_or device unknown_device, mr_ip = ip, mr_started_at = moment,
        mr_now = moment,
        mr_auth_time = (case auth_time of None \<Rightarrow> int_timestamp moment | Some t \<Rightarrow> t),
        mr_amr = fromkeys amr, mr_ip_last_seen = ip,
        mr_client = client_from_user_agent user_agent,
        mr_platform = platform_from_user_agent user_agent,
        mr_browser = browser_from_user_agent user_agent\<rparr>"
  have out: "out = snd (mint svc s wall token m)" by (simp add: out_def start_family_def m_def)
  show "ok out" using mint_effect(1) [OF assms(1)] out by simp
  have "rows out = (rows s)(ss_hash svc token \<mapsto> minted_record svc wall token m)"
    using mint_effect(2) [OF assms(1)] out by simp
  moreover have "mint_expires_at (ss_settings svc) m \<le>
      int_timestamp (moment + refresh_absolute_ttl (ss_settings svc))"
    using mint_expires_capped [of "ss_settings svc" m] by (simp add: m_def)
  ultimately show "\<exists>c. rows out = (rows s)(ss_hash svc token \<mapsto> c) \<and> rt_family_id c = f \<and>
      rt_user_id c = user_id \<and> rt_device c = str_or device unknown_device \<and> rt_amr c = fromkeys amr \<and>
      rt_family_started_at c = iso_seconds moment \<and>
      rt_expires_at c \<le> int_timestamp (moment + refresh_absolute_ttl (ss_settings svc))"
    by (intro exI [of _ "minted_record svc wall token m"]) (auto simp: minted_record_def m_def)
qed

lemma step_writes:
  assumes "session_step svc s s'" and "ok s"
  shows "ok s' \<and>
    ((table_write (ss_settings svc))\<^sup>*\<^sup>* (rows s) (rows s') \<or>
     (\<exists>h c moment. rows s h = None \<and> rows s' = (rows s)(h \<mapsto> c) \<and>
        (\<forall>k r. rows s k = Some r \<longrightarrow> rt_family_id r \<noteq> rt_family_id c) \<and> rt_device c \<noteq> [] \<and>
        in_datetime_range moment \<and> rt_family_started_at c = iso_seconds moment \<and>
        rt_expires_at c \<le> int_timestamp (moment + refresh_absolute_ttl (ss_settings svc))))"
  using assms
proof (cases rule: session_step.cases)
  case (step_start token f moment wall user_id device ip user_agent auth_time amr)
  note st = start_rows [OF assms(2), of wall f token user_id device ip user_agent moment auth_time amr,
      folded step_start(1)]
  obtain c where c: "rows s' = (rows s)(ss_hash svc token \<mapsto> c)" "rt_family_id c = f"
      "rt_device c = str_or device unknown_device" "rt_family_started_at c = iso_seconds moment"
      "rt_expires_at c \<le> int_timestamp (moment + refresh_absolute_ttl (ss_settings svc))"
    using st(2) by blast
  have "rt_device c \<noteq> []" using c(3) by (simp add: str_or_def unknown_device_def)
  moreover have "\<forall>k r. rows s k = Some r \<longrightarrow> rt_family_id r \<noteq> f"
    using step_start(3) assms(2) by (simp add: fresh_family_def get_rows)
  ultimately show ?thesis
    using c step_start(2,4) st(1) fresh_rows [OF assms(2)] by blast
next
  case (step_rotate token1 token2 wall presented ip user_agent moment)
  then show ?thesis
    using rotate_writes(1,2) [OF assms(2)] by (simp add: fresh_rows assms(2))
qed (use frame_ops [OF assms(2)] revoke_all_frame [OF assms(2)] in
    \<open>auto intro!: disjI1 r_into_rtranclp write_frame\<close>)

lemma run_ok: "(session_step svc)\<^sup>*\<^sup>* s s' \<Longrightarrow> ok s \<Longrightarrow> ok s'"
  by (induction rule: rtranclp_induct) (use step_writes in blast)+

lemma step_dead:
  assumes "session_step svc s s'" and "ok s" and "family_dead (rows s) f" and "family_known (rows s) f"
  shows "family_dead (rows s') f \<and> family_known (rows s') f"
proof -
  consider (writes) "(table_write (ss_settings svc))\<^sup>*\<^sup>* (rows s) (rows s')"
    | (start) h c where "rows s h = None" "rows s' = (rows s)(h \<mapsto> c)"
      "\<forall>k r. rows s k = Some r \<longrightarrow> rt_family_id r \<noteq> rt_family_id c"
    using step_writes [OF assms(1,2)] by blast
  then show ?thesis
  proof cases
    case writes
    then show ?thesis using table_writes_dead table_writes_known assms(3,4) by blast
  next
    case start
    obtain k r where kr: "rows s k = Some r" "rt_family_id r = f"
      using assms(4) by (auto simp: family_known_def)
    then have "rt_family_id c \<noteq> f" using start(3) by blast
    moreover have "k \<noteq> h" using kr(1) start(1) by auto
    ultimately show ?thesis using assms(3) start kr by (auto simp: family_dead_def family_known_def)
  qed
qed

lemma run_dead:
  assumes "(session_step svc)\<^sup>*\<^sup>* s s'" and "ok s" and "family_dead (rows s) f" and "family_known (rows s) f"
  shows "family_dead (rows s') f"
proof -
  have "ok s' \<and> family_dead (rows s') f \<and> family_known (rows s') f"
    using assms by (induction rule: rtranclp_induct) (use step_dead step_writes in blast)+
  then show ?thesis by blast
qed

lemma run_descends:
  assumes "(session_step svc)\<^sup>*\<^sup>* s s'" and "ok s"
    and "\<exists>org. \<forall>h r. rows s h = Some r \<longrightarrow> descends (ss_settings svc) (org (rt_family_id r)) r"
  shows "\<exists>org. \<forall>h r. rows s' h = Some r \<longrightarrow> descends (ss_settings svc) (org (rt_family_id r)) r"
  using assms
proof (induction rule: rtranclp_induct)
  case (step s1 s2)
  obtain org where org: "\<And>h r. rows s1 h = Some r \<Longrightarrow> descends (ss_settings svc) (org (rt_family_id r)) r"
    using step.IH [OF step.prems] by blast
  have "ok s1" by (rule run_ok [OF step.hyps(1) step.prems(1)])
  from step_writes [OF step.hyps(2) this] show ?case
  proof (elim conjE disjE exE)
    assume w: "(table_write (ss_settings svc))\<^sup>*\<^sup>* (rows s1) (rows s2)"
    have "descends (ss_settings svc) (org (rt_family_id r)) r" if "rows s2 h = Some r" for h r
      using w org that by (rule table_writes_descends)
    then show ?thesis by blast
  next
    fix h c moment
    assume new: "rows s2 = (rows s1)(h \<mapsto> c)"
      and other: "\<forall>k r. rows s1 k = Some r \<longrightarrow> rt_family_id r \<noteq> rt_family_id c"
      and c: "rt_device c \<noteq> []" "in_datetime_range moment" "rt_family_started_at c = iso_seconds moment"
        "rt_expires_at c \<le> int_timestamp (moment + refresh_absolute_ttl (ss_settings svc))"
    let ?o = "\<lparr>fo_user = rt_user_id c, fo_device = rt_device c, fo_amr = rt_amr c, fo_birth = moment\<rparr>"
    have "descends (ss_settings svc) ((org(rt_family_id c := ?o)) (rt_family_id r)) r"
      if "rows s2 k = Some r" for k r
    proof (cases "k = h")
      case True
      then show ?thesis using that new c by (simp add: descends_def)
    next
      case False
      then have "rows s1 k = Some r" using that new by simp
      then show ?thesis using other org by simp
    qed
    then show ?thesis by blast
  qed
qed

end

section \<open>Interleaved rotations\<close>

text \<open>
  A rotation in flight is between its check and its mint, or between its mint and its consume.
  \<open>wd_answers\<close> is the list of the answers given so far.
\<close>

record rotate_request =
  rq_presented :: string
  rq_ip :: string
  rq_user_agent :: string
  rq_now :: datetime
  rq_wall :: datetime

datatype rotate_phase =
  Checked rotate_request refresh_token
| Minted rotate_request refresh_token issued_refresh

record 's world =
  wd_store :: 's
  wd_phases :: "rotate_phase list"
  wd_answers :: "(rotate_request \<times> rotation_result) list"

inductive race_step :: "'s session_service \<Rightarrow> 's world \<Rightarrow> 's world \<Rightarrow> bool" for svc where
  race_refused: "rotate_check svc (wd_store w) (rq_wall q) (rq_presented q) (rq_now q) = (Inl res, s') \<Longrightarrow>
    race_step svc w (w\<lparr>wd_store := s', wd_answers := (q, res) # wd_answers w\<rparr>)"
| race_checked: "rotate_check svc (wd_store w) (rq_wall q) (rq_presented q) (rq_now q) = (Inr r, s') \<Longrightarrow>
    race_step svc w (w\<lparr>wd_store := s', wd_phases := Checked q r # wd_phases w\<rparr>)"
| race_minted: "wd_phases w = ps @ Checked q r # qs \<Longrightarrow> fresh_token svc (wd_store w) token \<Longrightarrow>
    rotate_mint svc (wd_store w) (rq_wall q) token r (rq_ip q) (rq_user_agent q) (rq_now q) = (i, s') \<Longrightarrow>
    race_step svc w (w\<lparr>wd_store := s', wd_phases := ps @ Minted q r i # qs\<rparr>)"
| race_settled: "wd_phases w = ps @ Minted q r i # qs \<Longrightarrow> fresh_token svc (wd_store w) token \<Longrightarrow>
    rotate_settle svc (wd_store w) (rq_wall q) token (rq_presented q) r i (rq_now q) = (res, s') \<Longrightarrow>
    race_step svc w (w\<lparr>wd_store := s', wd_phases := ps @ qs, wd_answers := (q, res) # wd_answers w\<rparr>)"
| race_other: "session_step svc (wd_store w) s' \<Longrightarrow> race_step svc w (w\<lparr>wd_store := s'\<rparr>)"

definition rotated_hashes :: "'s session_service \<Rightarrow> 's world \<Rightarrow> string list" where
  "rotated_hashes svc w =
     map (\<lambda>(q, _). ss_hash svc (rq_presented q))
       (filter (\<lambda>(_, res). rr_outcome res = Rotated) (wd_answers w))"

definition spent :: "('h \<Rightarrow> refresh_token option) \<Rightarrow> 'h \<Rightarrow> bool" where
  "spent rows h = (\<exists>r. rows h = Some r \<and> rt_is_consumed r)"

lemma frame_spent: "frame rows rows' \<Longrightarrow> spent rows h \<Longrightarrow> spent rows' h"
  unfolding spent_def by (auto dest!: frame_Some [where h = h] simp: same_origin_def)

lemma table_writes_spent:
  assumes "(table_write cfg)\<^sup>*\<^sup>* rows rows'"
  shows "spent rows h \<Longrightarrow> spent rows' h"
  using assms
proof (induction rule: rtranclp_induct)
  case (step rows1 rows2)
  have "spent rows1 h" using step.IH step.prems .
  from step.hyps(2) this show ?case
  proof (cases rule: table_write.cases)
    case write_frame
    then show ?thesis using \<open>spent rows1 h\<close> by (rule frame_spent)
  next
    case (write_child k h0 r c)
    then show ?thesis using \<open>spent rows1 h\<close> by (auto simp: spent_def)
  qed
qed simp

context session_service_over
begin

lemma session_step_spent:
  assumes "session_step svc s s'" and "ok s" and "spent (rows s) h"
  shows "spent (rows s') h"
proof -
  from step_writes [OF assms(1,2)] show ?thesis
  proof (elim conjE disjE exE)
    fix k c
    assume "rows s k = None" "rows s' = (rows s)(k \<mapsto> c)"
    then show ?thesis using assms(3) by (auto simp: spent_def)
  next
    assume "(table_write (ss_settings svc))\<^sup>*\<^sup>* (rows s) (rows s')"
    then show ?thesis using assms(3) by (rule table_writes_spent)
  qed
qed

lemma settle_effect:
  fixes wall moment :: datetime and presented :: string and r :: refresh_token and i :: issued_refresh
  assumes "ok s" and "rows s (ss_hash svc token) = None"
  defines "h \<equiv> ss_hash svc presented"
  defines "out \<equiv> rotate_settle svc s wall token presented r i moment"
  shows "ok (snd out)"
    and "spent (rows s) k \<Longrightarrow> spent (rows (snd out)) k"
    and "rr_outcome (fst out) = Rotated \<Longrightarrow> \<not> spent (rows s) h \<and> spent (rows (snd out)) h"
proof -
  let ?x = "ss_hash svc (ir_token i)" and ?c = "iso_seconds moment"
  obtain p s2 where con: "op_consume (ss_store svc) s h ?x ?c = (p, s2)" by force
  have ok2: "ok s2" using consume_ok [OF assms(1), of h ?x ?c] con by simp
  have "ok (snd out) \<and> (spent (rows s) k \<longrightarrow> spent (rows (snd out)) k) \<and>
      (rr_outcome (fst out) = Rotated \<longrightarrow> \<not> spent (rows s) h \<and> spent (rows (snd out)) h)"
  proof (cases "\<exists>r'. rows s h = Some r' \<and> \<not> rt_is_consumed r'")
    case True
    then obtain r' where r': "rows s h = Some r'" "\<not> rt_is_consumed r'" by blast
    note won = consume_wins [OF assms(1) r' iso_seconds_nonempty, of ?x moment, unfolded con]
    then have "out = (issued_for Rotated r i, s2)"
      using con by (simp add: out_def rotate_settle_def h_def)
    then show ?thesis using won r' ok2 by (auto simp: spent_def rt_is_consumed_def)
  next
    case False
    then have lost: "p = None" "rows s2 = rows s"
      using consume_loses [OF assms(1), of h ?x ?c] con by auto
    then have out: "out = after_failed_consume svc s2 wall token h moment"
      using con by (simp add: out_def rotate_settle_def h_def)
    have free: "rows s2 (ss_hash svc token) = None" using lost assms(2) by simp
    show ?thesis
      using after_failed_effect(1,3) [OF ok2, of wall token h moment, folded out] lost(2)
        table_writes_spent [OF after_failed_writes(1) [OF ok2 free, of wall h moment, folded out]]
      by simp
  qed
  then show "ok (snd out)" "spent (rows s) k \<Longrightarrow> spent (rows (snd out)) k"
    "rr_outcome (fst out) = Rotated \<Longrightarrow> \<not> spent (rows s) h \<and> spent (rows (snd out)) h" by blast+
qed

definition race_ok :: "'s world \<Rightarrow> bool" where
  "race_ok w =
     (ok (wd_store w) \<and> distinct (rotated_hashes svc w) \<and>
      (\<forall>h \<in> set (rotated_hashes svc w). spent (rows (wd_store w)) h))"

lemma race_ok_store:
  "race_ok w \<Longrightarrow> ok s' \<Longrightarrow> (\<And>h. spent (rows (wd_store w)) h \<Longrightarrow> spent (rows s') h) \<Longrightarrow>
    rotated_hashes svc w' = rotated_hashes svc w \<Longrightarrow> wd_store w' = s' \<Longrightarrow> race_ok w'"
  by (simp add: race_ok_def)

lemma check_effect:
  assumes "ok s" and "rotate_check svc s wall presented moment = (res, s')"
  shows "ok s' \<and> frame (rows s) (rows s')" and "res = Inl x \<Longrightarrow> rr_outcome x \<noteq> Rotated"
  using assms(2) revoke_frame [OF assms(1)] assms(1)
  by (auto simp: rotate_check_cases [OF assms(1)] refused_def refused_for_def
      split: option.splits if_splits)

lemma race_step_ok: "race_step svc w w' \<Longrightarrow> race_ok w \<Longrightarrow> race_ok w'"
proof (induction rule: race_step.induct)
  case (race_refused w q res s')
  then have "ok (wd_store w)" by (simp add: race_ok_def)
  note eff = check_effect [OF this race_refused.hyps]
  show ?case
    by (rule race_ok_store [OF race_refused.prems, of s'])
      (use eff in \<open>auto simp: rotated_hashes_def intro: frame_spent\<close>)
next
  case (race_checked w q r s')
  then have "ok (wd_store w)" by (simp add: race_ok_def)
  note eff = check_effect [OF this race_checked.hyps]
  show ?case
    by (rule race_ok_store [OF race_checked.prems, of s'])
      (use eff in \<open>auto simp: rotated_hashes_def intro: frame_spent\<close>)
next
  case (race_minted w ps q r qs token i s')
  then have okw: "ok (wd_store w)" by (simp add: race_ok_def)
  let ?m = "successor_request (rq_wall q) r (rq_ip q) (rq_user_agent q) (rq_now q)"
  have free: "rows (wd_store w) (ss_hash svc token) = None"
    using race_minted.hyps(2) okw by (simp add: fresh_rows)
  have "mint svc (wd_store w) (rq_wall q) token ?m = (i, s')"
    using race_minted.hyps(3) by (simp add: rotate_mint_def)
  note eff = mint_effect [OF okw, of "rq_wall q" token ?m, unfolded this, simplified]
  show ?case
    by (rule race_ok_store [OF race_minted.prems, of s'])
      (use eff free in \<open>auto simp: rotated_hashes_def spent_def\<close>)
next
  case (race_settled w ps q r i qs token res s')
  then have okw: "ok (wd_store w)" by (simp add: race_ok_def)
  have free: "rows (wd_store w) (ss_hash svc token) = None"
    using race_settled.hyps(2) okw by (simp add: fresh_rows)
  note eff = settle_effect [OF okw free, where wall = "rq_wall q" and presented = "rq_presented q" and r = r and i = i
        and moment = "rq_now q",
      unfolded race_settled.hyps(3), simplified]
  show ?case
  proof (cases "rr_outcome res = Rotated")
    case True
    then have "rotated_hashes svc
        (w\<lparr>wd_store := s', wd_phases := ps @ qs, wd_answers := (q, res) # wd_answers w\<rparr>) =
        ss_hash svc (rq_presented q) # rotated_hashes svc w" by (simp add: rotated_hashes_def)
    then show ?thesis using race_settled.prems eff True by (auto simp: race_ok_def)
  next
    case False
    then show ?thesis
      by (intro race_ok_store [OF race_settled.prems, of s'])
        (use eff in \<open>auto simp: rotated_hashes_def\<close>)
  qed
next
  case (race_other w s')
  then have okw: "ok (wd_store w)" by (simp add: race_ok_def)
  show ?case
    by (rule race_ok_store [OF race_other.prems, of s'])
      (use step_writes [OF race_other.hyps okw] session_step_spent [OF race_other.hyps okw] in
        \<open>auto simp: rotated_hashes_def\<close>)
qed

lemma races_ok: "(race_step svc)\<^sup>*\<^sup>* w w' \<Longrightarrow> race_ok w \<Longrightarrow> race_ok w'"
  by (induction rule: rtranclp_induct) (auto intro: race_step_ok)

end

end
