(* ===== verification/SessionProperties.thy ===== *)
theory SessionProperties
  imports SessionRuns
begin

text \<open>
  The session service over the in-memory refresh store: the interpretation of
  \<open>session_service_over\<close>, and the properties of rotation, revocation and listing.
\<close>

definition memory_service ::
  "session_settings \<Rightarrow> (string \<Rightarrow> string) \<Rightarrow> datetime \<Rightarrow> refresh_memory session_service" where
  "memory_service cfg H wall = \<lparr>ss_settings = cfg, ss_store = memory_refresh_ops wall, ss_hash = H\<rparr>"

lemma memory_service_simps [simp]:
  "ss_settings (memory_service cfg H wall) = cfg"
  "ss_store (memory_service cfg H wall) = memory_refresh_ops wall"
  "ss_hash (memory_service cfg H wall) = H"
  by (simp_all add: memory_service_def)

interpretation sessions: session_service_over "memory_service cfg H clock" map_of refresh_memory_ok
  for cfg H clock
  using mem_refresh.refresh_store_axioms by (simp add: session_service_over_def)

text \<open>One family of two generations, for the witnesses: the first spent, the second live.\<close>

definition demo_settings :: session_settings where
  "demo_settings = \<lparr>refresh_token_ttl = 3600 * second, refresh_absolute_ttl = 86400 * second,
     refresh_reuse_grace = 10 * second\<rparr>"

definition demo_service :: "refresh_memory session_service" where
  "demo_service = memory_service demo_settings demo_hash 0"

definition demo_row :: refresh_token where
  "demo_row = \<lparr>rt_token_hash = ''ha'', rt_family_id = ''f1'', rt_user_id = ''u1'', rt_generation = 1,
     rt_created_at = iso_seconds 0, rt_expires_at = 3600, rt_consumed_at = [],
     rt_successor_hash = [], rt_revoked = False, rt_device = ''web'', rt_ip_first_seen = ''1.2.3.4'',
     rt_family_started_at = iso_seconds 0, rt_auth_time = 1, rt_amr = [''pwd''],
     rt_ip_last_seen = ''1.2.3.4'', rt_client = ''App'', rt_platform = ''macOS'', rt_browser = []\<rparr>"

definition demo_spent :: refresh_token where
  "demo_spent = demo_row\<lparr>rt_consumed_at := iso_seconds (60 * second), rt_successor_hash := ''hb''\<rparr>"

definition demo_next :: refresh_token where
  "demo_next = demo_row\<lparr>rt_token_hash := ''hb'', rt_generation := 2, rt_expires_at := 3660\<rparr>"

definition demo_start :: refresh_memory where
  "demo_start = [(''ha'', demo_row)]"

definition demo_rotated :: refresh_memory where
  "demo_rotated = [(''ha'', demo_spent), (''hb'', demo_next)]"

lemma demo_range [simp]: "in_datetime_range 0" "in_datetime_range 60000000"
  by code_simp+

lemmas demo_defs = demo_hash_def demo_settings_def demo_service_def demo_row_def demo_spent_def demo_next_def
  demo_start_def demo_rotated_def

lemmas session_evals = rotate_session_def rotate_check_def rotate_mint_def rotate_settle_def mint_def
  successor_request_def minted_record_def replay_request_def after_failed_consume_def
  reuse_detected_def refused_def refused_for_def issued_for_def within_grace_def
  family_started_at_def record_auth_time_def past_absolute_cap_def mint_expires_at_def
  memory_refresh_ops_def mem_refresh_get_def mem_refresh_put_def mem_refresh_consume_def
  mem_refresh_revoke_family_def update_where_def rt_is_consumed_def parse_iso_seconds
  second_def is_expired_def int_timestamp_def ttl_at_def fresh_token_def live_record_def

text \<open>
  C1. In every interleaving of rotations, revocations, sign-ins and step-ups, no presented
  token is answered with \<open>Rotated\<close> twice: the hashes rotated so far are all different.
\<close>

theorem rotated_at_most_once:
  assumes "refresh_memory_ok (wd_store w)" and "wd_answers w = []"
    and "(race_step (memory_service cfg H wall))\<^sup>*\<^sup>* w w'"
  shows "distinct (rotated_hashes (memory_service cfg H wall) w')"
  using sessions.races_ok [OF assms(3)] assms(1,2)
  by (simp add: sessions.race_ok_def rotated_hashes_def)

text \<open>Two rotations of one token: both checked and both minted before either is settled.\<close>

definition demo_request :: rotate_request where
  "demo_request = \<lparr>rq_presented = ''a'', rq_ip = ''1.2.3.4'', rq_user_agent = [],
     rq_now = 60 * second, rq_wall = 0\<rparr>"

definition demo_minted :: "string \<Rightarrow> refresh_memory \<Rightarrow> issued_refresh \<times> refresh_memory" where
  "demo_minted token s = rotate_mint demo_service s 0 token demo_row ''1.2.3.4'' [] (60 * second)"

definition demo_both_minted :: refresh_memory where
  "demo_both_minted = snd (demo_minted ''c'' (snd (demo_minted ''b'' demo_start)))"

definition demo_settled :: "refresh_memory \<Rightarrow> string \<Rightarrow> string \<Rightarrow> rotation_result \<times> refresh_memory" where
  "demo_settled s minted token =
     rotate_settle demo_service s 0 token ''a'' demo_row (fst (demo_minted minted demo_start)) (60 * second)"

lemma demo_minted_answer: "fst (demo_minted t s) = fst (demo_minted t s')"
  by (simp add: demo_minted_def rotate_mint_def mint_def)

lemma demo_race:
  assumes "fst (demo_settled demo_both_minted ''b'' ''d'') = res1"
    and "fst (demo_settled (snd (demo_settled demo_both_minted ''b'' ''d'')) ''c'' ''e'') = res2"
  shows "\<exists>s. (race_step demo_service)\<^sup>*\<^sup>*
    \<lparr>wd_store = demo_start, wd_phases = [], wd_answers = []\<rparr>
    \<lparr>wd_store = s, wd_phases = [], wd_answers = [(demo_request, res2), (demo_request, res1)]\<rparr>"
proof -
  let ?q = demo_request and ?r = demo_row
  let ?i = "\<lambda>t. fst (demo_minted t demo_start)"
  let ?w = "\<lambda>s ps as. \<lparr>wd_store = s, wd_phases = ps, wd_answers = as\<rparr>"
  let ?sb = "snd (demo_minted ''b'' demo_start)"
  let ?s3 = "snd (demo_settled demo_both_minted ''b'' ''d'')"
  let ?s4 = "snd (demo_settled ?s3 ''c'' ''e'')"
  have q: "rq_wall ?q = 0" "rq_presented ?q = ''a''" "rq_now ?q = 60 * second"
    "rq_ip ?q = ''1.2.3.4''" "rq_user_agent ?q = []" by (simp_all add: demo_request_def)
  have check: "rotate_check demo_service demo_start 0 ''a'' (60 * second) = (Inr ?r, demo_start)"
    by (simp add: demo_defs session_evals)
  have "race_step demo_service (?w demo_start ps []) (?w demo_start (Checked ?q ?r # ps) [])" for ps
    using race_checked [of demo_service "?w demo_start ps []" ?q ?r demo_start] check q by simp
  then have a: "(race_step demo_service)\<^sup>*\<^sup>* (?w demo_start [] [])
      (?w demo_start [Checked ?q ?r, Checked ?q ?r] [])"
    by (meson rtranclp.rtrancl_refl rtranclp.rtrancl_into_rtrancl)
  have "fresh_token demo_service demo_start ''b''" by (simp add: demo_defs session_evals demo_minted_def demo_both_minted_def demo_settled_def)
  then have b: "race_step demo_service (?w demo_start [Checked ?q ?r, Checked ?q ?r] [])
      (?w ?sb [Minted ?q ?r (?i ''b''), Checked ?q ?r] [])"
    using race_minted [of "?w demo_start [Checked ?q ?r, Checked ?q ?r] []" "[]" ?q ?r "[Checked ?q ?r]"
        demo_service "''b''" "?i ''b''" ?sb] q by (simp add: demo_minted_def)
  have "fresh_token demo_service ?sb ''c''" by (simp add: demo_defs session_evals demo_minted_def demo_both_minted_def demo_settled_def)
  then have c: "race_step demo_service (?w ?sb [Minted ?q ?r (?i ''b''), Checked ?q ?r] [])
      (?w demo_both_minted [Minted ?q ?r (?i ''b''), Minted ?q ?r (?i ''c'')] [])"
    using race_minted [of "?w ?sb [Minted ?q ?r (?i ''b''), Checked ?q ?r] []"
        "[Minted ?q ?r (?i ''b'')]" ?q ?r "[]" demo_service "''c''" "?i ''c''" demo_both_minted] q
      demo_minted_answer [of "''c''" ?sb demo_start]
    by (simp add: demo_both_minted_def demo_minted_def prod_eq_iff)
  have "fresh_token demo_service demo_both_minted ''d''" by (simp add: demo_defs session_evals demo_minted_def demo_both_minted_def demo_settled_def)
  then have d: "race_step demo_service
      (?w demo_both_minted [Minted ?q ?r (?i ''b''), Minted ?q ?r (?i ''c'')] [])
      (?w ?s3 [Minted ?q ?r (?i ''c'')] [(?q, res1)])"
    using race_settled [of "?w demo_both_minted [Minted ?q ?r (?i ''b''), Minted ?q ?r (?i ''c'')] []"
        "[]" ?q ?r "?i ''b''" "[Minted ?q ?r (?i ''c'')]" demo_service "''d''" res1 ?s3] q assms(1)
    by (simp add: demo_settled_def prod_eq_iff)
  have "fresh_token demo_service ?s3 ''e''" by (simp add: demo_defs session_evals demo_minted_def demo_both_minted_def demo_settled_def)
  then have "race_step demo_service (?w ?s3 [Minted ?q ?r (?i ''c'')] [(?q, res1)])
      (?w ?s4 [] [(?q, res2), (?q, res1)])"
    using race_settled [of "?w ?s3 [Minted ?q ?r (?i ''c'')] [(?q, res1)]"
        "[]" ?q ?r "?i ''c''" "[]" demo_service "''e''" res2 ?s4] q assms(2)
    by (simp add: demo_settled_def prod_eq_iff)
  with a b c d show ?thesis by (meson rtranclp.rtrancl_into_rtrancl)
qed

theorem rotated_at_most_once_witness:
  "\<exists>w. map (rr_outcome \<circ> snd) (wd_answers w) = [Replayed, Rotated] \<and>
     distinct (rotated_hashes demo_service w)"
proof -
  have outcomes: "rr_outcome (fst (demo_settled demo_both_minted ''b'' ''d'')) = Rotated"
    "rr_outcome (fst (demo_settled (snd (demo_settled demo_both_minted ''b'' ''d'')) ''c'' ''e'')) = Replayed"
    by (simp_all add: demo_defs session_evals demo_minted_def demo_both_minted_def demo_settled_def)
  obtain s where run: "(race_step demo_service)\<^sup>*\<^sup>*
    \<lparr>wd_store = demo_start, wd_phases = [], wd_answers = []\<rparr>
    \<lparr>wd_store = s, wd_phases = [], wd_answers =
       [(demo_request, fst (demo_settled (snd (demo_settled demo_both_minted ''b'' ''d'')) ''c'' ''e'')),
        (demo_request, fst (demo_settled demo_both_minted ''b'' ''d''))]\<rparr>"
    using demo_race [OF refl refl] by blast
  have "refresh_memory_ok demo_start" by (simp add: refresh_memory_ok_def demo_start_def demo_row_def)
  then have "distinct (rotated_hashes demo_service
    \<lparr>wd_store = s, wd_phases = [], wd_answers =
       [(demo_request, fst (demo_settled (snd (demo_settled demo_both_minted ''b'' ''d'')) ''c'' ''e'')),
        (demo_request, fst (demo_settled demo_both_minted ''b'' ''d''))]\<rparr>)"
    using rotated_at_most_once [OF _ _ run [unfolded demo_service_def]] unfolding demo_service_def by simp
  with outcomes show ?thesis by (intro exI conjI) (auto simp del: rotated_hashes_def)
qed

lemma rotate_live_result:
  assumes "refresh_memory_ok s" and "dget s (H presented) = Some r"
    and "live_record cfg wall moment r" and "\<not> rt_is_consumed r" and "dget s (H token1) = None"
  shows "fst (rotate_session (memory_service cfg H w0) s wall token1 token2 presented ip user_agent moment) =
    issued_for Rotated r (fst (mint (memory_service cfg H w0) s wall token1
      (successor_request wall r ip user_agent moment)))"
  by (rule sessions.rotate_live(1) [where cfg = cfg and H = H and clock = w0 and s = s, simplified, OF assms])

lemma spent_not_rotated:
  assumes "refresh_memory_ok s" and "dget s (H presented) = Some r"
    and "live_record cfg wall moment r" and "rt_is_consumed r" and "dget s (H token1) = None"
  shows "rr_outcome (fst (rotate_session (memory_service cfg H w0) s wall token1 token2 presented
    ip user_agent moment)) \<noteq> Rotated"
proof -
  obtain s2 where s2: "refresh_memory_ok s2"
    "rotate_session (memory_service cfg H w0) s wall token1 token2 presented ip user_agent moment =
      after_failed_consume (memory_service cfg H w0) s2 wall token2 (H presented) moment"
    using sessions.rotate_spent(1) [where cfg = cfg and H = H and clock = w0 and s = s, simplified, OF assms,
        where ip = ip and user_agent = user_agent] by blast
  show ?thesis
    unfolding s2(2) by (rule sessions.after_failed_effect(3) [OF s2(1)])
qed

section \<open>Rotation\<close>

text \<open>
  C2. Presenting a live, unspent token answers \<open>Rotated\<close> with a token one generation on that
  keeps the family, user, \<^verbatim>\<open>auth_time\<close> and \<^verbatim>\<open>amr\<close>; the store gains exactly the
  successor's row and the presented row becomes spent, pointing at the successor.
\<close>

theorem rotate_rotates:
  assumes "refresh_memory_ok s" and "dget s (H presented) = Some r"
    and "live_record cfg wall moment r" and "\<not> rt_is_consumed r" and "dget s (H token1) = None"
  shows "\<exists>res issued s'.
    rotate_session (memory_service cfg H w0) s wall token1 token2 presented ip user_agent moment = (res, s') \<and>
    rr_outcome res = Rotated \<and> rr_issued res = Some issued \<and> ir_token issued = token1 \<and>
    ir_generation issued = rt_generation r + 1 \<and> ir_family_id issued = rt_family_id r \<and>
    ir_user_id issued = rt_user_id r \<and> ir_auth_time issued = record_auth_time wall r \<and>
    ir_amr issued = rt_amr r \<and>
    dget s' = (dget s)
      (H token1 \<mapsto> minted_record (memory_service cfg H w0) wall token1
         (successor_request wall r ip user_agent moment),
       H presented \<mapsto> r\<lparr>rt_consumed_at := iso_seconds moment, rt_successor_hash := H token1\<rparr>)"
proof -
  note L = sessions.rotate_live [where cfg = cfg and H = H and clock = w0 and s = s, simplified, OF assms,
      where ip = ip and user_agent = user_agent]
  then show ?thesis
    by (simp add: prod_eq_iff issued_for_def mint_def successor_request_def)
qed

theorem rotate_rotates_witness:
  "rr_outcome (fst (rotate_session demo_service demo_start 0 ''b'' ''x'' ''a'' ''1.2.3.4'' [] (60 * second))) = Rotated"
proof -
  have "refresh_memory_ok demo_start" "dget demo_start (demo_hash ''a'') = Some demo_row"
    "live_record demo_settings 0 (60 * second) demo_row" "\<not> rt_is_consumed demo_row"
    "dget demo_start (demo_hash ''b'') = None"
    by (simp_all add: demo_defs session_evals refresh_memory_ok_def)
  from rotate_rotates [of demo_start demo_hash, OF this, of 0 "''x''" "''1.2.3.4''" "[]"]
  show ?thesis by (auto simp: demo_service_def)
qed

text \<open>
  C3. A spent token presented outside the grace window is reuse: nothing is issued, every row
  of its family is revoked, the successor minted during the request included, and no row of
  another family changes.
\<close>

theorem rotate_reuse_revokes_family:
  assumes "refresh_memory_ok s" and "dget s (H presented) = Some r"
    and "live_record cfg wall moment r" and "rt_is_consumed r" and "dget s (H token1) = None"
    and "\<not> within_grace cfg r moment"
  shows "\<exists>res s'.
    rotate_session (memory_service cfg H w0) s wall token1 token2 presented ip user_agent moment = (res, s') \<and>
    rr_outcome res = Reuse \<and> rr_issued res = None \<and> family_dead (dget s') (rt_family_id r) \<and>
    dget s' (H token1) \<noteq> None \<and>
    (\<forall>h x. dget s h = Some x \<longrightarrow> rt_family_id x \<noteq> rt_family_id r \<longrightarrow> dget s' h = Some x)"
proof -
  note L = sessions.rotate_reuse [where cfg = cfg and H = H and clock = w0 and s = s, simplified, OF assms,
      where ip = ip and user_agent = user_agent]
  obtain res s' where rs: "rotate_session (memory_service cfg H w0) s wall token1 token2 presented
      ip user_agent moment = (res, s')" by force
  note L = L [where ?token2.0 = token2, unfolded rs, simplified fst_conv snd_conv]
  have "family_dead (dget s') (rt_family_id r)" using L(3) by (rule revoked_where_dead)
  moreover have "dget s' (H token1) \<noteq> None" using L(3) [of "H token1"] by (simp add: revoked_where_def)
  moreover have "dget s' h = Some x" if "dget s h = Some x" "rt_family_id x \<noteq> rt_family_id r" for h x
  proof -
    have "h \<noteq> H token1" using that(1) assms(5) by auto
    then show ?thesis using L(3) [of h] that by (simp add: revoked_where_def)
  qed
  ultimately show ?thesis using rs L(1,2) by blast
qed

theorem rotate_reuse_revokes_family_witness:
  "family_dead (dget (snd (rotate_session demo_service demo_rotated 0 ''c'' ''x'' ''a'' [] [] (80 * second)))) ''f1''"
proof -
  have "refresh_memory_ok demo_rotated" "dget demo_rotated (demo_hash ''a'') = Some demo_spent"
    "live_record demo_settings 0 (80 * second) demo_spent" "rt_is_consumed demo_spent"
    "dget demo_rotated (demo_hash ''c'') = None" "\<not> within_grace demo_settings demo_spent (80 * second)"
    by (simp_all add: demo_defs session_evals refresh_memory_ok_def)
  from rotate_reuse_revokes_family [of demo_rotated demo_hash, OF this, of 0 "''x''" "[]" "[]"]
  show ?thesis by (auto simp: demo_service_def demo_spent_def demo_row_def)
qed

text \<open>
  C4. Revocation is final: after \<^verbatim>\<open>revoke_family\<close>, through any sequence of whole requests,
  every row of the family stays revoked, and no rotation issues a token into it.
\<close>

theorem revoked_family_stays_dead:
  assumes "refresh_memory_ok s" and "family_known (dget s) f"
    and "(session_step (memory_service cfg H w0))\<^sup>*\<^sup>* (fst (revoke_family (memory_service cfg H w0) s f)) s'"
    and "dget s' (H token1) = None" and "dget s' (H token2) = None" and "H token1 \<noteq> H token2"
  shows "family_dead (dget s') f \<and>
    (case rr_issued (fst (rotate_session (memory_service cfg H w0) s' wall token1 token2 presented
        ip user_agent moment)) of None \<Rightarrow> True | Some issued \<Rightarrow> ir_family_id issued \<noteq> f)"
proof -
  let ?s = "fst (mem_refresh_revoke_family s f)"
  have eq: "fst (revoke_family (memory_service cfg H w0) s f) = ?s"
    by (simp add: revoke_family_def memory_refresh_ops_def)
  note rows = mem_revoke_family_rows [OF assms(1), of f] and ok = mem_revoke_family_ok [OF assms(1), of f]
  have "family_dead (dget ?s) f"
    using rows by (rule revoked_where_dead)
  moreover from assms(2) obtain h r where hr: "dget s h = Some r" "rt_family_id r = f"
    by (auto simp: family_known_def)
  then have "dget ?s h = Some (r\<lparr>rt_revoked := True\<rparr>)" by (simp add: rows revoked_where_def)
  with hr(2) have "family_known (dget ?s) f"
    unfolding family_known_def by (intro exI [of _ h] exI [of _ "r\<lparr>rt_revoked := True\<rparr>"]) simp
  ultimately have dead: "family_dead (dget s') f"
    using sessions.run_dead [OF assms(3) [unfolded eq] ok] by blast
  have "refresh_memory_ok s'" by (rule sessions.run_ok [OF assms(3) [unfolded eq] ok])
  note issued = sessions.rotate_writes(3) [where cfg = cfg and H = H and clock = w0 and s = s', simplified, OF this assms(4-6)]
  have "ir_family_id i \<noteq> f"
    if "rr_issued (fst (rotate_session (memory_service cfg H w0) s' wall token1 token2 presented
        ip user_agent moment)) = Some i" for i
    using issued [OF that] dead unfolding family_dead_def by metis
  then show ?thesis using dead by (simp split: option.splits)
qed

definition demo_two_families :: refresh_memory where
  "demo_two_families = [(''ha'', demo_row), (''hz'', demo_row\<lparr>rt_token_hash := ''hz'', rt_family_id := ''f2''\<rparr>)]"

lemma demo_two_families_facts:
  "refresh_memory_ok demo_two_families" "family_known (dget demo_two_families) ''f1''"
proof -
  show "refresh_memory_ok demo_two_families"
    by (simp add: demo_two_families_def demo_row_def refresh_memory_ok_def)
  show "family_known (dget demo_two_families) ''f1''"
    unfolding family_known_def
    by (rule exI [of _ "''ha''"], rule exI [of _ demo_row]) (simp add: demo_two_families_def demo_row_def)
qed

theorem revoked_family_stays_dead_witness:
  "family_dead (dget (fst (revoke_family demo_service demo_two_families ''f1''))) ''f1''"
proof -
  let ?s' = "fst (revoke_family demo_service demo_two_families ''f1'')"
  have "dget ?s' (demo_hash ''b'') = None" "dget ?s' (demo_hash ''c'') = None"
    by (simp_all add: revoke_family_def demo_two_families_def demo_defs session_evals)
  then show ?thesis
    using revoked_family_stays_dead [of demo_two_families "''f1''" demo_settings demo_hash 0 ?s'
        "''b''" "''c''"] demo_two_families_facts
    by (simp add: demo_service_def demo_hash_def)
qed

text \<open>
  C5. From an empty table, every row any run of requests leaves belongs to a family whose rows
  all carry the user, device label, \<^verbatim>\<open>amr\<close> and start of one sign-in, and no row expires after
  that sign-in plus the absolute lifetime.
\<close>

theorem rows_descend_from_sign_in:
  assumes "(session_step (memory_service cfg H w0))\<^sup>*\<^sup>* [] s"
  shows "\<exists>org. \<forall>h r. dget s h = Some r \<longrightarrow> descends cfg (org (rt_family_id r)) r"
  using sessions.run_descends [OF assms] by simp

theorem rows_descend_from_sign_in_witness:
  "\<exists>org. \<forall>h r. dget (snd (start_family demo_service [] 0 ''f1'' ''a'' ''u1'' ''web'' [] [] 0 None [])) h = Some r \<longrightarrow>
     descends demo_settings (org (rt_family_id r)) r"
proof -
  have "session_step demo_service [] (snd (start_family demo_service [] 0 ''f1'' ''a'' ''u1'' ''web'' [] [] 0 None []))"
    by (rule step_start) (simp_all add: demo_service_def session_evals fresh_family_def)
  then have "(session_step demo_service)\<^sup>*\<^sup>* [] (snd (start_family demo_service [] 0 ''f1'' ''a'' ''u1'' ''web'' [] [] 0 None []))"
    by blast
  from rows_descend_from_sign_in [OF this [unfolded demo_service_def]] show ?thesis
    unfolding demo_service_def .
qed

text \<open>
  C6. \<^verbatim>\<open>peek\<close> names a session exactly when \<^verbatim>\<open>rotate\<close> would rotate the same token at that
  moment, and then names the family and user the rotation issues for.
\<close>

theorem peek_iff_rotates:
  assumes "refresh_memory_ok s" and "presented \<noteq> []"
    and "\<And>r. dget s (H presented) = Some r \<Longrightarrow> rt_successor_hash r \<noteq> [] \<Longrightarrow> rt_is_consumed r"
    and "dget s (H token1) = None"
  shows "let res = fst (rotate_session (memory_service cfg H w0) s wall token1 token2 presented
        ip user_agent moment);
      seen = peek (memory_service cfg H w0) s wall presented moment
    in (seen \<noteq> None \<longleftrightarrow> rr_outcome res = Rotated) \<and>
      (case seen of None \<Rightarrow> True | Some p \<Rightarrow> ps_family_id p = rr_family_id res \<and>
         ps_user_id p = rr_user_id res \<and> ps_auth_time p = ir_auth_time (the (rr_issued res)))"
proof -
  let ?res = "fst (rotate_session (memory_service cfg H w0) s wall token1 token2 presented
        ip user_agent moment)"
  have seen: "peek (memory_service cfg H w0) s wall presented moment = (case dget s (H presented) of None \<Rightarrow> None | Some r \<Rightarrow>
      if live_record cfg wall moment r \<and> \<not> rt_is_consumed r then
        Some \<lparr>ps_user_id = rt_user_id r, ps_family_id = rt_family_id r,
              ps_auth_time = record_auth_time wall r, ps_amr = rt_amr r,
              ps_device = str_or (rt_device r) unknown_device\<rparr> else None)"
    using assms(2,3)
    by (auto simp: peek_def memory_refresh_ops_def mem_refresh_get_def live_record_def
        split: option.splits)
  note check = sessions.rotate_check_cases [where cfg = cfg and H = H and clock = w0, simplified, OF assms(1)]
  show ?thesis
  proof (cases "dget s (H presented)")
    case None
    then show ?thesis by (simp add: Let_def seen rotate_session_def check refused_def)
  next
    case (Some r)
    consider "\<not> live_record cfg wall moment r"
      | "live_record cfg wall moment r" "\<not> rt_is_consumed r"
      | "live_record cfg wall moment r" "rt_is_consumed r" by blast
    then show ?thesis
    proof cases
      case 1
      then show ?thesis using Some by (simp add: Let_def seen rotate_session_def check refused_for_def)
    next
      case 2
      from rotate_live_result [of s H presented r cfg wall moment token1, OF assms(1) Some 2 assms(4)] show ?thesis
        using Some 2 by (simp add: Let_def seen issued_for_def mint_def successor_request_def)
    next
      case 3
      from spent_not_rotated [of s H presented r cfg wall moment token1, OF assms(1) Some 3 assms(4)] show ?thesis
        using Some 3 by (simp add: Let_def seen)
    qed
  qed
qed

theorem peek_iff_rotates_witness:
  "peek demo_service demo_start 0 ''a'' (60 * second) \<noteq> None \<and>
   peek demo_service demo_rotated 0 ''a'' (60 * second) = None"
proof -
  have "refresh_memory_ok demo_start" "refresh_memory_ok demo_rotated" "dget demo_start (demo_hash ''c'') = None"
    "dget demo_rotated (demo_hash ''c'') = None"
    "\<And>r. dget demo_start (demo_hash ''a'') = Some r \<Longrightarrow> rt_successor_hash r \<noteq> [] \<Longrightarrow> rt_is_consumed r"
    "\<And>r. dget demo_rotated (demo_hash ''a'') = Some r \<Longrightarrow> rt_successor_hash r \<noteq> [] \<Longrightarrow> rt_is_consumed r"
    by (auto simp: demo_defs rt_is_consumed_def refresh_memory_ok_def)
  note * = peek_iff_rotates [of demo_start "''a''" demo_hash "''c''", OF this(1) _ this(5) this(3),
      of demo_settings 0 0 "''d''" "[]" "[]" "60 * second"]
    peek_iff_rotates [of demo_rotated "''a''" demo_hash "''c''", OF this(2) _ this(6) this(4),
      of demo_settings 0 0 "''d''" "[]" "[]" "60 * second"]
  have "rr_outcome (fst (rotate_session demo_service demo_start 0 ''c'' ''d'' ''a'' [] [] (60 * second))) = Rotated"
    "rr_outcome (fst (rotate_session demo_service demo_rotated 0 ''c'' ''d'' ''a'' [] [] (60 * second))) \<noteq> Rotated"
    by (simp_all add: demo_defs session_evals)
  with * show ?thesis by (simp add: Let_def demo_service_def)
qed

text \<open>
  C7. A spent token presented inside the grace window, while its successor is stored, is
  replayed: the caller gets a token of its own at the successor's generation with the later
  \<^verbatim>\<open>auth_time\<close>, and every stored row, the successor's included, stays as it was.
\<close>

theorem rotate_replays:
  assumes "refresh_memory_ok s" and "dget s (H presented) = Some r"
    and "live_record cfg wall moment r" and "rt_is_consumed r" and "dget s (H token1) = None"
    and "within_grace cfg r moment" and "dget s (rt_successor_hash r) = Some n" and "dget s (H token2) = None"
  shows "\<exists>res issued s'.
    rotate_session (memory_service cfg H w0) s wall token1 token2 presented ip user_agent moment = (res, s') \<and>
    rr_outcome res = Replayed \<and> rr_issued res = Some issued \<and> ir_token issued = token2 \<and>
    ir_generation issued = rt_generation n \<and> ir_family_id issued = rt_family_id r \<and>
    ir_auth_time issued = max (record_auth_time wall r) (record_auth_time wall n) \<and>
    ir_amr issued = rt_amr r \<and> dget s' (H token2) \<noteq> None \<and>
    (\<forall>h x. dget s h = Some x \<longrightarrow> dget s' h = Some x)"
proof -
  note L = sessions.rotate_replay [where cfg = cfg and H = H and clock = w0 and s = s, simplified, OF assms(1-7),
      where ip = ip and user_agent = user_agent]
  obtain res s' where rs: "rotate_session (memory_service cfg H w0) s wall token1 token2 presented
      ip user_agent moment = (res, s')" by force
  obtain s2 where "res = issued_for Replayed r
      (fst (mint (memory_service cfg H w0) s2 wall token2 (replay_request wall r n moment)))"
    using L(1) [of token2] rs by auto
  moreover have "dget s' = (dget s)(H token1 \<mapsto> minted_record (memory_service cfg H w0) wall token1
        (successor_request wall r ip user_agent moment),
      H token2 \<mapsto> minted_record (memory_service cfg H w0) wall token2 (replay_request wall r n moment))"
    using L(2) [of token2] rs by (simp add: fun_eq_iff)
  ultimately show ?thesis
    using rs assms(5,8) by (auto simp: issued_for_def mint_def replay_request_def)
qed

theorem rotate_replays_witness:
  "rr_outcome (fst (rotate_session demo_service demo_rotated 0 ''c'' ''d'' ''a'' [] [] (65 * second))) = Replayed"
proof -
  have "refresh_memory_ok demo_rotated" "dget demo_rotated (demo_hash ''a'') = Some demo_spent"
    "live_record demo_settings 0 (65 * second) demo_spent" "rt_is_consumed demo_spent"
    "dget demo_rotated (demo_hash ''c'') = None" "within_grace demo_settings demo_spent (65 * second)"
    "dget demo_rotated (rt_successor_hash demo_spent) = Some demo_next" "dget demo_rotated (demo_hash ''d'') = None"
    by (simp_all add: demo_defs session_evals refresh_memory_ok_def)
  from rotate_replays [of demo_rotated demo_hash "''a''", OF this, of 0 "[]" "[]"]
  show ?thesis by (auto simp: demo_service_def)
qed

text \<open>
  C8. Revocation does not reach a rotation in flight: when the family is revoked after
  \<^verbatim>\<open>rotate\<close> has read the row and before it consumes it, the rotation still answers
  \<open>Rotated\<close>, and the revoked family has an unrevoked row again.
\<close>

theorem rotation_outruns_revocation:
  assumes "refresh_memory_ok s" and "dget s (H presented) = Some r"
    and "live_record cfg wall moment r" and "\<not> rt_is_consumed r" and "dget s (H token1) = None"
  shows "let svc = memory_service cfg H w0;
      s1 = fst (revoke_family svc s (rt_family_id r));
      (i, s2) = rotate_mint svc s1 wall token1 r ip user_agent moment;
      (res, s3) = rotate_settle svc s2 wall token2 presented r i moment
    in rotate_check svc s wall presented moment = (Inr r, s) \<and> family_dead (dget s1) (rt_family_id r) \<and>
      rr_outcome res = Rotated \<and> \<not> family_dead (dget s3) (rt_family_id r)"
proof -
  let ?svc = "memory_service cfg H w0"
  let ?s1 = "fst (mem_refresh_revoke_family s (rt_family_id r))"
  let ?c = "minted_record ?svc wall token1 (successor_request wall r ip user_agent moment)"
  have s1: "fst (revoke_family ?svc s (rt_family_id r)) = ?s1"
    by (simp add: revoke_family_def memory_refresh_ops_def)
  note rows = mem_revoke_family_rows [OF assms(1), of "rt_family_id r"]
  have check: "rotate_check ?svc s wall presented moment = (Inr r, s)"
    using sessions.rotate_check_cases [where cfg = cfg and H = H and clock = w0, simplified, OF assms(1)] assms(2,3)
    by simp
  obtain i s2 where m: "rotate_mint ?svc ?s1 wall token1 r ip user_agent moment = (i, s2)" by force
  then have s2: "s2 = mem_refresh_put ?s1 ?c" and i: "ir_token i = token1"
    by (auto simp: rotate_mint_def mint_def memory_refresh_ops_def)
  have hash: "rt_token_hash ?c = H token1" by (simp add: minted_record_def)
  have ne: "H presented \<noteq> H token1" using assms(2,5) by auto
  have row: "dget s2 (H presented) = Some (r\<lparr>rt_revoked := True\<rparr>)"
    using ne assms(2) by (simp add: s2 mem_refresh_put_def hash rows revoked_where_def)
  obtain res s3 where st: "rotate_settle ?svc s2 wall token2 presented r i moment = (res, s3)" by force
  have "res = issued_for Rotated r i" "dget s3 (H token1) = Some ?c"
    using st row assms(4) ne
    by (auto simp: rotate_settle_def memory_refresh_ops_def mem_refresh_consume_def rt_is_consumed_def
        s2 mem_refresh_put_def hash)
  moreover have "rt_family_id ?c = rt_family_id r" "\<not> rt_revoked ?c"
    by (simp_all add: minted_record_def successor_request_def)
  moreover from calculation have "\<not> family_dead (dget s3) (rt_family_id r)"
    unfolding family_dead_def by metis
  ultimately show ?thesis
    using revoked_where_dead [OF rows] check m st s1
    by (simp add: Let_def issued_for_def)
qed

theorem rotation_outruns_revocation_witness:
  "let s1 = fst (revoke_family demo_service demo_start ''f1'');
      (i, s2) = rotate_mint demo_service s1 0 ''b'' demo_row [] [] (60 * second);
      (res, s3) = rotate_settle demo_service s2 0 ''x'' ''a'' demo_row i (60 * second)
    in rr_outcome res = Rotated \<and> \<not> family_dead (dget s3) ''f1''"
proof -
  have "refresh_memory_ok demo_start" "dget demo_start (demo_hash ''a'') = Some demo_row"
    "live_record demo_settings 0 (60 * second) demo_row" "\<not> rt_is_consumed demo_row"
    "dget demo_start (demo_hash ''b'') = None"
    by (simp_all add: demo_defs session_evals refresh_memory_ok_def)
  from rotation_outruns_revocation [of demo_start demo_hash "''a''", OF this, of 0 "[]" "[]" "''x''"]
  have "let s1 = fst (revoke_family demo_service demo_start (rt_family_id demo_row));
      (i, s2) = rotate_mint demo_service s1 0 ''b'' demo_row [] [] (60 * second);
      (res, s3) = rotate_settle demo_service s2 0 ''x'' ''a'' demo_row i (60 * second)
    in rr_outcome res = Rotated \<and> \<not> family_dead (dget s3) (rt_family_id demo_row)"
    unfolding demo_service_def Let_def by (auto split: prod.splits)
  then show ?thesis by (simp add: demo_row_def Let_def)
qed

section \<open>The session list\<close>

lemma latest_newest_listed:
  assumes "refresh_memory_ok s" and "dget s h = Some r" and "rt_user_id r = u"
    and "\<And>h' r'. dget s h' = Some r' \<Longrightarrow> rt_user_id r' = u \<Longrightarrow> rt_family_id r' = rt_family_id r \<Longrightarrow>
      rt_generation r \<le> rt_generation r' \<Longrightarrow> r' = r"
  shows "r \<in> set (mem_refresh_latest s u)"
proof -
  let ?l = "latest_loop u (dvalues s) []"
  have dict: "dict_ok s" using assms(1) by (rule refresh_memory_okD)
  have "r \<in> set (dvalues s)" using assms(2) mem_dvalues [OF dict] by blast
  from latest_loop_empty(3) [OF this assms(3)] obtain c
    where c: "dget ?l (rt_family_id r) = Some c" "rt_generation r \<le> rt_generation c" by blast
  from latest_loop_empty(2) [OF c(1)] have "rt_family_id c = rt_family_id r" "rt_user_id c = u"
    "c \<in> set (dvalues s)" by simp_all
  moreover from this obtain h' where "dget s h' = Some c" using mem_dvalues [OF dict] by blast
  ultimately have "c = r" using assms(4) c(2) by blast
  with c(1) have "r \<in> set (dvalues ?l)"
    unfolding mem_dvalues [OF latest_loop_empty(1)] by blast
  then show ?thesis by (simp add: mem_refresh_latest_def)
qed

lemma list_for_user_set:
  "set (list_for_user (memory_service cfg H w0) s wall u moment) =
    summary_of ` {r \<in> set (mem_refresh_latest s u). live_record cfg wall moment r}"
  by (auto simp: list_for_user_def memory_refresh_ops_def)

text \<open>
  C9. The session list is sound and complete: every entry shows a live row of this user that is
  the newest generation of its family, and every live row that is strictly the newest of its
  family is shown; entries come in descending order of last activity.
\<close>

theorem list_for_user_exact:
  assumes "refresh_memory_ok s"
  shows "(\<forall>sm \<in> set (list_for_user (memory_service cfg H w0) s wall u moment).
      \<exists>h r. dget s h = Some r \<and> rt_user_id r = u \<and> live_record cfg wall moment r \<and> sm = summary_of r \<and>
        (\<forall>h' r'. dget s h' = Some r' \<longrightarrow> rt_user_id r' = u \<longrightarrow> rt_family_id r' = rt_family_id r \<longrightarrow>
           rt_generation r' \<le> rt_generation r)) \<and>
    (\<forall>h r. dget s h = Some r \<longrightarrow> rt_user_id r = u \<longrightarrow> live_record cfg wall moment r \<longrightarrow>
       (\<forall>h' r'. dget s h' = Some r' \<longrightarrow> rt_user_id r' = u \<longrightarrow> rt_family_id r' = rt_family_id r \<longrightarrow>
          rt_generation r \<le> rt_generation r' \<longrightarrow> r' = r) \<longrightarrow>
       summary_of r \<in> set (list_for_user (memory_service cfg H w0) s wall u moment)) \<and>
    sorted_wrt (\<lambda>a b. sm_last_active_at b \<le> sm_last_active_at a)
      (list_for_user (memory_service cfg H w0) s wall u moment)"
proof (intro conjI ballI allI impI)
  fix sm
  assume "sm \<in> set (list_for_user (memory_service cfg H w0) s wall u moment)"
  then obtain r where r: "r \<in> set (mem_refresh_latest s u)" "live_record cfg wall moment r" "sm = summary_of r"
    by (auto simp: list_for_user_set)
  from mem_latest_mem [OF assms r(1)] mem_latest_newest [OF assms r(1)] r(2,3)
  show "\<exists>h r. dget s h = Some r \<and> rt_user_id r = u \<and> live_record cfg wall moment r \<and> sm = summary_of r \<and>
        (\<forall>h' r'. dget s h' = Some r' \<longrightarrow> rt_user_id r' = u \<longrightarrow> rt_family_id r' = rt_family_id r \<longrightarrow>
           rt_generation r' \<le> rt_generation r)"
    by (intro exI [of _ "rt_token_hash r"] exI [of _ r]) blast
next
  fix h r
  assume "dget s h = Some r" "rt_user_id r = u" "live_record cfg wall moment r"
    "\<forall>h' r'. dget s h' = Some r' \<longrightarrow> rt_user_id r' = u \<longrightarrow> rt_family_id r' = rt_family_id r \<longrightarrow>
          rt_generation r \<le> rt_generation r' \<longrightarrow> r' = r"
  then show "summary_of r \<in> set (list_for_user (memory_service cfg H w0) s wall u moment)"
    using latest_newest_listed [OF assms, of h r u] by (auto simp: list_for_user_set)
next
  have "sorted (map sm_last_active_at (sort_key sm_last_active_at xs))" for xs by simp
  then show "sorted_wrt (\<lambda>a b. sm_last_active_at b \<le> sm_last_active_at a)
      (list_for_user (memory_service cfg H w0) s wall u moment)"
    by (simp add: list_for_user_def memory_refresh_ops_def sorted_wrt_rev sorted_map)
qed

theorem list_for_user_exact_witness:
  "summary_of demo_next \<in> set (list_for_user demo_service demo_rotated 0 ''u1'' (70 * second))"
proof -
  have ok: "refresh_memory_ok demo_rotated" and row: "dget demo_rotated ''hb'' = Some demo_next"
    and live: "live_record demo_settings 0 (70 * second) demo_next" and user: "rt_user_id demo_next = ''u1''"
    by (simp_all add: demo_defs session_evals refresh_memory_ok_def)
  have "r' = demo_next" if "dget demo_rotated h' = Some r'" "rt_generation demo_next \<le> rt_generation r'" for h' r'
    using that by (auto simp: demo_rotated_def demo_spent_def demo_next_def demo_row_def split: if_splits)
  with list_for_user_exact [OF ok, of demo_settings demo_hash 0 0 "''u1''" "70 * second"] row live user
  show ?thesis unfolding demo_service_def by blast
qed

text \<open>
  \<^verbatim>\<open>revoke_owned_family\<close> acts only on a live family of this user: when it answers a
  count, the whole family is revoked and it was one of the user's live sessions; when it
  answers \<^verbatim>\<open>None\<close> nothing changed; and no other family is touched.
\<close>

theorem revoke_owned_family_owned:
  assumes "refresh_memory_ok s"
    and "revoke_owned_family (memory_service cfg H w0) s wall u f moment = (out, s')"
  shows "case out of
      None \<Rightarrow> s' = s
    | Some n \<Rightarrow> family_dead (dget s') f \<and>
        (\<exists>h r. dget s h = Some r \<and> rt_user_id r = u \<and> rt_family_id r = f \<and> live_record cfg wall moment r) \<and>
        (\<forall>h x. dget s h = Some x \<longrightarrow> rt_family_id x \<noteq> f \<longrightarrow> dget s' h = Some x)"
proof (cases "f = [] \<or> f \<notin> sm_family_id ` set (list_for_user (memory_service cfg H w0) s wall u moment)")
  case True
  then have "out = None \<and> s' = s" using assms(2) by (simp add: revoke_owned_family_def split: if_splits)
  then show ?thesis by simp
next
  case False
  then obtain r where r: "r \<in> set (mem_refresh_latest s u)" "live_record cfg wall moment r" "rt_family_id r = f"
    by (auto simp: list_for_user_set summary_of_def)
  have s': "s' = fst (mem_refresh_revoke_family s f)" and out: "out \<noteq> None"
    using assms(2) False by (auto simp: revoke_owned_family_def memory_refresh_ops_def split: prod.splits)
  note rows = mem_revoke_family_rows [OF assms(1), of f, folded s']
  have "family_dead (dget s') f" using rows by (rule revoked_where_dead)
  moreover have "\<exists>h r. dget s h = Some r \<and> rt_user_id r = u \<and> rt_family_id r = f \<and> live_record cfg wall moment r"
    using mem_latest_mem [OF assms(1) r(1)] r(2,3) by blast
  moreover have "\<forall>h x. dget s h = Some x \<longrightarrow> rt_family_id x \<noteq> f \<longrightarrow> dget s' h = Some x"
    by (simp add: rows revoked_where_def)
  ultimately show ?thesis using out by (auto split: option.splits)
qed

theorem revoke_owned_family_owned_witness:
  "case fst (revoke_owned_family demo_service demo_start 0 ''u1'' ''f1'' (60 * second)) of
     None \<Rightarrow> False
   | Some n \<Rightarrow> family_dead (dget (snd (revoke_owned_family demo_service demo_start 0 ''u1'' ''f1'' (60 * second)))) ''f1''"
proof -
  have ok: "refresh_memory_ok demo_start" by (simp add: demo_defs refresh_memory_ok_def)
  have "fst (revoke_owned_family demo_service demo_start 0 ''u1'' ''f1'' (60 * second)) \<noteq> None"
    by (simp add: revoke_owned_family_def list_for_user_def mem_refresh_latest_def summary_of_def
        demo_defs session_evals)
  with revoke_owned_family_owned [OF ok, of demo_settings demo_hash 0 0 "''u1''" "''f1''" "60 * second",
      OF prod.collapse [symmetric]]
  show ?thesis unfolding demo_service_def by (auto split: option.splits)
qed

end
