(* ===== verification/Lockout.thy ===== *)
theory Lockout
  imports Stores "HOL-Library.Product_Lexorder"
begin

text \<open>
  Progressive lockout, identity/lockout.py, with the in-memory \<^verbatim>\<open>login-attempts\<close> store, and the
  guard \<^verbatim>\<open>_refuse_when_locked\<close> of identity/flows.py that applies it. A delay of the code is
  a count of microseconds.
\<close>

datatype attempt_outcome = Success | Failure | Locked

record login_attempt =
  la_identity_key :: string
  la_attempted_at :: string
  la_outcome :: attempt_outcome
  la_user_id :: string
  la_ip :: string
  la_user_agent :: string
  la_expires_at :: int

record lockout =
  lk_failures :: nat
  lk_retry_at :: "datetime option"

definition lockout_threshold :: nat where "lockout_threshold = 5"
definition lockout_base_delay :: timedelta where "lockout_base_delay = 1 * second"
definition lockout_max_delay :: timedelta where "lockout_max_delay = 15 * 60 * second"
definition lockout_lookback :: timedelta where "lockout_lookback = 24 * 3600 * second"
definition attempt_ttl :: timedelta where "attempt_ttl = 30 * 86400 * second"

definition email_key :: "string \<Rightarrow> string" where
  "email_key email = ''email#'' @ lower (strip email)"

definition ip_key :: "string \<Rightarrow> string" where
  "ip_key address = ''ip#'' @ address"

definition mfa_key :: "string \<Rightarrow> string" where
  "mfa_key user_id = ''mfa#'' @ user_id"

definition lk_locked :: "lockout \<Rightarrow> bool" where
  "lk_locked st = (lk_retry_at st \<noteq> None)"

text \<open>\<^verbatim>\<open>max(int(delta.total_seconds() + 0.999), 0)\<close>, in exact microseconds.\<close>

definition retry_after_seconds :: "lockout \<Rightarrow> datetime \<Rightarrow> int" where
  "retry_after_seconds st now =
     (case lk_retry_at st of
        None \<Rightarrow> 0
      | Some retry_at \<Rightarrow> max (int_timestamp (retry_at - now + 999000)) 0)"

text \<open>The loop of \<^verbatim>\<open>lockout_state\<close>: the failures counted so far and the newest of them.\<close>

fun count_failures ::
  "datetime \<Rightarrow> login_attempt list \<Rightarrow> nat \<Rightarrow> datetime option \<Rightarrow> nat \<times> datetime option" where
  "count_failures horizon [] failures newest = (failures, newest)"
| "count_failures horizon (a # rest) failures newest =
     (case parse_stamp (la_attempted_at a) of
        None \<Rightarrow> (failures, newest)
      | Some parsed \<Rightarrow>
          if parsed < horizon then (failures, newest)
          else if la_outcome a = Success then (failures, newest)
          else if la_outcome a = Locked then count_failures horizon rest failures newest
          else count_failures horizon rest (failures + 1)
                 (case newest of None \<Rightarrow> Some parsed | Some n \<Rightarrow> Some n))"

definition lockout_delay :: "nat \<Rightarrow> timedelta \<Rightarrow> timedelta \<Rightarrow> nat \<Rightarrow> timedelta" where
  "lockout_delay threshold base_delay max_delay failures =
     min (base_delay * 2 ^ min (failures - threshold) 32) max_delay"

definition lockout_state ::
  "login_attempt list \<Rightarrow> datetime \<Rightarrow> nat \<Rightarrow> timedelta \<Rightarrow> timedelta \<Rightarrow> timedelta \<Rightarrow> lockout" where
  "lockout_state attempts moment threshold base_delay max_delay lookback =
     (case count_failures (moment - lookback) attempts 0 None of
        (failures, newest) \<Rightarrow>
          (case newest of
             None \<Rightarrow> \<lparr>lk_failures = failures, lk_retry_at = None\<rparr>
           | Some newest_failure \<Rightarrow>
               if failures < threshold then \<lparr>lk_failures = failures, lk_retry_at = None\<rparr>
               else let retry_at = newest_failure + lockout_delay threshold base_delay max_delay failures
                 in if retry_at \<le> moment then \<lparr>lk_failures = failures, lk_retry_at = None\<rparr>
                    else \<lparr>lk_failures = failures, lk_retry_at = Some retry_at\<rparr>))"

section \<open>The in-memory store\<close>

record attempt_memory =
  am_items :: "(string, (nat \<times> login_attempt) list) dict"
  am_sequence :: nat

definition am_rows :: "attempt_memory \<Rightarrow> string \<Rightarrow> (nat \<times> login_attempt) list" where
  "am_rows s key = (case dget (am_items s) key of None \<Rightarrow> [] | Some rows \<Rightarrow> rows)"

definition mem_attempt_record :: "attempt_memory \<Rightarrow> login_attempt \<Rightarrow> attempt_memory" where
  "mem_attempt_record s a =
     (let n = am_sequence s + 1
      in \<lparr>am_items = dset (la_identity_key a) (am_rows s (la_identity_key a) @ [(n, a)]) (am_items s),
          am_sequence = n\<rparr>)"

text \<open>\<^verbatim>\<open>sorted(rows, key=..., reverse=True)\<close>, newest first.\<close>

definition am_history :: "attempt_memory \<Rightarrow> string \<Rightarrow> login_attempt list" where
  "am_history s key =
     map snd (rev (sort_key (\<lambda>(n, a). (la_attempted_at a, n)) (rev (am_rows s key))))"

definition mem_attempt_recent :: "attempt_memory \<Rightarrow> string \<Rightarrow> nat \<Rightarrow> login_attempt list" where
  "mem_attempt_recent s key limit = take limit (am_history s key)"

definition attempt_limit :: nat where "attempt_limit = 50"

definition new_attempt ::
  "datetime \<Rightarrow> string \<Rightarrow> attempt_outcome \<Rightarrow> string \<Rightarrow> string \<Rightarrow> string \<Rightarrow> login_attempt" where
  "new_attempt wall key outcome user_id ip user_agent =
     \<lparr>la_identity_key = key, la_attempted_at = iso_millis wall, la_outcome = outcome,
      la_user_id = user_id, la_ip = ip, la_user_agent = user_agent,
      la_expires_at = ttl_in wall attempt_ttl\<rparr>"

section \<open>The guard of the login and second factor flows\<close>

definition device_class :: "string \<Rightarrow> string" where
  "device_class user_agent =
     (let lowered = lower user_agent in
      if user_agent = [] then ''unknown''
      else if contains ''bot'' lowered \<or> contains ''crawler'' lowered \<or> contains ''spider'' lowered then ''bot''
      else if contains ''mobile'' lowered \<or> contains ''android'' lowered \<or> contains ''iphone'' lowered
        then ''mobile''
      else if contains ''mozilla'' lowered \<or> contains ''safari'' lowered \<or> contains ''chrome'' lowered
        then ''desktop''
      else ''other'')"

definition flow_lockout_state :: "attempt_memory option \<Rightarrow> string \<Rightarrow> datetime \<Rightarrow> lockout" where
  "flow_lockout_state attempts identity now =
     (case attempts of
        None \<Rightarrow> \<lparr>lk_failures = 0, lk_retry_at = None\<rparr>
      | Some s \<Rightarrow>
          lockout_state (mem_attempt_recent s identity attempt_limit) now lockout_threshold
            lockout_base_delay lockout_max_delay lockout_lookback)"

fun record_under ::
  "datetime \<Rightarrow> attempt_outcome \<Rightarrow> string \<Rightarrow> string \<Rightarrow> string \<Rightarrow> string list \<Rightarrow> attempt_memory \<Rightarrow> attempt_memory" where
  "record_under wall outcome user_id ip user_agent [] s = s"
| "record_under wall outcome user_id ip user_agent (key # keys) s =
     (if key = [] then record_under wall outcome user_id ip user_agent keys s
      else record_under wall outcome user_id ip user_agent keys
             (mem_attempt_record s (new_attempt wall key outcome user_id ip (device_class user_agent))))"

definition flow_record ::
  "datetime \<Rightarrow> attempt_memory option \<Rightarrow> string \<Rightarrow> attempt_outcome \<Rightarrow> string \<Rightarrow> string \<Rightarrow> string \<Rightarrow>
   attempt_memory option" where
  "flow_record wall attempts identity outcome user_id ip user_agent =
     map_option (record_under wall outcome user_id ip user_agent
       [identity, if ip = [] then [] else ip_key ip]) attempts"

text \<open>The result is \<open>Inl\<close> of the \<^verbatim>\<open>RateLimited\<close> delay, or \<open>Inr\<close> when the attempt may go on.\<close>

definition refuse_when_locked ::
  "datetime \<Rightarrow> attempt_memory option \<Rightarrow> string \<Rightarrow> string \<Rightarrow> string \<Rightarrow> datetime \<Rightarrow>
   (int + unit) \<times> attempt_memory option" where
  "refuse_when_locked wall attempts identity ip user_agent now =
     (let st = flow_lockout_state attempts identity now
      in if lk_locked st
         then (Inl (retry_after_seconds st now), flow_record wall attempts identity Locked [] ip user_agent)
         else (Inr (), attempts))"

section \<open>The count\<close>

definition attempt_counts :: "datetime \<Rightarrow> login_attempt \<Rightarrow> bool" where
  "attempt_counts horizon a =
     (la_outcome a \<noteq> Success \<and>
      (case parse_stamp (la_attempted_at a) of None \<Rightarrow> False | Some t \<Rightarrow> horizon \<le> t))"

definition counted_failures :: "datetime \<Rightarrow> login_attempt list \<Rightarrow> login_attempt list" where
  "counted_failures horizon attempts =
     filter (\<lambda>a. la_outcome a = Failure) (takeWhile (attempt_counts horizon) attempts)"

lemma count_failures_eq:
  "count_failures horizon attempts n newest =
    (n + length (counted_failures horizon attempts),
     case newest of
       Some t \<Rightarrow> Some t
     | None \<Rightarrow> (case counted_failures horizon attempts of [] \<Rightarrow> None | a # _ \<Rightarrow> parse_stamp (la_attempted_at a)))"
proof (induction attempts arbitrary: n newest)
  case (Cons a rest)
  show ?case
  proof (cases "attempt_counts horizon a")
    case True
    then obtain t where t: "parse_stamp (la_attempted_at a) = Some t" "horizon \<le> t" "la_outcome a \<noteq> Success"
      by (auto simp: attempt_counts_def split: option.splits)
    then show ?thesis
      using True Cons.IH
      by (cases "la_outcome a") (auto simp: counted_failures_def split: option.splits)
  next
    case False
    then show ?thesis
      by (auto simp: attempt_counts_def counted_failures_def split: option.splits)
  qed
qed (simp add: counted_failures_def split: option.splits)

lemma counted_failures_parse:
  "a \<in> set (counted_failures horizon attempts) \<Longrightarrow> \<exists>t. parse_stamp (la_attempted_at a) = Some t \<and> horizon \<le> t"
  by (auto simp: counted_failures_def attempt_counts_def dest!: set_takeWhileD split: option.splits)

lemma lockout_delay_mono:
  assumes "0 \<le> base" and "m \<le> n"
  shows "lockout_delay k base cap m \<le> lockout_delay k base cap n"
proof -
  have "min (m - k) 32 \<le> min (n - k) 32" using assms(2) by auto
  then have "(2::int) ^ min (m - k) 32 \<le> 2 ^ min (n - k) 32" by (rule power_increasing) simp
  then have "base * 2 ^ min (m - k) 32 \<le> base * 2 ^ min (n - k) 32"
    using assms(1) by (rule mult_left_mono)
  then show ?thesis by (simp add: lockout_delay_def)
qed

section \<open>The order of the history\<close>

definition attempt_memory_ok :: "attempt_memory \<Rightarrow> bool" where
  "attempt_memory_ok s = (\<forall>key n a. (n, a) \<in> set (am_rows s key) \<longrightarrow> n \<le> am_sequence s)"

lemma am_rows_sequence: "attempt_memory_ok s \<Longrightarrow> (n, a) \<in> set (am_rows s key) \<Longrightarrow> n \<le> am_sequence s"
  unfolding attempt_memory_ok_def by blast

lemma am_rows_record:
  "am_rows (mem_attempt_record s a) key =
    (if key = la_identity_key a then am_rows s key @ [(am_sequence s + 1, a)] else am_rows s key)"
  by (simp add: mem_attempt_record_def am_rows_def Let_def)

lemma attempt_memory_ok_record:
  assumes "attempt_memory_ok s"
  shows "attempt_memory_ok (mem_attempt_record s a)"
proof -
  have "am_sequence (mem_attempt_record s a) = am_sequence s + 1"
    by (simp add: mem_attempt_record_def Let_def)
  then show ?thesis
    using assms unfolding attempt_memory_ok_def am_rows_record by (auto split: if_splits intro: le_SucI)
qed

lemma insort_key_last: "\<forall>y \<in> set ys. f y < f x \<Longrightarrow> insort_key f x ys = ys @ [x]"
  by (induction ys) (auto simp: leD)

lemma am_history_record:
  assumes "attempt_memory_ok s"
    and "\<And>b. b \<in> set (am_history s (la_identity_key a)) \<Longrightarrow> la_attempted_at b \<le> la_attempted_at a"
  shows "am_history (mem_attempt_record s a) (la_identity_key a) = a # am_history s (la_identity_key a)"
proof -
  let ?rows = "am_rows s (la_identity_key a)" and ?f = "\<lambda>(n, a). (la_attempted_at a, n)"
  let ?new = "(am_sequence s + 1, a)"
  have less: "?f y < ?f ?new" if "y \<in> set (sort_key ?f (rev ?rows))" for y
  proof -
    obtain n b where y: "y = (n, b)" by force
    with that have mem: "(n, b) \<in> set ?rows" by simp
    then have "b \<in> set (am_history s (la_identity_key a))" by (force simp: am_history_def)
    with assms(2) have "la_attempted_at b \<le> la_attempted_at a" by blast
    moreover have "n \<le> am_sequence s" by (rule am_rows_sequence [OF assms(1) mem])
    ultimately show ?thesis using y by auto
  qed
  have "insort_key ?f ?new (sort_key ?f (rev ?rows)) = sort_key ?f (rev ?rows) @ [?new]"
    by (rule insort_key_last) (use less in blast)
  then show ?thesis by (simp add: am_history_def am_rows_record)
qed

lemma am_history_other: "key \<noteq> la_identity_key a \<Longrightarrow> am_history (mem_attempt_record s a) key = am_history s key"
  by (simp add: am_history_def am_rows_record)

lemma flow_record_memory:
  assumes "attempt_memory_ok s" and "identity \<noteq> []" and "identity \<noteq> ip_key ip"
    and "\<And>b. b \<in> set (am_history s identity) \<Longrightarrow> la_attempted_at b \<le> iso_millis wall"
  shows "\<exists>s'. flow_record wall (Some s) identity outcome user_id ip user_agent = Some s' \<and>
    attempt_memory_ok s' \<and>
    am_history s' identity =
      new_attempt wall identity outcome user_id ip (device_class user_agent) # am_history s identity"
proof -
  let ?a = "\<lambda>key. new_attempt wall key outcome user_id ip (device_class user_agent)"
  have key: "la_identity_key (?a k) = k" for k by (simp add: new_attempt_def)
  have hist: "am_history (mem_attempt_record s (?a identity)) identity = ?a identity # am_history s identity"
    using am_history_record [OF assms(1), of "?a identity"] assms(4)
    by (simp add: key) (simp add: new_attempt_def)
  have ok: "attempt_memory_ok (mem_attempt_record s (?a identity))"
    by (rule attempt_memory_ok_record [OF assms(1)])
  show ?thesis
  proof (cases "ip = []")
    case True
    then show ?thesis using hist ok assms(2) by (simp add: flow_record_def)
  next
    case False
    have "am_history (mem_attempt_record (mem_attempt_record s (?a identity)) (?a (ip_key ip))) identity
        = ?a identity # am_history s identity"
      using hist assms(3) by (simp add: am_history_other key)
    moreover have "ip_key ip \<noteq> []" by (simp add: ip_key_def)
    ultimately show ?thesis
      using False ok assms(2) attempt_memory_ok_record [OF ok] by (simp add: flow_record_def)
  qed
qed

lemma lockout_state_none:
  "counted_failures (moment - lookback) attempts = [] \<Longrightarrow>
    lockout_state attempts moment threshold base cap lookback = \<lparr>lk_failures = 0, lk_retry_at = None\<rparr>"
  by (simp add: lockout_state_def count_failures_eq)

lemma email_key_simps [simp]: "email_key e \<noteq> []" "email_key e \<noteq> ip_key ip"
  by (simp_all add: email_key_def ip_key_def)

section \<open>Properties\<close>

text \<open>
  C10. \<^verbatim>\<open>lockout_state\<close> counts the failures newer than the last success and the lookback,
  skipping refused attempts, and from the threshold on delays the next attempt behind the
  newest failure by the doubled, capped delay.
\<close>

theorem lockout_state_counts:
  "lockout_state attempts moment threshold base cap lookback =
    (case counted_failures (moment - lookback) attempts of
       [] \<Rightarrow> \<lparr>lk_failures = 0, lk_retry_at = None\<rparr>
     | a # rest \<Rightarrow>
         let k = Suc (length rest);
             retry_at = the (parse_stamp (la_attempted_at a)) + lockout_delay threshold base cap k
         in \<lparr>lk_failures = k,
             lk_retry_at = (if threshold \<le> k \<and> moment < retry_at then Some retry_at else None)\<rparr>)"
proof (cases "counted_failures (moment - lookback) attempts")
  case Nil
  then show ?thesis by (simp add: lockout_state_none)
next
  case (Cons a rest)
  then obtain t where "parse_stamp (la_attempted_at a) = Some t"
    using counted_failures_parse [of a "moment - lookback" attempts] by auto
  then show ?thesis
    using Cons by (auto simp: lockout_state_def count_failures_eq Let_def)
qed

text \<open>
  C11. The delay is bounded: for attempts not dated in the future, a lock ends within the
  maximum delay, needs the threshold of failures, and the \<^verbatim>\<open>Retry-After\<close> answered is the rest
  of it, short by less than a millisecond and long by less than a second.
\<close>

theorem lockout_bounded:
  assumes "\<And>a t. a \<in> set attempts \<Longrightarrow> parse_stamp (la_attempted_at a) = Some t \<Longrightarrow> t \<le> moment"
    and "lk_retry_at (lockout_state attempts moment threshold base cap lookback) = Some retry_at"
  shows "moment < retry_at \<and> retry_at \<le> moment + cap \<and>
    threshold \<le> lk_failures (lockout_state attempts moment threshold base cap lookback) \<and>
    retry_at - moment - second div 1000 <
      retry_after_seconds (lockout_state attempts moment threshold base cap lookback) moment * second \<and>
    retry_after_seconds (lockout_state attempts moment threshold base cap lookback) moment * second <
      retry_at - moment + second"
proof -
  let ?c = "counted_failures (moment - lookback) attempts"
  obtain a rest where c: "?c = a # rest"
    using assms(2) lockout_state_none [of moment lookback attempts threshold base cap]
    by (cases ?c) auto
  have st: "lockout_state attempts moment threshold base cap lookback =
      \<lparr>lk_failures = Suc (length rest), lk_retry_at = Some retry_at\<rparr>"
    and r: "retry_at = the (parse_stamp (la_attempted_at a)) + lockout_delay threshold base cap (Suc (length rest))"
    and th: "threshold \<le> Suc (length rest)" "moment < retry_at"
    using assms(2) c by (auto simp: lockout_state_counts Let_def split: if_splits)
  have "a \<in> set attempts"
    using c by (metis counted_failures_def filter_is_subset list.set_intros(1) set_takeWhileD subsetD)
  moreover obtain t where t: "parse_stamp (la_attempted_at a) = Some t"
    using counted_failures_parse [of a "moment - lookback" attempts] c by auto
  ultimately have "t \<le> moment" using assms(1) by blast
  moreover have "lockout_delay threshold base cap (Suc (length rest)) \<le> cap"
    by (simp add: lockout_delay_def)
  ultimately have "retry_at \<le> moment + cap" using r t by simp
  define d where "d = retry_at - moment"
  have "0 < d" using th d_def by simp
  then have ra: "retry_after_seconds (lockout_state attempts moment threshold base cap lookback) moment =
      (d + 999000) div 1000000"
    by (simp add: st retry_after_seconds_def int_timestamp_def second_def d_def pos_imp_zdiv_nonneg_iff
        diff_add_eq)
  define q where "q = (d + 999000) div 1000000"
  have "q * 1000000 + (d + 999000) mod 1000000 = d + 999000"
    unfolding q_def by (rule div_mult_mod_eq)
  moreover have "0 \<le> (d + 999000) mod 1000000" "(d + 999000) mod 1000000 < 1000000" by simp_all
  ultimately have "d - 1000 < q * 1000000" "q * 1000000 < d + 1000000" by linarith+
  then show ?thesis
    using \<open>retry_at \<le> moment + cap\<close> th ra [folded q_def] unfolding d_def st by (simp add: second_def)
qed

definition demo_failure :: login_attempt where
  "demo_failure = new_attempt 0 (email_key ''a@b.c'') Failure ''u1'' [] []"

lemma epoch_in_range: "in_datetime_range 0"
  by code_simp

lemma demo_millis [simp]: "parse_stamp (iso_millis 0) = Some 0"
  by (simp add: parse_iso_millis epoch_in_range)

theorem lockout_bounded_witness:
  "retry_after_seconds (lockout_state (replicate 7 demo_failure) 1000 5 second (900 * second) (86400 * second)) 1000 = 4"
proof -
  have st: "lockout_state (replicate 7 demo_failure) 1000 5 second (900 * second) (86400 * second) =
      \<lparr>lk_failures = 7, lk_retry_at = Some (4 * second)\<rparr>"
    by (simp add: lockout_state_def demo_failure_def new_attempt_def second_def lockout_delay_def
        eval_nat_numeral)
  have "t \<le> 1000" if "a \<in> set (replicate 7 demo_failure)" "parse_stamp (la_attempted_at a) = Some t" for a t
    using that by (simp add: demo_failure_def new_attempt_def)
  from lockout_bounded [of "replicate 7 demo_failure" 1000 5 second "900 * second" "86400 * second"
      "4 * second", OF this] st
  have "1999000 < retry_after_seconds (lockout_state (replicate 7 demo_failure) 1000 5 second (900 * second)
      (86400 * second)) 1000 * 500000" "retry_after_seconds (lockout_state (replicate 7 demo_failure) 1000 5 second
      (900 * second) (86400 * second)) 1000 * 1000000 < 4999000"
    by (simp_all add: second_def)
  then show ?thesis by linarith
qed

text \<open>
  A success clears the lockout: recorded no earlier than the stored attempts, it makes the
  account's state that of no failures at every later moment.
\<close>

theorem success_clears_lockout:
  assumes "attempt_memory_ok s"
    and "\<And>b. b \<in> set (am_history s (email_key email)) \<Longrightarrow> la_attempted_at b \<le> iso_millis wall"
  shows "flow_lockout_state (flow_record wall (Some s) (email_key email) Success user_id ip user_agent)
      (email_key email) now = \<lparr>lk_failures = 0, lk_retry_at = None\<rparr>"
proof -
  obtain s' where "flow_record wall (Some s) (email_key email) Success user_id ip user_agent = Some s'"
    and "am_history s' (email_key email) =
      new_attempt wall (email_key email) Success user_id ip (device_class user_agent) # am_history s (email_key email)"
    using flow_record_memory [OF assms(1) email_key_simps assms(2)] by blast
  then show ?thesis
    by (simp add: flow_lockout_state_def mem_attempt_recent_def attempt_limit_def)
      (rule lockout_state_none, simp add: counted_failures_def attempt_counts_def new_attempt_def numeral_eq_Suc)
qed

theorem success_clears_lockout_witness:
  "flow_lockout_state
     (flow_record 1000 (Some \<lparr>am_items = [(email_key ''a@b.c'', [(1, demo_failure)])], am_sequence = 1\<rparr>)
        (email_key ''a@b.c'') Success ''u1'' [] []) (email_key ''a@b.c'') 2000 =
     \<lparr>lk_failures = 0, lk_retry_at = None\<rparr>"
proof (rule success_clears_lockout)
  show "attempt_memory_ok \<lparr>am_items = [(email_key ''a@b.c'', [(1, demo_failure)])], am_sequence = 1\<rparr>"
    by (simp add: attempt_memory_ok_def am_rows_def)
  have "iso_millis 0 \<le> iso_millis 1000" by code_simp
  then show "b \<in> set (am_history \<lparr>am_items = [(email_key ''a@b.c'', [(1, demo_failure)])], am_sequence = 1\<rparr> (email_key ''a@b.c''))
      \<Longrightarrow> la_attempted_at b \<le> iso_millis 1000" for b
    by (simp add: am_history_def am_rows_def demo_failure_def new_attempt_def)
qed

lemma refusals_history:
  assumes "attempt_memory_ok s" and "sorted (map iso_millis ws)"
    and "\<And>b w. b \<in> set (am_history s (email_key email)) \<Longrightarrow> w \<in> set ws \<Longrightarrow> la_attempted_at b \<le> iso_millis w"
  shows "\<exists>s'. fold (\<lambda>w st. flow_record w st (email_key email) Locked [] ip user_agent) ws (Some s) = Some s' \<and>
    am_history s' (email_key email) =
      rev (map (\<lambda>w. new_attempt w (email_key email) Locked [] ip (device_class user_agent)) ws) @
      am_history s (email_key email)"
  using assms
proof (induction ws arbitrary: s)
  case (Cons w ws)
  have "la_attempted_at b \<le> iso_millis w" if "b \<in> set (am_history s (email_key email))" for b
    using Cons.prems(3) that by simp
  then obtain s1 where s1: "flow_record w (Some s) (email_key email) Locked [] ip user_agent = Some s1"
    "attempt_memory_ok s1"
    "am_history s1 (email_key email) =
      new_attempt w (email_key email) Locked [] ip (device_class user_agent) # am_history s (email_key email)"
    using flow_record_memory [OF Cons.prems(1) email_key_simps, where wall = w and outcome = Locked and user_id = "[]"
        and user_agent = user_agent and ip = ip] by blast
  have "la_attempted_at b \<le> iso_millis w'"
    if "b \<in> set (am_history s1 (email_key email))" "w' \<in> set ws" for b w'
    using that Cons.prems(2,3) s1(3) by (auto simp: new_attempt_def)
  with Cons.IH [OF s1(2)] Cons.prems(2) s1(1,3) show ?case by auto
qed simp

text \<open>
  C12. Refused attempts lift the lockout they were refused by: whatever failures are stored,
  once fifty refusals are recorded after them the guard lets the next attempt through, because
  the refusals fill the fifty rows that are read and count as nothing.
\<close>

theorem refusals_lift_lockout:
  assumes "attempt_memory_ok s" and "sorted (map iso_millis ws)"
    and "\<And>b w. b \<in> set (am_history s (email_key email)) \<Longrightarrow> w \<in> set ws \<Longrightarrow> la_attempted_at b \<le> iso_millis w"
    and "50 \<le> length ws"
  shows "fst (refuse_when_locked wall
      (fold (\<lambda>w st. flow_record w st (email_key email) Locked [] ip user_agent) ws (Some s))
      (email_key email) ip user_agent now) = Inr ()"
proof -
  let ?new = "\<lambda>w. new_attempt w (email_key email) Locked [] ip (device_class user_agent)"
  obtain s' where s': "fold (\<lambda>w st. flow_record w st (email_key email) Locked [] ip user_agent) ws (Some s) = Some s'"
    and hist: "am_history s' (email_key email) = rev (map ?new ws) @ am_history s (email_key email)"
    using refusals_history [OF assms(1-3)] by blast
  have "mem_attempt_recent s' (email_key email) attempt_limit = take 50 (rev (map ?new ws))"
    using assms(4) by (simp add: mem_attempt_recent_def attempt_limit_def hist)
  moreover have "la_outcome a \<noteq> Failure" if "a \<in> set (take 50 (rev (map ?new ws)))" for a
    using in_set_takeD [OF that] by (auto simp: new_attempt_def)
  ultimately have "counted_failures h (mem_attempt_recent s' (email_key email) attempt_limit) = []" for h
    by (auto simp: counted_failures_def filter_empty_conv dest!: set_takeWhileD)
  then show ?thesis
    by (simp add: refuse_when_locked_def s' flow_lockout_state_def lockout_state_none lk_locked_def)
qed

definition demo_locked_out :: attempt_memory where
  "demo_locked_out = \<lparr>am_items = [(email_key ''a@b.c'', map (\<lambda>n. (n, demo_failure)) [1..<21])], am_sequence = 20\<rparr>"

lemma demo_locked_out_facts:
  "attempt_memory_ok demo_locked_out"
  "b \<in> set (am_history demo_locked_out (email_key ''a@b.c'')) \<Longrightarrow> la_attempted_at b = iso_millis 0"
  by (auto simp: attempt_memory_ok_def am_rows_def demo_locked_out_def am_history_def demo_failure_def
      new_attempt_def)

theorem refusals_lift_lockout_witness:
  "fst (refuse_when_locked 1000 (Some demo_locked_out) (email_key ''a@b.c'') ''1.2.3.4'' [] 1000) = Inl 900 \<and>
   fst (refuse_when_locked 1000
      (fold (\<lambda>w st. flow_record w st (email_key ''a@b.c'') Locked [] ''1.2.3.4'' []) (replicate 50 1000) (Some demo_locked_out))
      (email_key ''a@b.c'') ''1.2.3.4'' [] 1000) = Inr ()"
proof
  have rows: "am_history demo_locked_out (email_key ''a@b.c'') = replicate 20 demo_failure"
    by (simp add: am_history_def am_rows_def demo_locked_out_def upt_rec numeral_eq_Suc)
  have "counted_failures (1000 - lockout_lookback) (replicate 20 demo_failure) = replicate 20 demo_failure"
    by (simp add: counted_failures_def attempt_counts_def demo_failure_def new_attempt_def lockout_lookback_def
        second_def)
  then have "flow_lockout_state (Some demo_locked_out) (email_key ''a@b.c'') 1000 =
      \<lparr>lk_failures = 20, lk_retry_at = Some (900 * second)\<rparr>"
    by (simp add: flow_lockout_state_def mem_attempt_recent_def rows attempt_limit_def lockout_state_counts
        demo_failure_def new_attempt_def lockout_delay_def lockout_threshold_def lockout_base_delay_def
        lockout_max_delay_def second_def numeral_eq_Suc)
  then show "fst (refuse_when_locked 1000 (Some demo_locked_out) (email_key ''a@b.c'') ''1.2.3.4'' [] 1000) = Inl 900"
    by (simp add: refuse_when_locked_def lk_locked_def retry_after_seconds_def second_def int_timestamp_def)
  have le: "iso_millis 0 \<le> iso_millis 1000" by code_simp
  show "fst (refuse_when_locked 1000
      (fold (\<lambda>w st. flow_record w st (email_key ''a@b.c'') Locked [] ''1.2.3.4'' []) (replicate 50 1000) (Some demo_locked_out))
      (email_key ''a@b.c'') ''1.2.3.4'' [] 1000) = Inr ()"
    by (rule refusals_lift_lockout [OF demo_locked_out_facts(1)])
      (use demo_locked_out_facts(2) le in auto)
qed

end
