(* ===== verification/Links.thy ===== *)
theory Links
  imports Stores
begin

text \<open>
  The two services that hand out single-use codes over the \<^verbatim>\<open>identity-tokens\<close> table: the
  emailed links of identity/verification.py (\<^verbatim>\<open>LinkService\<close>) and the desktop sign-in handoff
  of identity/desktop_handoff.py (\<^verbatim>\<open>DesktopHandoffService\<close>), with the settings each reads.
  SHA-256 (\<^verbatim>\<open>hash_token\<close>) and the PKCE challenge are parameters of the services.
\<close>

section \<open>Percent encoding\<close>

text \<open>\<^verbatim>\<open>urllib.parse.quote(s, safe='')\<close>: the UTF-8 bytes of every other character as \<^verbatim>\<open>%XX\<close>.\<close>

definition hex_digit :: "nat \<Rightarrow> char" where
  "hex_digit n = (if n < 10 then char_of (48 + n) else char_of (55 + n))"

definition percent :: "nat \<Rightarrow> string" where
  "percent b = [CHR ''%'', hex_digit (b div 16), hex_digit (b mod 16)]"

definition utf8 :: "char \<Rightarrow> nat list" where
  "utf8 c = (if is_ascii c then [code c] else [192 + code c div 64, 128 + code c mod 64])"

definition unreserved :: "char \<Rightarrow> bool" where
  "unreserved c = (is_alnum c \<or> c \<in> set ''_.-~'')"

definition quote :: "string \<Rightarrow> string" where
  "quote s = concat (map (\<lambda>c. if unreserved c then [c] else concat (map percent (utf8 c))) s)"

section \<open>Emailed links\<close>

record link_settings =
  email_verification_ttl :: timedelta
  email_change_ttl :: timedelta
  password_reset_ttl :: timedelta
  frontend_base_url :: string

record 's link_service =
  lv_settings :: link_settings
  lv_store :: "'s token_ops"
  lv_hash :: "string \<Rightarrow> string"

record issued_link =
  il_token :: string
  il_url :: string
  il_purpose :: token_purpose
  il_user_id :: string
  il_expires_at :: int

text \<open>\<^verbatim>\<open>ConfirmationFailed\<close> with its log-only reason.\<close>

datatype confirmation_failed = ConfirmationFailed string

definition verify_link_path :: string where "verify_link_path = ''/verify-email''"
definition reset_link_path :: string where "reset_link_path = ''/reset-password''"
definition email_change_link_path :: string where "email_change_link_path = ''/verify-email-change''"

definition link_path :: "token_purpose \<Rightarrow> string" where
  "link_path purpose =
     (case purpose of VerifyEmail \<Rightarrow> verify_link_path | ChangeEmail \<Rightarrow> email_change_link_path
      | _ \<Rightarrow> reset_link_path)"

definition ttl_for :: "link_settings \<Rightarrow> token_purpose \<Rightarrow> timedelta" where
  "ttl_for cfg purpose =
     (if purpose = VerifyEmail then email_verification_ttl cfg
      else if purpose = ChangeEmail then email_change_ttl cfg
      else password_reset_ttl cfg)"

definition link_for :: "link_settings \<Rightarrow> token_purpose \<Rightarrow> string \<Rightarrow> string" where
  "link_for cfg purpose token =
     (let base = rstrip_char (CHR ''/'') (frontend_base_url cfg); path = link_path purpose
      in if token = [] then base @ path else base @ path @ ''?token='' @ quote token)"

definition page_for :: "link_settings \<Rightarrow> token_purpose \<Rightarrow> string" where
  "page_for cfg purpose = link_for cfg purpose []"

definition issue_link ::
  "'s link_service \<Rightarrow> 's \<Rightarrow> datetime \<Rightarrow> string \<Rightarrow> string \<Rightarrow> token_purpose \<Rightarrow> datetime \<Rightarrow>
   (string, attribute) dict \<Rightarrow> issued_link \<times> 's" where
  "issue_link svc s wall token user_id purpose moment attributes =
     (let expires_at = int_timestamp (moment + ttl_for (lv_settings svc) purpose)
      in (\<lparr>il_token = token, il_url = link_for (lv_settings svc) purpose token, il_purpose = purpose,
           il_user_id = user_id, il_expires_at = expires_at\<rparr>,
          ot_put (lv_store svc) s
            \<lparr>it_token_hash = lv_hash svc token, it_purpose = purpose, it_user_id = user_id,
             it_created_at = now_iso wall, it_expires_at = expires_at, it_consumed_at = [],
             it_attributes = attributes\<rparr>))"

text \<open>\<^verbatim>\<open>confirm\<close> in its two parts, the checks before and after the atomic consume.\<close>

definition confirm_check ::
  "'s link_service \<Rightarrow> 's \<Rightarrow> string \<Rightarrow> token_purpose \<Rightarrow> datetime \<Rightarrow> confirmation_failed + unit" where
  "confirm_check svc s presented purpose moment =
     (if presented = [] then Inl (ConfirmationFailed ''empty'')
      else case ot_get (lv_store svc) s (lv_hash svc presented) of
          None \<Rightarrow> Inl (ConfirmationFailed ''unknown'')
        | Some existing \<Rightarrow>
            if it_purpose existing \<noteq> purpose then Inl (ConfirmationFailed ''wrong_purpose'')
            else if it_consumed_at existing \<noteq> [] then Inl (ConfirmationFailed ''already_consumed'')
            else if is_expired moment (it_expires_at existing) then Inl (ConfirmationFailed ''expired'')
            else Inr ())"

definition confirm_consume ::
  "'s link_service \<Rightarrow> 's \<Rightarrow> datetime \<Rightarrow> string \<Rightarrow> token_purpose \<Rightarrow> datetime \<Rightarrow>
   (confirmation_failed + identity_token) \<times> 's" where
  "confirm_consume svc s wall presented purpose moment =
     (case ot_consume (lv_store svc) s (lv_hash svc presented) (now_iso wall) of
        (None, s) \<Rightarrow> (Inl (ConfirmationFailed ''consumed_concurrently''), s)
      | (Some consumed, s) \<Rightarrow>
          if it_purpose consumed \<noteq> purpose then (Inl (ConfirmationFailed ''wrong_purpose''), s)
          else if is_expired moment (it_expires_at consumed) then (Inl (ConfirmationFailed ''expired''), s)
          else (Inr consumed, s))"

definition confirm_link ::
  "'s link_service \<Rightarrow> 's \<Rightarrow> datetime \<Rightarrow> string \<Rightarrow> token_purpose \<Rightarrow> datetime \<Rightarrow>
   (confirmation_failed + identity_token) \<times> 's" where
  "confirm_link svc s wall presented purpose moment =
     (case confirm_check svc s presented purpose moment of
        Inl e \<Rightarrow> (Inl e, s)
      | Inr _ \<Rightarrow> confirm_consume svc s wall presented purpose moment)"

definition describe_expiry :: "timedelta \<Rightarrow> string" where
  "describe_expiry ttl =
     (let seconds = int_timestamp ttl in
      if seconds \<ge> 172800 \<and> seconds mod 86400 = 0 then int_str (seconds div 86400) @ '' days''
      else if seconds \<ge> 3600 then
        (let hours = seconds div 3600 in if hours = 1 then ''1 hour'' else int_str hours @ '' hours'')
      else (let minutes = max 1 (seconds div 60)
            in if minutes = 1 then ''1 minute'' else int_str minutes @ '' minutes''))"

section \<open>Desktop handoff\<close>

record handoff_settings =
  desktop_handoff_schemes :: "string list"
  desktop_handoff_code_ttl :: timedelta

record 's handoff_service =
  hs_settings :: handoff_settings
  hs_store :: "'s token_ops"
  hs_hash :: "string \<Rightarrow> string"
  hs_challenge :: "string \<Rightarrow> string"

record redeemed_handoff =
  rh_user_id :: string
  rh_amr :: "string list"
  rh_auth_time :: int
  rh_scheme :: string
  rh_source_family_id :: string

text \<open>\<^verbatim>\<open>HandoffRejected\<close> with its code and status, or an exception of Python's own.\<close>

datatype handoff_error = HandoffRejected string int | HandoffTypeError | HandoffValueError

definition handoff_invalid :: handoff_error where
  "handoff_invalid = HandoffRejected ''HANDOFF_INVALID'' 400"

definition normalise_scheme :: "string \<Rightarrow> string" where
  "normalise_scheme v = removesuffix '':'' (removesuffix ''://'' (lower (strip v)))"

definition challenge_pattern :: "string \<Rightarrow> bool" where
  "challenge_pattern s = (list_all (\<lambda>c. is_alnum c \<or> c \<in> set ''_-'') s \<and> length s = 43)"

definition verifier_pattern :: "string \<Rightarrow> bool" where
  "verifier_pattern s =
     (list_all (\<lambda>c. is_alnum c \<or> c \<in> set ''._~-'') s \<and> 43 \<le> length s \<and> length s \<le> 128)"

definition code_max_length :: nat where "code_max_length = 128"

definition handoff_allows :: "handoff_settings \<Rightarrow> string \<Rightarrow> bool" where
  "handoff_allows cfg scheme = (normalise_scheme scheme \<in> set (desktop_handoff_schemes cfg))"

definition mint_handoff ::
  "'s handoff_service \<Rightarrow> 's \<Rightarrow> datetime \<Rightarrow> string \<Rightarrow> string \<Rightarrow> string \<Rightarrow> string \<Rightarrow> string \<Rightarrow>
   string list \<Rightarrow> int \<Rightarrow> string \<Rightarrow> (handoff_error + string \<times> int) \<times> 's" where
  "mint_handoff svc s wall token user_id code_challenge code_challenge_method scheme amr auth_time family_id =
     (if user_id = [] then (Inl (HandoffRejected ''NOT_AUTHENTICATED'' 401), s)
      else let normalised = normalise_scheme scheme in
        if \<not> handoff_allows (hs_settings svc) normalised
        then (Inl (HandoffRejected ''HANDOFF_SCHEME_NOT_ALLOWED'' 400), s)
        else if code_challenge_method \<noteq> ''S256'' then (Inl (HandoffRejected ''HANDOFF_INVALID_REQUEST'' 400), s)
        else if \<not> challenge_pattern code_challenge then (Inl (HandoffRejected ''HANDOFF_INVALID_REQUEST'' 400), s)
        else let ttl_seconds = int_timestamp (desktop_handoff_code_ttl (hs_settings svc)) in
          (Inr (token, ttl_seconds),
           ot_put (hs_store svc) s
             \<lparr>it_token_hash = hs_hash svc token, it_purpose = DesktopHandoff, it_user_id = user_id,
              it_created_at = now_iso wall, it_expires_at = ttl_in wall (ttl_seconds * second),
              it_consumed_at = [],
              it_attributes = [(''code_challenge'', AttrStr code_challenge), (''scheme'', AttrStr normalised),
                (''amr'', AttrList (fromkeys amr)), (''auth_time'', AttrInt auth_time),
                (''family_id'', AttrStr family_id)]\<rparr>))"

definition attr_get_str :: "(string, attribute) dict \<Rightarrow> string \<Rightarrow> string" where
  "attr_get_str d k = (case dget d k of None \<Rightarrow> [] | Some v \<Rightarrow> attr_str v)"

text \<open>\<^verbatim>\<open>tuple(str(m) for m in (attributes.get("amr") or ()))\<close>\<close>

definition attr_get_list :: "(string, attribute) dict \<Rightarrow> string \<Rightarrow> string list option" where
  "attr_get_list d k =
     (case dget d k of
        None \<Rightarrow> Some []
      | Some (AttrList xs) \<Rightarrow> Some xs
      | Some (AttrStr s) \<Rightarrow> Some (map (\<lambda>c. [c]) s)
      | Some (AttrInt n) \<Rightarrow> if n = 0 then Some [] else None)"

text \<open>\<^verbatim>\<open>int(attributes.get("auth_time", 0) or 0)\<close>\<close>

definition attr_get_int :: "(string, attribute) dict \<Rightarrow> string \<Rightarrow> int option" where
  "attr_get_int d k =
     (case dget d k of
        None \<Rightarrow> Some 0
      | Some v \<Rightarrow> if v = AttrStr [] \<or> v = AttrList [] then Some 0 else attr_int v)"

definition redeem_record ::
  "'s handoff_service \<Rightarrow> identity_token \<Rightarrow> string \<Rightarrow> string \<Rightarrow> datetime \<Rightarrow> handoff_error + redeemed_handoff" where
  "redeem_record svc r code_verifier scheme now =
     (if it_purpose r \<noteq> DesktopHandoff then Inl handoff_invalid
      else if is_expired now (it_expires_at r) then Inl handoff_invalid
      else let attributes = it_attributes r; bound_scheme = attr_get_str attributes ''scheme'' in
        if bound_scheme = [] then Inl handoff_invalid
        else case compare_digest bound_scheme (normalise_scheme scheme) of
            None \<Rightarrow> Inl HandoffTypeError
          | Some same \<Rightarrow>
              if \<not> same then Inl handoff_invalid
              else if \<not> handoff_allows (hs_settings svc) bound_scheme then Inl handoff_invalid
              else if \<not> verifier_pattern code_verifier then Inl handoff_invalid
              else let challenge = attr_get_str attributes ''code_challenge'' in
                if challenge = [] then Inl handoff_invalid
                else case compare_digest (hs_challenge svc code_verifier) challenge of
                    None \<Rightarrow> Inl HandoffTypeError
                  | Some same \<Rightarrow>
                      if \<not> same then Inl handoff_invalid
                      else case attr_get_list attributes ''amr'' of
                          None \<Rightarrow> Inl HandoffTypeError
                        | Some amr \<Rightarrow>
                            (case attr_get_int attributes ''auth_time'' of
                               None \<Rightarrow> Inl HandoffValueError
                             | Some auth_time \<Rightarrow>
                                 Inr \<lparr>rh_user_id = it_user_id r, rh_amr = amr, rh_auth_time = auth_time,
                                      rh_scheme = bound_scheme,
                                      rh_source_family_id = attr_get_str attributes ''family_id''\<rparr>))"

definition redeem_handoff ::
  "'s handoff_service \<Rightarrow> 's \<Rightarrow> string \<Rightarrow> string \<Rightarrow> string \<Rightarrow> datetime \<Rightarrow>
   (handoff_error + redeemed_handoff) \<times> 's" where
  "redeem_handoff svc s presented code_verifier scheme now =
     (if presented = [] \<or> length presented > code_max_length then (Inl handoff_invalid, s)
      else case ot_consume (hs_store svc) s (hs_hash svc presented) [] of
          (None, s) \<Rightarrow> (Inl handoff_invalid, s)
        | (Some r, s) \<Rightarrow> (redeem_record svc r code_verifier scheme now, s))"

end
