(* ===== verification/LinkProperties.thy ===== *)
theory LinkProperties
  imports Links
begin

text \<open>
  The guarantees of the two single-use code services, first over any store that keeps the
  \<open>token_store\<close> contract, then on the in-memory store. \<open>token_step\<close> is one store operation of
  any service that shares the table, so a run of steps is any interleaving of requests.
\<close>

inductive token_step :: "'s token_ops \<Rightarrow> 's \<Rightarrow> 's \<Rightarrow> bool" for T where
  token_step_put: "ot_get T s (it_token_hash r) = None \<Longrightarrow> token_step T s (ot_put T s r)"
| token_step_consume: "token_step T s (snd (ot_consume T s h c))"
| token_step_revoke: "token_step T s (fst (ot_revoke_for_user T s u p))"

context token_store
begin

lemma token_step_keeps:
  assumes "token_step T s s'" and "ok s" and "it_spent (rows s) h"
  shows "ok s' \<and> it_spent (rows s') h"
  using assms
proof (cases rule: token_step.cases)
  case (token_step_put r)
  then have "rows s (it_token_hash r) = None" using assms(2) by (simp add: token_get)
  then show ?thesis using token_step_put(1) put_keeps_spent [OF assms(2,3)] token_put_ok [OF assms(2)] by simp
next
  case (token_step_consume k c)
  then show ?thesis using consume_keeps_spent [OF assms(2,3)] token_consume_ok [OF assms(2)] by simp
next
  case (token_step_revoke u p)
  then show ?thesis using revoke_keeps_spent [OF assms(2,3)] token_revoke_ok [OF assms(2)] by simp
qed

lemma token_steps_keep:
  "(token_step T)\<^sup>*\<^sup>* s s' \<Longrightarrow> ok s \<Longrightarrow> it_spent (rows s) h \<Longrightarrow> ok s' \<and> it_spent (rows s') h"
  by (induction rule: rtranclp_induct) (use token_step_keeps in blast)+

end

section \<open>Emailed links\<close>

definition link_confirmable :: "identity_token option \<Rightarrow> token_purpose \<Rightarrow> datetime \<Rightarrow> bool" where
  "link_confirmable row purpose moment =
     (case row of None \<Rightarrow> False
      | Some r \<Rightarrow> it_purpose r = purpose \<and> it_consumed_at r = [] \<and> \<not> is_expired moment (it_expires_at r))"

locale link_service_over = token_store "lv_store svc" rows ok
  for svc :: "'s link_service" and rows :: "'s \<Rightarrow> string \<Rightarrow> identity_token option" and ok
begin

lemma confirm_check_eq:
  "ok s \<Longrightarrow> (confirm_check svc s presented purpose moment = Inr ()) \<longleftrightarrow>
    presented \<noteq> [] \<and> link_confirmable (rows s (lv_hash svc presented)) purpose moment"
  by (auto simp: confirm_check_def link_confirmable_def token_get split: option.splits)

lemma confirm_consume_success:
  assumes "ok s" and "confirm_consume svc s wall presented purpose moment = (Inr r, s')"
  shows "rows s (lv_hash svc presented) = Some r \<and> link_confirmable (Some r) purpose moment \<and>
    ok s' \<and> it_spent (rows s') (lv_hash svc presented)"
  using assms(2) consume_result [OF assms(1), of "lv_hash svc presented" "now_iso wall"]
    consume_spent [OF assms(1), of "lv_hash svc presented" "now_iso wall"]
    token_consume_ok [OF assms(1), of "lv_hash svc presented" "now_iso wall"]
  by (cases "ot_consume (lv_store svc) s (lv_hash svc presented) (now_iso wall)")
    (auto simp: confirm_consume_def link_confirmable_def split: option.splits if_splits)

lemma confirm_consume_confirmable:
  assumes "ok s" and "rows s (lv_hash svc presented) = Some r" and "link_confirmable (Some r) purpose moment"
  shows "fst (confirm_consume svc s wall presented purpose moment) = Inr r"
  using assms(2,3) consume_result [OF assms(1), of "lv_hash svc presented" "now_iso wall"]
  by (cases "ot_consume (lv_store svc) s (lv_hash svc presented) (now_iso wall)")
    (auto simp: confirm_consume_def link_confirmable_def)

lemma confirm_consume_spent:
  assumes "ok s" and "it_spent (rows s) (lv_hash svc presented)"
  shows "fst (confirm_consume svc s wall presented purpose moment) =
    Inl (ConfirmationFailed ''consumed_concurrently'')"
  using spent_not_consumed [OF assms, of "now_iso wall"]
  by (cases "ot_consume (lv_store svc) s (lv_hash svc presented) (now_iso wall)")
    (auto simp: confirm_consume_def)

lemma confirm_link_iff:
  assumes "ok s"
  shows "(\<exists>s'. confirm_link svc s wall presented purpose moment = (Inr r, s')) \<longleftrightarrow>
    presented \<noteq> [] \<and> rows s (lv_hash svc presented) = Some r \<and> link_confirmable (Some r) purpose moment"
proof
  assume "\<exists>s'. confirm_link svc s wall presented purpose moment = (Inr r, s')"
  then obtain s' where "confirm_check svc s presented purpose moment = Inr ()"
    "confirm_consume svc s wall presented purpose moment = (Inr r, s')"
    by (auto simp: confirm_link_def split: sum.splits)
  then show "presented \<noteq> [] \<and> rows s (lv_hash svc presented) = Some r \<and> link_confirmable (Some r) purpose moment"
    using confirm_check_eq [OF assms] confirm_consume_success [OF assms] by blast
next
  assume r: "presented \<noteq> [] \<and> rows s (lv_hash svc presented) = Some r \<and> link_confirmable (Some r) purpose moment"
  then have "confirm_check svc s presented purpose moment = Inr ()"
    using confirm_check_eq [OF assms] by simp
  then show "\<exists>s'. confirm_link svc s wall presented purpose moment = (Inr r, s')"
    using confirm_consume_confirmable [OF assms, of presented r purpose moment wall] r
    by (cases "confirm_consume svc s wall presented purpose moment") (simp add: confirm_link_def)
qed

end

definition memory_links ::
  "link_settings \<Rightarrow> (string \<Rightarrow> string) \<Rightarrow> datetime \<Rightarrow> token_memory link_service" where
  "memory_links cfg H clock = \<lparr>lv_settings = cfg, lv_store = memory_token_ops clock, lv_hash = H\<rparr>"

lemma memory_links_simps [simp]:
  "lv_settings (memory_links cfg H clock) = cfg"
  "lv_store (memory_links cfg H clock) = memory_token_ops clock"
  "lv_hash (memory_links cfg H clock) = H"
  by (simp_all add: memory_links_def)

interpretation links: link_service_over "memory_links cfg H clock" map_of token_memory_ok for cfg H clock
  using mem_token.token_store_axioms by (simp add: link_service_over_def)

definition demo_link_settings :: link_settings where
  "demo_link_settings = \<lparr>email_verification_ttl = 86400 * second, email_change_ttl = 3600 * second,
     password_reset_ttl = 3600 * second, frontend_base_url = ''https://app.test/''\<rparr>"

definition demo_links :: "token_memory link_service" where
  "demo_links = memory_links demo_link_settings demo_hash 0"

definition demo_link_row :: identity_token where
  "demo_link_row = \<lparr>it_token_hash = ''ht'', it_purpose = ResetPassword, it_user_id = ''u1'',
     it_created_at = ''now'', it_expires_at = 3600, it_consumed_at = [], it_attributes = []\<rparr>"

text \<open>
  C13. A link confirms exactly when it is stored for that purpose, unspent and unexpired; then
  the stored record comes back, and a refusal before the consume leaves the table as it was.
\<close>

theorem confirm_link_exact:
  assumes "token_memory_ok s"
  shows "(case confirm_link (memory_links cfg H clock) s wall presented purpose moment of
      (Inr r, s') \<Rightarrow> dget s (H presented) = Some r \<and> it_purpose r = purpose \<and> it_consumed_at r = [] \<and>
        \<not> is_expired moment (it_expires_at r) \<and> it_spent (dget s') (H presented) \<and>
        (\<forall>h. h \<noteq> H presented \<longrightarrow> dget s' h = dget s h)
    | (Inl e, s') \<Rightarrow> s' = s \<and> \<not> (presented \<noteq> [] \<and> link_confirmable (dget s (H presented)) purpose moment))"
proof (cases "confirm_link (memory_links cfg H clock) s wall presented purpose moment")
  case (Pair res s')
  note iff = links.confirm_link_iff [OF assms, of cfg H clock wall presented purpose moment, unfolded Pair]
  show ?thesis
  proof (cases res)
    case (Inl e)
    have no: "\<not> (presented \<noteq> [] \<and> link_confirmable (dget s (H presented)) purpose moment)"
      using iff Inl by (cases "dget s (H presented)") (auto simp: link_confirmable_def)
    then have "confirm_check (memory_links cfg H clock) s presented purpose moment \<noteq> Inr ()"
      using links.confirm_check_eq [OF assms, of cfg H clock presented purpose moment] by simp
    then have "s' = s" using Pair by (auto simp: confirm_link_def split: sum.splits)
    with no Pair Inl show ?thesis by simp
  next
    case (Inr r)
    then have r: "dget s (H presented) = Some r" "link_confirmable (Some r) purpose moment"
      using iff by auto
    have "confirm_consume (memory_links cfg H clock) s wall presented purpose moment = (Inr r, s')"
      using Pair Inr by (auto simp: confirm_link_def split: sum.splits)
    then have "dget s' = (dget s)(H presented \<mapsto> r\<lparr>it_consumed_at := now_iso wall\<rparr>)"
      using r by (auto simp: confirm_consume_def memory_token_ops_def mem_token_consume_def
          link_confirmable_def now_iso_def)
    then show ?thesis using Pair Inr r by (auto simp: link_confirmable_def it_spent_def now_iso_def)
  qed
qed

theorem confirm_link_exact_witness:
  "fst (confirm_link demo_links [(''ht'', demo_link_row)] 0 ''t'' ResetPassword 0) = Inr demo_link_row"
proof -
  have ok: "token_memory_ok [(''ht'', demo_link_row)]" by (simp add: token_memory_ok_def)
  have "link_confirmable (dget [(''ht'', demo_link_row)] ''ht'') ResetPassword 0"
    by (simp add: link_confirmable_def demo_link_row_def is_expired_def int_timestamp_def second_def)
  then show ?thesis
    using confirm_link_exact [OF ok, where cfg = demo_link_settings and H = demo_hash and presented = "''t''" and purpose = ResetPassword
      and moment = 0 and wall = 0 and clock = 0]
    by (auto simp: demo_links_def demo_hash_def split: prod.splits sum.splits)
qed

text \<open>
  C14. A link is single use under any interleaving: once one confirmation has consumed it,
  a confirmation that passed its checks earlier, or starts later, fails, whatever other
  requests ran on the table in between.
\<close>

theorem link_single_use:
  assumes "token_memory_ok s"
    and "confirm_consume (memory_links cfg H clock) s wall presented purpose moment = (Inr r, s1)"
    and "(token_step (memory_token_ops clock))\<^sup>*\<^sup>* s1 s2"
  shows "fst (confirm_consume (memory_links cfg H clock) s2 wall2 presented purpose2 moment2) =
      Inl (ConfirmationFailed ''consumed_concurrently'') \<and>
    (\<forall>x. fst (confirm_link (memory_links cfg H clock) s2 wall2 presented purpose2 moment2) \<noteq> Inr x)"
proof -
  have "token_memory_ok s1 \<and> it_spent (dget s1) (H presented)"
    using links.confirm_consume_success [OF assms(1), of cfg H clock wall presented purpose moment r s1] assms(2)
    by simp
  then have s2: "token_memory_ok s2" "it_spent (dget s2) (H presented)"
    using mem_token.token_steps_keep [OF assms(3)] by blast+
  have fails: "fst (confirm_consume (memory_links cfg H clock) s2 wall2 presented purpose2 moment2) =
      Inl (ConfirmationFailed ''consumed_concurrently'')"
    using links.confirm_consume_spent [where cfg = cfg and H = H and clock = clock and s = s2] s2 by simp
  then show ?thesis
    by (auto simp: confirm_link_def split: sum.splits)
qed

theorem link_single_use_witness:
  "fst (confirm_link demo_links (snd (confirm_link demo_links [(''ht'', demo_link_row)] 0 ''t'' ResetPassword 0))
      0 ''t'' ResetPassword 0) \<noteq> Inr demo_link_row"
proof -
  let ?s = "[(''ht'', demo_link_row)]"
  have ok: "token_memory_ok ?s" by (simp add: token_memory_ok_def)
  have run: "confirm_consume demo_links ?s 0 ''t'' ResetPassword 0 =
      (Inr demo_link_row, [(''ht'', demo_link_row\<lparr>it_consumed_at := now_iso 0\<rparr>)])"
    and same: "snd (confirm_link demo_links ?s 0 ''t'' ResetPassword 0) =
      [(''ht'', demo_link_row\<lparr>it_consumed_at := now_iso 0\<rparr>)]"
    by (simp_all add: confirm_link_def confirm_check_def confirm_consume_def demo_links_def demo_hash_def demo_link_row_def
        memory_token_ops_def mem_token_get_def mem_token_consume_def is_expired_def int_timestamp_def second_def
        now_iso_def)
  from link_single_use [OF ok run [unfolded demo_links_def] rtranclp.rtrancl_refl, of 0 ResetPassword 0]
  show ?thesis unfolding same unfolding demo_links_def by simp
qed

section \<open>Desktop handoff\<close>

locale handoff_service_over = token_store "hs_store svc" rows ok
  for svc :: "'s handoff_service" and rows :: "'s \<Rightarrow> string \<Rightarrow> identity_token option" and ok
begin

lemma redeem_spends:
  assumes "ok s" and "presented \<noteq> []" and "length presented \<le> code_max_length"
    and "rows s (hs_hash svc presented) \<noteq> None"
  shows "ok (snd (redeem_handoff svc s presented verifier scheme now))"
    and "it_spent (rows (snd (redeem_handoff svc s presented verifier scheme now))) (hs_hash svc presented)"
proof -
  let ?h = "hs_hash svc presented"
  obtain res s' where con: "ot_consume (hs_store svc) s ?h [] = (res, s')" by force
  have snd: "snd (redeem_handoff svc s presented verifier scheme now) = s'"
    using assms(2,3) con by (simp add: redeem_handoff_def split: option.splits)
  show "ok (snd (redeem_handoff svc s presented verifier scheme now))"
    using snd token_consume_ok [OF assms(1), of ?h "[]"] con by simp
  obtain r where r: "rows s ?h = Some r" using assms(4) by blast
  show "it_spent (rows (snd (redeem_handoff svc s presented verifier scheme now))) ?h"
  proof (cases "it_consumed_at r = []")
    case True
    then have "fst (ot_consume (hs_store svc) s ?h []) = Some r"
      using consume_result [OF assms(1), of ?h "[]"] r by simp
    from consume_spent [OF assms(1) this] show ?thesis using snd con by simp
  next
    case False
    then have "it_spent (rows s) ?h" using r by (simp add: it_spent_def)
    from consume_keeps_spent [OF assms(1) this, of ?h "[]"] show ?thesis using snd con by simp
  qed
qed

lemma redeem_spent:
  assumes "ok s" and "it_spent (rows s) (hs_hash svc presented)"
  shows "fst (redeem_handoff svc s presented verifier scheme now) = Inl handoff_invalid"
  using spent_not_consumed [OF assms, of "[]"]
  by (auto simp: redeem_handoff_def split: prod.splits option.splits)

end

definition memory_handoffs ::
  "handoff_settings \<Rightarrow> (string \<Rightarrow> string) \<Rightarrow> (string \<Rightarrow> string) \<Rightarrow> datetime \<Rightarrow> token_memory handoff_service" where
  "memory_handoffs cfg H P clock =
     \<lparr>hs_settings = cfg, hs_store = memory_token_ops clock, hs_hash = H, hs_challenge = P\<rparr>"

lemma memory_handoffs_simps [simp]:
  "hs_settings (memory_handoffs cfg H P clock) = cfg"
  "hs_store (memory_handoffs cfg H P clock) = memory_token_ops clock"
  "hs_hash (memory_handoffs cfg H P clock) = H"
  "hs_challenge (memory_handoffs cfg H P clock) = P"
  by (simp_all add: memory_handoffs_def)

interpretation handoffs: handoff_service_over "memory_handoffs cfg H P clock" map_of token_memory_ok
  for cfg H P clock
  using mem_token.token_store_axioms by (simp add: handoff_service_over_def)

definition demo_handoffs :: "token_memory handoff_service" where
  "demo_handoffs = memory_handoffs \<lparr>desktop_handoff_schemes = [''app''], desktop_handoff_code_ttl = 60 * second\<rparr>
     demo_hash (\<lambda>v. replicate 43 (CHR ''c'')) 0"

lemma mint_handoff_success:
  assumes "mint_handoff (memory_handoffs cfg H P clock) s wall token user challenge challenge_method scheme amr auth_time
      family = (Inr (minted, ttl), s')"
  shows "minted = token \<and> user \<noteq> [] \<and> handoff_allows cfg (normalise_scheme scheme) \<and> challenge_pattern challenge \<and>
    dget s' (H token) = Some \<lparr>it_token_hash = H token, it_purpose = DesktopHandoff, it_user_id = user,
              it_created_at = now_iso wall, it_expires_at = ttl_in wall (ttl * second),
              it_consumed_at = [],
              it_attributes = [(''code_challenge'', AttrStr challenge), (''scheme'', AttrStr (normalise_scheme scheme)),
                (''amr'', AttrList (fromkeys amr)), (''auth_time'', AttrInt auth_time),
                (''family_id'', AttrStr family)]\<rparr>"
  using assms
  by (auto simp: mint_handoff_def Let_def memory_token_ops_def mem_token_put_def split: if_splits)

lemma challenge_pattern_ascii: "challenge_pattern s \<Longrightarrow> list_all is_ascii s \<and> s \<noteq> []"
  by (auto simp: challenge_pattern_def list_all_iff is_ascii_def is_alnum_def is_alpha_def is_upper_def
      is_lower_def is_digit_def)

lemma handoff_keys [simp]:
  "dget [(''code_challenge'', a), (''scheme'', b), (''amr'', c), (''auth_time'', d), (''family_id'', e)] ''code_challenge'' = Some a"
  "dget [(''code_challenge'', a), (''scheme'', b), (''amr'', c), (''auth_time'', d), (''family_id'', e)] ''scheme'' = Some b"
  "dget [(''code_challenge'', a), (''scheme'', b), (''amr'', c), (''auth_time'', d), (''family_id'', e)] ''amr'' = Some c"
  "dget [(''code_challenge'', a), (''scheme'', b), (''amr'', c), (''auth_time'', d), (''family_id'', e)] ''auth_time'' = Some d"
  "dget [(''code_challenge'', a), (''scheme'', b), (''amr'', c), (''auth_time'', d), (''family_id'', e)] ''family_id'' = Some e"
  by simp_all

text \<open>
  C15. A handoff round trip: the code \<^verbatim>\<open>mint\<close> hands out redeems, before it expires, for the
  verifier of its challenge and the same scheme, into the user, the deduplicated \<^verbatim>\<open>amr\<close>, the
  \<^verbatim>\<open>auth_time\<close>, the normalised scheme and the source family it was minted from.
\<close>

theorem handoff_round_trip:
  assumes "token_memory_ok s"
    and "mint_handoff (memory_handoffs cfg H P clock) s wall token user (P verifier) ''S256'' scheme amr auth_time
      family = (Inr (minted, ttl), s')"
    and "verifier_pattern verifier" and "minted \<noteq> []" and "length minted \<le> code_max_length"
    and "normalise_scheme scheme \<noteq> []" and "list_all is_ascii (normalise_scheme scheme)"
    and "\<not> is_expired now (ttl_in wall (ttl * second))"
  shows "fst (redeem_handoff (memory_handoffs cfg H P clock) s' minted verifier scheme now) =
    Inr \<lparr>rh_user_id = user, rh_amr = fromkeys amr, rh_auth_time = auth_time,
         rh_scheme = normalise_scheme scheme, rh_source_family_id = family\<rparr>"
proof -
  note m = mint_handoff_success [OF assms(2)]
  then have allows: "handoff_allows cfg (normalise_scheme scheme)" and "challenge_pattern (P verifier)"
    and row: "dget s' (H minted) = Some \<lparr>it_token_hash = H token, it_purpose = DesktopHandoff, it_user_id = user,
              it_created_at = now_iso wall, it_expires_at = ttl_in wall (ttl * second),
              it_consumed_at = [],
              it_attributes = [(''code_challenge'', AttrStr (P verifier)), (''scheme'', AttrStr (normalise_scheme scheme)),
                (''amr'', AttrList (fromkeys amr)), (''auth_time'', AttrInt auth_time),
                (''family_id'', AttrStr family)]\<rparr>" by simp_all
  have ch: "list_all is_ascii (P verifier)" "P verifier \<noteq> []"
    using challenge_pattern_ascii \<open>challenge_pattern (P verifier)\<close> by blast+
  show ?thesis
    using assms(3-8) row allows ch
    by (simp add: redeem_handoff_def memory_token_ops_def mem_token_consume_def redeem_record_def Let_def
        attr_get_str_def attr_get_list_def attr_get_int_def compare_digest_def)
qed

theorem handoff_round_trip_witness:
  "fst (redeem_handoff demo_handoffs
      (snd (mint_handoff demo_handoffs [] 0 ''t'' ''u1'' (replicate 43 (CHR ''c'')) ''S256'' ''App://'' [''pwd'', ''pwd''] 7 ''f''))
      ''t'' (replicate 43 (CHR ''v'')) ''App://'' 0) =
    Inr \<lparr>rh_user_id = ''u1'', rh_amr = [''pwd''], rh_auth_time = 7, rh_scheme = ''app'', rh_source_family_id = ''f''\<rparr>"
proof -
  have norm: "normalise_scheme ''App://'' = ''app''" "normalise_scheme ''app'' = ''app''" by code_simp+
  have amr: "fromkeys [''pwd'', ''pwd''] = [''pwd'']" by code_simp
  have pats: "challenge_pattern (replicate 43 (CHR ''c''))" "verifier_pattern (replicate 43 (CHR ''v''))" by code_simp+
  let ?cfg = "\<lparr>desktop_handoff_schemes = [''app''], desktop_handoff_code_ttl = 60 * second\<rparr>"
  let ?P = "\<lambda>v :: string. replicate 43 (CHR ''c'')"
  have "\<exists>s'. mint_handoff (memory_handoffs ?cfg demo_hash ?P 0) [] 0 ''t'' ''u1'' (?P (replicate 43 (CHR ''v''))) ''S256''
      ''App://'' [''pwd'', ''pwd''] 7 ''f'' = (Inr (''t'', 60), s')"
    using pats norm by (simp add: mint_handoff_def handoff_allows_def Let_def second_def int_timestamp_def)
  then obtain s' where m: "mint_handoff (memory_handoffs ?cfg demo_hash ?P 0) [] 0 ''t'' ''u1''
      (?P (replicate 43 (CHR ''v''))) ''S256'' ''App://'' [''pwd'', ''pwd''] 7 ''f'' = (Inr (''t'', 60), s')" by blast
  have "fst (redeem_handoff (memory_handoffs ?cfg demo_hash ?P 0) s' ''t'' (replicate 43 (CHR ''v'')) ''App://'' 0) =
    Inr \<lparr>rh_user_id = ''u1'', rh_amr = fromkeys [''pwd'', ''pwd''], rh_auth_time = 7,
         rh_scheme = normalise_scheme ''App://'', rh_source_family_id = ''f''\<rparr>"
    by (rule handoff_round_trip [OF _ m pats(2)])
      (simp_all add: norm is_ascii_def token_memory_ok_def code_max_length_def is_expired_def ttl_in_def ttl_at_def
        int_timestamp_def second_def)
  then show ?thesis
    using m by (simp add: demo_handoffs_def norm amr)
qed

text \<open>
  C16. Presenting a stored handoff code burns it, with whatever verifier and scheme: every
  later redemption of it, after any run of requests on the table, is the one refusal.
\<close>

theorem handoff_burned_by_any_attempt:
  assumes "token_memory_ok s" and "presented \<noteq> []" and "length presented \<le> code_max_length"
    and "dget s (H presented) \<noteq> None"
    and "(token_step (memory_token_ops clock))\<^sup>*\<^sup>*
      (snd (redeem_handoff (memory_handoffs cfg H P clock) s presented verifier scheme now)) s'"
  shows "fst (redeem_handoff (memory_handoffs cfg H P clock) s' presented verifier' scheme' now') = Inl handoff_invalid"
proof -
  note spends = handoffs.redeem_spends [where cfg = cfg and H = H and P = P and clock = clock and s = s, simplified,
      OF assms(1-3), where verifier = verifier and scheme = scheme and now = now]
  have "token_memory_ok s' \<and> it_spent (dget s') (H presented)"
    using mem_token.token_steps_keep [OF assms(5)] spends assms(4) by auto
  then show ?thesis
    using handoffs.redeem_spent [where cfg = cfg and H = H and P = P and clock = clock and s = s'] by simp
qed

theorem handoff_burned_by_any_attempt_witness:
  "fst (redeem_handoff demo_handoffs
     (snd (redeem_handoff demo_handoffs [(demo_hash ''t'', demo_link_row)] ''t'' [] ''app'' 0))
     ''t'' (replicate 43 (CHR ''v'')) ''app'' 0) = Inl handoff_invalid"
  unfolding demo_handoffs_def
  by (rule handoff_burned_by_any_attempt [OF _ _ _ _ rtranclp.rtrancl_refl])
    (simp_all add: token_memory_ok_def code_max_length_def)

end
