(* ===== verification/Mfa.thy ===== *)
theory Mfa
  imports LinkProperties
begin

text \<open>
  The second factor, identity/totp.py and identity/mfa.py: code verification with its step
  window and watermark, enrolment, recovery codes, and the single-use login ticket, over the
  in-memory stores. The HOTP value of a seed and step, the sealing of a seed, SHA-256 and the
  signature of the ticket are parameters of the service.
\<close>

section \<open>Codes\<close>

definition time_step_seconds :: int where "time_step_seconds = 30"
definition code_digits :: nat where "code_digits = 6"
definition verification_window :: int where "verification_window = 1"

definition current_step :: "int \<Rightarrow> int" where
  "current_step now = now div time_step_seconds"

definition normalise_code :: "string \<Rightarrow> string" where
  "normalise_code s = filter (\<lambda>c. c \<noteq> CHR ''-'') (filter (\<lambda>c. c \<noteq> CHR '' '') (strip s))"

definition normalise_recovery_code :: "string \<Rightarrow> string" where
  "normalise_recovery_code s = upper (filter (\<lambda>c. c \<noteq> CHR ''-'') (filter (\<lambda>c. \<not> is_space c) s))"

text \<open>\<^verbatim>\<open>MfaRejected\<close> with its code and status, or an exception of Python's own.\<close>

datatype mfa_error = MfaRejected string int | MfaTypeError | MfaValueError

definition mfa_refused :: mfa_error where
  "mfa_refused = MfaRejected ''INVALID_MFA_CODE'' 401"

text \<open>The loop of \<^verbatim>\<open>verify_code\<close>: every candidate is compared, the first match is kept.\<close>

fun scan_steps ::
  "(string \<Rightarrow> int \<Rightarrow> string option) \<Rightarrow> string \<Rightarrow> string \<Rightarrow> int \<Rightarrow> int list \<Rightarrow> int option \<Rightarrow> mfa_error + int option" where
  "scan_steps hotp seed presented last_used_step [] matched = Inr matched"
| "scan_steps hotp seed presented last_used_step (candidate # rest) matched =
     (if candidate \<le> last_used_step then scan_steps hotp seed presented last_used_step rest matched
      else case hotp seed candidate of
          None \<Rightarrow> Inl MfaValueError
        | Some expected \<Rightarrow>
            (case compare_digest expected presented of
               None \<Rightarrow> Inl MfaTypeError
             | Some same \<Rightarrow>
                 scan_steps hotp seed presented last_used_step rest
                   (if same \<and> matched = None then Some candidate else matched)))"

definition verify_code ::
  "(string \<Rightarrow> int \<Rightarrow> string option) \<Rightarrow> string \<Rightarrow> string \<Rightarrow> int \<Rightarrow> int \<Rightarrow> int \<Rightarrow> mfa_error + int option" where
  "verify_code hotp seed input last_used_step now window =
     (let presented = normalise_code input in
      if length presented \<noteq> code_digits \<or> \<not> list_all py_isdigit presented then Inr None
      else let now_step = current_step now in
        scan_steps hotp seed presented last_used_step [now_step - window .. now_step + window] None)"

section \<open>Authentication methods\<close>

definition amr_password :: string where "amr_password = ''pwd''"
definition amr_otp :: string where "amr_otp = ''otp''"
definition amr_mfa :: string where "amr_mfa = ''mfa''"
definition amr_recovery :: string where "amr_recovery = ''recovery''"

definition amr_factor_methods :: "string list" where
  "amr_factor_methods =
     [amr_password, amr_otp, amr_recovery, ''swk'', ''hwk'', ''pin'', ''oauth'', ''sso'']"

definition sso_connection_amr_prefix :: string where
  "sso_connection_amr_prefix = ''sso_conn:''"

definition access_token_amr :: "string list \<Rightarrow> string list" where
  "access_token_amr amr =
     (let methods = filter (\<lambda>m. \<not> startswith m sso_connection_amr_prefix) (fromkeys amr);
          factors = {m \<in> set methods. m \<in> set amr_factor_methods}
      in if card factors > 1 \<and> amr_mfa \<notin> set methods then methods @ [amr_mfa] else methods)"

section \<open>The service\<close>

record mfa_claims =
  mc_sub :: string
  mc_jti :: string
  mc_amr :: "string list option"

record mfa_service =
  mfa_totp_enabled :: bool
  mfa_ticket_ttl :: timedelta
  mfa_hash :: "string \<Rightarrow> string"
  mfa_hotp :: "string \<Rightarrow> int \<Rightarrow> string option"
  mfa_open_seed :: "totp_factor \<Rightarrow> string option"
  mfa_seal_seed :: "string \<Rightarrow> string \<Rightarrow> string \<times> string \<times> string \<times> string"
  mfa_mint_ticket :: "string \<Rightarrow> string list \<Rightarrow> string \<Rightarrow> string"
  mfa_verify_ticket :: "string \<Rightarrow> mfa_claims option"

record mfa_state =
  ms_totp :: totp_memory
  ms_recovery :: recovery_memory
  ms_tokens :: token_memory

definition hash_recovery_code :: "mfa_service \<Rightarrow> string \<Rightarrow> string" where
  "hash_recovery_code svc s = mfa_hash svc (normalise_recovery_code s)"

definition factors_for :: "mfa_service \<Rightarrow> mfa_state \<Rightarrow> string \<Rightarrow> string list" where
  "factors_for svc s user_id =
     (if \<not> mfa_totp_enabled svc then []
      else case mem_totp_get (ms_totp s) user_id of
          None \<Rightarrow> [] | Some f \<Rightarrow> if tf_is_active f then [''totp''] else [])"

definition issue_challenge ::
  "mfa_service \<Rightarrow> mfa_state \<Rightarrow> datetime \<Rightarrow> string \<Rightarrow> string \<Rightarrow> string list \<Rightarrow> string list \<Rightarrow>
   (string \<times> string list) \<times> mfa_state" where
  "issue_challenge svc s wall jti user_id factors amr =
     (let ticket = mfa_mint_ticket svc user_id (if amr = [] then [amr_password] else amr) jti
      in ((ticket, factors),
          s\<lparr>ms_tokens := mem_token_put (ms_tokens s)
             \<lparr>it_token_hash = mfa_hash svc jti, it_purpose = MfaTicket, it_user_id = user_id,
              it_created_at = now_iso wall,
              it_expires_at = ttl_in wall (int_timestamp (mfa_ticket_ttl svc) * second),
              it_consumed_at = [], it_attributes = []\<rparr>\<rparr>))"

definition ticket_invalid :: mfa_error where
  "ticket_invalid = MfaRejected ''MFA_TICKET_INVALID'' 401"

definition ticket_subject :: "mfa_service \<Rightarrow> string \<Rightarrow> mfa_error + string" where
  "ticket_subject svc ticket =
     (case mfa_verify_ticket svc ticket of None \<Rightarrow> Inl ticket_invalid | Some c \<Rightarrow> Inr (mc_sub c))"

definition redeem_ticket ::
  "mfa_service \<Rightarrow> mfa_state \<Rightarrow> datetime \<Rightarrow> string \<Rightarrow> (mfa_error + string \<times> string list) \<times> mfa_state" where
  "redeem_ticket svc s wall ticket =
     (case mfa_verify_ticket svc ticket of
        None \<Rightarrow> (Inl ticket_invalid, s)
      | Some claims \<Rightarrow>
          (case mem_token_consume wall (ms_tokens s) (mfa_hash svc (mc_jti claims)) [] of
             (None, t) \<Rightarrow> (Inl ticket_invalid, s\<lparr>ms_tokens := t\<rparr>)
           | (Some r, t) \<Rightarrow>
               if it_purpose r \<noteq> MfaTicket then (Inl ticket_invalid, s\<lparr>ms_tokens := t\<rparr>)
               else let amr = (case mc_amr claims of None \<Rightarrow> [] | Some raw \<Rightarrow> filter (\<lambda>m. m \<noteq> []) raw)
                 in (Inr (mc_sub claims, if amr = [] then [amr_password] else amr), s\<lparr>ms_tokens := t\<rparr>)))"

definition begin_enrolment ::
  "mfa_service \<Rightarrow> mfa_state \<Rightarrow> datetime \<Rightarrow> string \<Rightarrow> string \<Rightarrow> (mfa_error + string) \<times> mfa_state" where
  "begin_enrolment svc s wall seed user_id =
     (if (case mem_totp_get (ms_totp s) user_id of None \<Rightarrow> False | Some existing \<Rightarrow> tf_is_active existing)
      then (Inl (MfaRejected ''TOTP_ALREADY_ENABLED'' 409), s)
      else (Inr seed, s\<lparr>ms_totp := mem_totp_put (ms_totp s)
             (case mfa_seal_seed svc seed user_id of (ciphertext, nonce, wrapped, scheme) \<Rightarrow>
                \<lparr>tf_user_id = user_id, tf_secret_ciphertext = ciphertext, tf_secret_nonce = nonce,
                 tf_wrapped_data_key = wrapped, tf_created_at = now_iso wall, tf_activated_at = [],
                 tf_last_used_step = 0, tf_secret_scheme = scheme\<rparr>)\<rparr>))"

definition regenerate_recovery_codes ::
  "mfa_service \<Rightarrow> mfa_state \<Rightarrow> datetime \<Rightarrow> string list \<Rightarrow> string \<Rightarrow> string list \<times> mfa_state" where
  "regenerate_recovery_codes svc s wall codes user_id =
     (codes,
      s\<lparr>ms_recovery := mem_recovery_put_many (fst (mem_recovery_delete_user (ms_recovery s) user_id))
          (map (\<lambda>c. \<lparr>rc_user_id = user_id, rc_code_hash = hash_recovery_code svc c,
                     rc_created_at = now_iso wall, rc_used_at = []\<rparr>) codes)\<rparr>)"

definition no_pending_enrolment :: mfa_error where
  "no_pending_enrolment = MfaRejected ''NO_PENDING_ENROLMENT'' 409"

definition confirm_enrolment ::
  "mfa_service \<Rightarrow> mfa_state \<Rightarrow> datetime \<Rightarrow> int \<Rightarrow> string list \<Rightarrow> string \<Rightarrow> string \<Rightarrow>
   (mfa_error + string list) \<times> mfa_state" where
  "confirm_enrolment svc s wall now codes user_id input =
     (case mem_totp_get (ms_totp s) user_id of
        None \<Rightarrow> (Inl no_pending_enrolment, s)
      | Some factor \<Rightarrow>
          if tf_is_active factor then (Inl no_pending_enrolment, s)
          else case mfa_open_seed svc factor of
              None \<Rightarrow> (Inl mfa_refused, s)
            | Some seed \<Rightarrow>
                (case verify_code (mfa_hotp svc) seed input (tf_last_used_step factor) now verification_window of
                   Inl e \<Rightarrow> (Inl e, s)
                 | Inr None \<Rightarrow> (Inl mfa_refused, s)
                 | Inr (Some step) \<Rightarrow>
                     (case mem_totp_activate wall (ms_totp s) user_id step [] of
                        (False, t) \<Rightarrow> (Inl no_pending_enrolment, s\<lparr>ms_totp := t\<rparr>)
                      | (True, t) \<Rightarrow>
                          (case regenerate_recovery_codes svc (s\<lparr>ms_totp := t\<rparr>) wall codes user_id of
                             (fresh, s) \<Rightarrow> (Inr fresh, s)))))"

definition disable_totp :: "mfa_state \<Rightarrow> string \<Rightarrow> mfa_state" where
  "disable_totp s user_id =
     s\<lparr>ms_totp := mem_totp_delete (ms_totp s) user_id,
       ms_recovery := fst (mem_recovery_delete_user (ms_recovery s) user_id)\<rparr>"

text \<open>\<^verbatim>\<open>_verify_totp\<close>: the read and check, then the conditional write of the watermark.\<close>

definition totp_check ::
  "mfa_service \<Rightarrow> mfa_state \<Rightarrow> int \<Rightarrow> string \<Rightarrow> string \<Rightarrow> mfa_error + int" where
  "totp_check svc s now user_id input =
     (case mem_totp_get (ms_totp s) user_id of
        None \<Rightarrow> Inl mfa_refused
      | Some factor \<Rightarrow>
          if \<not> tf_is_active factor then Inl mfa_refused
          else case mfa_open_seed svc factor of
              None \<Rightarrow> Inl mfa_refused
            | Some seed \<Rightarrow>
                (case verify_code (mfa_hotp svc) seed input (tf_last_used_step factor) now verification_window of
                   Inl e \<Rightarrow> Inl e | Inr None \<Rightarrow> Inl mfa_refused | Inr (Some step) \<Rightarrow> Inr step))"

definition totp_burn :: "mfa_state \<Rightarrow> string \<Rightarrow> int \<Rightarrow> (mfa_error + unit) \<times> mfa_state" where
  "totp_burn s user_id step =
     (case mem_totp_record_use (ms_totp s) user_id step of
        (False, t) \<Rightarrow> (Inl mfa_refused, s\<lparr>ms_totp := t\<rparr>) | (True, t) \<Rightarrow> (Inr (), s\<lparr>ms_totp := t\<rparr>))"

definition verify_totp ::
  "mfa_service \<Rightarrow> mfa_state \<Rightarrow> int \<Rightarrow> string \<Rightarrow> string \<Rightarrow> (mfa_error + unit) \<times> mfa_state" where
  "verify_totp svc s now user_id input =
     (case totp_check svc s now user_id input of Inl e \<Rightarrow> (Inl e, s) | Inr step \<Rightarrow> totp_burn s user_id step)"

definition verify_recovery_code ::
  "mfa_service \<Rightarrow> mfa_state \<Rightarrow> datetime \<Rightarrow> string \<Rightarrow> string \<Rightarrow> (mfa_error + unit) \<times> mfa_state" where
  "verify_recovery_code svc s wall user_id input =
     (case mem_recovery_consume wall (ms_recovery s) user_id (hash_recovery_code svc input) [] of
        (False, r) \<Rightarrow> (Inl mfa_refused, s\<lparr>ms_recovery := r\<rparr>) | (True, r) \<Rightarrow> (Inr (), s\<lparr>ms_recovery := r\<rparr>))"

definition verify_challenge ::
  "mfa_service \<Rightarrow> mfa_state \<Rightarrow> datetime \<Rightarrow> int \<Rightarrow> string \<Rightarrow> string \<Rightarrow> (mfa_error + string) \<times> mfa_state" where
  "verify_challenge svc s wall now user_id input =
     (let presented = normalise_code input in
      if length presented = code_digits \<and> list_all py_isdigit presented
      then (case verify_totp svc s now user_id presented of
              (Inl e, s) \<Rightarrow> (Inl e, s) | (Inr _, s) \<Rightarrow> (Inr amr_otp, s))
      else (case verify_recovery_code svc s wall user_id input of
              (Inl e, s) \<Rightarrow> (Inl e, s) | (Inr _, s) \<Rightarrow> (Inr amr_recovery, s)))"

definition remaining_recovery_codes :: "mfa_state \<Rightarrow> string \<Rightarrow> nat" where
  "remaining_recovery_codes s user_id =
     length (filter (\<lambda>r. rc_used_at r = []) (mem_recovery_list (ms_recovery s) user_id))"

end
