(* ===== verification/MfaProperties.thy ===== *)
theory MfaProperties
  imports Mfa
begin

text \<open>
  What the second factor guarantees: the step window and watermark of TOTP under interleaved
  requests, single use of recovery codes and tickets, and the \<^verbatim>\<open>amr\<close> of an access token.
\<close>

section \<open>TOTP\<close>

lemma scan_steps_sound:
  assumes "scan_steps hotp seed presented mark candidates matched = Inr (Some step)"
  shows "matched = Some step \<or>
    (step \<in> set candidates \<and> mark < step \<and> hotp seed step = Some presented)"
  using assms
proof (induction candidates arbitrary: matched)
  case (Cons c cs)
  show ?case
  proof (cases "c \<le> mark")
    case True
    then show ?thesis using Cons by auto
  next
    case False
    then obtain e same where e: "hotp seed c = Some e" "compare_digest e presented = Some same"
      using Cons.prems by (auto split: option.splits)
    then have "same \<longleftrightarrow> e = presented" by (auto simp: compare_digest_def split: if_splits)
    then show ?thesis
      using Cons.IH [of "if same \<and> matched = None then Some c else matched"] Cons.prems False e
      by (auto split: if_splits)
  qed
qed simp

lemma verify_code_sound:
  assumes "verify_code hotp seed input mark now window = Inr (Some step)"
  shows "mark < step \<and> \<bar>step - current_step now\<bar> \<le> window \<and> hotp seed step = Some (normalise_code input)"
proof -
  let ?steps = "[current_step now - window .. current_step now + window]"
  have "scan_steps hotp seed (normalise_code input) mark ?steps None = Inr (Some step)"
    using assms by (auto simp: verify_code_def Let_def split: if_splits)
  from scan_steps_sound [OF this]
  have "step \<in> set ?steps" "mark < step" "hotp seed step = Some (normalise_code input)" by auto
  then show ?thesis by auto
qed

definition demo_mfa :: mfa_service where
  "demo_mfa = \<lparr>mfa_totp_enabled = True, mfa_ticket_ttl = 300 * second, mfa_hash = demo_hash,
     mfa_hotp = (\<lambda>seed step. Some (if step mod 2 = 0 then ''123456'' else ''654321'')),
     mfa_open_seed = (\<lambda>f. Some ''seed''), mfa_seal_seed = (\<lambda>seed user. (seed, [], [], [])),
     mfa_mint_ticket = (\<lambda>user amr jti. user @ ''.'' @ jti),
     mfa_verify_ticket = (\<lambda>t. Some \<lparr>mc_sub = ''u1'', mc_jti = t, mc_amr = Some [''pwd'']\<rparr>)\<rparr>"

definition demo_factor :: totp_factor where
  "demo_factor = \<lparr>tf_user_id = ''u1'', tf_secret_ciphertext = [], tf_secret_nonce = [],
     tf_wrapped_data_key = [], tf_created_at = [], tf_activated_at = ''now'', tf_last_used_step = 3,
     tf_secret_scheme = []\<rparr>"

definition demo_mfa_state :: mfa_state where
  "demo_mfa_state = \<lparr>ms_totp = [(''u1'', demo_factor)],
     ms_recovery = [((''u1'', ''hAB''), \<lparr>rc_user_id = ''u1'', rc_code_hash = ''hAB'', rc_created_at = [], rc_used_at = []\<rparr>)],
     ms_tokens = []\<rparr>"

lemma demo_normalise [simp]:
  "normalise_code ''123 456'' = ''123456''" "normalise_code ''123456'' = ''123456''"
  "normalise_recovery_code ''a-b'' = ''AB''" "normalise_recovery_code ''A B'' = ''AB''"
  "list_all py_isdigit ''123456''" "list_all is_ascii ''123456''" "list_all is_ascii ''654321''"
  by code_simp+

text \<open>
  C17. A TOTP code is accepted only for the user's active factor, at a step within one of the
  current step and above the watermark whose HOTP value it is; acceptance raises the watermark
  to that step and changes nothing else.
\<close>

theorem verify_totp_sound:
  assumes "verify_totp svc s now user input = (Inr (), s')"
  shows "\<exists>f seed step. dget (ms_totp s) user = Some f \<and> tf_is_active f \<and> mfa_open_seed svc f = Some seed \<and>
    tf_last_used_step f < step \<and> \<bar>step - current_step now\<bar> \<le> 1 \<and>
    mfa_hotp svc seed step = Some (normalise_code input) \<and>
    s' = s\<lparr>ms_totp := dset user (f\<lparr>tf_last_used_step := step\<rparr>) (ms_totp s)\<rparr>"
proof -
  from assms obtain step where check: "totp_check svc s now user input = Inr step"
    and burn: "totp_burn s user step = (Inr (), s')" by (auto simp: verify_totp_def split: sum.splits)
  from check obtain f seed where f: "dget (ms_totp s) user = Some f" "tf_is_active f" "mfa_open_seed svc f = Some seed"
    and v: "verify_code (mfa_hotp svc) seed input (tf_last_used_step f) now verification_window = Inr (Some step)"
    by (auto simp: totp_check_def mem_totp_get_def split: option.splits if_splits sum.splits)
  from burn f(1) have "s' = s\<lparr>ms_totp := dset user (f\<lparr>tf_last_used_step := step\<rparr>) (ms_totp s)\<rparr>"
    by (auto simp: totp_burn_def mem_totp_record_use_def split: if_splits)
  with f verify_code_sound [OF v] show ?thesis by (auto simp: verification_window_def)
qed

theorem verify_totp_sound_witness:
  "tf_last_used_step (the (dget (ms_totp (snd (verify_totp demo_mfa demo_mfa_state 120 ''u1'' ''123 456''))) ''u1'')) = 4"
proof -
  have run: "fst (verify_totp demo_mfa demo_mfa_state 120 ''u1'' ''123 456'') = Inr ()"
    by (simp add: verify_totp_def totp_check_def totp_burn_def mem_totp_get_def mem_totp_record_use_def
        demo_mfa_def demo_mfa_state_def demo_factor_def verify_code_def current_step_def time_step_seconds_def
        verification_window_def code_digits_def tf_is_active_def Let_def compare_digest_def upto.simps
        is_ascii_def py_isdigit_def is_digit_def)
  obtain s' where s': "verify_totp demo_mfa demo_mfa_state 120 ''u1'' ''123 456'' = (Inr (), s')"
    using run by (metis prod.collapse)
  from verify_totp_sound [OF this] obtain f seed step where
    "dget (ms_totp demo_mfa_state) ''u1'' = Some f" "tf_last_used_step f < step"
    "\<bar>step - current_step 120\<bar> \<le> 1" "mfa_hotp demo_mfa seed step = Some (normalise_code ''123 456'')"
    "s' = demo_mfa_state\<lparr>ms_totp := dset ''u1'' (f\<lparr>tf_last_used_step := step\<rparr>) (ms_totp demo_mfa_state)\<rparr>"
    by blast
  moreover from this have "step = 4"
    by (auto simp: demo_mfa_state_def demo_factor_def demo_mfa_def current_step_def time_step_seconds_def
        split: if_splits)
  ultimately show ?thesis using s' by simp
qed

text \<open>
  Requests that have all passed \<open>totp_check\<close> at some earlier moment and now burn their steps
  in the order \<open>steps\<close>: the steps that are accepted.
\<close>

fun burn_all :: "mfa_state \<Rightarrow> string \<Rightarrow> int list \<Rightarrow> int list \<times> mfa_state" where
  "burn_all s user [] = ([], s)"
| "burn_all s user (step # steps) =
     (case totp_burn s user step of
        (Inl _, s) \<Rightarrow> burn_all s user steps
      | (Inr _, s) \<Rightarrow> (case burn_all s user steps of (accepted, s) \<Rightarrow> (step # accepted, s)))"

definition watermark :: "mfa_state \<Rightarrow> string \<Rightarrow> int option" where
  "watermark s user = map_option tf_last_used_step (dget (ms_totp s) user)"

lemma totp_burn_cases:
  "totp_burn s user step =
    (case watermark s user of
       None \<Rightarrow> (Inl mfa_refused, s)
     | Some w \<Rightarrow> if step \<le> w then (Inl mfa_refused, s)
         else (Inr (), snd (totp_burn s user step)))"
  "watermark s user = Some w \<Longrightarrow> w < step \<Longrightarrow> watermark (snd (totp_burn s user step)) user = Some step"
  by (auto simp: totp_burn_def mem_totp_record_use_def watermark_def split: option.splits)

text \<open>
  C18. However the requests interleave, the accepted steps strictly increase and lie above the
  stored watermark, so no step, and no code of it, is accepted twice.
\<close>

theorem accepted_steps_increase:
  "sorted_wrt (<) (fst (burn_all s user steps)) \<and>
   list_all (\<lambda>k. case watermark s user of None \<Rightarrow> False | Some w \<Rightarrow> w < k) (fst (burn_all s user steps))"
proof (induction steps arbitrary: s)
  case (Cons step steps)
  show ?case
  proof (cases "\<exists>w. watermark s user = Some w \<and> w < step")
    case True
    then obtain w where w: "watermark s user = Some w" "w < step" by blast
    let ?s = "snd (totp_burn s user step)"
    have burn: "totp_burn s user step = (Inr (), ?s)" using totp_burn_cases(1) [of s user step] w by simp
    have "watermark ?s user = Some step" by (rule totp_burn_cases(2) [OF w])
    with Cons.IH [of ?s] burn w show ?thesis
      by (auto simp: list_all_iff split: prod.splits) fastforce
  next
    case False
    then have "totp_burn s user step = (Inl mfa_refused, s)"
      using totp_burn_cases(1) [of s user step] by (auto split: option.splits)
    with Cons.IH [of s] show ?thesis by simp
  qed
qed simp

section \<open>Recovery codes\<close>

definition recovery_unused :: "mfa_service \<Rightarrow> mfa_state \<Rightarrow> string \<Rightarrow> string \<Rightarrow> bool" where
  "recovery_unused svc s user input =
     (case dget (ms_recovery s) (user, hash_recovery_code svc input) of
        None \<Rightarrow> False | Some r \<Rightarrow> rc_used_at r = [])"

lemma verify_recovery_cases:
  "fst (verify_recovery_code svc s wall user input) =
    (if recovery_unused svc s user input then Inr () else Inl mfa_refused)"
  "recovery_unused svc (snd (verify_recovery_code svc s wall user input)) user' other =
    (recovery_unused svc s user' other \<and>
     (user', hash_recovery_code svc other) \<noteq> (user, hash_recovery_code svc input))"
  by (auto simp: verify_recovery_code_def mem_recovery_consume_def recovery_unused_def str_or_def now_iso_def
      split: option.splits)

text \<open>
  C19. A recovery code is single use, in whatever case and grouping it is typed: once accepted
  it is refused after any further attempts, and its own acceptance touches no other code.
\<close>

theorem recovery_code_single_use:
  assumes "fst (verify_recovery_code svc s wall user input) = Inr ()"
    and "normalise_recovery_code again = normalise_recovery_code input"
    and "s' = fold (\<lambda>(w, u, c) st. snd (verify_recovery_code svc st w u c)) attempts
      (snd (verify_recovery_code svc s wall user input))"
  shows "fst (verify_recovery_code svc s' wall2 user again) = Inl mfa_refused \<and>
    (recovery_unused svc (snd (verify_recovery_code svc s wall user input)) user' other \<longleftrightarrow>
      recovery_unused svc s user' other \<and>
      (user', hash_recovery_code svc other) \<noteq> (user, hash_recovery_code svc input))"
proof -
  have kept: "\<not> recovery_unused svc (fold (\<lambda>(w, u, c) st. snd (verify_recovery_code svc st w u c)) attempts st) user again"
    if "\<not> recovery_unused svc st user again" for st
    using that
  proof (induction attempts arbitrary: st)
    case (Cons a attempts)
    obtain w u c where a: "a = (w, u, c)" by (cases a)
    have "\<not> recovery_unused svc (snd (verify_recovery_code svc st w u c)) user again"
      using Cons.prems by (simp add: verify_recovery_cases(2))
    from Cons.IH [OF this] show ?case by (simp add: a)
  qed simp
  have "hash_recovery_code svc again = hash_recovery_code svc input"
    using assms(2) by (simp add: hash_recovery_code_def)
  then have "\<not> recovery_unused svc (snd (verify_recovery_code svc s wall user input)) user again"
    by (simp add: verify_recovery_cases(2))
  from kept [OF this] show ?thesis
    unfolding assms(3) by (simp add: verify_recovery_cases)
qed

theorem recovery_code_single_use_witness:
  "fst (verify_recovery_code demo_mfa (snd (verify_recovery_code demo_mfa demo_mfa_state 0 ''u1'' ''a-b'')) 0 ''u1'' ''A B'') =
     Inl mfa_refused"
proof -
  have "fst (verify_recovery_code demo_mfa demo_mfa_state 0 ''u1'' ''a-b'') = Inr ()"
    by (simp add: verify_recovery_code_def mem_recovery_consume_def demo_mfa_def demo_mfa_state_def
        hash_recovery_code_def demo_hash_def)
  from recovery_code_single_use [OF this, of "''A B''" _ "[]"] show ?thesis by simp
qed

section \<open>Enrolment\<close>

lemma put_many_new:
  assumes "distinct (map (\<lambda>r. (rc_user_id r, rc_code_hash r)) rs)"
    and "\<And>r. r \<in> set rs \<Longrightarrow> (rc_user_id r, rc_code_hash r) \<notin> fst ` set d"
  shows "mem_recovery_put_many d rs = d @ map (\<lambda>r. ((rc_user_id r, rc_code_hash r), r)) rs"
  using assms
proof (induction rs arbitrary: d)
  case (Cons r rs)
  have "mem_recovery_put_many (d @ [((rc_user_id r, rc_code_hash r), r)]) rs =
      (d @ [((rc_user_id r, rc_code_hash r), r)]) @ map (\<lambda>r. ((rc_user_id r, rc_code_hash r), r)) rs"
    by (rule Cons.IH) (use Cons.prems in \<open>auto simp: image_iff\<close>)
  then show ?case using Cons.prems(2) [of r] by (simp add: dset_new)
qed simp

lemma delete_user_keys:
  assumes "dict_ok d"
  shows "(user, h) \<notin> fst ` set (fst (mem_recovery_delete_user d user))"
proof -
  have "dget (fst (mem_recovery_delete_user d user)) (user, h) = None"
    using assms by (simp add: mem_recovery_delete_user_def dget_delete_where split: option.splits)
  then show ?thesis by (simp add: map_of_eq_None_iff)
qed

lemma regenerate_rows:
  assumes "dict_ok (ms_recovery s)" and "distinct (map (hash_recovery_code svc) codes)"
  shows "\<exists>old. ms_recovery (snd (regenerate_recovery_codes svc s wall codes user)) =
      old @ map (\<lambda>c. ((user, hash_recovery_code svc c),
        \<lparr>rc_user_id = user, rc_code_hash = hash_recovery_code svc c, rc_created_at = now_iso wall, rc_used_at = []\<rparr>)) codes \<and>
    (\<forall>h. (user, h) \<notin> fst ` set old)"
proof (intro exI conjI allI)
  let ?old = "fst (mem_recovery_delete_user (ms_recovery s) user)"
  let ?rs = "map (\<lambda>c. \<lparr>rc_user_id = user, rc_code_hash = hash_recovery_code svc c,
        rc_created_at = now_iso wall, rc_used_at = []\<rparr>) codes"
  show gone: "(user, h) \<notin> fst ` set ?old" for h by (rule delete_user_keys [OF assms(1)])
  have "distinct (map (\<lambda>r. (rc_user_id r, rc_code_hash r)) ?rs)"
    using assms(2) by (simp add: comp_def distinct_map inj_on_def)
  moreover have "(rc_user_id r, rc_code_hash r) \<notin> fst ` set ?old" if "r \<in> set ?rs" for r
  proof -
    have "rc_user_id r = user" using that by auto
    then show ?thesis using gone by simp
  qed
  ultimately have "mem_recovery_put_many ?old ?rs = ?old @ map (\<lambda>r. ((rc_user_id r, rc_code_hash r), r)) ?rs"
    by (rule put_many_new)
  then show "ms_recovery (snd (regenerate_recovery_codes svc s wall codes user)) =
      ?old @ map (\<lambda>c. ((user, hash_recovery_code svc c),
        \<lparr>rc_user_id = user, rc_code_hash = hash_recovery_code svc c, rc_created_at = now_iso wall, rc_used_at = []\<rparr>)) codes"
    by (simp add: regenerate_recovery_codes_def comp_def)
qed

lemma regenerate_codes:
  fixes wall :: datetime and user :: string
  assumes "dict_ok (ms_recovery s)" and "distinct (map (hash_recovery_code svc) codes)"
  defines "s' \<equiv> snd (regenerate_recovery_codes svc s wall codes user)"
  shows "remaining_recovery_codes s' user = length codes"
    and "recovery_unused svc s' user c \<longleftrightarrow> hash_recovery_code svc c \<in> hash_recovery_code svc ` set codes"
    and "ms_totp s' = ms_totp s"
proof -
  let ?row = "\<lambda>c. \<lparr>rc_user_id = user, rc_code_hash = hash_recovery_code svc c, rc_created_at = now_iso wall, rc_used_at = []\<rparr>"
  obtain old where old: "ms_recovery s' = old @ map (\<lambda>c. ((user, hash_recovery_code svc c), ?row c)) codes"
    "\<And>h. (user, h) \<notin> fst ` set old"
    using regenerate_rows [OF assms(1,2), of wall user] s'_def by blast
  have "filter (\<lambda>(k, _). fst k = user) old = []"
    using old(2) by (force simp: filter_empty_conv)
  then show "remaining_recovery_codes s' user = length codes"
    by (simp add: remaining_recovery_codes_def mem_recovery_list_def old(1) comp_def filter_map)
  have "dget old (user, h) = None" for h using old(2) by (simp add: map_of_eq_None_iff)
  then have get: "dget (ms_recovery s') (user, h) =
      dget (map (\<lambda>c. ((user, hash_recovery_code svc c), ?row c)) codes) (user, h)" for h
    by (simp add: old(1) map_add_def split: option.splits)
  have "dget (map (\<lambda>c. ((user, hash_recovery_code svc c), ?row c)) cs) (user, h) =
      (if h \<in> hash_recovery_code svc ` set cs then
        Some \<lparr>rc_user_id = user, rc_code_hash = h, rc_created_at = now_iso wall, rc_used_at = []\<rparr> else None)" for cs h
    by (induction cs) auto
  then show "recovery_unused svc s' user c \<longleftrightarrow> hash_recovery_code svc c \<in> hash_recovery_code svc ` set codes"
    by (simp add: recovery_unused_def get)
  show "ms_totp s' = ms_totp s" by (simp add: s'_def regenerate_recovery_codes_def)
qed

text \<open>
  Confirming an enrolment activates the pending factor at a fresh watermark and leaves
  exactly the issued recovery codes usable, every older one gone; it cannot be confirmed again.
\<close>

theorem confirm_enrolment_activates:
  assumes "confirm_enrolment svc s wall now codes user input = (Inr issued, s')"
    and "dict_ok (ms_recovery s)" and "distinct (map (hash_recovery_code svc) codes)"
  shows "issued = codes \<and>
    (\<exists>f step. dget (ms_totp s) user = Some f \<and> \<not> tf_is_active f \<and> tf_last_used_step f < step \<and>
       dget (ms_totp s') user = Some (f\<lparr>tf_activated_at := now_iso wall, tf_last_used_step := step\<rparr>)) \<and>
    remaining_recovery_codes s' user = length codes \<and>
    (\<forall>c. recovery_unused svc s' user c \<longleftrightarrow> hash_recovery_code svc c \<in> hash_recovery_code svc ` set codes) \<and>
    fst (confirm_enrolment svc s' wall2 now2 codes2 user input2) = Inl no_pending_enrolment"
proof -
  from assms(1) obtain f seed step t where f: "dget (ms_totp s) user = Some f" "\<not> tf_is_active f"
    "verify_code (mfa_hotp svc) seed input (tf_last_used_step f) now verification_window = Inr (Some step)"
    and act: "mem_totp_activate wall (ms_totp s) user step [] = (True, t)"
    and out: "(issued, s') = regenerate_recovery_codes svc (s\<lparr>ms_totp := t\<rparr>) wall codes user"
    by (auto simp: confirm_enrolment_def mem_totp_get_def split: option.splits if_splits sum.splits prod.splits bool.splits)
  have t: "t = dset user (f\<lparr>tf_activated_at := now_iso wall, tf_last_used_step := step\<rparr>) (ms_totp s)"
    using act f(1,2) by (simp add: mem_totp_activate_def)
  have s': "s' = snd (regenerate_recovery_codes svc (s\<lparr>ms_totp := t\<rparr>) wall codes user)"
    by (simp add: out [symmetric])
  have rec: "dict_ok (ms_recovery (s\<lparr>ms_totp := t\<rparr>))" using assms(2) by simp
  note codes = regenerate_codes [OF rec assms(3), of wall user, folded s']
  have totp: "dget (ms_totp s') user = Some (f\<lparr>tf_activated_at := now_iso wall, tf_last_used_step := step\<rparr>)"
    using codes(3) t by simp
  have "tf_is_active (f\<lparr>tf_activated_at := now_iso wall, tf_last_used_step := step\<rparr>)"
    by (simp add: tf_is_active_def now_iso_def)
  then have "fst (confirm_enrolment svc s' wall2 now2 codes2 user input2) = Inl no_pending_enrolment"
    using totp by (simp add: confirm_enrolment_def mem_totp_get_def)
  moreover have "issued = codes" using out by (simp add: regenerate_recovery_codes_def)
  ultimately show ?thesis using f totp verify_code_sound [OF f(3)] codes(1,2) by blast
qed

definition demo_pending :: mfa_state where
  "demo_pending = \<lparr>ms_totp = [(''u1'', demo_factor\<lparr>tf_activated_at := [], tf_last_used_step := 0\<rparr>)],
     ms_recovery = [], ms_tokens = []\<rparr>"

theorem confirm_enrolment_activates_witness:
  "remaining_recovery_codes (snd (confirm_enrolment demo_mfa demo_pending 0 120 [''AB'', ''CD''] ''u1'' ''123456'')) ''u1'' = 2"
proof -
  have run: "fst (confirm_enrolment demo_mfa demo_pending 0 120 [''AB'', ''CD''] ''u1'' ''123456'') = Inr [''AB'', ''CD'']"
    by (simp add: confirm_enrolment_def demo_pending_def demo_factor_def mem_totp_get_def mem_totp_activate_def
        demo_mfa_def verify_code_def current_step_def time_step_seconds_def verification_window_def
        code_digits_def tf_is_active_def Let_def compare_digest_def upto.simps is_ascii_def py_isdigit_def
        is_digit_def regenerate_recovery_codes_def)
  have "hash_recovery_code demo_mfa ''AB'' \<noteq> hash_recovery_code demo_mfa ''CD''" by code_simp
  then show ?thesis
    using confirm_enrolment_activates [of demo_mfa demo_pending 0 120 "[''AB'', ''CD'']" "''u1''" "''123456''" "[''AB'', ''CD'']"
        "snd (confirm_enrolment demo_mfa demo_pending 0 120 [''AB'', ''CD''] ''u1'' ''123456'')"] run
    by (simp add: prod_eq_iff demo_pending_def)
qed

section \<open>Tickets\<close>

text \<open>
  C20. A login ticket is spent once: its redemption returns the ticket's user with a first
  factor that is never empty, and after any run on the token table every ticket of the same
  \<^verbatim>\<open>jti\<close> is refused.
\<close>

theorem redeem_ticket_once:
  assumes "token_memory_ok (ms_tokens s)" and "mfa_verify_ticket svc ticket = Some claims"
    and "redeem_ticket svc s wall ticket = (Inr (sub, amr), s1)"
    and "(token_step (memory_token_ops wall2))\<^sup>*\<^sup>* (ms_tokens s1) (ms_tokens s2)"
    and "mfa_verify_ticket svc ticket2 = Some claims2" and "mc_jti claims2 = mc_jti claims"
  shows "sub = mc_sub claims \<and> amr \<noteq> [] \<and> fst (redeem_ticket svc s2 wall2 ticket2) = Inl ticket_invalid"
proof -
  let ?h = "mfa_hash svc (mc_jti claims)"
  obtain r t where con: "mem_token_consume wall (ms_tokens s) ?h [] = (Some r, t)"
    and out: "sub = mc_sub claims" "amr \<noteq> []" "s1 = s\<lparr>ms_tokens := t\<rparr>"
    using assms(2,3)
    by (auto simp: redeem_ticket_def Let_def amr_password_def split: option.splits if_splits prod.splits)
  have op: "mem_token_consume w = ot_consume (memory_token_ops w)" for w by (simp add: memory_token_ops_def)
  have "it_spent (dget t) ?h"
    using mem_token.consume_spent [OF assms(1), of wall ?h "[]" r] con by (simp add: op)
  moreover have "token_memory_ok t"
    using mem_token.token_consume_ok [OF assms(1), of wall ?h "[]"] con by (simp add: op)
  ultimately have "token_memory_ok (ms_tokens s2)" "it_spent (dget (ms_tokens s2)) ?h"
    using mem_token.token_steps_keep [OF assms(4)] out(3) by auto
  then have "fst (mem_token_consume wall2 (ms_tokens s2) ?h []) = None"
    using mem_token.spent_not_consumed [of "ms_tokens s2" ?h wall2 "[]"] by (simp add: op)
  then show ?thesis
    using out assms(5,6) by (auto simp: redeem_ticket_def split: prod.splits)
qed

definition demo_ticket_state :: mfa_state where
  "demo_ticket_state = demo_mfa_state\<lparr>ms_tokens := [(demo_hash ''t'', demo_link_row\<lparr>it_purpose := MfaTicket\<rparr>)]\<rparr>"

theorem redeem_ticket_once_witness:
  "fst (redeem_ticket demo_mfa demo_ticket_state 0 ''t'') = Inr (''u1'', [''pwd'']) \<and>
   fst (redeem_ticket demo_mfa (snd (redeem_ticket demo_mfa demo_ticket_state 0 ''t'')) 0 ''t'') = Inl ticket_invalid"
proof -
  have run: "fst (redeem_ticket demo_mfa demo_ticket_state 0 ''t'') = Inr (''u1'', [''pwd''])"
    by (simp add: redeem_ticket_def demo_mfa_def demo_ticket_state_def demo_link_row_def mem_token_consume_def Let_def)
  have ok: "token_memory_ok (ms_tokens demo_ticket_state)" by (simp add: token_memory_ok_def demo_ticket_state_def)
  have v: "mfa_verify_ticket demo_mfa ''t'' = Some \<lparr>mc_sub = ''u1'', mc_jti = ''t'', mc_amr = Some [''pwd'']\<rparr>"
    by (simp add: demo_mfa_def)
  obtain s1 where s1: "redeem_ticket demo_mfa demo_ticket_state 0 ''t'' = (Inr (''u1'', [''pwd'']), s1)"
    using run by (metis prod.collapse)
  from redeem_ticket_once [OF ok v s1 rtranclp.rtrancl_refl v refl] run s1 show ?thesis by simp
qed

section \<open>Non-ASCII digits\<close>

text \<open>
  A six digit code with a digit outside ASCII, which \<^verbatim>\<open>str.isdigit\<close> accepts, makes
  \<^verbatim>\<open>verify_challenge\<close> raise \<^verbatim>\<open>TypeError\<close> instead of \<^verbatim>\<open>MfaRejected\<close> for every user with an
  active factor whose watermark is not ahead of the clock.
\<close>

theorem non_ascii_digit_raises:
  assumes "dget (ms_totp s) user = Some f" and "tf_is_active f" and "mfa_open_seed svc f = Some seed"
    and "tf_last_used_step f < current_step now - 1" and "mfa_hotp svc seed (current_step now - 1) = Some v"
    and "length (normalise_code input) = code_digits" and "list_all py_isdigit (normalise_code input)"
    and "\<not> list_all is_ascii (normalise_code input)"
    and "normalise_code (normalise_code input) = normalise_code input"
  shows "verify_challenge svc s wall now user input = (Inl MfaTypeError, s)"
proof -
  let ?n = "current_step now"
  have "[?n - 1 .. ?n + 1] = (?n - 1) # [?n .. ?n + 1]" by (simp add: upto.simps)
  then have "scan_steps (mfa_hotp svc) seed (normalise_code input) (tf_last_used_step f) [?n - 1 .. ?n + 1] None =
      Inl MfaTypeError"
    using assms(4,5,8) by (simp add: compare_digest_def)
  then have "verify_code (mfa_hotp svc) seed (normalise_code input) (tf_last_used_step f) now verification_window =
      Inl MfaTypeError"
    using assms(6,7,9) by (simp add: verify_code_def verification_window_def Let_def)
  then have "verify_totp svc s now user (normalise_code input) = (Inl MfaTypeError, s)"
    using assms(1-3) by (simp add: verify_totp_def totp_check_def mem_totp_get_def)
  then show ?thesis using assms(6,7) by (simp add: verify_challenge_def Let_def)
qed

definition superscripts :: string where
  "superscripts = replicate 6 (char_of (178 :: nat))"

theorem non_ascii_digit_raises_witness:
  "fst (verify_challenge demo_mfa demo_mfa_state 0 300 ''u1'' superscripts) = Inl MfaTypeError"
proof -
  have norm: "normalise_code superscripts = superscripts" by code_simp
  have facts: "length superscripts = code_digits" "list_all py_isdigit superscripts" "\<not> list_all is_ascii superscripts"
    by code_simp+
  have "dget (ms_totp demo_mfa_state) ''u1'' = Some demo_factor" "tf_is_active demo_factor"
    "mfa_open_seed demo_mfa demo_factor = Some ''seed''" "tf_last_used_step demo_factor < current_step 300 - 1"
    "mfa_hotp demo_mfa ''seed'' (current_step 300 - 1) = Some ''654321''"
    by (simp_all add: demo_mfa_state_def demo_mfa_def demo_factor_def tf_is_active_def current_step_def
        time_step_seconds_def)
  from non_ascii_digit_raises [OF this, of superscripts] facts norm show ?thesis by simp
qed

section \<open>Authentication methods\<close>

lemma access_token_amr_parts:
  fixes amr :: "string list"
  defines "methods \<equiv> filter (\<lambda>m. \<not> startswith m sso_connection_amr_prefix) (fromkeys amr)"
  defines "factors \<equiv> {m \<in> set methods. m \<in> set amr_factor_methods}"
  shows "access_token_amr amr = (if card factors > 1 \<and> amr_mfa \<notin> set methods then methods @ [amr_mfa] else methods)"
    and "distinct methods" and "amr_mfa \<notin> factors"
  by (simp_all add: access_token_amr_def Let_def methods_def factors_def amr_factor_methods_def amr_mfa_def
      amr_password_def amr_otp_def amr_recovery_def sso_connection_amr_prefix_def)

lemma amr_mfa_not_factor: "amr_mfa \<notin> set amr_factor_methods"
  by (simp add: amr_factor_methods_def amr_mfa_def amr_password_def amr_otp_def amr_recovery_def)

lemma amr_mfa_prefix: "\<not> startswith amr_mfa sso_connection_amr_prefix"
  by (simp add: amr_mfa_def sso_connection_amr_prefix_def)

text \<open>
  The \<^verbatim>\<open>amr\<close> of an access token lists the sign-in's methods once each without single
  sign-on connection markers, has \<^verbatim>\<open>mfa\<close> exactly when it was given or two different factor
  methods were, and is a fixed point of the function.
\<close>

theorem access_token_amr_exact:
  "distinct (access_token_amr amr) \<and>
   set (access_token_amr amr) - {amr_mfa} =
     {m \<in> set amr. \<not> startswith m sso_connection_amr_prefix} - {amr_mfa} \<and>
   (amr_mfa \<in> set (access_token_amr amr) \<longleftrightarrow>
     amr_mfa \<in> set amr \<or>
     1 < card {m \<in> set amr. \<not> startswith m sso_connection_amr_prefix \<and> m \<in> set amr_factor_methods}) \<and>
   access_token_amr (access_token_amr amr) = access_token_amr amr"
proof -
  define methods where "methods = filter (\<lambda>m. \<not> startswith m sso_connection_amr_prefix) (fromkeys amr)"
  define factors where "factors = {m \<in> set methods. m \<in> set amr_factor_methods}"
  note parts = access_token_amr_parts [of amr, folded methods_def, folded factors_def]
  have mem: "set methods = {m \<in> set amr. \<not> startswith m sso_connection_amr_prefix}"
    by (auto simp: methods_def)
  have fac: "factors = {m \<in> set amr. \<not> startswith m sso_connection_amr_prefix \<and> m \<in> set amr_factor_methods}"
    by (auto simp: factors_def mem)
  let ?out = "access_token_amr amr"
  have dist: "distinct ?out" using parts(1,2) by simp
  have sets: "set ?out - {amr_mfa} = set methods - {amr_mfa}" using parts(1) by auto
  have mfa: "amr_mfa \<in> set ?out \<longleftrightarrow> amr_mfa \<in> set methods \<or> 1 < card factors" using parts(1) by auto
  have clean: "filter (\<lambda>m. \<not> startswith m sso_connection_amr_prefix) (fromkeys ?out) = ?out"
    using dist parts(1) amr_mfa_prefix by (auto simp: methods_def filter_id_conv)
  have "m \<in> set ?out \<and> m \<in> set amr_factor_methods \<longleftrightarrow> m \<in> factors" for m
  proof (cases "m = amr_mfa")
    case True
    then show ?thesis using amr_mfa_not_factor parts(3) by simp
  next
    case False
    then have "m \<in> set ?out \<longleftrightarrow> m \<in> set methods" using sets by blast
    then show ?thesis by (simp add: factors_def)
  qed
  then have same: "{m \<in> set ?out. m \<in> set amr_factor_methods} = factors" by blast
  have "access_token_amr ?out = (if card factors > 1 \<and> amr_mfa \<notin> set ?out then ?out @ [amr_mfa] else ?out)"
    using access_token_amr_parts(1) [of ?out] unfolding clean same .
  then have "access_token_amr ?out = ?out" using mfa by simp
  moreover have "amr_mfa \<in> set methods \<longleftrightarrow> amr_mfa \<in> set amr" using amr_mfa_prefix mem by simp
  ultimately show ?thesis using dist sets [unfolded mem] mfa [unfolded fac] by simp
qed

end
