(* ===== verification/CounterTable.thy ===== *)
theory CounterTable
  imports Prelude
begin

text \<open>
  The one table the limiters count in, seen through the \<^verbatim>\<open>Repository\<close> calls they make. An
  \<^verbatim>\<open>UpdateItem\<close> is data: its actions and its condition. Which item it leaves is DynamoDB's
  documented behaviour, stated as the locale \<open>counter_table\<close>: an update whose condition holds
  is applied atomically and answers the new attributes, one whose condition fails changes
  nothing, and a call that raises anything else may or may not have been applied. The table
  itself is a parameter; \<open>item_table\<close> is an instance that never fails, for evaluation.
\<close>

section \<open>Requests\<close>

type_synonym item = "string \<Rightarrow> int option"

datatype action = AddN string int | SetN string int | SetIfAbsent string int

datatype condition =
  Absent string
| GreaterN string int
| AtLeastN string int
| LessN string int
| CondOr condition condition

datatype table_error = ConditionFailed | ServiceError

record 's table_ops =
  tb_get :: "'s \<Rightarrow> string \<Rightarrow> table_error + item"
  tb_update :: "'s \<Rightarrow> string \<Rightarrow> action list \<Rightarrow> condition option \<Rightarrow> (table_error + item) \<times> 's"
  tb_put :: "'s \<Rightarrow> string \<Rightarrow> item \<Rightarrow> (table_error + unit) \<times> 's"
  tb_delete :: "'s \<Rightarrow> string \<Rightarrow> (table_error + unit) \<times> 's"

definition no_item :: item where
  "no_item = (\<lambda>_. None)"

section \<open>Documented semantics\<close>

text \<open>
  \<^verbatim>\<open>ADD\<close> counts an absent number as zero, and every action reads the item as it was before
  the update. A comparison with an absent attribute is false.
\<close>

fun act :: "item \<Rightarrow> action \<Rightarrow> item \<Rightarrow> item" where
  "act before (AddN a n) i = i(a \<mapsto> n + (case before a of None \<Rightarrow> 0 | Some v \<Rightarrow> v))"
| "act before (SetN a n) i = i(a \<mapsto> n)"
| "act before (SetIfAbsent a n) i = i(a \<mapsto> (case before a of None \<Rightarrow> n | Some v \<Rightarrow> v))"

definition apply_actions :: "action list \<Rightarrow> item \<Rightarrow> item" where
  "apply_actions actions i = fold (act i) actions i"

fun holds :: "item \<Rightarrow> condition \<Rightarrow> bool" where
  "holds i (Absent a) = (i a = None)"
| "holds i (GreaterN a n) = (case i a of None \<Rightarrow> False | Some v \<Rightarrow> v > n)"
| "holds i (AtLeastN a n) = (case i a of None \<Rightarrow> False | Some v \<Rightarrow> v \<ge> n)"
| "holds i (LessN a n) = (case i a of None \<Rightarrow> False | Some v \<Rightarrow> v < n)"
| "holds i (CondOr c d) = (holds i c \<or> holds i d)"

definition admits :: "item \<Rightarrow> condition option \<Rightarrow> bool" where
  "admits i c = (case c of None \<Rightarrow> True | Some c \<Rightarrow> holds i c)"

text \<open>The numbers among the returned attributes; \<^verbatim>\<open>UPDATED_NEW\<close> returns those written.\<close>

fun action_attr :: "action \<Rightarrow> string" where
  "action_attr (AddN a n) = a"
| "action_attr (SetN a n) = a"
| "action_attr (SetIfAbsent a n) = a"

locale counter_table =
  fixes T :: "'s table_ops"
    and items :: "'s \<Rightarrow> string \<Rightarrow> item"
  assumes update_applied: "fst (tb_update T s pk actions c) = Inr i \<Longrightarrow>
      admits (items s pk) c \<and> items (snd (tb_update T s pk actions c)) =
        (items s)(pk := apply_actions actions (items s pk)) \<and>
      (\<forall>a \<in> action_attr ` set actions. i a = apply_actions actions (items s pk) a)"
    and update_refused: "fst (tb_update T s pk actions c) = Inl ConditionFailed \<Longrightarrow>
      \<not> admits (items s pk) c \<and> items (snd (tb_update T s pk actions c)) = items s"
    and update_error: "fst (tb_update T s pk actions c) = Inl ServiceError \<Longrightarrow>
      items (snd (tb_update T s pk actions c)) = items s \<or>
      admits (items s pk) c \<and> items (snd (tb_update T s pk actions c)) =
        (items s)(pk := apply_actions actions (items s pk))"
    and put_applied: "fst (tb_put T s pk i) = Inr () \<Longrightarrow> items (snd (tb_put T s pk i)) = (items s)(pk := i)"
    and put_error: "fst (tb_put T s pk i) = Inl e \<Longrightarrow>
      items (snd (tb_put T s pk i)) = items s \<or> items (snd (tb_put T s pk i)) = (items s)(pk := i)"
    and delete_applied: "fst (tb_delete T s pk) = Inr () \<Longrightarrow>
      items (snd (tb_delete T s pk)) = (items s)(pk := no_item)"

section \<open>A table that never fails\<close>

definition item_table :: "(string \<Rightarrow> item) table_ops" where
  "item_table =
     \<lparr>tb_get = (\<lambda>s pk. Inr (s pk)),
      tb_update = (\<lambda>s pk actions c.
        if admits (s pk) c
        then (Inr (apply_actions actions (s pk)), s(pk := apply_actions actions (s pk)))
        else (Inl ConditionFailed, s)),
      tb_put = (\<lambda>s pk i. (Inr (), s(pk := i))),
      tb_delete = (\<lambda>s pk. (Inr (), s(pk := no_item)))\<rparr>"

interpretation item_table: counter_table item_table "\<lambda>s. s"
  by unfold_locales (auto simp: item_table_def split: if_splits)

text \<open>
  A table whose calls follow a script of outcomes: answered, lost before it was applied, or
  applied with the answer lost. Past the end of the script every call is answered.
\<close>

datatype call_outcome = Answered | LostBefore | LostAfter

fun scripted :: "(table_error + 'a) \<times> 't \<Rightarrow> call_outcome list \<times> 't \<Rightarrow> (table_error + 'a) \<times> (call_outcome list \<times> 't)" where
  "scripted (r, t) ([], before) = (r, ([], t))"
| "scripted (r, t) (Answered # script, before) = (r, (script, t))"
| "scripted (r, t) (LostBefore # script, before) = (Inl ServiceError, (script, before))"
| "scripted (r, t) (LostAfter # script, before) = (Inl (case r of Inl e \<Rightarrow> e | Inr _ \<Rightarrow> ServiceError), (script, t))"

definition scripted_table :: "(call_outcome list \<times> (string \<Rightarrow> item)) table_ops" where
  "scripted_table =
     \<lparr>tb_get = (\<lambda>s pk. Inr (snd s pk)),
      tb_update = (\<lambda>s pk actions c. scripted (tb_update item_table (snd s) pk actions c) s),
      tb_put = (\<lambda>s pk i. scripted (tb_put item_table (snd s) pk i) s),
      tb_delete = (\<lambda>s pk. scripted (tb_delete item_table (snd s) pk) s)\<rparr>"

lemma scripted_cases:
  "scripted (r, t) s = (r, (tl (fst s), t)) \<or>
   scripted (r, t) s = (Inl ServiceError, (tl (fst s), snd s)) \<or>
   scripted (r, t) s = (Inl (case r of Inl e \<Rightarrow> e | Inr _ \<Rightarrow> ServiceError), (tl (fst s), t))"
  by (cases "((r, t), s)" rule: scripted.cases) auto

interpretation scripted_table: counter_table scripted_table snd
proof (unfold_locales, goal_cases)
  case (1 s pk actions c i)
  then show ?case
    using scripted_cases [of "fst (tb_update item_table (snd s) pk actions c)"
        "snd (tb_update item_table (snd s) pk actions c)" s]
    by (auto simp: scripted_table_def item_table_def split: if_splits)
next
  case (2 s pk actions c)
  then show ?case
    using scripted_cases [of "fst (tb_update item_table (snd s) pk actions c)"
        "snd (tb_update item_table (snd s) pk actions c)" s]
    by (auto simp: scripted_table_def item_table_def split: if_splits)
next
  case (3 s pk actions c)
  then show ?case
    using scripted_cases [of "fst (tb_update item_table (snd s) pk actions c)"
        "snd (tb_update item_table (snd s) pk actions c)" s]
    by (auto simp: scripted_table_def item_table_def split: if_splits)
next
  case (4 s pk i)
  then show ?case
    using scripted_cases [of "Inr ()" "(snd s)(pk := i)" s]
    by (auto simp: scripted_table_def item_table_def)
next
  case (5 s pk i e)
  then show ?case
    using scripted_cases [of "Inr ()" "(snd s)(pk := i)" s]
    by (auto simp: scripted_table_def item_table_def)
next
  case (6 s pk)
  then show ?case
    using scripted_cases [of "Inr ()" "(snd s)(pk := no_item)" s]
    by (auto simp: scripted_table_def item_table_def)
qed

end
