(* ===== verification/RateLimit.thy ===== *)
theory RateLimit
  imports CounterTable
begin

text \<open>
  ratelimit.py, the limiters and the middleware: limit classes and their matching, the
  clock-anchored and first-request counters of \<^verbatim>\<open>RateLimiter\<close>, and the routing of one request
  through \<^verbatim>\<open>rate_limit_middleware\<close>. Epoch time is an exact rational. A method and a path are
  ASCII strings. Logging and metrics are left out.
\<close>

definition rate_ttl_attribute :: string where "rate_ttl_attribute = ''expires_at''"
definition ttl_grace_seconds :: int where "ttl_grace_seconds = 60"

datatype anchor = ClockAnchor | FirstRequestAnchor

record decision =
  rd_allowed :: bool
  rd_limit :: int
  rd_remaining :: int
  rd_reset_after :: int
  rd_window_seconds :: int
  rd_failed_open :: bool
  rd_limit_name :: string

section \<open>Limit classes\<close>

record limit_class =
  lc_name :: string
  lc_limit :: int
  lc_window_seconds :: int
  lc_methods :: "string list option"
  lc_path_prefixes :: "string list option"
  lc_exempt_paths :: "string list"

definition normalise_path :: "string \<Rightarrow> string" where
  "normalise_path path = str_or (rstrip_char (CHR ''/'') path) path"

definition under_prefix :: "string \<Rightarrow> string \<Rightarrow> bool" where
  "under_prefix path prefix = (path = prefix \<or> startswith path (prefix @ ''/''))"

definition lc_matches :: "limit_class \<Rightarrow> string \<Rightarrow> string \<Rightarrow> bool" where
  "lc_matches lc verb path =
     (let normalised = normalise_path path in
      if normalised \<in> set (map normalise_path (lc_exempt_paths lc)) then False
      else if (case lc_methods lc of None \<Rightarrow> False | Some ms \<Rightarrow> upper verb \<notin> set (map upper ms)) then False
      else (case lc_path_prefixes lc of
              None \<Rightarrow> True
            | Some prefixes \<Rightarrow> list_ex (\<lambda>p. under_prefix normalised (normalise_path p)) prefixes))"

text \<open>\<^const>\<open>None\<close> is the \<^verbatim>\<open>LookupError\<close>.\<close>

fun classify :: "string \<Rightarrow> string \<Rightarrow> limit_class list \<Rightarrow> limit_class option" where
  "classify verb path [] = None"
| "classify verb path (lc # classes) =
     (if lc_matches lc verb path then Some lc else classify verb path classes)"

definition rate_limit_headers :: "decision \<Rightarrow> string option \<Rightarrow> (string \<times> string) list" where
  "rate_limit_headers d policy_name =
     (let name = (case policy_name of None \<Rightarrow> rd_limit_name d | Some n \<Rightarrow> n);
          remaining = max (rd_remaining d) 0; q = CHR 0x22
      in [(''RateLimit'', q # name @ q # '';r='' @ int_str remaining @ '';t='' @ int_str (rd_reset_after d)),
          (''RateLimit-Policy'', q # name @ q # '';q='' @ int_str (rd_limit d) @ '';w='' @
             int_str (rd_window_seconds d)),
          (''X-RateLimit-Limit'', int_str (rd_limit d)),
          (''X-RateLimit-Remaining'', int_str remaining),
          (''X-RateLimit-Reset'', int_str (rd_reset_after d))])"

text \<open>The key of a signed-in caller; \<open>subject\<close> is the verified \<^verbatim>\<open>sub\<close> and \<open>fallback\<close> the IP key.\<close>

definition principal_identity :: "string \<Rightarrow> string \<Rightarrow> string" where
  "principal_identity subject fallback =
     (let subject = strip subject in if subject \<noteq> [] then ''user:'' @ subject else fallback)"

section \<open>The limiter\<close>

record rate_limiter =
  rl_namespace :: string
  rl_anchor :: anchor
  rl_count_attribute :: string

definition rl_key :: "rate_limiter \<Rightarrow> string \<Rightarrow> int option \<Rightarrow> string" where
  "rl_key rl identity window_start =
     (case window_start of
        None \<Rightarrow> rl_namespace rl @ ''#'' @ identity
      | Some w \<Rightarrow> rl_namespace rl @ ''#'' @ identity @ ''#'' @ int_str w)"

definition rl_failed_open :: "string \<Rightarrow> int \<Rightarrow> int \<Rightarrow> int \<Rightarrow> decision" where
  "rl_failed_open namespace limit window_seconds reset_after =
     \<lparr>rd_allowed = True, rd_limit = limit, rd_remaining = limit, rd_reset_after = reset_after,
      rd_window_seconds = window_seconds, rd_failed_open = True, rd_limit_name = namespace\<rparr>"

definition counted_decision :: "rate_limiter \<Rightarrow> int \<Rightarrow> int \<Rightarrow> int \<Rightarrow> int \<Rightarrow> decision" where
  "counted_decision rl count limit reset_after window_seconds =
     \<lparr>rd_allowed = (count \<le> limit), rd_limit = limit, rd_remaining = max (limit - count) 0,
      rd_reset_after = reset_after, rd_window_seconds = window_seconds, rd_failed_open = False,
      rd_limit_name = rl_namespace rl\<rparr>"

text \<open>\<^verbatim>\<open>int(now)\<close>, which rounds towards zero.\<close>

definition py_int :: "rat \<Rightarrow> int" where
  "py_int now = (if 0 \<le> now then \<lfloor>now\<rfloor> else \<lceil>now\<rceil>)"

definition window_start_of :: "rat \<Rightarrow> int \<Rightarrow> int" where
  "window_start_of now window_seconds = \<lfloor>now / of_int window_seconds\<rfloor> * window_seconds"

definition check_clock ::
  "'s table_ops \<Rightarrow> rate_limiter \<Rightarrow> 's \<Rightarrow> string \<Rightarrow> int \<Rightarrow> int \<Rightarrow> rat \<Rightarrow> decision \<times> 's" where
  "check_clock T rl s identity limit window_seconds now =
     (let window_start = window_start_of now window_seconds;
          window_end = window_start + window_seconds;
          reset_after = max \<lceil>of_int window_end - now\<rceil> 0
      in case tb_update T s (rl_key rl identity (Some window_start))
             [AddN (rl_count_attribute rl) 1, SetIfAbsent rate_ttl_attribute (window_end + ttl_grace_seconds)]
             None of
          (Inl _, s) \<Rightarrow> (rl_failed_open (rl_namespace rl) limit window_seconds reset_after, s)
        | (Inr attributes, s) \<Rightarrow>
            (counted_decision rl
               (case attributes (rl_count_attribute rl) of None \<Rightarrow> 1 | Some n \<Rightarrow> n)
               limit reset_after window_seconds, s))"

text \<open>The conditional update of \<^verbatim>\<open>_check_first_request\<close>, and the replacing put behind it.\<close>

definition first_request_update ::
  "'s table_ops \<Rightarrow> rate_limiter \<Rightarrow> 's \<Rightarrow> string \<Rightarrow> int \<Rightarrow> int \<Rightarrow> (table_error + item) \<times> 's" where
  "first_request_update T rl s identity window_seconds current =
     tb_update T s (rl_key rl identity None)
       [AddN (rl_count_attribute rl) 1, SetIfAbsent rate_ttl_attribute (current + window_seconds)]
       (Some (CondOr (Absent rate_ttl_attribute) (GreaterN rate_ttl_attribute current)))"

definition first_request_replace ::
  "'s table_ops \<Rightarrow> rate_limiter \<Rightarrow> 's \<Rightarrow> string \<Rightarrow> int \<Rightarrow> int \<Rightarrow> int \<Rightarrow> decision \<times> 's" where
  "first_request_replace T rl s identity limit window_seconds current =
     (case tb_put T s (rl_key rl identity None)
             [rl_count_attribute rl \<mapsto> 1, rate_ttl_attribute \<mapsto> current + window_seconds] of
        (Inl _, s) \<Rightarrow> (rl_failed_open (rl_namespace rl) limit window_seconds window_seconds, s)
      | (Inr _, s) \<Rightarrow>
          (counted_decision rl 1 limit (max (current + window_seconds - current) 0) window_seconds, s))"

definition check_first_request ::
  "'s table_ops \<Rightarrow> rate_limiter \<Rightarrow> 's \<Rightarrow> string \<Rightarrow> int \<Rightarrow> int \<Rightarrow> rat \<Rightarrow> decision \<times> 's" where
  "check_first_request T rl s identity limit window_seconds now =
     (let current = py_int now
      in case first_request_update T rl s identity window_seconds current of
          (Inl ConditionFailed, s) \<Rightarrow> first_request_replace T rl s identity limit window_seconds current
        | (Inl ServiceError, s) \<Rightarrow> (rl_failed_open (rl_namespace rl) limit window_seconds window_seconds, s)
        | (Inr attributes, s) \<Rightarrow>
            (counted_decision rl
               (case attributes (rl_count_attribute rl) of None \<Rightarrow> 1 | Some n \<Rightarrow> n) limit
               (max ((case attributes rate_ttl_attribute of
                        None \<Rightarrow> current + window_seconds | Some t \<Rightarrow> t) - current) 0) window_seconds, s))"

definition rl_check ::
  "'s table_ops \<Rightarrow> rate_limiter \<Rightarrow> 's \<Rightarrow> string \<Rightarrow> int \<Rightarrow> int \<Rightarrow> rat \<Rightarrow> decision \<times> 's" where
  "rl_check T rl s identity limit window_seconds now =
     (if rl_anchor rl = FirstRequestAnchor
      then check_first_request T rl s identity limit window_seconds now
      else check_clock T rl s identity limit window_seconds now)"

definition rl_clear :: "'s table_ops \<Rightarrow> rate_limiter \<Rightarrow> 's \<Rightarrow> string \<Rightarrow> int option \<Rightarrow> rat \<Rightarrow> 's" where
  "rl_clear T rl s identity window_seconds now =
     (if rl_anchor rl = ClockAnchor
      then (case window_seconds of
              None \<Rightarrow> s
            | Some w \<Rightarrow> snd (tb_delete T s (rl_key rl identity (Some (window_start_of now w)))))
      else snd (tb_delete T s (rl_key rl identity None)))"

end
