(* ===== verification/RateProperties.thy ===== *)
theory RateProperties
  imports RateLimit
begin

text \<open>
  What the fixed-window limiters count. \<open>clock_run\<close> and \<open>first_run\<close> are a sequence of
  checks against one table, whoever makes them: one \<^verbatim>\<open>UpdateItem\<close> is atomic, so the checks of
  several containers are some such sequence. The exception is the rollover of a first-request
  window, which takes two calls; the last property interleaves them.
\<close>

section \<open>Reading one counter row\<close>

definition row_count :: "rate_limiter \<Rightarrow> item \<Rightarrow> int" where
  "row_count rl i = (case i (rl_count_attribute rl) of None \<Rightarrow> 0 | Some n \<Rightarrow> n)"

definition count_distinct :: "rate_limiter \<Rightarrow> bool" where
  "count_distinct rl = (rl_count_attribute rl \<noteq> rate_ttl_attribute)"

lemma counting_update:
  assumes "count_distinct rl"
  defines "actions t \<equiv> [AddN (rl_count_attribute rl) 1, SetIfAbsent rate_ttl_attribute t]"
  shows "apply_actions (actions t) i (rl_count_attribute rl) = Some (row_count rl i + 1)"
    and "row_count rl (apply_actions (actions t) i) = row_count rl i + 1"
    and "apply_actions (actions t) i rate_ttl_attribute =
      Some (case i rate_ttl_attribute of None \<Rightarrow> t | Some v \<Rightarrow> v)"
  using assms(1)
  by (simp_all add: actions_def apply_actions_def row_count_def count_distinct_def)

lemma counted_decision_simps [simp]:
  "rd_allowed (counted_decision rl c l r w) = (c \<le> l)"
  "\<not> rd_failed_open (counted_decision rl c l r w)"
  "rd_reset_after (counted_decision rl c l r w) = r"
  "rd_remaining (counted_decision rl c l r w) = max (l - c) 0"
  by (simp_all add: counted_decision_def)

lemma failed_open_simps [simp]:
  "rd_allowed (rl_failed_open ns l w r)" "rd_failed_open (rl_failed_open ns l w r)"
  by (simp_all add: rl_failed_open_def)

section \<open>The clock window\<close>

type_synonym limit_request = "string \<times> rat"

definition request_key :: "rate_limiter \<Rightarrow> int \<Rightarrow> limit_request \<Rightarrow> string" where
  "request_key rl window r = rl_key rl (fst r) (Some (window_start_of (snd r) window))"

fun clock_run ::
  "'s table_ops \<Rightarrow> rate_limiter \<Rightarrow> int \<Rightarrow> int \<Rightarrow> 's \<Rightarrow> limit_request list \<Rightarrow> decision list \<times> 's" where
  "clock_run T rl limit window s [] = ([], s)"
| "clock_run T rl limit window s (r # rs) =
     (let (d, s) = check_clock T rl s (fst r) limit window (snd r);
          (ds, s) = clock_run T rl limit window s rs
      in (d # ds, s))"

definition answered_for :: "rate_limiter \<Rightarrow> int \<Rightarrow> string \<Rightarrow> limit_request list \<Rightarrow> decision list \<Rightarrow> decision list" where
  "answered_for rl window k rs ds = map snd (filter (\<lambda>(r, d). request_key rl window r = k) (zip rs ds))"

definition counted_and_allowed :: "decision list \<Rightarrow> decision list" where
  "counted_and_allowed ds = filter (\<lambda>d. rd_allowed d \<and> \<not> rd_failed_open d) ds"

lemma answered_for_Cons [simp]:
  "answered_for rl w k (r # rs) (d # ds) =
     (if request_key rl w r = k then d # answered_for rl w k rs ds else answered_for rl w k rs ds)"
  by (simp add: answered_for_def)

lemma answered_for_Nil [simp]: "answered_for rl w k [] ds = []"
  by (simp add: answered_for_def)

lemma counted_and_allowed_simps [simp]:
  "counted_and_allowed [] = []"
  "counted_and_allowed (d # ds) =
     (if rd_allowed d \<and> \<not> rd_failed_open d then d # counted_and_allowed ds else counted_and_allowed ds)"
  by (simp_all add: counted_and_allowed_def)

context counter_table begin

lemma clock_counts:
  assumes "count_distinct rl" and "check_clock T rl s ident limit window now = (d, s')"
  defines "k \<equiv> rl_key rl ident (Some (window_start_of now window))"
  shows "(rd_failed_open d \<and> rd_allowed d \<and>
            row_count rl (items s' k) \<in> {row_count rl (items s k), row_count rl (items s k) + 1} \<or>
          \<not> rd_failed_open d \<and> rd_allowed d = (row_count rl (items s k) + 1 \<le> limit) \<and>
            row_count rl (items s' k) = row_count rl (items s k) + 1) \<and>
         (\<forall>k'. k' \<noteq> k \<longrightarrow> items s' k' = items s k')"
proof -
  let ?acts = "[AddN (rl_count_attribute rl) 1,
      SetIfAbsent rate_ttl_attribute (window_start_of now window + window + ttl_grace_seconds)]"
  obtain r s1 where u: "tb_update T s k ?acts None = (r, s1)" by fastforce
  show ?thesis
  proof (cases r)
    case (Inr i)
    then have "items s1 = (items s)(k := apply_actions ?acts (items s k))"
      and "i (rl_count_attribute rl) = Some (row_count rl (items s k) + 1)"
      using update_applied [of s k ?acts None i] u counting_update(1) [OF assms(1)] by simp_all
    then show ?thesis
      using assms(2) u Inr counting_update(2) [OF assms(1)]
      by (auto simp: check_clock_def Let_def k_def [symmetric])
  next
    case (Inl e)
    then have "items s1 = items s \<or> items s1 = (items s)(k := apply_actions ?acts (items s k))"
      using update_error [of s k ?acts None] update_refused [of s k ?acts None] u by (cases e) auto
    then show ?thesis
      using assms(2) u Inl counting_update(2) [OF assms(1)]
      by (auto simp: check_clock_def Let_def k_def [symmetric])
  qed
qed

lemma clock_run_bound:
  assumes "count_distinct rl" and "clock_run T rl limit window s rs = (ds, s')"
  shows "int (length (counted_and_allowed (answered_for rl window k rs ds))) \<le>
           max 0 (limit - row_count rl (items s k)) \<and>
         (list_all (\<lambda>d. \<not> rd_failed_open d) (answered_for rl window k rs ds) \<longrightarrow>
           int (length (counted_and_allowed (answered_for rl window k rs ds))) =
           min (int (length (answered_for rl window k rs ds))) (max 0 (limit - row_count rl (items s k))))"
  using assms(2)
proof (induction rs arbitrary: s ds s')
  case Nil
  then show ?case by auto
next
  case (Cons r rs)
  obtain d s1 where c: "check_clock T rl s (fst r) limit window (snd r) = (d, s1)" by fastforce
  obtain ds1 s2 where run: "clock_run T rl limit window s1 rs = (ds1, s2)" by fastforce
  have ds: "ds = d # ds1" using Cons.prems c run by simp
  note step = clock_counts [OF assms(1) c, folded request_key_def]
  show ?case
  proof (cases "request_key rl window r = k")
    case True
    then show ?thesis using Cons.IH [OF run] step by (auto simp: ds)
  next
    case False
    then show ?thesis using Cons.IH [OF run] step by (auto simp: ds)
  qed
qed

end

section \<open>The first-request window\<close>

fun first_run ::
  "'s table_ops \<Rightarrow> rate_limiter \<Rightarrow> string \<Rightarrow> int \<Rightarrow> int \<Rightarrow> 's \<Rightarrow> rat list \<Rightarrow> decision list \<times> 's" where
  "first_run T rl ident limit window s [] = ([], s)"
| "first_run T rl ident limit window s (t # ts) =
     (let (d, s) = check_first_request T rl s ident limit window t;
          (ds, s) = first_run T rl ident limit window s ts
      in (d # ds, s))"

definition row_live :: "item \<Rightarrow> int \<Rightarrow> bool" where
  "row_live i current = (case i rate_ttl_attribute of None \<Rightarrow> True | Some t \<Rightarrow> current < t)"

lemma holds_first_request:
  "holds i (CondOr (Absent rate_ttl_attribute) (GreaterN rate_ttl_attribute current)) = row_live i current"
  by (simp add: row_live_def split: option.splits)

context counter_table begin

lemma first_counts:
  assumes "count_distinct rl" and "check_first_request T rl s ident limit window now = (d, s')"
    and "\<not> rd_failed_open d"
  defines "k \<equiv> rl_key rl ident None"
  shows "if row_live (items s k) (py_int now)
    then rd_allowed d = (row_count rl (items s k) + 1 \<le> limit) \<and>
      row_count rl (items s' k) = row_count rl (items s k) + 1 \<and>
      items s' k rate_ttl_attribute =
        Some (case items s k rate_ttl_attribute of None \<Rightarrow> py_int now + window | Some t \<Rightarrow> t)
    else rd_allowed d = (1 \<le> limit) \<and> row_count rl (items s' k) = 1 \<and>
      items s' k rate_ttl_attribute = Some (py_int now + window)"
proof -
  let ?acts = "[AddN (rl_count_attribute rl) 1, SetIfAbsent rate_ttl_attribute (py_int now + window)]"
  let ?cond = "Some (CondOr (Absent rate_ttl_attribute) (GreaterN rate_ttl_attribute (py_int now)))"
  let ?new = "[rl_count_attribute rl \<mapsto> 1, rate_ttl_attribute \<mapsto> py_int now + window]"
  obtain r s1 where u: "tb_update T s k ?acts ?cond = (r, s1)" by fastforce
  have admit: "admits (items s k) ?cond = row_live (items s k) (py_int now)"
    using holds_first_request by (simp add: admits_def)
  show ?thesis
  proof (cases r)
    case (Inr i)
    then have "row_live (items s k) (py_int now)"
      and "items s1 = (items s)(k := apply_actions ?acts (items s k))"
      and "i (rl_count_attribute rl) = Some (row_count rl (items s k) + 1)"
      using update_applied [of s k ?acts ?cond i] u admit counting_update(1) [OF assms(1)] by simp_all
    then show ?thesis
      using assms(2) u Inr counting_update [OF assms(1)]
      by (auto simp: check_first_request_def first_request_update_def Let_def k_def [symmetric])
  next
    case (Inl e)
    then have e: "e = ConditionFailed"
      using assms(2,3) u
      by (cases e) (auto simp: check_first_request_def first_request_update_def Let_def k_def [symmetric])
    then have lapsed: "\<not> row_live (items s k) (py_int now)" and same: "items s1 = items s"
      using update_refused [of s k ?acts ?cond] u Inl admit by simp_all
    obtain p s2 where put: "tb_put T s1 k ?new = (p, s2)" by fastforce
    then have "p = Inr ()" and d: "d = counted_decision rl 1 limit (max (py_int now + window - py_int now) 0) window"
      and s2: "s' = s2"
      using assms(2,3) u Inl e
      by (auto simp: check_first_request_def first_request_update_def first_request_replace_def Let_def
          k_def [symmetric] split: sum.splits)
    then have "items s2 = (items s)(k := ?new)" using put_applied [of s1 k ?new] put same by simp
    then show ?thesis
      using lapsed d s2 assms(1) by (simp add: row_count_def count_distinct_def)
  qed
qed

lemma first_run_live:
  assumes "count_distinct rl" and "first_run T rl ident limit window s ts = (ds, s')"
    and "items s (rl_key rl ident None) rate_ttl_attribute = Some e"
    and "\<forall>t \<in> set ts. py_int t < e" and "list_all (\<lambda>d. \<not> rd_failed_open d) ds"
  shows "int (length (filter rd_allowed ds)) =
      min (int (length ts)) (max 0 (limit - row_count rl (items s (rl_key rl ident None)))) \<and>
    items s' (rl_key rl ident None) rate_ttl_attribute = Some e \<and>
    row_count rl (items s' (rl_key rl ident None)) = row_count rl (items s (rl_key rl ident None)) + int (length ts)"
  using assms(2-)
proof (induction ts arbitrary: s ds s')
  case Nil
  then show ?case by auto
next
  case (Cons t ts)
  obtain d s1 where c: "check_first_request T rl s ident limit window t = (d, s1)" by fastforce
  obtain ds1 s2 where run: "first_run T rl ident limit window s1 ts = (ds1, s2)" by fastforce
  have ds: "ds = d # ds1" "s' = s2" using Cons.prems(1) c run by simp_all
  then have "\<not> rd_failed_open d" using Cons.prems(4) by simp
  note step = first_counts [OF assms(1) c this]
  have "row_live (items s (rl_key rl ident None)) (py_int t)"
    using Cons.prems(2,3) by (simp add: row_live_def)
  then have "items s1 (rl_key rl ident None) rate_ttl_attribute = Some e"
    and more: "row_count rl (items s1 (rl_key rl ident None)) = row_count rl (items s (rl_key rl ident None)) + 1"
      "rd_allowed d = (row_count rl (items s (rl_key rl ident None)) + 1 \<le> limit)"
    using step Cons.prems(2) by simp_all
  from Cons.IH [OF run this(1)] Cons.prems(3,4) ds(1) this show ?case by (auto simp: ds)
qed

lemma first_run_opens:
  assumes "count_distinct rl" and "1 \<le> limit"
    and "\<not> row_live (items s (rl_key rl ident None)) (py_int t)"
    and "first_run T rl ident limit window s (t # ts) = (ds, s')"
    and "\<forall>u \<in> set ts. py_int u < py_int t + window" and "list_all (\<lambda>d. \<not> rd_failed_open d) ds"
  shows "int (length (filter rd_allowed ds)) = min (1 + int (length ts)) limit \<and>
    items s' (rl_key rl ident None) rate_ttl_attribute = Some (py_int t + window)"
proof -
  obtain d s1 where c: "check_first_request T rl s ident limit window t = (d, s1)" by fastforce
  obtain ds1 where run: "first_run T rl ident limit window s1 ts = (ds1, s')" and ds: "ds = d # ds1"
    using assms(4) c by (auto simp: Let_def split: prod.splits)
  have ok: "\<not> rd_failed_open d" "list_all (\<lambda>d. \<not> rd_failed_open d) ds1" using assms(6) by (simp_all add: ds)
  have opened: "rd_allowed d" "row_count rl (items s1 (rl_key rl ident None)) = 1"
    "items s1 (rl_key rl ident None) rate_ttl_attribute = Some (py_int t + window)"
    using first_counts [OF assms(1) c ok(1)] assms(2,3) by simp_all
  show ?thesis
    using first_run_live [OF assms(1) run opened(3) assms(5) ok(2)] opened assms(2)
    by (auto simp: ds)
qed

end

lemma first_run_length: "first_run T rl ident limit window s ts = (ds, s') \<Longrightarrow> length ds = length ts"
  by (induction ts arbitrary: s ds) (auto simp: Let_def split: prod.splits)

lemma item_first_counts:
  "check_first_request item_table rl s ident limit window t = (d, s') \<Longrightarrow> \<not> rd_failed_open d"
  by (auto simp: check_first_request_def first_request_update_def first_request_replace_def item_table_def
      Let_def split: if_splits)

lemma item_first_run:
  "first_run item_table rl ident limit window s ts = (ds, s') \<Longrightarrow> list_all (\<lambda>d. \<not> rd_failed_open d) ds"
  by (induction ts arbitrary: s ds) (auto simp: Let_def item_first_counts split: prod.splits)

lemma filter_all_length: "length (filter p xs) = length xs \<longleftrightarrow> list_all p xs"
  by (induction xs) (auto simp: le_imp_less_Suc less_imp_neq)

section \<open>Properties\<close>

definition demo_limiter :: rate_limiter where
  "demo_limiter = \<lparr>rl_namespace = ''login'', rl_anchor = FirstRequestAnchor, rl_count_attribute = ''count''\<rparr>"

lemma demo_limiter_distinct [simp]: "count_distinct demo_limiter"
  by (simp add: count_distinct_def demo_limiter_def rate_ttl_attribute_def)

lemma row_count_absent [simp]: "row_count rl no_item = 0"
  by (simp add: row_count_def no_item_def)

text \<open>
  C21. The clock-anchored limiter, over any table that behaves as DynamoDB documents and may
  fail: of the checks that land on one row, whoever makes them and whatever else is counted
  in between, at most \<open>limit\<close> less the row's count at the start are allowed on a real count;
  and when no call failed, exactly that many are, the first ones.
\<close>

theorem clock_window_bound:
  assumes "counter_table T items" and "count_distinct rl"
    and "clock_run T rl limit window s rs = (ds, s')"
  shows "int (length (counted_and_allowed (answered_for rl window k rs ds))) \<le>
           max 0 (limit - row_count rl (items s k)) \<and>
         (list_all (\<lambda>d. \<not> rd_failed_open d) (answered_for rl window k rs ds) \<longrightarrow>
           int (length (counted_and_allowed (answered_for rl window k rs ds))) =
           min (int (length (answered_for rl window k rs ds))) (max 0 (limit - row_count rl (items s k))))"
  by (rule counter_table.clock_run_bound [OF assms])

theorem clock_window_bound_witness:
  "\<exists>ds s'. clock_run scripted_table demo_limiter 2 60 ([Answered, LostAfter], \<lambda>_. no_item)
       (replicate 4 (''ip'', 61)) = (ds, s') \<and>
     int (length (counted_and_allowed (answered_for demo_limiter 60 ''k'' (replicate 4 (''ip'', 61)) ds))) \<le> 2"
proof -
  obtain ds s' where run: "clock_run scripted_table demo_limiter 2 60 ([Answered, LostAfter], \<lambda>_. no_item)
       (replicate 4 (''ip'', 61)) = (ds, s')" by (metis surj_pair)
  show ?thesis
    using clock_window_bound [OF scripted_table.counter_table_axioms demo_limiter_distinct run, of "''k''"] run
    by auto
qed

text \<open>
  C22. The first-request limiter: the check that finds the row's window over opens a new one,
  and of it and the checks before that window's end exactly the first \<open>limit\<close> are allowed,
  when no call fails; the window's end stays where its first request put it.
\<close>

theorem first_request_window:
  assumes "counter_table T items" and "count_distinct rl" and "1 \<le> limit"
    and "\<not> row_live (items s (rl_key rl ident None)) (py_int t)"
    and "first_run T rl ident limit window s (t # ts) = (ds, s')"
    and "\<forall>u \<in> set ts. py_int u < py_int t + window" and "list_all (\<lambda>d. \<not> rd_failed_open d) ds"
  shows "int (length (filter rd_allowed ds)) = min (1 + int (length ts)) limit \<and>
    items s' (rl_key rl ident None) rate_ttl_attribute = Some (py_int t + window)"
  by (rule counter_table.first_run_opens [OF assms])

theorem first_request_window_witness:
  "length (filter rd_allowed (fst (first_run item_table demo_limiter ''ip'' 2 60
     (\<lambda>_. [rate_ttl_attribute \<mapsto> 100, ''count'' \<mapsto> 9]) [100, 101, 159]))) = 2"
proof -
  let ?s = "\<lambda>_. [rate_ttl_attribute \<mapsto> 100, ''count'' \<mapsto> 9]"
  obtain ds s' where run: "first_run item_table demo_limiter ''ip'' 2 60 ?s [100, 101, 159] = (ds, s')"
    by fastforce
  have "\<not> row_live (?s (rl_key demo_limiter ''ip'' None)) (py_int 100)"
    and "\<forall>u \<in> set [101, 159]. py_int u < py_int 100 + 60"
    by (simp_all add: row_live_def py_int_def rate_ttl_attribute_def)
  moreover have "list_all (\<lambda>d. \<not> rd_failed_open d) ds"
    by (rule item_first_run [OF run])
  ultimately show ?thesis
    using first_request_window [OF item_table.counter_table_axioms demo_limiter_distinct _ _ run] run by simp
qed

text \<open>
  C23. The rollover of a first-request window is not atomic. A check whose conditional update
  was refused puts a fresh row of count 1 over whatever has been counted since: after another
  container has opened the window and spent all of it, that put allows one request more and
  gives back \<open>limit - 1\<close>, so that twice the limit is allowed within one window.
\<close>

theorem rollover_race_doubles_limit:
  assumes "count_distinct rl" and "1 \<le> limit" and "1 \<le> window"
    and "\<not> row_live (s (rl_key rl ident None)) (py_int t)"
  shows "let (r, s1) = first_request_update item_table rl s ident window (py_int t);
             (ds, s2) = first_run item_table rl ident limit window s1 (replicate (nat limit) t);
             (d, s3) = first_request_replace item_table rl s2 ident limit window (py_int t);
             (ds', s4) = first_run item_table rl ident limit window s3 (replicate (nat limit - 1) t)
         in r = Inl ConditionFailed \<and> list_all rd_allowed (ds @ d # ds') \<and>
            \<not> list_ex rd_failed_open (ds @ d # ds') \<and> length (ds @ d # ds') = 2 * nat limit"
proof -
  define k where "k = rl_key rl ident None"
  obtain n where n: "nat limit = Suc n" "limit = int n + 1"
    using assms(2) by (metis Suc_pred' Suc_eq_plus1 int_nat_eq nat_0_iff not0_implies_Suc not_one_le_zero of_nat_Suc add.commute order_trans zero_le_one)
  have upd: "first_request_update item_table rl s ident window (py_int t) = (Inl ConditionFailed, s)"
    using assms(4) holds_first_request
    by (simp add: first_request_update_def item_table_def admits_def del: holds.simps)
  obtain ds s2 where run1: "first_run item_table rl ident limit window s (replicate (nat limit) t) = (ds, s2)"
    by fastforce
  obtain d s3 where rep: "first_request_replace item_table rl s2 ident limit window (py_int t) = (d, s3)"
    by fastforce
  then have d: "rd_allowed d" "\<not> rd_failed_open d"
    and s3: "s3 k rate_ttl_attribute = Some (py_int t + window)" "row_count rl (s3 k) = 1"
    using assms(1,2) by (auto simp: first_request_replace_def item_table_def k_def row_count_def count_distinct_def)
  obtain ds' s4 where run2: "first_run item_table rl ident limit window s3 (replicate n t) = (ds', s4)"
    by fastforce
  note ok1 = item_first_run [OF run1] and ok2 = item_first_run [OF run2]
  have len: "length ds = nat limit" "length ds' = n"
    using first_run_length [OF run1] first_run_length [OF run2] by simp_all
  have "length (filter rd_allowed ds) = length ds"
    using item_table.first_run_opens [OF assms(1,2,4) run1 [unfolded n(1) replicate_Suc] _ ok1] assms(3) n len
    by simp
  moreover have "length (filter rd_allowed ds') = length ds'"
    using item_table.first_run_live [OF assms(1) run2, of "py_int t + window"] ok2 s3 assms(3) n len
    by (simp add: k_def)
  ultimately have "list_all rd_allowed ds" "list_all rd_allowed ds'"
    by (simp_all add: filter_all_length)
  moreover have "nat limit - Suc 0 = n" using n by simp
  moreover have "length ds + length ds' + 1 = 2 * nat limit" using n len by simp
  ultimately show ?thesis
    using ok1 ok2 d by (auto simp add: Let_def upd run1 rep run2 list_ex_iff list_all_iff)
qed

theorem rollover_race_doubles_limit_witness:
  "fst (first_request_update item_table demo_limiter (\<lambda>_. [rate_ttl_attribute \<mapsto> 100, ''count'' \<mapsto> 9]) ''ip'' 60
     (py_int 100)) = Inl ConditionFailed"
proof -
  let ?s = "\<lambda>_. [rate_ttl_attribute \<mapsto> 100, ''count'' \<mapsto> 9]"
  have "\<not> row_live (?s (rl_key demo_limiter ''ip'' None)) (py_int 100)"
    by (simp add: row_live_def py_int_def rate_ttl_attribute_def)
  from rollover_race_doubles_limit [OF demo_limiter_distinct, of 2 60 ?s "''ip''" 100] this
  show ?thesis by (simp add: Let_def split_beta)
qed

end
