(* ===== verification/TieredLimit.thy ===== *)
theory TieredLimit
  imports RateLimit
begin

text \<open>
  ratelimit.py, the plan tiers: quotas and plans, the subject of a request, and
  \<^verbatim>\<open>TieredRateLimiter\<close>, which counts a key in one conditional \<^verbatim>\<open>UpdateItem\<close> and serves a lease of
  counts from the memory of its container. \<open>check_key\<close> is composed of the three parts between
  which another thread or container may run: the first critical section (\<open>check_local\<close>), the
  claim, of up to three updates (\<open>claim\<close>), and the second critical section (\<open>settle\<close>).
\<close>

definition minute_seconds :: int where "minute_seconds = 60"
definition day_seconds :: int where "day_seconds = 86400"
definition tier_write_attempts :: nat where "tier_write_attempts = 3"

section \<open>Plans\<close>

datatype request_class = ReadClass | WriteClass
datatype scope = TokenScope | UserScope | TenantScope

definition scopes :: "scope list" where "scopes = [TokenScope, UserScope, TenantScope]"

fun scope_name :: "scope \<Rightarrow> string" where
  "scope_name TokenScope = ''token''"
| "scope_name UserScope = ''user''"
| "scope_name TenantScope = ''tenant''"

fun class_name :: "request_class \<Rightarrow> string" where
  "class_name ReadClass = ''read''"
| "class_name WriteClass = ''write''"

record quota =
  q_per_minute :: int
  q_per_day :: "int option"

text \<open>\<^const>\<open>None\<close> is the \<^verbatim>\<open>ValueError\<close> of a constructor.\<close>

definition quota_new :: "int \<Rightarrow> int option \<Rightarrow> quota option" where
  "quota_new per_minute per_day =
     (if per_minute < 1 then None
      else if (case per_day of None \<Rightarrow> False | Some d \<Rightarrow> d < 1) then None
      else Some \<lparr>q_per_minute = per_minute, q_per_day = per_day\<rparr>)"

record scope_limits =
  sl_read :: "quota option"
  sl_write :: "quota option"
  sl_shared :: bool

definition combined :: "quota \<Rightarrow> scope_limits" where
  "combined q = \<lparr>sl_read = Some q, sl_write = Some q, sl_shared = True\<rparr>"

definition select :: "scope_limits \<Rightarrow> request_class \<Rightarrow> (string \<times> quota) option" where
  "select sl c =
     (case (if c = ReadClass then sl_read sl else sl_write sl) of
        None \<Rightarrow> None
      | Some q \<Rightarrow> Some (if sl_shared sl then ''all'' else class_name c, q))"

record plan_limits =
  pl_token :: "scope_limits option"
  pl_user :: "scope_limits option"
  pl_tenant :: "scope_limits option"

fun for_scope :: "plan_limits \<Rightarrow> scope \<Rightarrow> scope_limits option" where
  "for_scope p TokenScope = pl_token p"
| "for_scope p UserScope = pl_user p"
| "for_scope p TenantScope = pl_tenant p"

record subject =
  su_plan :: string
  su_tenant :: "string option"
  su_user :: "string option"
  su_token :: "string option"

fun key_for :: "subject \<Rightarrow> scope \<Rightarrow> string option" where
  "key_for su TokenScope = su_token su"
| "key_for su UserScope = su_user su"
| "key_for su TenantScope = su_tenant su"

record tiered_limits =
  ti_plans :: "(string, plan_limits) dict"
  ti_default_plan :: string
  ti_read_methods :: "string list"
  ti_ip_classes :: "string list"
  ti_max_lease :: int
  ti_lease_divisor :: int

definition tiered_limits_ok :: "tiered_limits \<Rightarrow> bool" where
  "tiered_limits_ok ti =
     (dget (ti_plans ti) (ti_default_plan ti) \<noteq> None \<and> \<not> (ti_max_lease ti < 1 \<or> ti_lease_divisor ti < 1))"

definition limits_for :: "tiered_limits \<Rightarrow> string \<Rightarrow> string \<times> plan_limits" where
  "limits_for ti plan =
     (case dget (ti_plans ti) plan of
        Some p \<Rightarrow> (plan, p)
      | None \<Rightarrow> (ti_default_plan ti, the (dget (ti_plans ti) (ti_default_plan ti))))"

definition request_class_of :: "tiered_limits \<Rightarrow> string \<Rightarrow> request_class" where
  "request_class_of ti verb =
     (if upper verb \<in> set (map upper (ti_read_methods ti)) then ReadClass else WriteClass)"

section \<open>Lease state\<close>

record lease_state =
  ls_minute :: int
  ls_written_minute :: "int option"
  ls_tokens :: int
  ls_served :: int
  ls_previous_served :: int
  ls_minute_remaining :: int
  ls_day_remaining :: "int option"
  ls_blocked_until :: int
  ls_blocked_limit :: int
  ls_blocked_window :: int

definition new_lease_state :: "int \<Rightarrow> lease_state" where
  "new_lease_state minute =
     \<lparr>ls_minute = minute, ls_written_minute = None, ls_tokens = 0, ls_served = 0, ls_previous_served = 0,
      ls_minute_remaining = 0, ls_day_remaining = None, ls_blocked_until = 0, ls_blocked_limit = 0,
      ls_blocked_window = minute_seconds\<rparr>"

text \<open>
  The \<^verbatim>\<open>OrderedDict\<close> of states, least recently used first. A state the code mutates is the object
  the cache holds, so \<open>keep_state\<close> writes it back where the cache still has it.
\<close>

type_synonym cache_key = "string \<times> string"
type_synonym lease_cache = "(cache_key, lease_state) dict"

definition roll_state :: "lease_state \<Rightarrow> int \<Rightarrow> lease_state" where
  "roll_state st minute =
     (if ls_minute st \<noteq> minute
      then st\<lparr>ls_previous_served := (if ls_minute st = minute - minute_seconds then ls_served st else 0),
              ls_served := 0, ls_tokens := 0, ls_minute := minute\<rparr>
      else st)"

definition touch :: "lease_cache \<Rightarrow> cache_key \<Rightarrow> int \<Rightarrow> lease_state option \<times> lease_cache" where
  "touch cache k minute =
     (case dget cache k of
        None \<Rightarrow> (None, cache)
      | Some st \<Rightarrow> (let st = roll_state st minute in (Some st, ddel k cache @ [(k, st)])))"

definition store_state :: "nat \<Rightarrow> lease_cache \<Rightarrow> cache_key \<Rightarrow> lease_state \<Rightarrow> lease_cache" where
  "store_state cache_size cache k st =
     (let cache = dset k st cache in drop (length cache - cache_size) cache)"

definition keep_state :: "lease_cache \<Rightarrow> cache_key \<Rightarrow> lease_state \<Rightarrow> lease_cache" where
  "keep_state cache k st = (if dget cache k = None then cache else dset k st cache)"

definition lease_size :: "tiered_limits \<Rightarrow> lease_state option \<Rightarrow> quota \<Rightarrow> int" where
  "lease_size ti st q =
     (case st of
        None \<Rightarrow> 1
      | Some st \<Rightarrow>
          if ti_max_lease ti \<le> 1 then 1
          else
            (let divisor = ti_lease_divisor ti;
                 minute_remaining =
                   (if ls_written_minute st = Some (ls_minute st) then ls_minute_remaining st else q_per_minute q);
                 bounds = [ti_max_lease ti, max (ls_served st) (ls_previous_served st) div divisor,
                           minute_remaining div divisor];
                 bounds = (case (q_per_day q, ls_day_remaining st) of
                             (Some _, Some r) \<Rightarrow> bounds @ [r div divisor]
                           | _ \<Rightarrow> bounds)
             in max 1 (Min (set bounds))))"

section \<open>The claim\<close>

definition minute_attr :: "string \<Rightarrow> string" where "minute_attr counter = counter @ ''_m''"
definition window_attr :: "string \<Rightarrow> string" where "window_attr counter = counter @ ''_w''"
definition day_attr :: "string \<Rightarrow> string" where "day_attr counter = counter @ ''_d''"

definition count_path :: "string \<Rightarrow> int \<Rightarrow> int \<Rightarrow> int \<Rightarrow> action list \<times> condition" where
  "count_path counter lease minute expires =
     ([AddN (minute_attr counter) lease, AddN (day_attr counter) lease,
       SetIfAbsent rate_ttl_attribute (expires + ttl_grace_seconds)],
      AtLeastN (window_attr counter) minute)"

definition rollover_path :: "string \<Rightarrow> int \<Rightarrow> int \<Rightarrow> int \<Rightarrow> action list \<times> condition" where
  "rollover_path counter lease minute expires =
     ([SetN (minute_attr counter) lease, SetN (window_attr counter) minute,
       SetIfAbsent rate_ttl_attribute (expires + ttl_grace_seconds), AddN (day_attr counter) lease],
      CondOr (Absent (window_attr counter)) (LessN (window_attr counter) minute))"

definition claim_path :: "string \<Rightarrow> int \<Rightarrow> int \<Rightarrow> int \<Rightarrow> bool \<Rightarrow> nat \<Rightarrow> action list \<times> condition" where
  "claim_path counter lease minute expires same_minute attempt =
     (if same_minute = even attempt then count_path counter lease minute expires
      else rollover_path counter lease minute expires)"

definition claim_attempt ::
  "'s table_ops \<Rightarrow> 's \<Rightarrow> string \<Rightarrow> string \<Rightarrow> int \<Rightarrow> int \<Rightarrow> int \<Rightarrow> bool \<Rightarrow> nat \<Rightarrow> (table_error + item) \<times> 's" where
  "claim_attempt T s pk counter lease minute expires same_minute attempt =
     (let (actions, condition) = claim_path counter lease minute expires same_minute attempt
      in tb_update T s pk actions (Some condition))"

datatype claim_error = ClaimService | ClaimContended

fun claim_loop ::
  "'s table_ops \<Rightarrow> 's \<Rightarrow> string \<Rightarrow> string \<Rightarrow> int \<Rightarrow> int \<Rightarrow> int \<Rightarrow> bool \<Rightarrow> nat list \<Rightarrow> (claim_error + item) \<times> 's" where
  "claim_loop T s pk counter lease minute expires same_minute [] = (Inl ClaimContended, s)"
| "claim_loop T s pk counter lease minute expires same_minute (attempt # attempts) =
     (case claim_attempt T s pk counter lease minute expires same_minute attempt of
        (Inl ConditionFailed, s) \<Rightarrow> claim_loop T s pk counter lease minute expires same_minute attempts
      | (Inl ServiceError, s) \<Rightarrow> (Inl ClaimService, s)
      | (Inr attributes, s) \<Rightarrow> (Inr attributes, s))"

definition claim ::
  "'s table_ops \<Rightarrow> 's \<Rightarrow> string \<Rightarrow> string \<Rightarrow> int \<Rightarrow> int \<Rightarrow> int \<Rightarrow> bool \<Rightarrow> (claim_error + item) \<times> 's" where
  "claim T s pk counter lease minute expires same_minute =
     claim_loop T s pk counter lease minute expires same_minute [0..<tier_write_attempts]"

section \<open>Checking one key\<close>

record tiered_limiter =
  tl_namespace :: string
  tl_tiers :: tiered_limits
  tl_cache_size :: nat

definition tier_pk :: "tiered_limiter \<Rightarrow> string \<Rightarrow> string \<Rightarrow> rat \<Rightarrow> string" where
  "tier_pk trl scope key now =
     tl_namespace trl @ ''#'' @ scope @ ''#'' @ key @ ''#'' @ int_str (window_start_of now day_seconds)"

definition allowed_decision :: "lease_state \<Rightarrow> quota \<Rightarrow> string \<Rightarrow> rat \<Rightarrow> int \<Rightarrow> int \<Rightarrow> decision" where
  "allowed_decision st q name now minute day =
     (let minute_left = ls_minute_remaining st + ls_tokens st;
          by_minute = (q_per_minute q, minute_seconds, minute_left, minute + minute_seconds);
          (limit, window, left, reset_at) =
            (case (q_per_day q, ls_day_remaining st) of
               (Some per_day, Some day_remaining) \<Rightarrow>
                 (let day_left = day_remaining + ls_tokens st
                  in if day_left < minute_left then (per_day, day_seconds, day_left, day + day_seconds)
                     else by_minute)
             | _ \<Rightarrow> by_minute)
      in \<lparr>rd_allowed = True, rd_limit = limit, rd_remaining = max left 0,
          rd_reset_after = max \<lceil>of_int reset_at - now\<rceil> 0, rd_window_seconds = window,
          rd_failed_open = False, rd_limit_name = name\<rparr>)"

definition blocked_decision :: "lease_state \<Rightarrow> string \<Rightarrow> rat \<Rightarrow> decision" where
  "blocked_decision st name now =
     \<lparr>rd_allowed = False, rd_limit = ls_blocked_limit st, rd_remaining = 0,
      rd_reset_after = max \<lceil>of_int (ls_blocked_until st) - now\<rceil> 0,
      rd_window_seconds = ls_blocked_window st, rd_failed_open = False, rd_limit_name = name\<rparr>"

text \<open>The first critical section: a decision from memory, or the lease to claim and its prediction.\<close>

definition check_local ::
  "tiered_limiter \<Rightarrow> lease_cache \<Rightarrow> string \<Rightarrow> string \<Rightarrow> quota \<Rightarrow> string \<Rightarrow> rat \<Rightarrow>
     (decision + int \<times> bool) \<times> lease_cache" where
  "check_local trl cache pk name q counter now =
     (let minute = window_start_of now minute_seconds;
          day = window_start_of now day_seconds;
          (st, cache) = touch cache (pk, counter) minute
      in case st of
           None \<Rightarrow> (Inr (lease_size (tl_tiers trl) None q, False), cache)
         | Some st \<Rightarrow>
             if of_int (ls_blocked_until st) > now then (Inl (blocked_decision st name now), cache)
             else if ls_tokens st > 0
             then (let st = st\<lparr>ls_tokens := ls_tokens st - 1, ls_served := ls_served st + 1\<rparr>
                   in (Inl (allowed_decision st q name now minute day), keep_state cache (pk, counter) st))
             else (Inr (lease_size (tl_tiers trl) (Some st) q,
                        case ls_written_minute st of None \<Rightarrow> False | Some w \<Rightarrow> w \<ge> minute), cache))"

definition attr_or :: "item \<Rightarrow> string \<Rightarrow> int \<Rightarrow> int" where
  "attr_or attributes a fallback = (case attributes a of None \<Rightarrow> fallback | Some n \<Rightarrow> n)"

definition granted :: "quota \<Rightarrow> int \<Rightarrow> int \<Rightarrow> int \<Rightarrow> int" where
  "granted q lease minute_count day_count =
     (let granted = min lease (q_per_minute q - (minute_count - lease));
          granted = (case q_per_day q of
                       None \<Rightarrow> granted
                     | Some per_day \<Rightarrow> min granted (per_day - (day_count - lease)))
      in max granted 0)"

definition block_state :: "lease_state \<Rightarrow> quota \<Rightarrow> int \<Rightarrow> int \<Rightarrow> int \<Rightarrow> int \<Rightarrow> lease_state" where
  "block_state st q lease day_count minute day =
     (case q_per_day q of
        Some per_day \<Rightarrow>
          if day_count - lease \<ge> per_day
          then st\<lparr>ls_blocked_until := day + day_seconds, ls_blocked_limit := per_day,
                  ls_blocked_window := day_seconds, ls_tokens := 0\<rparr>
          else st\<lparr>ls_blocked_until := minute + minute_seconds, ls_blocked_limit := q_per_minute q,
                  ls_blocked_window := minute_seconds, ls_tokens := 0\<rparr>
      | None \<Rightarrow> st\<lparr>ls_blocked_until := minute + minute_seconds, ls_blocked_limit := q_per_minute q,
                   ls_blocked_window := minute_seconds, ls_tokens := 0\<rparr>)"

text \<open>The second critical section.\<close>

definition settle ::
  "tiered_limiter \<Rightarrow> lease_cache \<Rightarrow> string \<Rightarrow> string \<Rightarrow> quota \<Rightarrow> string \<Rightarrow> rat \<Rightarrow> int \<Rightarrow> item \<Rightarrow>
     decision \<times> lease_cache" where
  "settle trl cache pk name q counter now lease attributes =
     (let minute = window_start_of now minute_seconds;
          day = window_start_of now day_seconds;
          minute_count = attr_or attributes (minute_attr counter) lease;
          day_count = attr_or attributes (day_attr counter) lease;
          granted = granted q lease minute_count day_count;
          (st, cache) = touch cache (pk, counter) minute;
          (st, cache) = (case st of
                           Some st \<Rightarrow> (st, cache)
                         | None \<Rightarrow> (new_lease_state minute,
                              store_state (tl_cache_size trl) cache (pk, counter) (new_lease_state minute)));
          st = st\<lparr>ls_written_minute := Some minute, ls_served := ls_served st + 1,
                  ls_minute_remaining := max (q_per_minute q - minute_count) 0,
                  ls_day_remaining := (case q_per_day q of
                                         None \<Rightarrow> None | Some per_day \<Rightarrow> Some (max (per_day - day_count) 0))\<rparr>
      in if granted \<ge> 1
         then (let st = st\<lparr>ls_tokens := ls_tokens st + (granted - 1)\<rparr>
               in (allowed_decision st q name now minute day, keep_state cache (pk, counter) st))
         else (let st = block_state st q lease day_count minute day
               in (blocked_decision st name now, keep_state cache (pk, counter) st)))"

definition tier_failed_open :: "tiered_limiter \<Rightarrow> quota \<Rightarrow> rat \<Rightarrow> decision" where
  "tier_failed_open trl q now =
     rl_failed_open (tl_namespace trl) (q_per_minute q) minute_seconds
       (max \<lceil>of_int (window_start_of now minute_seconds + minute_seconds) - now\<rceil> 0)"

definition check_key ::
  "'s table_ops \<Rightarrow> tiered_limiter \<Rightarrow> 's \<Rightarrow> lease_cache \<Rightarrow> string \<Rightarrow> string \<Rightarrow> quota \<Rightarrow> string \<Rightarrow> rat \<Rightarrow>
     decision \<times> 's \<times> lease_cache" where
  "check_key T trl s cache scope key q counter now =
     (let minute = window_start_of now minute_seconds;
          day = window_start_of now day_seconds;
          pk = tier_pk trl scope key now;
          name = scope @ ''-'' @ counter
      in case check_local trl cache pk name q counter now of
           (Inl d, cache) \<Rightarrow> (d, s, cache)
         | (Inr (lease, same_minute), cache) \<Rightarrow>
             (case claim T s pk counter lease minute (day + day_seconds) same_minute of
                (Inl _, s) \<Rightarrow> (tier_failed_open trl q now, s, cache)
              | (Inr attributes, s) \<Rightarrow>
                  (let (d, cache) = settle trl cache pk name q counter now lease attributes in (d, s, cache))))"

section \<open>Checking a subject\<close>

fun check_scopes ::
  "'s table_ops \<Rightarrow> tiered_limiter \<Rightarrow> 's \<Rightarrow> lease_cache \<Rightarrow> subject \<Rightarrow> plan_limits \<Rightarrow> request_class \<Rightarrow> rat \<Rightarrow>
     scope list \<Rightarrow> (decision + decision list) \<times> 's \<times> lease_cache" where
  "check_scopes T trl s cache su plan c now [] = (Inr [], s, cache)"
| "check_scopes T trl s cache su plan c now (scope # rest) =
     (case (key_for su scope, for_scope plan scope) of
        (Some key, Some limits) \<Rightarrow>
          if key = [] then check_scopes T trl s cache su plan c now rest
          else (case select limits c of
            None \<Rightarrow> check_scopes T trl s cache su plan c now rest
          | Some (counter, q) \<Rightarrow>
              (let (d, s, cache) = check_key T trl s cache (scope_name scope) key q counter now
               in if \<not> rd_allowed d then (Inl d, s, cache)
                  else (case check_scopes T trl s cache su plan c now rest of
                          (Inl d', s, cache) \<Rightarrow> (Inl d', s, cache)
                        | (Inr ds, s, cache) \<Rightarrow> (Inr (d # ds), s, cache))))
      | _ \<Rightarrow> check_scopes T trl s cache su plan c now rest)"

text \<open>\<^verbatim>\<open>min(enforced, key=...)\<close>: the first of the least remaining.\<close>

fun least_remaining :: "decision \<Rightarrow> decision list \<Rightarrow> decision" where
  "least_remaining d [] = d"
| "least_remaining d (e # es) =
     (if rd_remaining e < rd_remaining d then least_remaining e es else least_remaining d es)"

definition check_subject ::
  "'s table_ops \<Rightarrow> tiered_limiter \<Rightarrow> 's \<Rightarrow> lease_cache \<Rightarrow> subject \<Rightarrow> string \<Rightarrow> rat \<Rightarrow>
     decision option \<times> 's \<times> lease_cache" where
  "check_subject T trl s cache su verb now =
     (let plan = snd (limits_for (tl_tiers trl) (su_plan su));
          c = request_class_of (tl_tiers trl) verb
      in case check_scopes T trl s cache su plan c now scopes of
           (Inl d, s, cache) \<Rightarrow> (Some d, s, cache)
         | (Inr ds, s, cache) \<Rightarrow>
             (case ds of
                [] \<Rightarrow> (None, s, cache)
              | first # _ \<Rightarrow>
                  (case filter (\<lambda>d. \<not> rd_failed_open d) ds of
                     [] \<Rightarrow> (Some first, s, cache)
                   | d # rest \<Rightarrow> (Some (least_remaining d rest), s, cache))))"

end
