(* ===== verification/TieredProperties.thy ===== *)
theory TieredProperties
  imports TieredLimit
begin

text \<open>
  How much a tiered limiter lets through. \<open>tier_step\<close> interleaves the checks of any number of
  containers and threads at the points where the code gives up its lock: a critical section or
  one table update at a time, with containers restarting and calls failing as they may. The
  invariant accounts every allowed request, every token still held in memory and every claim
  not yet settled against the minute and day counts of the row.
\<close>

declare split_paired_All [simp del]

section \<open>Tokens in memory\<close>

text \<open>
  Counts are taken from a minute \<open>lo\<close> on: a token is counted when its state stands at \<open>lo\<close> or
  later, an answer when its check read \<open>lo\<close> or later.
\<close>

definition live :: "int \<Rightarrow> lease_state \<Rightarrow> int" where
  "live lo st = (if lo \<le> ls_minute st then ls_tokens st else 0)"

definition tokens :: "int \<Rightarrow> cache_key \<Rightarrow> lease_cache \<Rightarrow> int" where
  "tokens lo k c = (case dget c k of None \<Rightarrow> 0 | Some st \<Rightarrow> live lo st)"

definition cache_ok :: "lease_cache \<Rightarrow> bool" where
  "cache_ok c = (dict_ok c \<and> (\<forall>k st. dget c k = Some st \<longrightarrow> 0 \<le> ls_tokens st))"

definition cost :: "decision \<Rightarrow> int" where
  "cost d = (if rd_allowed d \<and> \<not> rd_failed_open d then 1 else 0)"

lemma cache_ok_Nil [simp]: "cache_ok []" and tokens_Nil [simp]: "tokens lo k [] = 0"
  by (simp_all add: cache_ok_def tokens_def)

lemma cost_nonneg [simp]: "0 \<le> cost d" and cost_failed_open [simp]: "cost (rl_failed_open a b c e) = 0"
  by (simp_all add: cost_def rl_failed_open_def)

lemma tokens_nonneg: "cache_ok c \<Longrightarrow> 0 \<le> tokens lo k c"
  by (auto simp: cache_ok_def tokens_def live_def split: option.splits)

lemma cache_okI:
  assumes "dict_ok c" and "\<And>k st. dget c k = Some st \<Longrightarrow> 0 \<le> ls_tokens st"
  shows "cache_ok c"
  using assms by (simp add: cache_ok_def)

lemma cache_ok_dset: "cache_ok c \<Longrightarrow> 0 \<le> ls_tokens st \<Longrightarrow> cache_ok (dset k st c)"
  by (auto simp: cache_ok_def)

lemma dget_drop: "dict_ok c \<Longrightarrow> dget (drop n c) k = Some v \<Longrightarrow> dget c k = Some v"
  by (metis dget_Some_mem distinct_drop drop_map in_set_dropD)

lemma cache_ok_drop: "cache_ok c \<Longrightarrow> cache_ok (drop n c)"
  using dget_drop [of c] by (fastforce simp: cache_ok_def drop_map [symmetric])

lemma dget_move_to_end: "dget (ddel k c @ [(k, st)]) = (dget c)(k \<mapsto> st)"
  by (rule ext) (simp add: map_add_def split: option.splits)

text \<open>Rolling a state to another minute forfeits its lease.\<close>

lemma roll_state_tokens:
  assumes "0 \<le> ls_tokens st"
  shows "0 \<le> ls_tokens (roll_state st m)" and "live lo (roll_state st m) \<le> live lo st"
    and "ls_minute (roll_state st m) = m"
  using assms by (simp_all add: roll_state_def live_def)

lemma touch_spec:
  assumes "cache_ok c" and "touch c k minute = (st, c')"
  shows "cache_ok c'" and "dget c' k = st" and "tokens lo k' c' \<le> tokens lo k' c"
    and "\<And>s. st = Some s \<Longrightarrow> ls_minute s = minute"
proof -
  have "cache_ok c' \<and> dget c' k = st \<and> tokens lo k' c' \<le> tokens lo k' c \<and> (\<forall>s. st = Some s \<longrightarrow> ls_minute s = minute)"
  proof (cases "dget c k")
    case None
    then show ?thesis using assms by (auto simp: touch_def)
  next
    case (Some s)
    then have s: "0 \<le> ls_tokens s" using assms(1) by (simp add: cache_ok_def)
    have c': "c' = ddel k c @ [(k, roll_state s minute)]" "st = Some (roll_state s minute)"
      using assms(2) Some by (simp_all add: touch_def Let_def)
    have g: "dget c' = (dget c)(k \<mapsto> roll_state s minute)"
      unfolding c' by (rule dget_move_to_end)
    have dict: "dict_ok c" using assms(1) by (simp add: cache_ok_def)
    have "dict_ok c'"
      using dict by (simp add: c' delete_keys distinct_removeAll)
    then show ?thesis
      using assms(1) roll_state_tokens [OF s, where m = minute] roll_state_tokens(2) [OF s, of lo minute] Some
      by (simp add: cache_ok_def g c'(2) tokens_def)
  qed
  then show "cache_ok c'" "dget c' k = st" "tokens lo k' c' \<le> tokens lo k' c"
    "\<And>s. st = Some s \<Longrightarrow> ls_minute s = minute" by auto
qed

lemma keep_state_spec:
  assumes "cache_ok c" and "0 \<le> ls_tokens st"
  shows "cache_ok (keep_state c k st)"
    and "tokens lo k' (keep_state c k st) \<le> (if k' = k then live lo st else tokens lo k' c)"
  using assms cache_ok_dset [OF assms] by (auto simp: keep_state_def tokens_def live_def)

lemma store_state_spec:
  assumes "cache_ok c" and "0 \<le> ls_tokens st"
  shows "cache_ok (store_state n c k st)"
    and "tokens lo k' (store_state n c k st) \<le> (if k' = k then live lo st else tokens lo k' c)"
proof -
  show "cache_ok (store_state n c k st)"
    using cache_ok_drop cache_ok_dset [OF assms] by (simp add: store_state_def Let_def)
  have dict: "dict_ok (dset k st c)" using assms by (simp add: cache_ok_def)
  show "tokens lo k' (store_state n c k st) \<le> (if k' = k then live lo st else tokens lo k' c)"
  proof (cases "dget (store_state n c k st) k'")
    case None
    then show ?thesis using assms tokens_nonneg [OF assms(1), of lo k'] by (simp add: tokens_def live_def)
  next
    case (Some v)
    then have "dget (dset k st c) k' = Some v"
      using dget_drop [OF dict] by (simp add: store_state_def Let_def)
    then show ?thesis using Some by (auto simp: tokens_def split: if_splits)
  qed
qed

lemma lease_size_pos: "1 \<le> lease_size ti st q"
  by (auto simp: lease_size_def Let_def split: option.splits)

text \<open>A decision from memory spends a token of its key, and only of its key.\<close>

lemma check_local_spec:
  assumes "cache_ok c" and "check_local trl c pk name q counter now = (r, c')"
  shows "cache_ok c'"
    and "tokens lo k c' + (case r of Inl d \<Rightarrow>
        if k = (pk, counter) \<and> lo \<le> window_start_of now minute_seconds then cost d else 0 | Inr _ \<Rightarrow> 0) \<le> tokens lo k c"
    and "r = Inr (lease, same) \<Longrightarrow> 1 \<le> lease"
proof -
  let ?m = "window_start_of now minute_seconds"
  obtain st c1 where t: "touch c (pk, counter) ?m = (st, c1)" by fastforce
  note touched = touch_spec [OF assms(1) t]
  have "cache_ok c' \<and>
    tokens lo k c' + (case r of Inl d \<Rightarrow>
        if k = (pk, counter) \<and> lo \<le> window_start_of now minute_seconds then cost d else 0 | Inr _ \<Rightarrow> 0) \<le> tokens lo k c \<and>
    (r = Inr (lease, same) \<longrightarrow> 1 \<le> lease)"
  proof (cases "\<exists>s. st = Some s \<and> \<not> of_int (ls_blocked_until s) > now \<and> ls_tokens s > 0")
    case False
    then show ?thesis
      using assms(2) touched(1) touched(3) [of lo k] lease_size_pos
      by (auto simp: check_local_def t Let_def cost_def blocked_decision_def split: option.splits if_splits)
  next
    case True
    then obtain s where s: "st = Some s" "\<not> of_int (ls_blocked_until s) > now" "ls_tokens s > 0" by blast
    define s' where "s' = s\<lparr>ls_tokens := ls_tokens s - 1, ls_served := ls_served s + 1\<rparr>"
    have r: "r = Inl (allowed_decision s' q name now ?m (window_start_of now day_seconds))"
      "c' = keep_state c1 (pk, counter) s'"
      using assms(2) s by (simp_all add: check_local_def t Let_def s'_def)
    have "0 \<le> ls_tokens s'" using s by (simp add: s'_def)
    note kept = keep_state_spec(1) [OF touched(1) this, where k = "(pk, counter)"]
      keep_state_spec(2) [OF touched(1) this, where lo = lo and k = "(pk, counter)" and k' = k]
    have "tokens lo (pk, counter) c1 = live lo s" "ls_minute s = ?m"
      using touched(2) touched(4) s by (simp_all add: tokens_def)
    then show ?thesis
      using kept touched(3) [of lo k] r by (auto simp: cost_def s'_def live_def split: if_splits)
  qed
  then show "cache_ok c'"
    "tokens lo k c' + (case r of Inl d \<Rightarrow>
        if k = (pk, counter) \<and> lo \<le> window_start_of now minute_seconds then cost d else 0 | Inr _ \<Rightarrow> 0) \<le> tokens lo k c"
    "r = Inr (lease, same) \<Longrightarrow> 1 \<le> lease" by auto
qed

definition granted_by :: "quota \<Rightarrow> string \<Rightarrow> int \<Rightarrow> item \<Rightarrow> int" where
  "granted_by q counter lease a =
     granted q lease (attr_or a (minute_attr counter) lease) (attr_or a (day_attr counter) lease)"

lemma granted_nonneg [simp]: "0 \<le> granted q l m d"
  by (simp add: granted_def Let_def)

lemma block_state_tokens [simp]: "ls_tokens (block_state st q l d m dy) = 0"
    "ls_minute (block_state st q l d m dy) = ls_minute st"
  by (simp_all add: block_state_def split: option.splits)

text \<open>Settling a claim turns what it was granted into at most that many tokens and answers.\<close>

lemma settle_spec:
  assumes "cache_ok c" and "settle trl c pk name q counter now lease a = (d, c')"
  shows "cache_ok c'"
    and "tokens lo k c' + (if k = (pk, counter) \<and> lo \<le> window_start_of now minute_seconds then cost d else 0) \<le>
      tokens lo k c + (if k = (pk, counter) \<and> lo \<le> window_start_of now minute_seconds
        then granted_by q counter lease a else 0)"
proof -
  let ?m = "window_start_of now minute_seconds" and ?k = "(pk, counter)"
  let ?g = "granted_by q counter lease a"
  obtain st c1 where t: "touch c ?k ?m = (st, c1)" by fastforce
  note touched = touch_spec [OF assms(1) t]
  define c2 where "c2 = (case st of Some _ \<Rightarrow> c1
     | None \<Rightarrow> store_state (tl_cache_size trl) c1 ?k (new_lease_state ?m))"
  define s where "s = (case st of Some s \<Rightarrow> s | None \<Rightarrow> new_lease_state ?m)"
  define s1 where "s1 = s\<lparr>ls_written_minute := Some ?m, ls_served := ls_served s + 1,
     ls_minute_remaining := max (q_per_minute q - attr_or a (minute_attr counter) lease) 0,
     ls_day_remaining := (case q_per_day q of None \<Rightarrow> None
       | Some per_day \<Rightarrow> Some (max (per_day - attr_or a (day_attr counter) lease) 0))\<rparr>"
  define s2 where "s2 = (if ?g \<ge> 1 then s1\<lparr>ls_tokens := ls_tokens s1 + (?g - 1)\<rparr>
     else block_state s1 q lease (attr_or a (day_attr counter) lease) ?m (window_start_of now day_seconds))"
  have new: "ls_tokens (new_lease_state ?m) = 0" "ls_minute (new_lease_state ?m) = ?m"
    by (simp_all add: new_lease_state_def)
  have tok: "0 \<le> ls_tokens s" "live lo s \<le> tokens lo ?k c" "ls_minute s = ?m"
    using touched(1) touched(2) touched(3) [of lo ?k] touched(4) new tokens_nonneg [OF assms(1), of lo ?k]
    by (auto simp: s_def cache_ok_def tokens_def live_def split: option.splits)
  note stored = store_state_spec(1) [OF touched(1), of "new_lease_state ?m" "tl_cache_size trl" ?k]
    store_state_spec(2) [OF touched(1), of "new_lease_state ?m" lo k "tl_cache_size trl" ?k]
  have c2: "cache_ok c2" "k \<noteq> ?k \<Longrightarrow> tokens lo k c2 \<le> tokens lo k c"
    using touched(1) touched(3) [of lo k] stored new by (auto simp: c2_def split: option.splits)
  have out: "c' = keep_state c2 ?k s2" "cost d = (if ?g \<ge> 1 then 1 else 0)"
    using assms(2) t
    by (auto simp: settle_def Let_def granted_by_def c2_def s_def s1_def s2_def cost_def allowed_decision_def
        blocked_decision_def split: option.splits prod.splits if_splits)
  have s1: "ls_tokens s1 = ls_tokens s" "ls_minute s1 = ls_minute s" by (simp_all add: s1_def)
  then have s2: "0 \<le> ls_tokens s2" "ls_tokens s2 + cost d \<le> ls_tokens s + ?g" "ls_minute s2 = ?m"
    using tok out(2) by (auto simp: s2_def granted_by_def)
  note kept = keep_state_spec(1) [OF c2(1) s2(1), where k = ?k]
    keep_state_spec(2) [OF c2(1) s2(1), where lo = lo and k = ?k and k' = k]
  show "cache_ok c'" using kept(1) out by simp
  show "tokens lo k c' + (if k = ?k \<and> lo \<le> ?m then cost d else 0) \<le>
      tokens lo k c + (if k = ?k \<and> lo \<le> ?m then ?g else 0)"
    using kept(2) s2(2,3) tok(2,3) c2(2) out(1) by (auto simp: live_def split: if_splits)
qed

section \<open>The row of a key\<close>

lemma attr_eq [simp]:
  "minute_attr c = minute_attr c' \<longleftrightarrow> c = c'" "window_attr c = window_attr c' \<longleftrightarrow> c = c'"
  "day_attr c = day_attr c' \<longleftrightarrow> c = c'"
  by (simp_all add: minute_attr_def window_attr_def day_attr_def)

lemma attr_neq [simp]:
  "minute_attr c \<noteq> window_attr c'" "minute_attr c \<noteq> day_attr c'" "window_attr c \<noteq> day_attr c'"
  "window_attr c \<noteq> minute_attr c'" "day_attr c \<noteq> minute_attr c'" "day_attr c \<noteq> window_attr c'"
  by (simp_all add: minute_attr_def window_attr_def day_attr_def)

lemma last_neq: "List.last xs \<noteq> List.last ys \<Longrightarrow> xs \<noteq> ys"
  by auto

lemma attr_neq_ttl [simp]:
  "minute_attr c \<noteq> rate_ttl_attribute" "window_attr c \<noteq> rate_ttl_attribute" "day_attr c \<noteq> rate_ttl_attribute"
  "rate_ttl_attribute \<noteq> minute_attr c" "rate_ttl_attribute \<noteq> window_attr c" "rate_ttl_attribute \<noteq> day_attr c"
  by (rule last_neq; simp add: minute_attr_def window_attr_def day_attr_def rate_ttl_attribute_def)+

definition stored :: "item \<Rightarrow> string \<Rightarrow> int" where
  "stored i a = (case i a of None \<Rightarrow> 0 | Some n \<Rightarrow> n)"

text \<open>
  \<open>row_ok lo q counter M n i\<close>: with the minutes \<open>M\<close> seen so far, the row's counts account for
  \<open>n\<close> requests of the minutes from \<open>lo\<close> on. Each of these minutes before the stored one has had
  its whole cap at most, and the stored one no more than its count and its cap.
\<close>

definition row_ok :: "int \<Rightarrow> quota \<Rightarrow> string \<Rightarrow> int set \<Rightarrow> int \<Rightarrow> item \<Rightarrow> bool" where
  "row_ok lo q counter M n i =
     ((case i (window_attr counter) of
         None \<Rightarrow> n \<le> 0
       | Some w \<Rightarrow> w \<in> M \<and> 0 \<le> stored i (minute_attr counter) \<and>
           (if lo \<le> w
            then n \<le> q_per_minute q * int (card {x \<in> M. lo \<le> x \<and> x < w}) +
                   min (q_per_minute q) (stored i (minute_attr counter))
            else n \<le> 0)) \<and>
      0 \<le> stored i (day_attr counter) \<and>
      (case q_per_day q of None \<Rightarrow> True | Some per_day \<Rightarrow> n \<le> min per_day (stored i (day_attr counter))))"

lemma count_path_values:
  "apply_actions (fst (count_path c l m e)) i (minute_attr c) = Some (l + stored i (minute_attr c))"
  "apply_actions (fst (count_path c l m e)) i (window_attr c) = i (window_attr c)"
  "apply_actions (fst (count_path c l m e)) i (day_attr c) = Some (l + stored i (day_attr c))"
  by (simp_all add: count_path_def apply_actions_def stored_def)

lemma rollover_path_values:
  "apply_actions (fst (rollover_path c l m e)) i (minute_attr c) = Some l"
  "apply_actions (fst (rollover_path c l m e)) i (window_attr c) = Some m"
  "apply_actions (fst (rollover_path c l m e)) i (day_attr c) = Some (l + stored i (day_attr c))"
  by (simp_all add: rollover_path_def apply_actions_def stored_def)

lemma claim_path_cases:
  obtains "claim_path c l m e same n = count_path c l m e"
  | "claim_path c l m e same n = rollover_path c l m e"
  by (cases "same = even n") (simp_all add: claim_path_def)

lemma claim_other_counter:
  assumes "c' \<noteq> c"
  shows "row_ok lo q c' M n (apply_actions (fst (claim_path c l m e same k)) i) = row_ok lo q c' M n i"
proof -
  have "apply_actions (fst (claim_path c l m e same k)) i a = i a"
    if "a \<in> {minute_attr c', window_attr c', day_attr c'}" for a
    using that assms
    by (rule_tac claim_path_cases [of c l m e same k]) (auto simp: count_path_def rollover_path_def apply_actions_def)
  from this [of "minute_attr c'"] this [of "window_attr c'"] this [of "day_attr c'"]
  show ?thesis by (simp add: row_ok_def stored_def split: option.split)
qed

lemma row_ok_antimono: "row_ok lo q c M n i \<Longrightarrow> n' \<le> n \<Longrightarrow> row_ok lo q c M n' i"
  by (auto simp: row_ok_def split: option.splits)

lemma card_range_mono:
  assumes "finite M" and "0 \<le> p" and "{x \<in> M. P x} \<subseteq> {x \<in> M'. P' x}" and "finite M'"
  shows "p * int (card {x \<in> M. P x}) \<le> p * int (card {x \<in> M'. P' x})"
  using assms by (intro mult_left_mono of_nat_mono card_mono) auto

lemma row_ok_more_minutes:
  assumes "row_ok lo q c M n i" and "finite M" and "0 \<le> q_per_minute q"
  shows "row_ok lo q c (insert m M) n i"
proof (cases "i (window_attr c)")
  case None
  then show ?thesis using assms by (simp add: row_ok_def)
next
  case (Some w)
  have "q_per_minute q * int (card {x \<in> M. lo \<le> x \<and> x < w}) \<le>
      q_per_minute q * int (card {x \<in> insert m M. lo \<le> x \<and> x < w})"
    using assms(2,3) by (intro card_range_mono) auto
  then show ?thesis using assms(1) Some by (auto simp: row_ok_def split: if_splits)
qed

lemma card_below_less:
  assumes "finite M" and "(w :: int) \<in> M" and "w < w'" and "lo \<le> w" and "0 \<le> p"
  shows "p * int (card {x \<in> M. lo \<le> x \<and> x < w}) + p \<le> p * int (card {x \<in> M. lo \<le> x \<and> x < w'})"
proof -
  have "insert w {x \<in> M. lo \<le> x \<and> x < w} \<subseteq> {x \<in> M. lo \<le> x \<and> x < w'}" using assms by auto
  then have "card (insert w {x \<in> M. lo \<le> x \<and> x < w}) \<le> card {x \<in> M. lo \<le> x \<and> x < w'}"
    using assms(1) by (intro card_mono) auto
  then have "int (card {x \<in> M. lo \<le> x \<and> x < w}) + 1 \<le> int (card {x \<in> M. lo \<le> x \<and> x < w'})"
    using assms(1) by simp
  from mult_left_mono [OF this assms(5)] show ?thesis by (simp add: algebra_simps)
qed

lemma granted_bounds:
  assumes "1 \<le> l" and "0 \<le> n"
  shows "0 \<le> p \<Longrightarrow> n - l \<ge> 0 \<Longrightarrow> p = q_per_minute q \<Longrightarrow> min p (n - l) + granted q l n d \<le> min p n"
    and "q_per_day q = Some b \<Longrightarrow> 0 \<le> d - l \<Longrightarrow> x \<le> min b (d - l) \<Longrightarrow> x + granted q l n d \<le> min b d"
  using assms by (auto simp: granted_def Let_def split: option.splits)

text \<open>
  One claim of minute \<open>m\<close>: what it grants is on the stored minute, which is \<open>m\<close> or a later one.
\<close>

lemma claim_row_ok:
  assumes ok: "row_ok lo q c M n i" and M: "finite M" "m \<in> M" and l: "1 \<le> l" and p: "0 \<le> q_per_minute q"
    and adm: "holds i (snd (claim_path c l m e same k))"
    and i': "i' = apply_actions (fst (claim_path c l m e same k)) i"
  shows "row_ok lo q c M
    (n + (if lo \<le> m then granted q l (stored i' (minute_attr c)) (stored i' (day_attr c)) else 0)) i'"
proof (rule claim_path_cases [of c l m e same k])
  assume path: "claim_path c l m e same k = count_path c l m e"
  then obtain w where w: "i (window_attr c) = Some w" "m \<le> w"
    using adm by (auto simp: count_path_def split: option.splits)
  have v: "stored i' (minute_attr c) = l + stored i (minute_attr c)" "i' (window_attr c) = Some w"
    "stored i' (day_attr c) = l + stored i (day_attr c)"
    using count_path_values w by (simp_all add: i' path stored_def)
  have s: "0 \<le> stored i (minute_attr c)" "0 \<le> stored i (day_attr c)"
    using ok w by (simp_all add: row_ok_def)
  show ?thesis
    using ok w v l s granted_bounds(1) [OF l, of "l + stored i (minute_attr c)" "q_per_minute q" q "stored i' (day_attr c)"] p
      granted_bounds(2) [OF l, of "l + stored i (minute_attr c)" q _ "l + stored i (day_attr c)" n]
    by (auto simp: row_ok_def split: option.splits if_splits)
next
  assume path: "claim_path c l m e same k = rollover_path c l m e"
  have v: "stored i' (minute_attr c) = l" "i' (window_attr c) = Some m"
    "stored i' (day_attr c) = l + stored i (day_attr c)"
    using rollover_path_values by (simp_all add: i' path stored_def)
  have pos: "0 \<le> q_per_minute q * int (card {x \<in> M. lo \<le> x \<and> x < m})" using p by simp
  have old: "n \<le> (if lo \<le> m then q_per_minute q * int (card {x \<in> M. lo \<le> x \<and> x < m}) else 0)"
  proof (cases "i (window_attr c)")
    case None
    then show ?thesis using ok pos by (auto simp: row_ok_def)
  next
    case (Some w)
    then have w: "w \<in> M" "w < m" using ok adm by (auto simp: row_ok_def path rollover_path_def)
    show ?thesis
    proof (cases "lo \<le> w")
      case True
      then show ?thesis
        using ok Some card_below_less [OF M(1) w True p] w by (auto simp: row_ok_def)
    next
      case False
      then show ?thesis using ok Some pos by (auto simp: row_ok_def)
    qed
  qed
  have s: "0 \<le> stored i (day_attr c)" using ok by (simp add: row_ok_def)
  show ?thesis
    using ok old v l M s granted_bounds(1) [OF l, of l "q_per_minute q" q "stored i' (day_attr c)"] p
      granted_bounds(2) [OF l, of l q _ "l + stored i (day_attr c)" n]
    by (auto simp: row_ok_def split: option.splits if_splits)
qed

section \<open>Interleaved checks\<close>

text \<open>
  A claim in flight: the arguments of its check, the lease and prediction of its first critical
  section, the updates already refused, and the attributes once one was answered. \<open>ts_answers\<close>
  and \<open>ts_minutes\<close> record every decision given, with the minute its check read, and the minute
  every check read.
\<close>

record flight =
  fl_container :: nat
  fl_key :: cache_key
  fl_name :: string
  fl_now :: rat
  fl_lease :: int
  fl_same :: bool
  fl_attempt :: nat
  fl_answer :: "item option"

record 's tier_system =
  ts_table :: 's
  ts_caches :: "lease_cache list"
  ts_flight :: "flight list"
  ts_answers :: "(cache_key \<times> int \<times> decision) list"
  ts_minutes :: "(cache_key \<times> int) list"

definition flight_minute :: "flight \<Rightarrow> int" where
  "flight_minute f = window_start_of (fl_now f) minute_seconds"

lemma flight_minute_upd [simp]: "flight_minute (f\<lparr>fl_answer := a\<rparr>) = flight_minute f"
    "flight_minute (f\<lparr>fl_attempt := n\<rparr>) = flight_minute f"
  by (simp_all add: flight_minute_def)

definition flight_attempt :: "'s table_ops \<Rightarrow> 's \<Rightarrow> flight \<Rightarrow> (table_error + item) \<times> 's" where
  "flight_attempt T s f =
     claim_attempt T s (fst (fl_key f)) (snd (fl_key f)) (fl_lease f) (flight_minute f)
       (window_start_of (fl_now f) day_seconds + day_seconds) (fl_same f) (fl_attempt f)"

text \<open>
  \<open>quota_of\<close> is the quota each counter of each key is checked under, the same in every container.
\<close>

inductive tier_step ::
  "'s table_ops \<Rightarrow> tiered_limiter \<Rightarrow> (cache_key \<Rightarrow> quota) \<Rightarrow> 's tier_system \<Rightarrow> 's tier_system \<Rightarrow> bool"
  for T trl quota_of where
  from_memory: "check_local trl c pk name (quota_of (pk, counter)) counter now = (Inl d, c') \<Longrightarrow>
    tier_step T trl quota_of \<lparr>ts_table = s, ts_caches = cs @ c # cs', ts_flight = fs, ts_answers = ans, ts_minutes = ms\<rparr>
      \<lparr>ts_table = s, ts_caches = cs @ c' # cs', ts_flight = fs, ts_answers = ((pk, counter), window_start_of now minute_seconds, d) # ans,
       ts_minutes = ((pk, counter), window_start_of now minute_seconds) # ms\<rparr>"
| to_claim: "check_local trl c pk name (quota_of (pk, counter)) counter now = (Inr (lease, same), c') \<Longrightarrow>
    f = \<lparr>fl_container = length cs, fl_key = (pk, counter), fl_name = name, fl_now = now, fl_lease = lease,
         fl_same = same, fl_attempt = 0, fl_answer = None\<rparr> \<Longrightarrow>
    tier_step T trl quota_of \<lparr>ts_table = s, ts_caches = cs @ c # cs', ts_flight = fs, ts_answers = ans, ts_minutes = ms\<rparr>
      \<lparr>ts_table = s, ts_caches = cs @ c' # cs', ts_flight = f # fs, ts_answers = ans,
       ts_minutes = ((pk, counter), window_start_of now minute_seconds) # ms\<rparr>"
| claimed: "fl_answer f = None \<Longrightarrow> fl_attempt f < tier_write_attempts \<Longrightarrow> flight_attempt T s f = (Inr a, s') \<Longrightarrow>
    tier_step T trl quota_of \<lparr>ts_table = s, ts_caches = cs, ts_flight = fs @ f # fs', ts_answers = ans, ts_minutes = ms\<rparr>
      \<lparr>ts_table = s', ts_caches = cs, ts_flight = fs @ f\<lparr>fl_answer := Some a\<rparr> # fs', ts_answers = ans, ts_minutes = ms\<rparr>"
| contended: "fl_answer f = None \<Longrightarrow> fl_attempt f < tier_write_attempts \<Longrightarrow>
    flight_attempt T s f = (Inl ConditionFailed, s') \<Longrightarrow>
    tier_step T trl quota_of \<lparr>ts_table = s, ts_caches = cs, ts_flight = fs @ f # fs', ts_answers = ans, ts_minutes = ms\<rparr>
      \<lparr>ts_table = s', ts_caches = cs, ts_flight = fs @ f\<lparr>fl_attempt := Suc (fl_attempt f)\<rparr> # fs', ts_answers = ans,
       ts_minutes = ms\<rparr>"
| service_lost: "fl_answer f = None \<Longrightarrow> fl_attempt f < tier_write_attempts \<Longrightarrow>
    flight_attempt T s f = (Inl ServiceError, s') \<Longrightarrow>
    tier_step T trl quota_of \<lparr>ts_table = s, ts_caches = cs, ts_flight = fs @ f # fs', ts_answers = ans, ts_minutes = ms\<rparr>
      \<lparr>ts_table = s', ts_caches = cs, ts_flight = fs @ fs',
       ts_answers = (fl_key f, flight_minute f, tier_failed_open trl (quota_of (fl_key f)) (fl_now f)) # ans, ts_minutes = ms\<rparr>"
| exhausted: "fl_answer f = None \<Longrightarrow> fl_attempt f = tier_write_attempts \<Longrightarrow>
    tier_step T trl quota_of \<lparr>ts_table = s, ts_caches = cs, ts_flight = fs @ f # fs', ts_answers = ans, ts_minutes = ms\<rparr>
      \<lparr>ts_table = s, ts_caches = cs, ts_flight = fs @ fs',
       ts_answers = (fl_key f, flight_minute f, tier_failed_open trl (quota_of (fl_key f)) (fl_now f)) # ans, ts_minutes = ms\<rparr>"
| settled: "fl_answer f = Some a \<Longrightarrow> fl_container f = length cs \<Longrightarrow>
    settle trl c (fst (fl_key f)) (fl_name f) (quota_of (fl_key f)) (snd (fl_key f)) (fl_now f) (fl_lease f) a = (d, c') \<Longrightarrow>
    tier_step T trl quota_of \<lparr>ts_table = s, ts_caches = cs @ c # cs', ts_flight = fs @ f # fs', ts_answers = ans, ts_minutes = ms\<rparr>
      \<lparr>ts_table = s, ts_caches = cs @ c' # cs', ts_flight = fs @ fs', ts_answers = (fl_key f, flight_minute f, d) # ans, ts_minutes = ms\<rparr>"
| restarted: "tier_step T trl quota_of
      \<lparr>ts_table = s, ts_caches = cs @ c # cs', ts_flight = fs, ts_answers = ans, ts_minutes = ms\<rparr>
      \<lparr>ts_table = s, ts_caches = cs @ [] # cs', ts_flight = filter (\<lambda>f. fl_container f \<noteq> length cs) fs,
       ts_answers = ans, ts_minutes = ms\<rparr>"

section \<open>The accounts\<close>

definition held :: "int \<Rightarrow> cache_key \<Rightarrow> lease_cache list \<Rightarrow> int" where
  "held lo k cs = (\<Sum>c \<leftarrow> cs. tokens lo k c)"

definition flight_grant :: "int \<Rightarrow> (cache_key \<Rightarrow> quota) \<Rightarrow> cache_key \<Rightarrow> flight \<Rightarrow> int" where
  "flight_grant lo quota_of k f =
     (if fl_key f = k \<and> lo \<le> flight_minute f then case fl_answer f of None \<Rightarrow> 0
        | Some a \<Rightarrow> granted_by (quota_of k) (snd k) (fl_lease f) a else 0)"

definition in_flight :: "int \<Rightarrow> (cache_key \<Rightarrow> quota) \<Rightarrow> cache_key \<Rightarrow> flight list \<Rightarrow> int" where
  "in_flight lo quota_of k fs = (\<Sum>f \<leftarrow> fs. flight_grant lo quota_of k f)"

text \<open>The requests of a key allowed on a real count by checks that read \<open>lo\<close> or a later minute.\<close>

definition allowed_since :: "int \<Rightarrow> cache_key \<Rightarrow> (cache_key \<times> int \<times> decision) list \<Rightarrow> int" where
  "allowed_since lo k ans = (\<Sum>(k', m, d) \<leftarrow> ans. if k' = k \<and> lo \<le> m then cost d else 0)"

definition minutes_of :: "cache_key \<Rightarrow> (cache_key \<times> int) list \<Rightarrow> int set" where
  "minutes_of k ms = {m. (k, m) \<in> set ms}"

definition tier_account :: "int \<Rightarrow> (cache_key \<Rightarrow> quota) \<Rightarrow> cache_key \<Rightarrow> 's tier_system \<Rightarrow> int" where
  "tier_account lo quota_of k \<sigma> = allowed_since lo k (ts_answers \<sigma>) + held lo k (ts_caches \<sigma>) +
     in_flight lo quota_of k (ts_flight \<sigma>)"

definition flights_ok :: "cache_key \<Rightarrow> (cache_key \<times> int) list \<Rightarrow> flight list \<Rightarrow> bool" where
  "flights_ok k ms fs = (\<forall>f \<in> set fs. 1 \<le> fl_lease f \<and> (fl_key f = k \<longrightarrow> flight_minute f \<in> minutes_of k ms))"

definition tier_inv ::
  "int \<Rightarrow> ('s \<Rightarrow> string \<Rightarrow> item) \<Rightarrow> (cache_key \<Rightarrow> quota) \<Rightarrow> cache_key \<Rightarrow> 's tier_system \<Rightarrow> bool" where
  "tier_inv lo items quota_of k \<sigma> =
     ((\<forall>c \<in> set (ts_caches \<sigma>). cache_ok c) \<and> flights_ok k (ts_minutes \<sigma>) (ts_flight \<sigma>) \<and>
      row_ok lo (quota_of k) (snd k) (minutes_of k (ts_minutes \<sigma>)) (tier_account lo quota_of k \<sigma>)
        (items (ts_table \<sigma>) (fst k)))"

lemma held_simps [simp]: "held lo k [] = 0" "held lo k (c # cs) = tokens lo k c + held lo k cs"
  "held lo k (cs @ cs') = held lo k cs + held lo k cs'"
  by (simp_all add: held_def)

lemma in_flight_simps [simp]: "in_flight lo q k [] = 0"
  "in_flight lo q k (f # fs) = flight_grant lo q k f + in_flight lo q k fs"
  "in_flight lo q k (fs @ fs') = in_flight lo q k fs + in_flight lo q k fs'"
  by (simp_all add: in_flight_def)

lemma allowed_since_simps [simp]: "allowed_since lo k [] = 0"
  "allowed_since lo k ((k', m, d) # ans) = (if k' = k \<and> lo \<le> m then cost d else 0) + allowed_since lo k ans"
  by (simp_all add: allowed_since_def)

lemma minutes_of_simps [simp]: "finite (minutes_of k ms)"
  "minutes_of k ((k', m) # ms) = (if k' = k then insert m (minutes_of k ms) else minutes_of k ms)"
proof -
  have "minutes_of k ms \<subseteq> snd ` set ms" by (force simp: minutes_of_def)
  then show "finite (minutes_of k ms)" by (rule finite_subset) simp
  show "minutes_of k ((k', m) # ms) = (if k' = k then insert m (minutes_of k ms) else minutes_of k ms)"
    by (auto simp: minutes_of_def)
qed

lemma flight_grant_nonneg [simp]: "0 \<le> flight_grant lo q k f"
  by (simp add: flight_grant_def granted_by_def split: option.split)

lemma in_flight_filter: "in_flight lo q k (filter p fs) \<le> in_flight lo q k fs"
  by (induction fs) (simp_all add: add_increasing)

lemma flights_ok_simps [simp]: "flights_ok k ms []"
  "flights_ok k ms (f # fs) = (1 \<le> fl_lease f \<and> (fl_key f = k \<longrightarrow> flight_minute f \<in> minutes_of k ms) \<and> flights_ok k ms fs)"
  "flights_ok k ms (fs @ fs') = (flights_ok k ms fs \<and> flights_ok k ms fs')"
  by (auto simp: flights_ok_def)

lemma flights_ok_filter: "flights_ok k ms fs \<Longrightarrow> flights_ok k ms (filter p fs)"
  by (simp add: flights_ok_def)

lemma flights_ok_more: "flights_ok k ms fs \<Longrightarrow> flights_ok k ((k', m) # ms) fs"
  by (auto simp: flights_ok_def)

lemma tier_row_minutes:
  assumes "row_ok lo (quota_of k) (snd k) (minutes_of k ms) n i" and "0 \<le> q_per_minute (quota_of k)"
  shows "row_ok lo (quota_of k) (snd k) (minutes_of k ((k', m) # ms)) n i"
  using assms row_ok_more_minutes [OF assms(1)] by simp

context counter_table begin

text \<open>One update of a claim moves the row it is made on as \<open>claim_row_ok\<close> says, or not at all.\<close>

lemma flight_attempt_row:
  assumes at: "flight_attempt T s f = (r, s')" and lease: "1 \<le> fl_lease f"
    and mem: "fl_key f = k \<longrightarrow> flight_minute f \<in> M" and M: "finite M"
    and q: "0 \<le> q_per_minute q" and row: "row_ok lo q (snd k) M n (items s (fst k))"
  shows "row_ok lo q (snd k) M
    (n + (case r of Inr a \<Rightarrow> if fl_key f = k \<and> lo \<le> flight_minute f
       then granted_by q (snd k) (fl_lease f) a else 0 | Inl _ \<Rightarrow> 0))
    (items s' (fst k))"
proof -
  define path where "path = claim_path (snd (fl_key f)) (fl_lease f) (flight_minute f)
    (window_start_of (fl_now f) day_seconds + day_seconds) (fl_same f) (fl_attempt f)"
  define i' where "i' = apply_actions (fst path) (items s (fst (fl_key f)))"
  have upd: "tb_update T s (fst (fl_key f)) (fst path) (Some (snd path)) = (r, s')"
    using at by (simp add: flight_attempt_def claim_attempt_def path_def split_beta)
  consider (same) "items s' = items s" "\<forall>a. r \<noteq> Inr a"
    | (applied) "holds (items s (fst (fl_key f))) (snd path)" "items s' = (items s)(fst (fl_key f) := i')"
        "\<And>a b. r = Inr a \<Longrightarrow> b \<in> action_attr ` set (fst path) \<Longrightarrow> a b = i' b"
  proof (cases r)
    case (Inl e)
    then show ?thesis
      using that upd update_refused [of s "fst (fl_key f)" "fst path" "Some (snd path)"]
        update_error [of s "fst (fl_key f)" "fst path" "Some (snd path)"]
      by (cases e) (auto simp: admits_def i'_def)
  next
    case (Inr a)
    then show ?thesis
      using that(2) upd update_applied [of s "fst (fl_key f)" "fst path" "Some (snd path)" a]
      by (auto simp: admits_def i'_def)
  qed
  then show ?thesis
  proof cases
    case same
    then show ?thesis using row by (cases r) simp_all
  next
    case applied
    show ?thesis
    proof (cases "fl_key f = k")
      case True
      have "minute_attr (snd k) \<in> action_attr ` set (fst path)" "day_attr (snd k) \<in> action_attr ` set (fst path)"
        using True by (auto simp: path_def claim_path_def count_path_def rollover_path_def)
      moreover have "i' (minute_attr (snd k)) \<noteq> None" "i' (day_attr (snd k)) \<noteq> None"
        using True by (auto simp: i'_def path_def claim_path_def count_path_values rollover_path_values)
      ultimately have "r = Inr a \<Longrightarrow> granted_by q (snd k) (fl_lease f) a =
          granted q (fl_lease f) (stored i' (minute_attr (snd k))) (stored i' (day_attr (snd k)))" for a
        using applied(3) by (auto simp: granted_by_def attr_or_def stored_def)
      moreover have "row_ok lo q (snd k) M
          (n + (if lo \<le> flight_minute f
            then granted q (fl_lease f) (stored i' (minute_attr (snd k))) (stored i' (day_attr (snd k))) else 0)) i'"
        using claim_row_ok [OF row M _ lease q] mem applied(1) True by (simp add: i'_def path_def)
      ultimately show ?thesis
        using True applied(2) by (cases r) (auto intro: row_ok_antimono)
    next
      case False
      then have "row_ok lo q (snd k) M n (items s' (fst k))"
        using row applied(2) claim_other_counter [of "snd k" "snd (fl_key f)"]
        by (cases "fst (fl_key f) = fst k") (auto simp: i'_def path_def prod_eq_iff)
      then show ?thesis using False by (cases r) simp_all
    qed
  qed
qed

lemma tier_step_inv:
  assumes "tier_step T trl quota_of \<sigma> \<sigma>'" and "0 \<le> q_per_minute (quota_of k)" and "tier_inv lo items quota_of k \<sigma>"
  shows "tier_inv lo items quota_of k \<sigma>'"
  using assms
proof (cases rule: tier_step.cases)
  case (from_memory c pk name counter now d c' s cs cs' fs ans ms)
  note \<sigma> = from_memory(1,2)
  have ok: "cache_ok c" and row: "row_ok lo (quota_of k) (snd k) (minutes_of k ms)
      (tier_account lo quota_of k \<sigma>) (items s (fst k))"
    using assms(3) by (simp_all add: tier_inv_def \<sigma>(1))
  note local = check_local_spec(1,2) [OF ok from_memory(3)]
  have "tier_account lo quota_of k \<sigma>' \<le> tier_account lo quota_of k \<sigma>"
    using local(2) [of lo k] by (auto simp: tier_account_def \<sigma> split: if_splits)
  from row_ok_antimono [OF tier_row_minutes [where lo = lo and quota_of = quota_of and k = k, OF row assms(2)] this]
  show ?thesis
    using assms(3) local(1) flights_ok_more by (simp add: tier_inv_def \<sigma>)
next
  case (to_claim c pk name counter now lease same c' f cs s cs' fs ans ms)
  note \<sigma> = to_claim(1,2)
  have ok: "cache_ok c" and row: "row_ok lo (quota_of k) (snd k) (minutes_of k ms)
      (tier_account lo quota_of k \<sigma>) (items s (fst k))"
    using assms(3) by (simp_all add: tier_inv_def \<sigma>(1))
  note local = check_local_spec [OF ok to_claim(3)]
  have "tier_account lo quota_of k \<sigma>' \<le> tier_account lo quota_of k \<sigma>"
    using local(2) [of lo k] by (auto simp: tier_account_def \<sigma> flight_grant_def to_claim(4) split: if_splits)
  from row_ok_antimono [OF tier_row_minutes [where lo = lo and quota_of = quota_of and k = k, OF row assms(2)] this]
  show ?thesis
    using assms(3) local(1) local(3) [OF refl] flights_ok_more
    by (simp add: tier_inv_def \<sigma> to_claim(4) flight_minute_def)
next
  case (claimed f s a s' cs fs fs' ans ms)
  note \<sigma> = claimed(1,2)
  have row: "row_ok lo (quota_of k) (snd k) (minutes_of k ms) (tier_account lo quota_of k \<sigma>) (items s (fst k))"
    using assms(3) by (simp add: tier_inv_def \<sigma>(1))
  have fl: "1 \<le> fl_lease f" "fl_key f = k \<longrightarrow> flight_minute f \<in> minutes_of k ms"
    using assms(3) by (simp_all add: tier_inv_def \<sigma>(1))
  have "tier_account lo quota_of k \<sigma>' = tier_account lo quota_of k \<sigma> +
      (if fl_key f = k \<and> lo \<le> flight_minute f then granted_by (quota_of k) (snd k) (fl_lease f) a else 0)"
    using claimed(3) by (simp add: tier_account_def \<sigma> flight_grant_def)
  then show ?thesis
    using assms(3) flight_attempt_row [OF claimed(5) fl _ assms(2) row] fl
    by (simp add: tier_inv_def \<sigma> flight_minute_def)
next
  case (contended f s s' cs fs fs' ans ms)
  note \<sigma> = contended(1,2)
  have row: "row_ok lo (quota_of k) (snd k) (minutes_of k ms) (tier_account lo quota_of k \<sigma>) (items s (fst k))"
    using assms(3) by (simp add: tier_inv_def \<sigma>(1))
  have fl: "1 \<le> fl_lease f" "fl_key f = k \<longrightarrow> flight_minute f \<in> minutes_of k ms"
    using assms(3) by (simp_all add: tier_inv_def \<sigma>(1))
  have "tier_account lo quota_of k \<sigma>' = tier_account lo quota_of k \<sigma>"
    using contended(3) by (simp add: tier_account_def \<sigma> flight_grant_def)
  then show ?thesis
    using assms(3) flight_attempt_row [OF contended(5) fl _ assms(2) row] fl
    by (simp add: tier_inv_def \<sigma> flight_minute_def)
next
  case (service_lost f s s' cs fs fs' ans ms)
  note \<sigma> = service_lost(1,2)
  have row: "row_ok lo (quota_of k) (snd k) (minutes_of k ms) (tier_account lo quota_of k \<sigma>) (items s (fst k))"
    using assms(3) by (simp add: tier_inv_def \<sigma>(1))
  have fl: "1 \<le> fl_lease f" "fl_key f = k \<longrightarrow> flight_minute f \<in> minutes_of k ms"
    using assms(3) by (simp_all add: tier_inv_def \<sigma>(1))
  have "tier_account lo quota_of k \<sigma>' \<le> tier_account lo quota_of k \<sigma>"
    using flight_grant_nonneg [of lo quota_of k f] by (simp add: tier_account_def \<sigma> tier_failed_open_def)
  moreover have "row_ok lo (quota_of k) (snd k) (minutes_of k ms) (tier_account lo quota_of k \<sigma>) (items s' (fst k))"
    using flight_attempt_row [OF service_lost(5) fl _ assms(2) row] by simp
  ultimately have "row_ok lo (quota_of k) (snd k) (minutes_of k ms) (tier_account lo quota_of k \<sigma>') (items s' (fst k))"
    by (rule row_ok_antimono [rotated])
  then show ?thesis using assms(3) by (simp add: tier_inv_def \<sigma>)
next
  case (exhausted f s cs fs fs' ans ms)
  note \<sigma> = exhausted(1,2)
  have row: "row_ok lo (quota_of k) (snd k) (minutes_of k ms) (tier_account lo quota_of k \<sigma>) (items s (fst k))"
    using assms(3) by (simp add: tier_inv_def \<sigma>(1))
  have "tier_account lo quota_of k \<sigma>' \<le> tier_account lo quota_of k \<sigma>"
    using flight_grant_nonneg [of lo quota_of k f] by (simp add: tier_account_def \<sigma> tier_failed_open_def)
  from row_ok_antimono [OF row this] show ?thesis using assms(3) by (simp add: tier_inv_def \<sigma>)
next
  case (settled f a cs c d c' s cs' fs fs' ans ms)
  note \<sigma> = settled(1,2)
  have row: "row_ok lo (quota_of k) (snd k) (minutes_of k ms) (tier_account lo quota_of k \<sigma>) (items s (fst k))"
    using assms(3) by (simp add: tier_inv_def \<sigma>(1))
  have ok: "cache_ok c" using assms(3) by (simp add: tier_inv_def \<sigma>(1))
  note settle = settle_spec [OF ok settled(5)]
  have "tier_account lo quota_of k \<sigma>' \<le> tier_account lo quota_of k \<sigma>"
    using settle(2) [of lo k] settled(3)
    by (auto simp: tier_account_def \<sigma> flight_grant_def flight_minute_def split: if_splits)
  from row_ok_antimono [OF row this] show ?thesis using assms(3) settle(1) by (simp add: tier_inv_def \<sigma>)
next
  case (restarted s cs c cs' fs ans ms)
  note \<sigma> = restarted
  have row: "row_ok lo (quota_of k) (snd k) (minutes_of k ms) (tier_account lo quota_of k \<sigma>) (items s (fst k))"
    using assms(3) by (simp add: tier_inv_def \<sigma>(1))
  have "cache_ok c" using assms(3) by (simp add: tier_inv_def \<sigma>(1))
  then have "tier_account lo quota_of k \<sigma>' \<le> tier_account lo quota_of k \<sigma>"
    using tokens_nonneg [of c lo k] in_flight_filter [of lo quota_of k "\<lambda>f. fl_container f \<noteq> length cs" fs]
    by (simp add: tier_account_def \<sigma>)
  from row_ok_antimono [OF row this] show ?thesis
    using assms(3) flights_ok_filter by (simp add: tier_inv_def \<sigma>)
qed

lemma tier_run_inv:
  assumes "(tier_step T trl quota_of)\<^sup>*\<^sup>* \<sigma> \<sigma>'" and "0 \<le> q_per_minute (quota_of k)"
    and "tier_inv lo items quota_of k \<sigma>"
  shows "tier_inv lo items quota_of k \<sigma>'"
  using assms(1,3)
proof (induction rule: rtranclp_induct)
  case base
  then show ?case .
next
  case (step \<tau> \<tau>')
  then show ?case using tier_step_inv [OF step.hyps(2) assms(2)] by simp
qed

end

lemma held_nonneg: "\<forall>c \<in> set cs. cache_ok c \<Longrightarrow> 0 \<le> held lo k cs"
  by (induction cs) (simp_all add: tokens_nonneg add_nonneg_nonneg)

lemma in_flight_nonneg: "0 \<le> in_flight lo q k fs"
  by (induction fs) (simp_all add: add_nonneg_nonneg)

lemma row_ok_bound:
  assumes "row_ok lo q c M n i" and "finite M" and "0 \<le> q_per_minute q"
  shows "n \<le> q_per_minute q * int (card {m \<in> M. lo \<le> m})"
proof -
  have pos: "0 \<le> q_per_minute q * int (card {m \<in> M. lo \<le> m})" using assms(3) by simp
  consider "n \<le> 0" | (stored) w where "i (window_attr c) = Some w" "lo \<le> w"
    using assms(1) by (auto simp: row_ok_def split: option.splits if_splits)
  then show ?thesis
  proof cases
    case stored
    then have w: "w \<in> M" and n: "n \<le> q_per_minute q * int (card {x \<in> M. lo \<le> x \<and> x < w}) + q_per_minute q"
      using assms(1) by (auto simp: row_ok_def)
    have "q_per_minute q * int (card {x \<in> M. lo \<le> x \<and> x < w + 1}) \<le> q_per_minute q * int (card {m \<in> M. lo \<le> m})"
      using assms(2,3) by (intro card_range_mono) auto
    then show ?thesis using n card_below_less [OF assms(2) w, of "w + 1" lo "q_per_minute q"] stored(2) assms(3) by simp
  qed (use pos in simp)
qed

section \<open>A whole check as a run of steps\<close>

lemma claim_run:
  assumes "claim_loop T s (fst (fl_key f)) (snd (fl_key f)) (fl_lease f) (flight_minute f)
      (window_start_of (fl_now f) day_seconds + day_seconds) (fl_same f) [fl_attempt f..<tier_write_attempts] = (r, s')"
    and "fl_answer f = None" and "fl_attempt f \<le> tier_write_attempts"
  shows "case r of
      Inl _ \<Rightarrow> (tier_step T trl quota_of)\<^sup>*\<^sup>*
        \<lparr>ts_table = s, ts_caches = cs, ts_flight = f # fs, ts_answers = ans, ts_minutes = ms\<rparr>
        \<lparr>ts_table = s', ts_caches = cs, ts_flight = fs,
         ts_answers = (fl_key f, flight_minute f, tier_failed_open trl (quota_of (fl_key f)) (fl_now f)) # ans, ts_minutes = ms\<rparr>
    | Inr a \<Rightarrow> \<exists>n. (tier_step T trl quota_of)\<^sup>*\<^sup>*
        \<lparr>ts_table = s, ts_caches = cs, ts_flight = f # fs, ts_answers = ans, ts_minutes = ms\<rparr>
        \<lparr>ts_table = s', ts_caches = cs, ts_flight = f\<lparr>fl_attempt := n, fl_answer := Some a\<rparr> # fs,
         ts_answers = ans, ts_minutes = ms\<rparr>"
  using assms
proof (induction "tier_write_attempts - fl_attempt f" arbitrary: f s)
  case 0
  then have "fl_attempt f = tier_write_attempts" "r = Inl ClaimContended" "s' = s" by auto
  then show ?case
    using exhausted [of f T trl quota_of s cs "[]" fs ans ms] "0.prems"(2) by (simp add: r_into_rtranclp)
next
  case (Suc n)
  then have less: "fl_attempt f < tier_write_attempts" by simp
  then have range: "[fl_attempt f..<tier_write_attempts] = fl_attempt f # [Suc (fl_attempt f)..<tier_write_attempts]"
    by (rule upt_conv_Cons)
  obtain r1 s1 where at: "flight_attempt T s f = (r1, s1)" by fastforce
  note attempt = at [unfolded flight_attempt_def]
  consider (retry) "r1 = Inl ConditionFailed" | (lost) "r1 = Inl ServiceError" | (answer) a where "r1 = Inr a"
    by (cases r1; cases "projl r1") auto
  then show ?case
  proof cases
    case retry
    let ?f = "f\<lparr>fl_attempt := Suc (fl_attempt f)\<rparr>"
    have step: "tier_step T trl quota_of
        \<lparr>ts_table = s, ts_caches = cs, ts_flight = f # fs, ts_answers = ans, ts_minutes = ms\<rparr>
        \<lparr>ts_table = s1, ts_caches = cs, ts_flight = ?f # fs, ts_answers = ans, ts_minutes = ms\<rparr>"
      using contended [of f T s s1 trl quota_of cs "[]" fs ans ms] Suc.prems(2) less at retry by simp
    have "claim_loop T s1 (fst (fl_key ?f)) (snd (fl_key ?f)) (fl_lease ?f) (flight_minute ?f)
        (window_start_of (fl_now ?f) day_seconds + day_seconds) (fl_same ?f) [fl_attempt ?f..<tier_write_attempts] = (r, s')"
      using Suc.prems(1) attempt retry by (simp add: range flight_minute_def)
    note rest = Suc.hyps(1) [OF _ this]
    have n: "n = tier_write_attempts - fl_attempt ?f" "fl_answer ?f = None" "fl_attempt ?f \<le> tier_write_attempts"
      using Suc.hyps(2) Suc.prems(2) less by simp_all
    show ?thesis
    proof (cases r)
      case (Inl e)
      then show ?thesis
        using converse_rtranclp_into_rtranclp [where r = "tier_step T trl quota_of", OF step] rest [OF n] by simp
    next
      case (Inr a)
      with rest [OF n] obtain k where "(tier_step T trl quota_of)\<^sup>*\<^sup>*
          \<lparr>ts_table = s1, ts_caches = cs, ts_flight = ?f # fs, ts_answers = ans, ts_minutes = ms\<rparr>
          \<lparr>ts_table = s', ts_caches = cs, ts_flight = f\<lparr>fl_attempt := k, fl_answer := Some a\<rparr> # fs,
           ts_answers = ans, ts_minutes = ms\<rparr>" by auto
      from converse_rtranclp_into_rtranclp [where r = "tier_step T trl quota_of", OF step this]
      show ?thesis using Inr by auto
    qed
  next
    case lost
    then have "r = Inl ClaimService" "s' = s1" using Suc.prems(1) attempt by (simp_all add: range)
    then show ?thesis
      using service_lost [of f T s s1 trl quota_of cs "[]" fs ans ms] Suc.prems(2) less at lost
      by (simp add: r_into_rtranclp)
  next
    case answer
    then have r: "r = Inr a" "s' = s1" using Suc.prems(1) attempt by (simp_all add: range)
    have "f\<lparr>fl_answer := Some a\<rparr> = f\<lparr>fl_attempt := fl_attempt f, fl_answer := Some a\<rparr>" by simp
    then show ?thesis
      using claimed [of f T s a s1 trl quota_of cs "[]" fs ans ms] Suc.prems(2) less at answer r
      by (simp, metis r_into_rtranclp)
  qed
qed

lemma check_key_steps:
  assumes "check_key T trl s c scope key (quota_of (tier_pk trl scope key now, counter)) counter now = (d, s', c')"
  shows "(tier_step T trl quota_of)\<^sup>*\<^sup>*
    \<lparr>ts_table = s, ts_caches = cs @ c # cs', ts_flight = fs, ts_answers = ans, ts_minutes = ms\<rparr>
    \<lparr>ts_table = s', ts_caches = cs @ c' # cs', ts_flight = fs,
     ts_answers = ((tier_pk trl scope key now, counter), window_start_of now minute_seconds, d) # ans,
     ts_minutes = ((tier_pk trl scope key now, counter), window_start_of now minute_seconds) # ms\<rparr>"
proof -
  let ?pk = "tier_pk trl scope key now" and ?name = "scope @ ''-'' @ counter"
  let ?q = "quota_of (?pk, counter)" and ?m = "window_start_of now minute_seconds"
  obtain r c1 where l: "check_local trl c ?pk ?name ?q counter now = (r, c1)" by fastforce
  show ?thesis
  proof (cases r)
    case (Inl d1)
    then have "d = d1" "s' = s" "c' = c1" using assms l by (simp_all add: check_key_def Let_def)
    then show ?thesis
      using from_memory [of trl c ?pk ?name quota_of counter now d c1 T s cs cs' fs ans ms] l Inl
      by (simp add: r_into_rtranclp)
  next
    case (Inr b)
    obtain lease same where b: "b = (lease, same)" by fastforce
    define f where "f = \<lparr>fl_container = length cs, fl_key = (?pk, counter), fl_name = ?name, fl_now = now,
      fl_lease = lease, fl_same = same, fl_attempt = 0, fl_answer = None\<rparr>"
    obtain a s1 where cl: "claim T s ?pk counter lease ?m (window_start_of now day_seconds + day_seconds) same = (a, s1)"
      by fastforce
    have start: "tier_step T trl quota_of
      \<lparr>ts_table = s, ts_caches = cs @ c # cs', ts_flight = fs, ts_answers = ans, ts_minutes = ms\<rparr>
      \<lparr>ts_table = s, ts_caches = cs @ c1 # cs', ts_flight = f # fs, ts_answers = ans,
       ts_minutes = ((?pk, counter), ?m) # ms\<rparr>"
      using to_claim [of trl c ?pk ?name quota_of counter now lease same c1 f cs T s cs' fs ans ms] l Inr b
      by (simp add: f_def)
    note run = claim_run [of T s f a s1 trl quota_of "cs @ c1 # cs'" fs ans "((?pk, counter), ?m) # ms"]
    have cl': "claim_loop T s (fst (fl_key f)) (snd (fl_key f)) (fl_lease f) (flight_minute f)
      (window_start_of (fl_now f) day_seconds + day_seconds) (fl_same f) [fl_attempt f..<tier_write_attempts] = (a, s1)"
      using cl by (simp add: claim_def f_def flight_minute_def)
    show ?thesis
    proof (cases a)
      case (Inl e)
      then have "d = tier_failed_open trl ?q now" "s' = s1" "c' = c1"
        using assms l Inr b cl by (simp_all add: check_key_def Let_def)
      then show ?thesis
        using run [OF cl'] Inl converse_rtranclp_into_rtranclp [where r = "tier_step T trl quota_of", OF start]
        by (simp add: f_def flight_minute_def)
    next
      case (Inr attrs)
      obtain d1 c2 where se: "settle trl c1 ?pk ?name ?q counter now lease attrs = (d1, c2)" by fastforce
      have out: "d = d1" "s' = s1" "c' = c2"
        using assms l \<open>r = Inr b\<close> b cl Inr se by (simp_all add: check_key_def Let_def)
      obtain n where "(tier_step T trl quota_of)\<^sup>*\<^sup>*
        \<lparr>ts_table = s, ts_caches = cs @ c1 # cs', ts_flight = f # fs, ts_answers = ans,
         ts_minutes = ((?pk, counter), ?m) # ms\<rparr>
        \<lparr>ts_table = s1, ts_caches = cs @ c1 # cs', ts_flight = f\<lparr>fl_attempt := n, fl_answer := Some attrs\<rparr> # fs,
         ts_answers = ans, ts_minutes = ((?pk, counter), ?m) # ms\<rparr>"
        using run [OF cl'] Inr by (auto simp: f_def)
      moreover have "tier_step T trl quota_of
        \<lparr>ts_table = s1, ts_caches = cs @ c1 # cs', ts_flight = f\<lparr>fl_attempt := n, fl_answer := Some attrs\<rparr> # fs,
         ts_answers = ans, ts_minutes = ((?pk, counter), ?m) # ms\<rparr>
        \<lparr>ts_table = s1, ts_caches = cs @ c2 # cs', ts_flight = fs, ts_answers = ((?pk, counter), ?m, d1) # ans,
         ts_minutes = ((?pk, counter), ?m) # ms\<rparr>"
        using settled [of "f\<lparr>fl_attempt := n, fl_answer := Some attrs\<rparr>" attrs cs trl c1 quota_of d1 c2 T s1 cs'
            "[]" fs ans "((?pk, counter), ?m) # ms"] se
        by (simp add: f_def flight_minute_def)
      ultimately show ?thesis
        using start out by (metis (no_types, lifting) converse_rtranclp_into_rtranclp rtranclp.rtrancl_into_rtrancl)
    qed
  qed
qed

section \<open>Properties\<close>

definition tier_start :: "'s \<Rightarrow> nat \<Rightarrow> 's tier_system" where
  "tier_start s n = \<lparr>ts_table = s, ts_caches = replicate n [], ts_flight = [], ts_answers = [], ts_minutes = []\<rparr>"

text \<open>
  C24. A tiered counter never lets more through than its cap. Over any table that behaves as
  DynamoDB documents and may fail, from a day's absent row, and whatever the containers' clocks
  read, for any interleaving of the critical sections and updates of any number of containers
  and threads, with leases and restarts: from any minute on, the requests allowed on a real
  count by checks that read that minute or a later one are at most \<open>per_minute\<close> for each such
  minute some check read. So the checks of the latest minute any container has reached, leases
  of the minutes before it included, allow at most \<open>per_minute\<close>; and no more than \<open>per_day\<close> are
  allowed in all.
\<close>

theorem tier_never_over_cap:
  assumes "counter_table T items" and "0 \<le> q_per_minute (quota_of k)"
    and "\<forall>d. q_per_day (quota_of k) = Some d \<longrightarrow> 0 \<le> d" and "items s (fst k) = no_item"
    and "(tier_step T trl quota_of)\<^sup>*\<^sup>* (tier_start s n) \<sigma>"
  shows "allowed_since lo k (ts_answers \<sigma>) \<le>
      q_per_minute (quota_of k) * int (card {m \<in> minutes_of k (ts_minutes \<sigma>). lo \<le> m}) \<and>
    ((\<forall>m \<in> minutes_of k (ts_minutes \<sigma>). m \<le> lo) \<longrightarrow>
      allowed_since lo k (ts_answers \<sigma>) \<le> q_per_minute (quota_of k)) \<and>
    (\<forall>d. q_per_day (quota_of k) = Some d \<longrightarrow> allowed_since lo k (ts_answers \<sigma>) \<le> d)"
proof -
  let ?M = "minutes_of k (ts_minutes \<sigma>)" and ?a = "allowed_since lo k (ts_answers \<sigma>)"
  have "tier_inv lo items quota_of k (tier_start s n)"
    using assms(3,4) by (auto simp: tier_inv_def tier_start_def tier_account_def row_ok_def no_item_def stored_def
        held_def sum_list_replicate split: option.split)
  from counter_table.tier_run_inv [OF assms(1,5,2) this]
  have inv: "tier_inv lo items quota_of k \<sigma>" .
  have a: "?a \<le> tier_account lo quota_of k \<sigma>"
    using inv held_nonneg [of "ts_caches \<sigma>" lo k] in_flight_nonneg [of lo quota_of k "ts_flight \<sigma>"]
    by (simp add: tier_account_def tier_inv_def)
  have row: "row_ok lo (quota_of k) (snd k) ?M (tier_account lo quota_of k \<sigma>) (items (ts_table \<sigma>) (fst k))"
    using inv by (simp add: tier_inv_def)
  have minutes: "?a \<le> q_per_minute (quota_of k) * int (card {m \<in> ?M. lo \<le> m})"
    using a row_ok_bound [OF row _ assms(2)] by simp
  moreover have "?a \<le> q_per_minute (quota_of k)" if "\<forall>m \<in> ?M. m \<le> lo"
  proof -
    have "q_per_minute (quota_of k) * int (card {m \<in> ?M. lo \<le> m}) \<le>
        q_per_minute (quota_of k) * int (card {x \<in> {lo}. True})"
      using that assms(2) by (intro card_range_mono) auto
    then show ?thesis using minutes by simp
  qed
  moreover have "\<forall>d. q_per_day (quota_of k) = Some d \<longrightarrow> ?a \<le> d"
    using a row by (auto simp: row_ok_def)
  ultimately show ?thesis by blast
qed

definition demo_quota :: quota where
  "demo_quota = \<lparr>q_per_minute = 2, q_per_day = Some 5\<rparr>"

definition demo_tiers :: tiered_limiter where
  "demo_tiers = \<lparr>tl_namespace = ''tier'', tl_tiers =
     \<lparr>ti_plans = [(''default'', \<lparr>pl_token = None, pl_user = Some (combined demo_quota), pl_tenant = None\<rparr>)],
      ti_default_plan = ''default'', ti_read_methods = [''GET''], ti_ip_classes = [], ti_max_lease = 10,
      ti_lease_divisor = 8\<rparr>, tl_cache_size = 8\<rparr>"

theorem tier_never_over_cap_witness:
  "\<exists>\<sigma>. (tier_step scripted_table demo_tiers (\<lambda>_. demo_quota))\<^sup>*\<^sup>*
      (tier_start ([LostAfter], \<lambda>_. no_item) 2) \<sigma> \<and>
    length (ts_answers \<sigma>) = 1 \<and> allowed_since 0 (tier_pk demo_tiers ''user'' ''u'' 30, ''all'') (ts_answers \<sigma>) \<le> 2"
proof -
  let ?k = "(tier_pk demo_tiers ''user'' ''u'' 30, ''all'')"
  obtain d s' c' where check: "check_key scripted_table demo_tiers ([LostAfter], \<lambda>_. no_item) [] ''user'' ''u''
      demo_quota ''all'' 30 = (d, s', c')" by (metis surj_pair)
  let ?\<sigma> = "\<lparr>ts_table = s', ts_caches = [c', []], ts_flight = [],
     ts_answers = [(?k, window_start_of 30 minute_seconds, d)],
     ts_minutes = [(?k, window_start_of 30 minute_seconds)]\<rparr>"
  have run: "(tier_step scripted_table demo_tiers (\<lambda>_. demo_quota))\<^sup>*\<^sup>*
      (tier_start ([LostAfter], \<lambda>_. no_item) 2) ?\<sigma>"
    using check_key_steps [of scripted_table demo_tiers "([LostAfter], \<lambda>_. no_item)" "[]" "''user''" "''u''"
        "\<lambda>_. demo_quota" 30 "''all''" d s' c' "[]" "[[]]" "[]" "[]" "[]", OF check]
    by (simp add: tier_start_def numeral_2_eq_2)
  have minute: "\<forall>m \<in> minutes_of ?k (ts_minutes ?\<sigma>). m \<le> 0"
    by (simp add: minutes_of_def window_start_of_def minute_seconds_def)
  have "allowed_since 0 ?k (ts_answers ?\<sigma>) \<le> 2"
    using tier_never_over_cap [OF scripted_table.counter_table_axioms, of "\<lambda>_. demo_quota" ?k, OF _ _ _ run, of 0] minute
    by (simp add: demo_quota_def)
  then show ?thesis using run by fastforce
qed

end

