(* ===== verification/RateMiddleware.thy ===== *)
theory RateMiddleware
  imports RateProperties TieredProperties
begin

text \<open>
  ratelimit.py, one request through \<^verbatim>\<open>rate_limit_middleware\<close> and the sentence of its refusal
  (messages.py). A request is its method, its path, the identity \<^verbatim>\<open>identity_fn\<close> reads from it
  and what the app's resolver answers for it; a resolver that raises answers
  \<^const>\<open>None\<close> as \<^verbatim>\<open>_resolve_subject\<close> makes it. The response of the application behind the
  middleware is left out: what is modelled is whether it is called and the headers it gets.
\<close>

section \<open>The refusal\<close>

definition rate_limited_message :: "int option \<Rightarrow> string option \<Rightarrow> string" where
  "rate_limited_message retry_after topic =
     (let subject = (case topic of None \<Rightarrow> ''Too many requests.''
                     | Some t \<Rightarrow> if t \<noteq> [] then ''Too many '' @ t @ ''.'' else ''Too many requests.'')
      in case retry_after of
           None \<Rightarrow> subject @ '' Try again shortly.''
         | Some n \<Rightarrow> if n = 1 then subject @ '' Try again in 1 second.''
                     else subject @ '' Try again in '' @ int_str n @ '' seconds.'')"

record rendered =
  re_status :: int
  re_detail :: string
  re_headers :: "(string \<times> string) list"

definition default_renderer :: "decision \<Rightarrow> rendered" where
  "default_renderer d =
     \<lparr>re_status = 429, re_detail = rate_limited_message (Some (rd_reset_after d)) None,
      re_headers = rate_limit_headers d None @ [(''Retry-After'', int_str (rd_reset_after d))]\<rparr>"

text \<open>
  The per-route dependency: the headers left on the request, and the \<^verbatim>\<open>HTTPException\<close> or the
  decision.
\<close>

definition rate_limit_dependency ::
  "'s table_ops \<Rightarrow> rate_limiter \<Rightarrow> 's \<Rightarrow> string \<Rightarrow> int \<Rightarrow> int \<Rightarrow> string \<Rightarrow> rat \<Rightarrow>
     (rendered + decision) \<times> (string \<times> string) list \<times> 's" where
  "rate_limit_dependency T rl s identity limit window_seconds namespace now =
     (let (d, s) = rl_check T rl s identity limit window_seconds now;
          headers = rate_limit_headers d (Some namespace)
      in (if \<not> rd_allowed d
          then Inl \<lparr>re_status = 429, re_detail = rate_limited_message None None,
                     re_headers = headers @ [(''Retry-After'', int_str (rd_reset_after d))]\<rparr>
          else Inr d, headers, s))"

section \<open>The middleware\<close>

record mw_request =
  mr_method :: string
  mr_path :: string
  mr_identity :: string
  mr_resolved :: "subject option"

record mw_config =
  mw_classes :: "limit_class list"
  mw_limiters :: "(string, rate_limiter) dict"
  mw_exempt_paths :: "string list"
  mw_exempt_prefixes :: "string list"
  mw_exempt_methods :: "string list"
  mw_tiered :: "tiered_limiter option"

text \<open>The dictionary the middleware builds when it is given none.\<close>

definition build_limiters :: "limit_class list \<Rightarrow> anchor \<Rightarrow> string \<Rightarrow> (string, rate_limiter) dict" where
  "build_limiters classes anchor count_attribute =
     fold (\<lambda>lc. dset (lc_name lc)
       \<lparr>rl_namespace = lc_name lc, rl_anchor = anchor, rl_count_attribute = count_attribute\<rparr>) classes []"

datatype mw_response =
  Untouched
| Served decision "(string \<times> string) list option"
| Refused rendered decision string "string option"
| NoLimiter

definition exempt :: "mw_config \<Rightarrow> string \<Rightarrow> string \<Rightarrow> bool" where
  "exempt mw verb path =
     (if upper verb \<in> set (map upper (mw_exempt_methods mw)) then True
      else
        let normalised = normalise_path path in
        if normalised \<in> set (map normalise_path (mw_exempt_paths mw)) then True
        else list_ex (\<lambda>p. under_prefix normalised (normalise_path p)) (mw_exempt_prefixes mw))"

definition enforce :: "decision \<Rightarrow> string \<Rightarrow> string option \<Rightarrow> mw_response" where
  "enforce d limit_name plan_name =
     (if \<not> rd_allowed d then Refused (default_renderer d) d limit_name plan_name
      else Served d (if rd_failed_open d then None else Some (rate_limit_headers d None)))"

text \<open>The keyed limits, when the request is on them: the decision to enforce, or to fall through.\<close>

definition tiered_part ::
  "'s table_ops \<Rightarrow> mw_config \<Rightarrow> 's \<Rightarrow> lease_cache \<Rightarrow> mw_request \<Rightarrow> limit_class option \<Rightarrow> rat \<Rightarrow>
     mw_response option \<times> 's \<times> lease_cache" where
  "tiered_part T mw s cache r lc now =
     (case mw_tiered mw of
        None \<Rightarrow> (None, s, cache)
      | Some trl \<Rightarrow>
          if (case lc of None \<Rightarrow> False | Some lc \<Rightarrow> lc_name lc \<in> set (ti_ip_classes (tl_tiers trl)))
          then (None, s, cache)
          else
            (case mr_resolved r of
               None \<Rightarrow> (None, s, cache)
             | Some su \<Rightarrow>
                 (case check_subject T trl s cache su (mr_method r) now of
                    (None, s, cache) \<Rightarrow> (None, s, cache)
                  | (Some d, s, cache) \<Rightarrow>
                      (Some (enforce d (rd_limit_name d) (Some (fst (limits_for (tl_tiers trl) (su_plan su))))),
                       s, cache))))"

text \<open>\<open>enabled\<close> is what the \<^verbatim>\<open>enabled\<close> callable answers, \<^const>\<open>True\<close> when there is none.\<close>

definition middleware ::
  "'s table_ops \<Rightarrow> mw_config \<Rightarrow> 's \<Rightarrow> lease_cache \<Rightarrow> mw_request \<Rightarrow> bool \<Rightarrow> rat \<Rightarrow>
     mw_response \<times> 's \<times> lease_cache" where
  "middleware T mw s cache r enabled now =
     (if \<not> enabled then (Untouched, s, cache)
      else if exempt mw (mr_method r) (mr_path r) then (Untouched, s, cache)
      else
        let lc = classify (mr_method r) (mr_path r) (mw_classes mw) in
        case tiered_part T mw s cache r lc now of
          (Some response, s, cache) \<Rightarrow> (response, s, cache)
        | (None, s, cache) \<Rightarrow>
            (case lc of
               None \<Rightarrow> (Untouched, s, cache)
             | Some lc \<Rightarrow>
                 (case dget (mw_limiters mw) (lc_name lc) of
                    None \<Rightarrow> (NoLimiter, s, cache)
                  | Some rl \<Rightarrow>
                      (let (d, s) = rl_check T rl s (mr_identity r) (lc_limit lc) (lc_window_seconds lc) now
                       in (enforce d (lc_name lc) None, s, cache)))))"

section \<open>A table that is down\<close>

definition all_calls_fail :: "'s table_ops \<Rightarrow> bool" where
  "all_calls_fail T =
     ((\<forall>s pk acts c. fst (tb_update T s pk acts c) = Inl ServiceError) \<and>
      (\<forall>s pk i. fst (tb_put T s pk i) = Inl ServiceError))"

lemma failing_update:
  assumes "all_calls_fail T"
  obtains s' where "tb_update T s pk acts c = (Inl ServiceError, s')"
  using assms by (metis all_calls_fail_def prod.collapse)

lemma failing_check:
  assumes "all_calls_fail T" and "rl_check T rl s ident limit window now = (d, s')"
  shows "rd_allowed d \<and> rd_failed_open d"
proof (cases "rl_anchor rl = FirstRequestAnchor")
  case True
  obtain s1 where "first_request_update T rl s ident window (py_int now) = (Inl ServiceError, s1)"
    unfolding first_request_update_def using failing_update [OF assms(1)] by metis
  then show ?thesis using assms(2) True by (auto simp: rl_check_def check_first_request_def Let_def)
next
  case False
  obtain s1 where "tb_update T s (rl_key rl ident (Some (window_start_of now window)))
      [AddN (rl_count_attribute rl) 1,
       SetIfAbsent rate_ttl_attribute (window_start_of now window + window + ttl_grace_seconds)] None =
      (Inl ServiceError, s1)"
    using failing_update [OF assms(1)] by metis
  then show ?thesis using assms(2) False by (auto simp: rl_check_def check_clock_def Let_def)
qed

lemma failing_claim:
  assumes "all_calls_fail T"
  shows "\<exists>s'. claim T s pk counter lease minute expires same = (Inl ClaimService, s')"
proof -
  obtain s1 where "claim_attempt T s pk counter lease minute expires same 0 = (Inl ServiceError, s1)"
    unfolding claim_attempt_def by (metis (mono_tags, lifting) failing_update [OF assms] case_prod_beta')
  then show ?thesis
    by (simp add: claim_def tier_write_attempts_def upt_conv_Cons)
qed

text \<open>
  What the container remembers. \<open>carried c c'\<close>: every state of \<open>c'\<close> is one of \<open>c\<close>, blocked no
  longer than it was and with no lease but what is left of the one it had.
\<close>

definition carried :: "lease_cache \<Rightarrow> lease_cache \<Rightarrow> bool" where
  "carried c c' = (\<forall>k st'. dget c' k = Some st' \<longrightarrow>
     (\<exists>st. dget c k = Some st \<and> ls_blocked_until st' = ls_blocked_until st \<and>
        (0 < ls_tokens st' \<longrightarrow> 0 < ls_tokens st \<and> ls_minute st' = ls_minute st)))"

definition blocked_at :: "cache_key set \<Rightarrow> lease_cache \<Rightarrow> rat \<Rightarrow> bool" where
  "blocked_at K c now = (\<exists>k st. k \<in> K \<and> dget c k = Some st \<and> now < of_int (ls_blocked_until st))"

definition leased_at :: "cache_key set \<Rightarrow> lease_cache \<Rightarrow> rat \<Rightarrow> bool" where
  "leased_at K c now = (\<exists>k st. k \<in> K \<and> dget c k = Some st \<and> 0 < ls_tokens st \<and>
     ls_minute st = window_start_of now minute_seconds)"

text \<open>A decision that counts nothing, unless the container's memory says otherwise.\<close>

definition remembered :: "cache_key set \<Rightarrow> lease_cache \<Rightarrow> rat \<Rightarrow> decision \<Rightarrow> bool" where
  "remembered K c now d =
     ((\<not> rd_allowed d \<longrightarrow> blocked_at K c now) \<and> (rd_allowed d \<and> \<not> rd_failed_open d \<longrightarrow> leased_at K c now))"

lemma carried_refl [simp]: "carried c c"
  by (simp add: carried_def)

lemma carried_trans: "carried c c1 \<Longrightarrow> carried c1 c2 \<Longrightarrow> carried c c2"
  unfolding carried_def by metis

lemma blocked_at_carried: "carried c c' \<Longrightarrow> blocked_at K c' now \<Longrightarrow> blocked_at K c now"
  unfolding carried_def blocked_at_def by metis

lemma leased_at_carried: "carried c c' \<Longrightarrow> leased_at K c' now \<Longrightarrow> leased_at K c now"
  unfolding carried_def leased_at_def by metis

lemma remembered_carried: "carried c c' \<Longrightarrow> remembered K c' now d \<Longrightarrow> remembered K c now d"
  unfolding remembered_def using blocked_at_carried leased_at_carried by blast

lemma carried_upd:
  assumes "dget c' = (dget c)(k \<mapsto> st')" and "dget c k = Some st" and "ls_blocked_until st' = ls_blocked_until st"
    and "0 < ls_tokens st' \<Longrightarrow> 0 < ls_tokens st \<and> ls_minute st' = ls_minute st"
  shows "carried c c'"
  using assms by (auto simp: carried_def)

lemma touch_carried:
  assumes "touch c k minute = (st, c')"
  shows "carried c c'" and "dget c' k = st" and "\<And>s. st = Some s \<Longrightarrow> ls_minute s = minute"
proof -
  have "carried c c' \<and> dget c' k = st \<and> (\<forall>s. st = Some s \<longrightarrow> ls_minute s = minute)"
  proof (cases "dget c k")
    case None
    then show ?thesis using assms by (auto simp: touch_def)
  next
    case (Some s)
    have c': "c' = ddel k c @ [(k, roll_state s minute)]" "st = Some (roll_state s minute)"
      using assms Some by (simp_all add: touch_def Let_def)
    have g: "dget c' = (dget c)(k \<mapsto> roll_state s minute)"
      unfolding c' by (rule dget_move_to_end)
    have "carried c c'"
      by (rule carried_upd [OF g Some]) (auto simp: roll_state_def split: if_splits)
    then show ?thesis using g c'(2) by (simp add: roll_state_def)
  qed
  then show "carried c c'" "dget c' k = st" "\<And>s. st = Some s \<Longrightarrow> ls_minute s = minute" by auto
qed

lemma check_local_remembered:
  assumes "check_local trl c pk name q counter now = (r, c')"
  shows "carried c c'" and "r = Inl d \<Longrightarrow> (pk, counter) \<in> K \<Longrightarrow> remembered K c now d"
proof -
  let ?m = "window_start_of now minute_seconds"
  obtain st c1 where t: "touch c (pk, counter) ?m = (st, c1)" by fastforce
  note touched = touch_carried [OF t]
  have "carried c c' \<and> (r = Inl d \<longrightarrow> (pk, counter) \<in> K \<longrightarrow> remembered K c now d)"
  proof (cases st)
    case None
    then show ?thesis using assms touched(1) by (auto simp: check_local_def t Let_def)
  next
    case (Some s)
    consider (block) "of_int (ls_blocked_until s) > now"
      | (lease) "\<not> of_int (ls_blocked_until s) > now" "ls_tokens s > 0"
      | (ask) "\<not> of_int (ls_blocked_until s) > now" "\<not> ls_tokens s > 0" by blast
    then show ?thesis
    proof cases
      case block
      then have "(pk, counter) \<in> K \<Longrightarrow> blocked_at K c1 now" using touched(2) Some by (auto simp: blocked_at_def)
      then have "(pk, counter) \<in> K \<Longrightarrow> blocked_at K c now" using blocked_at_carried [OF touched(1)] by blast
      then show ?thesis
        using assms block Some touched(1)
        by (auto simp: check_local_def t Let_def remembered_def blocked_decision_def)
    next
      case lease
      define s' where "s' = s\<lparr>ls_tokens := ls_tokens s - 1, ls_served := ls_served s + 1\<rparr>"
      have r: "r = Inl (allowed_decision s' q name now ?m (window_start_of now day_seconds))"
        "c' = keep_state c1 (pk, counter) s'"
        using assms lease Some by (simp_all add: check_local_def t Let_def s'_def)
      have g: "dget c' = (dget c1)((pk, counter) \<mapsto> s')"
        using touched(2) Some by (auto simp: r keep_state_def)
      have "carried c1 c'"
        using touched(2) Some lease(2) by (intro carried_upd [OF g]) (auto simp: s'_def)
      then have "carried c c'" using carried_trans touched(1) by blast
      moreover have "(pk, counter) \<in> K \<Longrightarrow> leased_at K c1 now"
        using touched(2) touched(3) Some lease(2) by (auto simp: leased_at_def)
      then have "(pk, counter) \<in> K \<Longrightarrow> leased_at K c now" using leased_at_carried [OF touched(1)] by blast
      then have "remembered K c now d" if "r = Inl d" "(pk, counter) \<in> K"
        using that by (auto simp: r remembered_def allowed_decision_def Let_def split: option.splits prod.splits)
      ultimately show ?thesis by blast
    next
      case ask
      then show ?thesis using assms Some touched(1) by (auto simp: check_local_def t Let_def)
    qed
  qed
  then show "carried c c'" "r = Inl d \<Longrightarrow> (pk, counter) \<in> K \<Longrightarrow> remembered K c now d" by auto
qed

lemma failed_open_remembered [intro]: "rd_allowed d \<and> rd_failed_open d \<Longrightarrow> remembered K c now d"
  by (simp add: remembered_def)

lemma failing_check_key:
  assumes "all_calls_fail T" and "check_key T trl s c scope key q counter now = (d, s', c')"
    and "(tier_pk trl scope key now, counter) \<in> K"
  shows "carried c c' \<and> remembered K c now d"
proof -
  let ?pk = "tier_pk trl scope key now" and ?name = "scope @ ''-'' @ counter"
  obtain r c1 where l: "check_local trl c ?pk ?name q counter now = (r, c1)" by fastforce
  note local = check_local_remembered [OF l]
  show ?thesis
  proof (cases r)
    case (Inl d1)
    then show ?thesis using assms(2,3) l local by (simp add: check_key_def Let_def)
  next
    case (Inr b)
    obtain lease same where b: "b = (lease, same)" by fastforce
    obtain s1 where "claim T s ?pk counter lease (window_start_of now minute_seconds)
        (window_start_of now day_seconds + day_seconds) same = (Inl ClaimService, s1)"
      using failing_claim [OF assms(1)] by metis
    then have "d = tier_failed_open trl q now" "c' = c1"
      using assms(2) l Inr b by (simp_all add: check_key_def Let_def)
    then show ?thesis
      using local(1) by (auto simp: tier_failed_open_def rl_failed_open_def)
  qed
qed

text \<open>The keys of the lease cache that the check of a subject consults.\<close>

definition subject_keys :: "tiered_limiter \<Rightarrow> subject \<Rightarrow> plan_limits \<Rightarrow> request_class \<Rightarrow> rat \<Rightarrow> cache_key set" where
  "subject_keys trl su plan rc now =
     {(tier_pk trl (scope_name sc) key now, counter) | sc key limits counter q.
        key_for su sc = Some key \<and> for_scope plan sc = Some limits \<and> select limits rc = Some (counter, q)}"

lemma failing_scopes:
  assumes "all_calls_fail T" and "check_scopes T trl s c su plan rc now scs = (r, s', c')"
    and "subject_keys trl su plan rc now \<subseteq> K"
  shows "carried c c' \<and> (case r of Inl d \<Rightarrow> remembered K c now d | Inr ds \<Rightarrow> list_all (remembered K c now) ds)"
  using assms(2)
proof (induction scs arbitrary: s c r s' c')
  case Nil
  then show ?case by auto
next
  case (Cons sc scs)
  show ?case
  proof (cases "\<exists>key limits counter q. key_for su sc = Some key \<and> for_scope plan sc = Some limits \<and> key \<noteq> [] \<and>
      select limits rc = Some (counter, q)")
    case False
    then have "check_scopes T trl s c su plan rc now scs = (r, s', c')"
      using Cons.prems by (auto split: option.splits if_splits)
    then show ?thesis by (rule Cons.IH)
  next
    case True
    then obtain key limits counter q where sel: "key_for su sc = Some key" "for_scope plan sc = Some limits"
      "key \<noteq> []" "select limits rc = Some (counter, q)" by blast
    obtain d s1 c1 where k: "check_key T trl s c (scope_name sc) key q counter now = (d, s1, c1)"
      by (metis surj_pair)
    have "(tier_pk trl (scope_name sc) key now, counter) \<in> K"
      using sel(1,2,4) by (intro subsetD [OF assms(3)]) (auto simp: subject_keys_def)
    note first = failing_check_key [OF assms(1) k this]
    obtain r2 s2 c2 where rest: "check_scopes T trl s1 c1 su plan rc now scs = (r2, s2, c2)"
      by (metis surj_pair)
    note ih = Cons.IH [OF rest]
    have eq: "(r, s', c') = (if \<not> rd_allowed d then (Inl d, s1, c1)
        else case r2 of Inl d' \<Rightarrow> (Inl d', s2, c2) | Inr ds \<Rightarrow> (Inr (d # ds), s2, c2))"
      using Cons.prems sel k rest by (auto split: sum.split)
    have later: "carried c c2" "\<And>x. remembered K c1 now x \<Longrightarrow> remembered K c now x"
      using first ih carried_trans remembered_carried by blast+
    show ?thesis
    proof (cases r2)
      case (Inl d')
      then show ?thesis using eq first ih later by (auto split: if_splits)
    next
      case (Inr ds)
      then have "list_all (remembered K c now) ds" using ih later(2) by (auto simp: list_all_iff)
      then show ?thesis using eq first later(1) Inr by (auto split: if_splits)
    qed
  qed
qed

lemma least_remaining_in: "least_remaining d ds \<in> set (d # ds)"
  by (induction d ds rule: least_remaining.induct) auto

lemma failing_subject:
  assumes "all_calls_fail T" and "check_subject T trl s c su verb now = (r, s', c')"
    and "subject_keys trl su (snd (limits_for (tl_tiers trl) (su_plan su))) (request_class_of (tl_tiers trl) verb) now \<subseteq> K"
  shows "carried c c' \<and> (case r of None \<Rightarrow> True | Some d \<Rightarrow> remembered K c now d)"
proof -
  obtain x s1 c1 where sc: "check_scopes T trl s c su (snd (limits_for (tl_tiers trl) (su_plan su)))
      (request_class_of (tl_tiers trl) verb) now scopes = (x, s1, c1)" by (metis surj_pair)
  note scs = failing_scopes [OF assms(1) sc assms(3)]
  show ?thesis
  proof (cases x)
    case (Inl d)
    then show ?thesis using assms(2) sc scs by (auto simp: check_subject_def Let_def)
  next
    case (Inr ds)
    have in_ds: "e \<in> set ds \<Longrightarrow> remembered K c now e" for e
      using scs Inr by (simp add: list_all_iff)
    have "c' = c1 \<and> (r = None \<or> (\<exists>e. r = Some e \<and> e \<in> set ds))"
    proof (cases "filter (\<lambda>d. \<not> rd_failed_open d) ds")
      case Nil
      then show ?thesis
        using assms(2) sc Inr by (cases ds) (auto simp: check_subject_def Let_def split: if_splits)
    next
      case (Cons e es)
      then have sub: "set (e # es) \<subseteq> set ds" by (metis filter_is_subset)
      obtain first more where ds: "ds = first # more" using Cons by (cases ds) auto
      have "r = Some (least_remaining e es)" "c' = c1"
        using assms(2) sc Inr Cons unfolding ds
        by (simp_all add: check_subject_def Let_def del: filter.simps)
      then show ?thesis using least_remaining_in [of e es] sub by blast
    qed
    then show ?thesis using scs in_ds by auto
  qed
qed

section \<open>One request, and a container's requests in order, while the table is down\<close>

text \<open>What the container may answer from its memory \<open>c\<close>; a class without a limiter is \<^const>\<open>NoLimiter\<close>.\<close>

definition outage_answer :: "cache_key set \<Rightarrow> lease_cache \<Rightarrow> rat \<Rightarrow> mw_response \<Rightarrow> bool" where
  "outage_answer K c now response =
     (case response of
        Untouched \<Rightarrow> True
      | Served d headers \<Rightarrow> headers \<noteq> None \<longrightarrow> leased_at K c now
      | Refused body d limit_name plan_name \<Rightarrow> blocked_at K c now
      | NoLimiter \<Rightarrow> False)"

lemma enforce_remembered: "remembered K c now d \<Longrightarrow> outage_answer K c now (enforce d n p)"
  by (simp add: enforce_def outage_answer_def remembered_def)

lemma outage_answer_carried: "carried c c' \<Longrightarrow> outage_answer K c' now response \<Longrightarrow> outage_answer K c now response"
  using blocked_at_carried leased_at_carried by (auto simp: outage_answer_def split: mw_response.splits)

text \<open>The keys of the lease cache that one request is about.\<close>

definition request_keys :: "mw_config \<Rightarrow> mw_request \<Rightarrow> rat \<Rightarrow> cache_key set" where
  "request_keys mw r now =
     (case (mw_tiered mw, mr_resolved r) of
        (Some trl, Some su) \<Rightarrow> subject_keys trl su (snd (limits_for (tl_tiers trl) (su_plan su)))
          (request_class_of (tl_tiers trl) (mr_method r)) now
      | _ \<Rightarrow> {})"

lemma failing_tiered_part:
  assumes "all_calls_fail T" and "tiered_part T mw s c r lc now = (x, s', c')"
  shows "carried c c' \<and> (case x of None \<Rightarrow> True | Some response \<Rightarrow> outage_answer (request_keys mw r now) c now response)"
proof (cases "\<exists>trl su. mw_tiered mw = Some trl \<and> mr_resolved r = Some su \<and>
    \<not> (case lc of None \<Rightarrow> False | Some lc \<Rightarrow> lc_name lc \<in> set (ti_ip_classes (tl_tiers trl)))")
  case False
  then show ?thesis using assms(2) by (auto simp: tiered_part_def split: option.splits if_splits)
next
  case True
  then obtain trl su where on: "mw_tiered mw = Some trl" "mr_resolved r = Some su"
    "\<not> (case lc of None \<Rightarrow> False | Some lc \<Rightarrow> lc_name lc \<in> set (ti_ip_classes (tl_tiers trl)))" by blast
  obtain y s2 c2 where su: "check_subject T trl s c su (mr_method r) now = (y, s2, c2)"
    by (metis surj_pair)
  have "subject_keys trl su (snd (limits_for (tl_tiers trl) (su_plan su)))
      (request_class_of (tl_tiers trl) (mr_method r)) now \<subseteq> request_keys mw r now"
    using on by (simp add: request_keys_def)
  note failed = failing_subject [OF assms(1) su this]
  show ?thesis
    using assms(2) on failed enforce_remembered by (cases y) (auto simp: tiered_part_def su)
qed

lemma classify_mem: "classify verb path cs = Some lc \<Longrightarrow> lc \<in> set cs"
  by (induction cs) (auto split: if_splits)

definition limiters_complete :: "mw_config \<Rightarrow> bool" where
  "limiters_complete mw = list_all (\<lambda>lc. dget (mw_limiters mw) (lc_name lc) \<noteq> None) (mw_classes mw)"

lemma build_limiters_complete:
  assumes "lc \<in> set cs"
  shows "dget (build_limiters cs anchor a) (lc_name lc) \<noteq> None"
proof -
  have built: "dget (fold (\<lambda>lc. dset (lc_name lc)
      \<lparr>rl_namespace = lc_name lc, rl_anchor = anchor, rl_count_attribute = a\<rparr>) cs d) n \<noteq> None"
    if "dget d n \<noteq> None \<or> (\<exists>lc \<in> set cs. lc_name lc = n)" for d n
    using that by (induction cs arbitrary: d) auto
  show ?thesis using built [of "[]" "lc_name lc"] assms unfolding build_limiters_def by blast
qed

lemma failing_middleware:
  assumes "all_calls_fail T" and "limiters_complete mw" and "middleware T mw s c r enabled now = (response, s', c')"
  shows "carried c c' \<and> outage_answer (request_keys mw r now) c now response"
proof (cases "enabled \<and> \<not> exempt mw (mr_method r) (mr_path r)")
  case False
  then show ?thesis using assms(3) by (cases enabled) (simp_all add: middleware_def outage_answer_def)
next
  case True
  define lc where "lc = classify (mr_method r) (mr_path r) (mw_classes mw)"
  obtain x s1 c1 where part: "tiered_part T mw s c r lc now = (x, s1, c1)" by (metis surj_pair)
  note tiered = failing_tiered_part [OF assms(1) part]
  have run: "middleware T mw s c r enabled now =
     (case x of Some resp \<Rightarrow> (resp, s1, c1)
      | None \<Rightarrow> (case lc of
          None \<Rightarrow> (Untouched, s1, c1)
        | Some lc \<Rightarrow>
            (case dget (mw_limiters mw) (lc_name lc) of
               None \<Rightarrow> (NoLimiter, s1, c1)
             | Some rl \<Rightarrow>
                 (let (d, s) = rl_check T rl s1 (mr_identity r) (lc_limit lc) (lc_window_seconds lc) now
                  in (enforce d (lc_name lc) None, s, c1)))))"
    using True part by (simp add: middleware_def lc_def [symmetric] split: option.split)
  consider (keyed) resp where "x = Some resp" | (none) "x = None" "lc = None" | (counted) l where "x = None" "lc = Some l"
    by (cases x; cases lc) auto
  then show ?thesis
  proof cases
    case keyed
    then show ?thesis using assms(3) run tiered by simp
  next
    case none
    then show ?thesis using assms(3) run tiered by (simp add: outage_answer_def)
  next
    case counted
    then have "dget (mw_limiters mw) (lc_name l) \<noteq> None"
      using assms(2) classify_mem [of "mr_method r" "mr_path r"] by (auto simp: limiters_complete_def list_all_iff lc_def)
    then obtain rl where rl: "dget (mw_limiters mw) (lc_name l) = Some rl" by blast
    obtain d s2 where d: "rl_check T rl s1 (mr_identity r) (lc_limit l) (lc_window_seconds l) now = (d, s2)"
      by fastforce
    have "outage_answer (request_keys mw r now) c now (enforce d (lc_name l) None)"
      by (rule enforce_remembered [OF failed_open_remembered [OF failing_check [OF assms(1) d]]])
    then show ?thesis using assms(3) run counted rl d tiered by auto
  qed
qed

text \<open>The requests one container serves in order, each with what \<open>enabled\<close> answers and its clock.\<close>

fun serve_requests ::
  "'s table_ops \<Rightarrow> mw_config \<Rightarrow> 's \<Rightarrow> lease_cache \<Rightarrow> (mw_request \<times> bool \<times> rat) list \<Rightarrow>
     mw_response list \<times> 's \<times> lease_cache" where
  "serve_requests T mw s cache [] = ([], s, cache)"
| "serve_requests T mw s cache ((r, enabled, now) # rs) =
     (let (response, s, cache) = middleware T mw s cache r enabled now;
          (responses, s, cache) = serve_requests T mw s cache rs
      in (response # responses, s, cache))"

lemma failing_requests:
  assumes "all_calls_fail T" and "limiters_complete mw" and "serve_requests T mw s c rs = (responses, s', c')"
  shows "list_all2 (\<lambda>(r, enabled, now). outage_answer (request_keys mw r now) c now) rs responses"
  using assms(3)
proof (induction rs arbitrary: s c responses)
  case Nil
  then show ?case by simp
next
  case (Cons q rs)
  obtain r enabled now where q: "q = (r, enabled, now)" by (metis surj_pair)
  obtain response s1 c1 where one: "middleware T mw s c r enabled now = (response, s1, c1)" by (metis surj_pair)
  obtain more s2 c2 where rest: "serve_requests T mw s1 c1 rs = (more, s2, c2)" by (metis surj_pair)
  have out: "responses = response # more" "(s', c') = (s2, c2)" using Cons.prems one rest by (simp_all add: q)
  note first = failing_middleware [OF assms(1,2) one]
  have "list_all2 (\<lambda>(r, enabled, now). outage_answer (request_keys mw r now) c1 now) rs more"
    using Cons.IH rest out(2) by simp
  then have "list_all2 (\<lambda>(r, enabled, now). outage_answer (request_keys mw r now) c now) rs more"
    by (rule list_all2_mono) (use first outage_answer_carried in auto)
  then show ?case using first by (simp add: q out(1))
qed

section \<open>Properties\<close>

text \<open>
  C25. The middleware fails open. Let every call to the table fail from some point on, and let
  \<open>cache\<close> be the lease state a container holds then. Of the requests it serves from there, in any
  number and order and whatever its classes, plans, resolver and exemptions are, a request is
  refused only while that cache has one of the request's own keys blocked, and is sent a quota
  only in the minute of a lease that cache holds of one of them. Every other one is passed on, untouched or
  without the headers that would advertise a quota: so with no lease state none is refused and
  none is told a quota. Each class is assumed to have its limiter, as it has in the dictionary
  the middleware builds (\<open>build_limiters_complete\<close>).
\<close>

theorem middleware_fails_open:
  assumes "all_calls_fail T" and "limiters_complete mw"
    and "serve_requests T mw s cache rs = (responses, s', cache')"
  shows "list_all2 (\<lambda>(r, enabled, now) response.
    (case response of
       Untouched \<Rightarrow> True
     | Served d headers \<Rightarrow> headers = None \<or>
         (\<exists>k st. k \<in> request_keys mw r now \<and> dget cache k = Some st \<and> 0 < ls_tokens st \<and>
            ls_minute st = window_start_of now minute_seconds)
     | Refused body d limit_name plan_name \<Rightarrow>
         (\<exists>k st. k \<in> request_keys mw r now \<and> dget cache k = Some st \<and> now < of_int (ls_blocked_until st))
     | NoLimiter \<Rightarrow> False)) rs responses"
  by (rule list_all2_mono [OF failing_requests [OF assms]])
    (auto simp: outage_answer_def leased_at_def blocked_at_def split: mw_response.splits)

definition dead_table :: "unit table_ops" where
  "dead_table = \<lparr>tb_get = (\<lambda>s pk. Inl ServiceError), tb_update = (\<lambda>s pk actions c. (Inl ServiceError, s)),
     tb_put = (\<lambda>s pk i. (Inl ServiceError, s)), tb_delete = (\<lambda>s pk. (Inl ServiceError, s))\<rparr>"

definition demo_class :: limit_class where
  "demo_class = \<lparr>lc_name = ''api'', lc_limit = 2, lc_window_seconds = 60, lc_methods = None,
     lc_path_prefixes = None, lc_exempt_paths = []\<rparr>"

definition demo_middleware :: mw_config where
  "demo_middleware = \<lparr>mw_classes = [demo_class], mw_limiters = build_limiters [demo_class] ClockAnchor ''count'',
     mw_exempt_paths = [''/health''], mw_exempt_prefixes = [], mw_exempt_methods = [''OPTIONS''],
     mw_tiered = Some demo_tiers\<rparr>"

definition demo_request :: mw_request where
  "demo_request = \<lparr>mr_method = ''GET'', mr_path = ''/a'', mr_identity = ''ip'',
     mr_resolved = Some \<lparr>su_plan = ''pro'', su_tenant = None, su_user = Some ''u'', su_token = None\<rparr>\<rparr>"

theorem middleware_fails_open_witness:
  "\<exists>a b. fst (serve_requests dead_table demo_middleware () [] [(demo_request, True, 90), (demo_request, True, 91)]) = [a, b] \<and>
    a \<in> {Untouched} \<union> {r. \<exists>d. r = Served d None} \<and> b \<in> {Untouched} \<union> {r. \<exists>d. r = Served d None}"
proof -
  let ?rs = "[(demo_request, True, 90), (demo_request, True, 91)]"
  have down: "all_calls_fail dead_table" by (simp add: all_calls_fail_def dead_table_def)
  have complete: "limiters_complete demo_middleware"
    using build_limiters_complete [of demo_class "[demo_class]"] by (simp add: limiters_complete_def demo_middleware_def)
  obtain responses s' c' where run: "serve_requests dead_table demo_middleware () [] ?rs = (responses, s', c')"
    by (metis surj_pair)
  obtain a b where ab: "responses = [a, b]"
    using run by (auto simp: Let_def split: prod.splits)
  have "(case x of Untouched \<Rightarrow> True | Served d headers \<Rightarrow> headers = None | _ \<Rightarrow> False) \<Longrightarrow>
      x \<in> {Untouched} \<union> {r. \<exists>d. r = Served d None}" for x
    by (cases x) simp_all
  then show ?thesis
    using middleware_fails_open [OF down complete run] run by (simp add: ab)
qed

end
