(* ===== verification/EmailCap.thy ===== *)
theory EmailCap
  imports RateProperties
begin

text \<open>
  email_cap.py: the caps on outbound mail, counted in the same table as the limiters, in one
  conditional update or one transaction of several. The transaction is DynamoDB's, a parameter
  whose documented behaviour is the locale \<open>transact_table\<close>; SHA-256 in hexadecimal is the
  parameter \<open>H\<close>. Logging and metrics are left out.
\<close>

section \<open>Transactions\<close>

text \<open>
  \<^verbatim>\<open>Repository.transact_write\<close> of conditional updates. A cancellation carries one reason code per
  action, or none.
\<close>

datatype transact_error = Canceled "string list" | TransactFailed

type_synonym 's transact = "'s \<Rightarrow> (string \<times> action list \<times> condition) list \<Rightarrow> (transact_error + unit) \<times> 's"

definition conditional_failure :: string where
  "conditional_failure = ''ConditionalCheckFailed''"

definition write_all :: "(string \<times> action list \<times> condition) list \<Rightarrow> (string \<Rightarrow> item) \<Rightarrow> string \<Rightarrow> item" where
  "write_all writes i = fold (\<lambda>(pk, actions, c) i. i(pk := apply_actions actions (i pk))) writes i"

definition all_hold :: "(string \<times> action list \<times> condition) list \<Rightarrow> (string \<Rightarrow> item) \<Rightarrow> bool" where
  "all_hold writes i = list_all (\<lambda>(pk, actions, c). holds (i pk) c) writes"

locale transact_table = counter_table T items
  for T :: "'s table_ops" and items :: "'s \<Rightarrow> string \<Rightarrow> item" +
  fixes X :: "'s transact"
  assumes transact_applied: "distinct (map fst writes) \<Longrightarrow> fst (X s writes) = Inr () \<Longrightarrow>
      all_hold writes (items s) \<and> items (snd (X s writes)) = write_all writes (items s)"
    and transact_canceled: "fst (X s writes) = Inl (Canceled reasons) \<Longrightarrow> items (snd (X s writes)) = items s"
    and transact_failed: "distinct (map fst writes) \<Longrightarrow> fst (X s writes) = Inl TransactFailed \<Longrightarrow>
      items (snd (X s writes)) = items s \<or>
      all_hold writes (items s) \<and> items (snd (X s writes)) = write_all writes (items s)"

definition item_transact :: "(string \<Rightarrow> item) transact" where
  "item_transact s writes =
     (if \<not> distinct (map fst writes) then (Inl TransactFailed, s)
      else if all_hold writes s then (Inr (), write_all writes s)
      else (Inl (Canceled (map (\<lambda>(pk, actions, c). if holds (s pk) c then ''None'' else conditional_failure)
              writes)), s))"

interpretation item_transact: transact_table item_table "\<lambda>s. s" item_transact
  by unfold_locales (auto simp: item_transact_def split: if_splits)

section \<open>Policy\<close>

datatype email_category = Standard | Transactional
datatype cap_scope = RecipientCap | TenantCap | DailyCap

fun category_name :: "email_category \<Rightarrow> string" where
  "category_name Standard = ''standard''"
| "category_name Transactional = ''transactional''"

record email_limits =
  el_per_recipient :: "int option"
  el_per_recipient_window :: int
  el_per_tenant :: "int option"
  el_per_tenant_window :: int
  el_daily :: "int option"

definition below_one :: "int option \<Rightarrow> bool" where
  "below_one v = (case v of None \<Rightarrow> False | Some n \<Rightarrow> n < 1)"

definition email_limits_ok :: "email_limits \<Rightarrow> bool" where
  "email_limits_ok l =
     (\<not> list_ex below_one [el_per_recipient l, el_per_tenant l, el_daily l] \<and>
      \<not> list_ex (\<lambda>v. v < 1) [el_per_recipient_window l, el_per_tenant_window l])"

definition email_limits_enabled :: "email_limits \<Rightarrow> bool" where
  "email_limits_enabled l = list_ex (\<lambda>v. v \<noteq> None) [el_per_recipient l, el_per_tenant l, el_daily l]"

record email_policy =
  ep_standard :: email_limits
  ep_transactional :: email_limits

definition lower_limit :: "int option \<Rightarrow> int option \<Rightarrow> bool" where
  "lower_limit standard transactional =
     (case (standard, transactional) of (Some s, Some t) \<Rightarrow> t < s | _ \<Rightarrow> False)"

definition email_policy_ok :: "email_policy \<Rightarrow> bool" where
  "email_policy_ok p =
     (\<not> lower_limit (el_per_recipient (ep_standard p)) (el_per_recipient (ep_transactional p)) \<and>
      \<not> lower_limit (el_per_tenant (ep_standard p)) (el_per_tenant (ep_transactional p)) \<and>
      \<not> lower_limit (el_daily (ep_standard p)) (el_daily (ep_transactional p)))"

definition policy_limits :: "email_policy \<Rightarrow> email_category \<Rightarrow> email_limits" where
  "policy_limits p c = (if c = Transactional then ep_transactional p else ep_standard p)"

section \<open>Counting a send\<close>

record email_decision =
  ed_allowed :: bool
  ed_category :: email_category
  ed_exceeded :: "cap_scope list"
  ed_failed_open :: bool
  ed_counted :: bool

record cap_counter =
  cc_scope :: cap_scope
  cc_key :: string
  cc_limit :: int
  cc_window_end :: int

record email_cap =
  ec_policy :: email_policy
  ec_namespace :: string

definition cap_ttl_grace :: int where "cap_ttl_grace = 60"
definition cap_count_attribute :: string where "cap_count_attribute = ''count''"
definition cap_day_seconds :: int where "cap_day_seconds = 86400"

definition recipient_hash :: "(string \<Rightarrow> string) \<Rightarrow> string \<Rightarrow> string" where
  "recipient_hash H address = take 32 (H (lower (strip address)))"

definition cap_window :: "rat \<Rightarrow> int \<Rightarrow> int \<times> int" where
  "cap_window now window_seconds =
     (let start = window_start_of now window_seconds in (start, start + window_seconds))"

definition cap_base :: "email_cap \<Rightarrow> email_category \<Rightarrow> string" where
  "cap_base cap c = ec_namespace cap @ ''#'' @ category_name c"

definition cap_counters ::
  "(string \<Rightarrow> string) \<Rightarrow> email_cap \<Rightarrow> string \<Rightarrow> string \<Rightarrow> email_category \<Rightarrow> rat \<Rightarrow> cap_counter list" where
  "cap_counters H cap recipient tenant c now =
     (let limits = policy_limits (ec_policy cap) c;
          base = cap_base cap c
      in (case el_per_recipient limits of
            None \<Rightarrow> []
          | Some n \<Rightarrow>
              (let (start, stop) = cap_window now (el_per_recipient_window limits)
               in [\<lparr>cc_scope = RecipientCap,
                    cc_key = base @ ''#rcpt#'' @ tenant @ ''#'' @ recipient_hash H recipient @ ''#'' @ int_str start,
                    cc_limit = n, cc_window_end = stop\<rparr>])) @
         (case el_per_tenant limits of
            None \<Rightarrow> []
          | Some n \<Rightarrow>
              (let (start, stop) = cap_window now (el_per_tenant_window limits)
               in [\<lparr>cc_scope = TenantCap, cc_key = base @ ''#tenant#'' @ tenant @ ''#'' @ int_str start,
                    cc_limit = n, cc_window_end = stop\<rparr>])) @
         (case el_daily limits of
            None \<Rightarrow> []
          | Some n \<Rightarrow>
              (let (start, stop) = cap_window now cap_day_seconds
               in [\<lparr>cc_scope = DailyCap, cc_key = base @ ''#daily#'' @ int_str start,
                    cc_limit = n, cc_window_end = stop\<rparr>])))"

definition cap_update :: "cap_counter \<Rightarrow> string \<times> action list \<times> condition" where
  "cap_update c =
     (cc_key c,
      [AddN cap_count_attribute 1, SetIfAbsent rate_ttl_attribute (cc_window_end c + cap_ttl_grace)],
      CondOr (Absent cap_count_attribute) (LessN cap_count_attribute (cc_limit c)))"

definition failed_scopes :: "cap_counter list \<Rightarrow> string list \<Rightarrow> cap_scope list" where
  "failed_scopes counters reasons =
     (if length reasons \<noteq> length counters then map cc_scope counters
      else map (cc_scope \<circ> fst) (filter (\<lambda>(c, reason). reason = conditional_failure) (zip counters reasons)))"

text \<open>\<^const>\<open>None\<close> is an exception the caller turns into a fail open.\<close>

definition count_send ::
  "'s table_ops \<Rightarrow> 's transact \<Rightarrow> 's \<Rightarrow> cap_counter list \<Rightarrow> cap_scope list option \<times> 's" where
  "count_send T X s counters =
     (case counters of
        [c] \<Rightarrow>
          (let (pk, actions, condition) = cap_update c
           in case tb_update T s pk actions (Some condition) of
                (Inl ConditionFailed, s) \<Rightarrow> (Some [cc_scope c], s)
              | (Inl ServiceError, s) \<Rightarrow> (None, s)
              | (Inr _, s) \<Rightarrow> (Some [], s))
      | _ \<Rightarrow>
          (case X s (map cap_update counters) of
             (Inl (Canceled reasons), s) \<Rightarrow>
               (if conditional_failure \<notin> set reasons then None else Some (failed_scopes counters reasons), s)
           | (Inl TransactFailed, s) \<Rightarrow> (None, s)
           | (Inr _, s) \<Rightarrow> (Some [], s)))"

definition email_check ::
  "'s table_ops \<Rightarrow> 's transact \<Rightarrow> (string \<Rightarrow> string) \<Rightarrow> email_cap \<Rightarrow> 's \<Rightarrow> string \<Rightarrow> string \<Rightarrow> email_category \<Rightarrow> rat \<Rightarrow>
     email_decision \<times> 's" where
  "email_check T X H cap s recipient tenant c now =
     (let counters = cap_counters H cap recipient tenant c now in
      if counters = []
      then (\<lparr>ed_allowed = True, ed_category = c, ed_exceeded = [], ed_failed_open = False, ed_counted = False\<rparr>, s)
      else
        (case count_send T X s counters of
           (None, s) \<Rightarrow>
             (\<lparr>ed_allowed = True, ed_category = c, ed_exceeded = [], ed_failed_open = True, ed_counted = True\<rparr>, s)
         | (Some [], s) \<Rightarrow>
             (\<lparr>ed_allowed = True, ed_category = c, ed_exceeded = [], ed_failed_open = False, ed_counted = True\<rparr>, s)
         | (Some exceeded, s) \<Rightarrow>
             (\<lparr>ed_allowed = False, ed_category = c, ed_exceeded = exceeded, ed_failed_open = False,
               ed_counted = True\<rparr>, s)))"

section \<open>What a write does to the counters\<close>

definition send_count :: "item \<Rightarrow> int" where
  "send_count i = (case i cap_count_attribute of None \<Rightarrow> 0 | Some n \<Rightarrow> n)"

lemma cap_names [simp]: "cap_count_attribute \<noteq> rate_ttl_attribute" "rate_ttl_attribute \<noteq> cap_count_attribute"
  by (simp_all add: cap_count_attribute_def rate_ttl_attribute_def)

lemma cap_update_key [simp]: "fst (cap_update c) = cc_key c"
  by (simp add: cap_update_def)

lemma send_count_update: "send_count (apply_actions (fst (snd (cap_update c))) i) = send_count i + 1"
  by (simp add: send_count_def cap_update_def apply_actions_def)

lemma cap_holds: "1 \<le> cc_limit c \<Longrightarrow> holds i (snd (snd (cap_update c))) = (send_count i < cc_limit c)"
  by (auto simp: cap_update_def send_count_def split: option.splits)

lemma write_all_notin: "pk \<notin> fst ` set writes \<Longrightarrow> write_all writes i pk = i pk"
  by (induction writes arbitrary: i) (auto simp: write_all_def)

lemma write_all_in:
  "distinct (map fst writes) \<Longrightarrow> (pk, acts, c) \<in> set writes \<Longrightarrow> write_all writes i pk = apply_actions acts (i pk)"
proof (induction writes arbitrary: i)
  case Nil
  then show ?case by simp
next
  case (Cons w ws)
  obtain pk' acts' c' where w: "w = (pk', acts', c')" by (cases w)
  have step: "write_all (w # ws) i = write_all ws (i(pk' := apply_actions acts' (i pk')))"
    by (simp add: write_all_def w)
  show ?case
  proof (cases "pk = pk'")
    case True
    then have "pk \<notin> fst ` set ws" using Cons.prems(1) by (simp add: w)
    then have "(pk, acts, c) = w" using Cons.prems(2) by force
    then show ?thesis using write_all_notin [OF \<open>pk \<notin> fst ` set ws\<close>] by (simp add: step [unfolded w] w)
  next
    case False
    then have "(pk, acts, c) \<in> set ws" using Cons.prems(2) by (auto simp: w)
    then show ?thesis using Cons.IH Cons.prems(1) False by (simp add: step [unfolded w] w)
  qed
qed

lemma cap_counters_distinct: "distinct (map cc_key (cap_counters H cap r t c now))"
  by (simp add: cap_counters_def Let_def cap_window_def split: option.split)

lemma cap_counters_keys:
  "k \<in> set (cap_counters H cap r t c now) \<Longrightarrow> \<exists>x. cc_key k = cap_base cap c @ CHR ''#'' # x"
  by (auto simp: cap_counters_def Let_def cap_window_def split: option.splits)

lemma cap_counters_positive:
  "email_limits_ok (policy_limits (ec_policy cap) c) \<Longrightarrow> k \<in> set (cap_counters H cap r t c now) \<Longrightarrow> 1 \<le> cc_limit k"
  by (auto simp: cap_counters_def Let_def cap_window_def email_limits_ok_def below_one_def split: option.splits)

text \<open>
  Either nothing was written, and the send was not allowed on a count, or every counter was
  below its limit and has been incremented.
\<close>

definition counted_in :: "cap_counter list \<Rightarrow> (string \<Rightarrow> item) \<Rightarrow> (string \<Rightarrow> item) \<Rightarrow> bool" where
  "counted_in counters i i' =
     ((\<forall>c \<in> set counters. send_count (i (cc_key c)) < cc_limit c \<and>
         send_count (i' (cc_key c)) = send_count (i (cc_key c)) + 1) \<and>
      (\<forall>pk. pk \<notin> cc_key ` set counters \<longrightarrow> i' pk = i pk))"

lemma write_all_counted:
  assumes "distinct (map cc_key counters)" and "\<forall>c \<in> set counters. 1 \<le> cc_limit c"
    and "all_hold (map cap_update counters) i"
  shows "counted_in counters i (write_all (map cap_update counters) i)"
proof -
  have keys: "map fst (map cap_update counters) = map cc_key counters"
    by (simp add: cap_update_def)
  have "send_count (i (cc_key c)) < cc_limit c \<and>
      send_count (write_all (map cap_update counters) i (cc_key c)) = send_count (i (cc_key c)) + 1"
    if "c \<in> set counters" for c
  proof -
    have "(cc_key c, fst (snd (cap_update c)), snd (snd (cap_update c))) \<in> set (map cap_update counters)"
      using that by (force simp: cap_update_def)
    from write_all_in [OF _ this] have "write_all (map cap_update counters) i (cc_key c) =
        apply_actions (fst (snd (cap_update c))) (i (cc_key c))"
      using assms(1) unfolding keys .
    moreover have "holds (i (cc_key c)) (snd (snd (cap_update c)))"
      using assms(3) that by (force simp: all_hold_def list_all_iff cap_update_def)
    ultimately show ?thesis using assms(2) that cap_holds send_count_update by simp
  qed
  moreover have "write_all (map cap_update counters) i pk = i pk" if "pk \<notin> cc_key ` set counters" for pk
    using that by (intro write_all_notin) (force simp: cap_update_def)
  ultimately show ?thesis by (simp add: counted_in_def)
qed

lemma failed_scopes_nonempty:
  assumes "counters \<noteq> []" and "conditional_failure \<in> set reasons"
  shows "failed_scopes counters reasons \<noteq> []"
proof (cases "length reasons = length counters")
  case True
  then obtain n where n: "n < length reasons" "reasons ! n = conditional_failure" "n < length counters"
    using assms(2) by (metis in_set_conv_nth)
  then have "(counters ! n, reasons ! n) \<in> set (zip counters reasons)"
    by (metis length_zip min_less_iff_conj nth_mem nth_zip)
  then show ?thesis using n True by (auto simp: failed_scopes_def filter_empty_conv)
next
  case False
  then show ?thesis using assms(1) by (simp add: failed_scopes_def)
qed

context transact_table begin

lemma count_send_spec:
  assumes "counters \<noteq> []" and "distinct (map cc_key counters)" and "\<forall>c \<in> set counters. 1 \<le> cc_limit c"
    and "count_send T X s counters = (r, s')"
  shows "r = Some [] \<and> counted_in counters (items s) (items s') \<or>
    r = None \<and> (items s' = items s \<or> counted_in counters (items s) (items s')) \<or>
    (\<exists>e. r = Some e \<and> e \<noteq> []) \<and> items s' = items s"
proof (cases "\<exists>c. counters = [c]")
  case True
  then obtain c where c: "counters = [c]" by blast
  let ?u = "tb_update T s (cc_key c) (fst (snd (cap_update c))) (Some (snd (snd (cap_update c))))"
  have applied: "admits (items s (cc_key c)) (Some (snd (snd (cap_update c)))) \<Longrightarrow>
      items s2 = (items s)(cc_key c := apply_actions (fst (snd (cap_update c))) (items s (cc_key c))) \<Longrightarrow>
      counted_in counters (items s) (items s2)" for s2
    using assms(3) cap_holds [of c] send_count_update [of c] by (simp add: counted_in_def c admits_def)
  have run: "count_send T X s counters =
     (case ?u of (Inl ConditionFailed, s) \<Rightarrow> (Some [cc_scope c], s) | (Inl ServiceError, s) \<Rightarrow> (None, s)
        | (Inr _, s) \<Rightarrow> (Some [], s))"
    unfolding count_send_def c list.case Let_def split_beta cap_update_key ..
  obtain x s2 where x: "?u = (x, s2)" by fastforce
  consider "x = Inl ConditionFailed" | "x = Inl ServiceError" | a where "x = Inr a"
    by (cases x; cases "projl x") auto
  then show ?thesis
  proof cases
    case 1
    then have "r = Some [cc_scope c]" "s' = s2" using assms(4) x by (simp_all add: run)
    moreover have "items s2 = items s"
      using update_refused [of s "cc_key c" "fst (snd (cap_update c))"] x 1 by (metis fst_conv snd_conv)
    ultimately show ?thesis by simp
  next
    case 2
    then have "r = None" "s' = s2" using assms(4) x by (simp_all add: run)
    moreover have "items s2 = items s \<or> counted_in counters (items s) (items s2)"
      using update_error [of s "cc_key c" "fst (snd (cap_update c))"] x 2 applied by (metis fst_conv snd_conv)
    ultimately show ?thesis by simp
  next
    case 3
    then have "r = Some []" "s' = s2" using assms(4) x by (simp_all add: run)
    moreover have "counted_in counters (items s) (items s2)"
      using update_applied [of s "cc_key c" "fst (snd (cap_update c))"] x 3 applied by (metis fst_conv snd_conv)
    ultimately show ?thesis by simp
  qed
next
  case False
  have dist: "distinct (map fst (map cap_update counters))"
    using assms(2) by (simp add: comp_def cap_update_def)
  have run: "count_send T X s counters = (case X s (map cap_update counters) of
             (Inl (Canceled reasons), s) \<Rightarrow>
               (if conditional_failure \<notin> set reasons then None else Some (failed_scopes counters reasons), s)
           | (Inl TransactFailed, s) \<Rightarrow> (None, s)
           | (Inr _, s) \<Rightarrow> (Some [], s))"
    using False by (simp add: count_send_def split: list.split)
  obtain x s2 where x: "X s (map cap_update counters) = (x, s2)" by fastforce
  note counted = write_all_counted [OF assms(2,3)]
  consider reasons where "x = Inl (Canceled reasons)" | "x = Inl TransactFailed" | "x = Inr ()"
    by (cases x; cases "projl x") auto
  then show ?thesis
  proof cases
    case 1
    then have "items s' = items s" and "r = None \<or> (\<exists>e. r = Some e \<and> e \<noteq> [])"
      using assms(4) x transact_canceled [of s "map cap_update counters" reasons]
        failed_scopes_nonempty [OF assms(1), of reasons]
      by (auto simp: run split: if_splits)
    then show ?thesis by auto
  next
    case 2
    then have "r = None" "s' = s2" using assms(4) x by (simp_all add: run)
    then show ?thesis using transact_failed [OF dist, of s] x 2 counted by auto
  next
    case 3
    then have "r = Some []" "s' = s2" using assms(4) x by (simp_all add: run)
    then show ?thesis using transact_applied [OF dist, of s] x 3 counted by auto
  qed
qed

text \<open>Sending, in order: each send is a recipient, a tenant, a category and a time.\<close>

end

type_synonym send = "string \<times> string \<times> email_category \<times> rat"

fun send_run ::
  "'s table_ops \<Rightarrow> 's transact \<Rightarrow> (string \<Rightarrow> string) \<Rightarrow> email_cap \<Rightarrow> 's \<Rightarrow> send list \<Rightarrow> email_decision list \<times> 's" where
  "send_run T X H cap s [] = ([], s)"
| "send_run T X H cap s ((r, t, c, now) # sends) =
     (let (d, s) = email_check T X H cap s r t c now; (ds, s) = send_run T X H cap s sends in (d # ds, s))"

definition counts_on :: "(string \<Rightarrow> string) \<Rightarrow> email_cap \<Rightarrow> string \<Rightarrow> int \<Rightarrow> send \<Rightarrow> bool" where
  "counts_on H cap pk limit send =
     (case send of (r, t, c, now) \<Rightarrow>
        list_ex (\<lambda>k. cc_key k = pk \<and> cc_limit k \<le> limit) (cap_counters H cap r t c now))"

definition sent_on :: "(string \<Rightarrow> string) \<Rightarrow> email_cap \<Rightarrow> string \<Rightarrow> int \<Rightarrow> send list \<Rightarrow> email_decision list \<Rightarrow> nat" where
  "sent_on H cap pk limit sends ds =
     length (filter (\<lambda>(send, d). counts_on H cap pk limit send \<and> ed_allowed d \<and> \<not> ed_failed_open d) (zip sends ds))"

text \<open>The sends of a run that have a counter in the row, and were decided as \<open>P\<close> says.\<close>

definition decided_on ::
  "(string \<Rightarrow> string) \<Rightarrow> email_cap \<Rightarrow> string \<Rightarrow> (email_decision \<Rightarrow> bool) \<Rightarrow> send list \<Rightarrow> email_decision list \<Rightarrow> nat" where
  "decided_on H cap pk P sends ds =
     length (filter (\<lambda>((r, t, c, now), d). pk \<in> cc_key ` set (cap_counters H cap r t c now) \<and> P d) (zip sends ds))"

definition policy_valid :: "email_policy \<Rightarrow> bool" where
  "policy_valid p = (email_limits_ok (ep_standard p) \<and> email_limits_ok (ep_transactional p) \<and> email_policy_ok p)"

lemma policy_valid_limits: "policy_valid p \<Longrightarrow> email_limits_ok (policy_limits p c)"
  by (simp add: policy_valid_def policy_limits_def)

context transact_table begin

lemma email_check_spec:
  assumes "policy_valid (ec_policy cap)" and "email_check T X H cap s r t c now = (d, s')"
  defines "counters \<equiv> cap_counters H cap r t c now"
  shows "(ed_allowed d \<and> \<not> ed_failed_open d \<longrightarrow> counted_in counters (items s) (items s')) \<and>
    (\<not> ed_allowed d \<longrightarrow> items s' = items s) \<and>
    (items s' = items s \<or> counted_in counters (items s) (items s'))"
proof (cases "counters = []")
  case True
  then have "items s' = items s" using assms(2) by (simp add: email_check_def counters_def Let_def)
  then show ?thesis using True by (simp add: counted_in_def)
next
  case False
  have pos: "\<forall>c \<in> set counters. 1 \<le> cc_limit c"
    using cap_counters_positive [OF policy_valid_limits [OF assms(1)]] by (auto simp: counters_def)
  have dist: "distinct (map cc_key counters)" by (simp add: counters_def cap_counters_distinct)
  obtain x s2 where x: "count_send T X s counters = (x, s2)" by fastforce
  note spec = count_send_spec [OF False dist pos x]
  show ?thesis
    using assms(2) False x spec
    by (auto simp: email_check_def counters_def [symmetric] Let_def split: option.splits list.splits)
qed

lemma send_count_mono:
  "items s' = items s \<or> counted_in counters (items s) (items s') \<Longrightarrow> send_count (items s pk) \<le> send_count (items s' pk)"
  by (cases "pk \<in> cc_key ` set counters") (auto simp: counted_in_def)

lemma send_run_bound:
  assumes "policy_valid (ec_policy cap)" and "send_run T X H cap s sends = (ds, s')"
  shows "int (sent_on H cap pk limit sends ds) \<le> max 0 (limit - send_count (items s pk))"
  using assms(2)
proof (induction sends arbitrary: s ds s')
  case Nil
  then show ?case by (simp add: sent_on_def)
next
  case (Cons send sends)
  obtain r t c now where send: "send = (r, t, c, now)" by (cases send)
  obtain d s1 where d: "email_check T X H cap s r t c now = (d, s1)" by fastforce
  obtain ds1 s2 where run: "send_run T X H cap s1 sends = (ds1, s2)" by fastforce
  have ds: "ds = d # ds1" using Cons.prems d run by (simp add: send)
  note spec = email_check_spec [OF assms(1) d]
  have mono: "send_count (items s pk) \<le> send_count (items s1 pk)" using spec send_count_mono by blast
  show ?case
  proof (cases "counts_on H cap pk limit send \<and> ed_allowed d \<and> \<not> ed_failed_open d")
    case False
    then show ?thesis using Cons.IH [OF run] mono by (auto simp: ds sent_on_def)
  next
    case True
    then obtain k where "k \<in> set (cap_counters H cap r t c now)" "cc_key k = pk" "cc_limit k \<le> limit"
      by (auto simp: counts_on_def send list_ex_iff)
    then have "send_count (items s pk) < limit" "send_count (items s1 pk) = send_count (items s pk) + 1"
      using spec True by (fastforce simp: counted_in_def)+
    then show ?thesis using Cons.IH [OF run] True by (auto simp: ds sent_on_def)
  qed
qed

lemma send_run_grows:
  assumes "policy_valid (ec_policy cap)" and "send_run T X H cap s sends = (ds, s')"
  shows "int (decided_on H cap pk (\<lambda>d. ed_allowed d \<and> \<not> ed_failed_open d) sends ds) \<le>
      send_count (items s' pk) - send_count (items s pk) \<and>
    send_count (items s' pk) - send_count (items s pk) \<le> int (decided_on H cap pk ed_allowed sends ds)"
proof -
  show "int (decided_on H cap pk (\<lambda>d. ed_allowed d \<and> \<not> ed_failed_open d) sends ds) \<le>
      send_count (items s' pk) - send_count (items s pk) \<and>
    send_count (items s' pk) - send_count (items s pk) \<le> int (decided_on H cap pk ed_allowed sends ds)"
    using assms(2)
  proof (induction sends arbitrary: s ds)
    case Nil
    then show ?case by (simp add: decided_on_def)
  next
    case (Cons send sends)
    obtain r t c now where send: "send = (r, t, c, now)" by (cases send)
    obtain d s1 where d: "email_check T X H cap s r t c now = (d, s1)" by fastforce
    obtain ds1 s2 where run: "send_run T X H cap s1 sends = (ds1, s2)" by fastforce
    have ds: "ds = d # ds1" "s2 = s'" using Cons.prems d run by (simp_all add: send)
    note spec = email_check_spec [OF assms(1) d]
    have "send_count (items s1 pk) - send_count (items s pk) = 0 \<or>
        pk \<in> cc_key ` set (cap_counters H cap r t c now) \<and> ed_allowed d \<and>
        send_count (items s1 pk) - send_count (items s pk) = 1"
    proof (cases "items s1 = items s")
      case False
      then have "counted_in (cap_counters H cap r t c now) (items s) (items s1)" "ed_allowed d" using spec by auto
      then show ?thesis
        by (cases "pk \<in> cc_key ` set (cap_counters H cap r t c now)") (auto simp: counted_in_def)
    qed simp
    moreover have "send_count (items s1 pk) - send_count (items s pk) = 1"
      if "pk \<in> cc_key ` set (cap_counters H cap r t c now)" "ed_allowed d" "\<not> ed_failed_open d"
      using spec that by (auto simp: counted_in_def)
    ultimately show ?case using Cons.IH [OF run [unfolded ds(2)]] by (auto simp: ds(1) send decided_on_def)
  qed
qed

end

section \<open>Properties\<close>

definition demo_cap :: email_cap where
  "demo_cap =
     (let l = \<lparr>el_per_recipient = Some 2, el_per_recipient_window = 3600, el_per_tenant = Some 5,
               el_per_tenant_window = 3600, el_daily = None\<rparr>
      in \<lparr>ec_policy = \<lparr>ep_standard = l, ep_transactional = l\<lparr>el_per_recipient := None\<rparr>\<rparr>, ec_namespace = ''email''\<rparr>)"

lemma demo_cap_valid: "policy_valid (ec_policy demo_cap)"
  by (simp add: demo_cap_def policy_valid_def email_limits_ok_def email_policy_ok_def below_one_def lower_limit_def
      Let_def)

text \<open>
  C26. No counter of the email cap is overrun. Over any table and transactions that behave as
  DynamoDB documents and may fail, and any sequence of sends under one valid policy: of the
  sends counted under a key with limit at most \<open>limit\<close>, no more are let through on a count than
  the key's row had left. A refused send is not counted: every row grows by the sends with a
  counter in it that were let through on a count, and beyond them by at most one for each that
  was let through because its write failed, which may have been applied or not.
\<close>

theorem email_cap_never_overrun:
  assumes "transact_table T items X" and "policy_valid (ec_policy cap)"
    and "send_run T X H cap s sends = (ds, s')"
  shows "int (sent_on H cap pk limit sends ds) \<le> max 0 (limit - send_count (items s pk)) \<and>
    int (decided_on H cap pk (\<lambda>d. ed_allowed d \<and> \<not> ed_failed_open d) sends ds) \<le>
      send_count (items s' pk) - send_count (items s pk) \<and>
    send_count (items s' pk) - send_count (items s pk) \<le> int (decided_on H cap pk ed_allowed sends ds)"
  using transact_table.send_run_bound [OF assms] transact_table.send_run_grows [OF assms] by blast

theorem email_cap_never_overrun_witness:
  "\<exists>ds i. send_run item_table item_transact demo_hash demo_cap (\<lambda>_. no_item) (replicate 9 (''a@b'', ''t'', Standard, 60)) =
     (ds, i) \<and>
   sent_on demo_hash demo_cap ''email#standard#tenant#t#0'' 5 (replicate 9 (''a@b'', ''t'', Standard, 60)) ds \<le> 5 \<and>
   send_count (i ''email#standard#tenant#t#0'') \<le>
     int (decided_on demo_hash demo_cap ''email#standard#tenant#t#0'' ed_allowed
       (replicate 9 (''a@b'', ''t'', Standard, 60)) ds)"
proof -
  obtain ds i where run: "send_run item_table item_transact demo_hash demo_cap (\<lambda>_. no_item)
      (replicate 9 (''a@b'', ''t'', Standard, 60)) = (ds, i)" by (metis surj_pair)
  show ?thesis
    using email_cap_never_overrun [OF item_transact.transact_table_axioms demo_cap_valid run,
        of "''email#standard#tenant#t#0''" 5] run
    by (simp add: send_count_def no_item_def)
qed

text \<open>
  The two categories cannot touch each other's counters: whatever standard mail is sent, by
  whom and how often, every row under the transactional prefix is left as it was, so a storm of
  notifications never spends the allowance of identity mail; and the other way round.
\<close>

theorem categories_are_separate:
  assumes "transact_table T items X" and "policy_valid (ec_policy cap)"
    and "email_check T X H cap s r t c now = (d, s')" and "c' \<noteq> c"
  shows "items s' (cap_base cap c' @ ''#'' @ x) = items s (cap_base cap c' @ ''#'' @ x)"
proof -
  have base: "cap_base cap c @ CHR ''#'' # y \<noteq> cap_base cap c' @ CHR ''#'' # x" for y
    using assms(4) by (cases c; cases c') (auto simp: cap_base_def)
  have "cap_base cap c' @ ''#'' @ x \<notin> cc_key ` set (cap_counters H cap r t c now)"
    using cap_counters_keys [of _ H cap r t c now] base by fastforce
  then show ?thesis
    using transact_table.email_check_spec [OF assms(1-3)] by (auto simp: counted_in_def)
qed

theorem categories_are_separate_witness:
  "snd (email_check item_table item_transact demo_hash demo_cap (\<lambda>_. no_item) ''a@b'' ''t'' Standard 60)
     (cap_base demo_cap Transactional @ ''#'' @ ''daily#0'') = no_item"
  using categories_are_separate [OF item_transact.transact_table_axioms demo_cap_valid, of demo_hash "\<lambda>_. no_item" "''a@b''"
      "''t''" Standard 60 _ _ Transactional "''daily#0''"]
  by (metis email_category.distinct(1) prod.collapse)

end
