(* ===== verification/DeviceStores.thy ===== *)
theory DeviceStores
  imports Stores
begin

text \<open>
  identity/device_grant_storage.py: the records of the device authorization grant, the two store
  interfaces and their in-memory implementations. The services take a store as a record of
  operations; the locales \<open>device_code_store\<close> and \<open>device_grant_store\<close> are what the abstract
  classes promise, and the in-memory stores keep them. \<open>wall\<close> is the clock \<^verbatim>\<open>is_expired\<close> reads.
\<close>

section \<open>Records\<close>

datatype device_status = DevicePending | DeviceApproved | DeviceDenied

record device_code =
  dc_hash :: string
  dc_user_code_hash :: string
  dc_client_id :: string
  dc_scopes :: "string list"
  dc_created_at :: string
  dc_expires_at :: int
  dc_interval :: int
  dc_status :: device_status
  dc_user_id :: string
  dc_auth_time :: int
  dc_last_polled_at :: int

record device_grant =
  dg_grant_id :: string
  dg_user_id :: string
  dg_client_id :: string
  dg_scopes :: "string list"
  dg_created_at :: string
  dg_expires_at :: int
  dg_refresh_hash :: string
  dg_auth_time :: int
  dg_previous_refresh_hash :: string
  dg_generation :: int
  dg_revoked :: bool
  dg_last_used_at :: string
  dg_rotated_at :: int

definition grant_live :: "datetime \<Rightarrow> device_grant \<Rightarrow> bool" where
  "grant_live wall g = (\<not> dg_revoked g \<and> \<not> is_expired wall (dg_expires_at g))"

section \<open>The interfaces\<close>

record 's code_ops =
  co_put :: "'s \<Rightarrow> datetime \<Rightarrow> device_code \<Rightarrow> bool \<times> 's"
  co_get :: "'s \<Rightarrow> datetime \<Rightarrow> string \<Rightarrow> bool \<Rightarrow> device_code option"
  co_find :: "'s \<Rightarrow> datetime \<Rightarrow> string \<Rightarrow> device_code option"
  co_decide :: "'s \<Rightarrow> datetime \<Rightarrow> string \<Rightarrow> device_status \<Rightarrow> string \<Rightarrow> string list \<Rightarrow> int \<Rightarrow> bool \<times> 's"
  co_record_poll :: "'s \<Rightarrow> string \<Rightarrow> int \<Rightarrow> int \<Rightarrow> bool \<times> 's"
  co_slow_down :: "'s \<Rightarrow> string \<Rightarrow> int \<Rightarrow> 's"
  co_consume :: "'s \<Rightarrow> string \<Rightarrow> int \<Rightarrow> device_code option \<times> 's"
  co_failed_lookups :: "'s \<Rightarrow> string \<Rightarrow> int \<Rightarrow> int \<Rightarrow> int"
  co_record_failed_lookup :: "'s \<Rightarrow> string \<Rightarrow> int \<Rightarrow> int \<Rightarrow> int \<times> 's"
  co_delete_all_for_user :: "'s \<Rightarrow> string \<Rightarrow> int \<times> 's"

record 's grant_ops =
  gr_put :: "'s \<Rightarrow> device_grant \<Rightarrow> 's"
  gr_get :: "'s \<Rightarrow> string \<Rightarrow> device_grant option"
  gr_rotate :: "'s \<Rightarrow> string \<Rightarrow> string \<Rightarrow> string \<Rightarrow> string \<Rightarrow> int \<Rightarrow> bool \<times> 's"
  gr_revoke :: "'s \<Rightarrow> string \<Rightarrow> bool \<times> 's"
  gr_delete :: "'s \<Rightarrow> string \<Rightarrow> bool \<times> 's"
  gr_list_for_user :: "'s \<Rightarrow> string \<Rightarrow> device_grant list"

text \<open>The two bulk operations the abstract class defines by loops over a listing.\<close>

fun revoke_rows :: "'s grant_ops \<Rightarrow> 's \<Rightarrow> device_grant list \<Rightarrow> int \<Rightarrow> int \<times> 's" where
  "revoke_rows G s [] n = (n, s)"
| "revoke_rows G s (g # gs) n =
     (if dg_revoked g then revoke_rows G s gs n
      else (let (existed, s) = gr_revoke G s (dg_grant_id g)
            in revoke_rows G s gs (if existed then n + 1 else n)))"

definition gr_revoke_all_for_user :: "'s grant_ops \<Rightarrow> 's \<Rightarrow> string \<Rightarrow> int \<times> 's" where
  "gr_revoke_all_for_user G s user_id = revoke_rows G s (gr_list_for_user G s user_id) 0"

fun delete_listed :: "'s grant_ops \<Rightarrow> 's \<Rightarrow> device_grant list \<Rightarrow> int \<Rightarrow> int \<times> 's" where
  "delete_listed G s [] n = (n, s)"
| "delete_listed G s (g # gs) n =
     (let (existed, s) = gr_delete G s (dg_grant_id g)
      in delete_listed G s gs (if existed then n + 1 else n))"

definition gr_delete_all_for_user :: "'s grant_ops \<Rightarrow> 's \<Rightarrow> string \<Rightarrow> int \<times> 's" where
  "gr_delete_all_for_user G s user_id = delete_listed G s (gr_list_for_user G s user_id) 0"

section \<open>The in-memory stores\<close>

record code_memory =
  cm_items :: "(string, device_code) dict"
  cm_reservations :: "(string, int) dict"
  cm_failures :: "(string, int) dict"

definition code_memory_new :: code_memory where
  "code_memory_new = \<lparr>cm_items = [], cm_reservations = [], cm_failures = []\<rparr>"

definition failure_prefix :: string where "failure_prefix = ''fail#''"

definition failure_key :: "string \<Rightarrow> int \<Rightarrow> int \<Rightarrow> string" where
  "failure_key user_id now window = failure_prefix @ user_id @ ''#'' @ int_str (now div window)"

definition mem_code_put :: "code_memory \<Rightarrow> datetime \<Rightarrow> device_code \<Rightarrow> bool \<times> code_memory" where
  "mem_code_put s wall r =
     (if (case dget (cm_reservations s) (dc_user_code_hash r) of
            None \<Rightarrow> False | Some held \<Rightarrow> \<not> is_expired wall held) then (False, s)
      else if dget (cm_items s) (dc_hash r) \<noteq> None then (False, s)
      else (True, s\<lparr>cm_reservations := dset (dc_user_code_hash r) (dc_expires_at r) (cm_reservations s),
                    cm_items := dset (dc_hash r) r (cm_items s)\<rparr>))"

definition mem_code_get :: "code_memory \<Rightarrow> datetime \<Rightarrow> string \<Rightarrow> bool \<Rightarrow> device_code option" where
  "mem_code_get s wall h include_expired =
     (case dget (cm_items s) h of
        None \<Rightarrow> None
      | Some r \<Rightarrow> if is_expired wall (dc_expires_at r) \<and> \<not> include_expired then None else Some r)"

definition mem_code_find :: "code_memory \<Rightarrow> datetime \<Rightarrow> string \<Rightarrow> device_code option" where
  "mem_code_find s wall user_code_hash =
     List.find (\<lambda>r. dc_user_code_hash r = user_code_hash \<and> \<not> is_expired wall (dc_expires_at r))
       (dvalues (cm_items s))"

definition mem_code_decide ::
  "code_memory \<Rightarrow> datetime \<Rightarrow> string \<Rightarrow> device_status \<Rightarrow> string \<Rightarrow> string list \<Rightarrow> int \<Rightarrow> bool \<times> code_memory" where
  "mem_code_decide s wall h status user_id scopes auth_time =
     (case mem_code_get s wall h False of
        None \<Rightarrow> (False, s)
      | Some r \<Rightarrow>
          if dc_status r \<noteq> DevicePending then (False, s)
          else (True, s\<lparr>cm_items := dset h (r\<lparr>dc_status := status, dc_user_id := user_id, dc_scopes := scopes,
                                          dc_auth_time := auth_time\<rparr>) (cm_items s)\<rparr>))"

definition mem_code_record_poll :: "code_memory \<Rightarrow> string \<Rightarrow> int \<Rightarrow> int \<Rightarrow> bool \<times> code_memory" where
  "mem_code_record_poll s h now interval =
     (case dget (cm_items s) h of
        None \<Rightarrow> (True, s)
      | Some r \<Rightarrow>
          if dc_last_polled_at r \<noteq> 0 \<and> now - dc_last_polled_at r < interval then (False, s)
          else (True, s\<lparr>cm_items := dset h (r\<lparr>dc_last_polled_at := now\<rparr>) (cm_items s)\<rparr>))"

definition mem_code_slow_down :: "code_memory \<Rightarrow> string \<Rightarrow> int \<Rightarrow> code_memory" where
  "mem_code_slow_down s h interval =
     (case dget (cm_items s) h of
        None \<Rightarrow> s
      | Some r \<Rightarrow> s\<lparr>cm_items := dset h (r\<lparr>dc_interval := interval\<rparr>) (cm_items s)\<rparr>)"

definition mem_code_consume :: "code_memory \<Rightarrow> string \<Rightarrow> int \<Rightarrow> device_code option \<times> code_memory" where
  "mem_code_consume s h now =
     (case dget (cm_items s) h of
        None \<Rightarrow> (None, s)
      | Some r \<Rightarrow>
          if dc_status r = DevicePending \<or> dc_expires_at r \<le> now then (None, s)
          else (Some r, s\<lparr>cm_items := ddel h (cm_items s)\<rparr>))"

definition mem_code_failed_lookups :: "code_memory \<Rightarrow> string \<Rightarrow> int \<Rightarrow> int \<Rightarrow> int" where
  "mem_code_failed_lookups s user_id now window =
     (case dget (cm_failures s) (failure_key user_id now window) of None \<Rightarrow> 0 | Some n \<Rightarrow> n)"

definition mem_code_record_failed :: "code_memory \<Rightarrow> string \<Rightarrow> int \<Rightarrow> int \<Rightarrow> int \<times> code_memory" where
  "mem_code_record_failed s user_id now window =
     (let n = mem_code_failed_lookups s user_id now window + 1
      in (n, s\<lparr>cm_failures := dset (failure_key user_id now window) n (cm_failures s)\<rparr>))"

definition mem_code_delete_all :: "code_memory \<Rightarrow> string \<Rightarrow> int \<times> code_memory" where
  "mem_code_delete_all s user_id =
     (let mine = map fst (filter (\<lambda>(k, r). dc_user_id r = user_id) (cm_items s));
          prefix = failure_prefix @ user_id @ ''#'';
          failed = filter (\<lambda>k. startswith k prefix) (map fst (cm_failures s))
      in (int (length mine), s\<lparr>cm_items := del_loop mine (cm_items s), cm_failures := del_loop failed (cm_failures s)\<rparr>))"

definition memory_code_ops :: "code_memory code_ops" where
  "memory_code_ops =
     \<lparr>co_put = mem_code_put, co_get = mem_code_get, co_find = mem_code_find, co_decide = mem_code_decide,
      co_record_poll = mem_code_record_poll, co_slow_down = mem_code_slow_down, co_consume = mem_code_consume,
      co_failed_lookups = mem_code_failed_lookups, co_record_failed_lookup = mem_code_record_failed,
      co_delete_all_for_user = mem_code_delete_all\<rparr>"

type_synonym grant_memory = "(string, device_grant) dict"

definition mem_grant_rotate ::
  "grant_memory \<Rightarrow> string \<Rightarrow> string \<Rightarrow> string \<Rightarrow> string \<Rightarrow> int \<Rightarrow> bool \<times> grant_memory" where
  "mem_grant_rotate s grant_id presented_hash successor_hash used_at rotated_at =
     (case dget s grant_id of
        None \<Rightarrow> (False, s)
      | Some g \<Rightarrow>
          if dg_revoked g \<or> dg_refresh_hash g \<noteq> presented_hash then (False, s)
          else (True, dset grant_id
                 (g\<lparr>dg_refresh_hash := successor_hash, dg_previous_refresh_hash := presented_hash,
                    dg_generation := dg_generation g + 1, dg_last_used_at := used_at,
                    dg_rotated_at := rotated_at\<rparr>) s))"

definition mem_grant_revoke :: "grant_memory \<Rightarrow> string \<Rightarrow> bool \<times> grant_memory" where
  "mem_grant_revoke s grant_id =
     (case dget s grant_id of None \<Rightarrow> (False, s) | Some g \<Rightarrow> (True, dset grant_id (g\<lparr>dg_revoked := True\<rparr>) s))"

definition mem_grant_delete :: "grant_memory \<Rightarrow> string \<Rightarrow> bool \<times> grant_memory" where
  "mem_grant_delete s grant_id = (dget s grant_id \<noteq> None, ddel grant_id s)"

definition mem_grant_list :: "grant_memory \<Rightarrow> string \<Rightarrow> device_grant list" where
  "mem_grant_list s user_id = filter (\<lambda>g. dg_user_id g = user_id) (dvalues s)"

definition memory_grant_ops :: "grant_memory grant_ops" where
  "memory_grant_ops =
     \<lparr>gr_put = (\<lambda>s g. dset (dg_grant_id g) g s), gr_get = dget, gr_rotate = mem_grant_rotate,
      gr_revoke = mem_grant_revoke, gr_delete = mem_grant_delete, gr_list_for_user = mem_grant_list\<rparr>"

section \<open>The contracts\<close>

text \<open>
  \<open>paced\<close>: two rows of one code that differ in nothing but the pacing of its polls.
\<close>

definition paced :: "device_code option \<Rightarrow> device_code option \<Rightarrow> bool" where
  "paced r r' =
     (case (r, r') of
        (None, None) \<Rightarrow> True
      | (Some r, Some r') \<Rightarrow> r' = r\<lparr>dc_interval := dc_interval r', dc_last_polled_at := dc_last_polled_at r'\<rparr>
      | _ \<Rightarrow> False)"

locale device_code_store =
  fixes C :: "'s code_ops"
    and codes :: "'s \<Rightarrow> string \<Rightarrow> device_code option"
  assumes code_put: "codes (snd (co_put C s wall r)) =
      (if fst (co_put C s wall r) then (codes s)(dc_hash r \<mapsto> r) else codes s)"
    and code_put_new: "fst (co_put C s wall r) \<Longrightarrow> codes s (dc_hash r) = None"
    and code_get: "co_get C s wall h include_expired =
      (case codes s h of None \<Rightarrow> None
       | Some r \<Rightarrow> if is_expired wall (dc_expires_at r) \<and> \<not> include_expired then None else Some r)"
    and code_decide: "fst (co_decide C s wall h st u sc t) \<Longrightarrow>
      \<exists>r. codes s h = Some r \<and> dc_status r = DevicePending \<and> \<not> is_expired wall (dc_expires_at r) \<and>
        codes (snd (co_decide C s wall h st u sc t)) =
          (codes s)(h \<mapsto> r\<lparr>dc_status := st, dc_user_id := u, dc_scopes := sc, dc_auth_time := t\<rparr>)"
    and code_undecided: "\<not> fst (co_decide C s wall h st u sc t) \<Longrightarrow>
      codes (snd (co_decide C s wall h st u sc t)) = codes s"
    and code_record_poll: "paced (codes s k) (codes (snd (co_record_poll C s h now i)) k)"
    and code_slow_down: "paced (codes s k) (codes (co_slow_down C s h i) k)"
    and code_consume: "fst (co_consume C s h now) = Some r \<Longrightarrow>
      codes s h = Some r \<and> dc_status r \<noteq> DevicePending \<and> now < dc_expires_at r \<and>
      codes (snd (co_consume C s h now)) = (codes s)(h := None)"
    and code_not_consumed: "fst (co_consume C s h now) = None \<Longrightarrow> codes (snd (co_consume C s h now)) = codes s"
    and code_record_failed: "codes (snd (co_record_failed_lookup C s u now w)) = codes s"
    and code_delete_all: "codes (snd (co_delete_all_for_user C s u)) h \<in> {None, codes s h}"

locale device_grant_store =
  fixes G :: "'s grant_ops"
    and grants :: "'s \<Rightarrow> string \<Rightarrow> device_grant option"
  assumes grant_put: "grants (gr_put G s g) = (grants s)(dg_grant_id g \<mapsto> g)"
    and grant_get: "gr_get G s k = grants s k"
    and grant_rotate: "fst (gr_rotate G s k old new u t) \<Longrightarrow>
      \<exists>g. grants s k = Some g \<and> \<not> dg_revoked g \<and> dg_refresh_hash g = old \<and>
        grants (snd (gr_rotate G s k old new u t)) = (grants s)(k \<mapsto> g\<lparr>dg_refresh_hash := new,
          dg_previous_refresh_hash := old, dg_generation := dg_generation g + 1, dg_last_used_at := u,
          dg_rotated_at := t\<rparr>)"
    and grant_not_rotated: "\<not> fst (gr_rotate G s k old new u t) \<Longrightarrow>
      grants (snd (gr_rotate G s k old new u t)) = grants s"
    and grant_revoke: "grants (snd (gr_revoke G s k)) =
      (case grants s k of None \<Rightarrow> grants s | Some g \<Rightarrow> (grants s)(k \<mapsto> g\<lparr>dg_revoked := True\<rparr>))"
    and grant_delete: "grants (snd (gr_delete G s k)) = (grants s)(k := None)"

lemma paced_refl [simp]: "paced r r"
  by (cases r) (simp_all add: paced_def)

interpretation mem_code: device_code_store memory_code_ops "\<lambda>s. dget (cm_items s)"
  by unfold_locales (auto simp: memory_code_ops_def mem_code_put_def mem_code_get_def mem_code_decide_def
      mem_code_record_poll_def mem_code_slow_down_def mem_code_consume_def mem_code_record_failed_def
      mem_code_delete_all_def paced_def Let_def dget_del_loop split: option.splits if_splits)

interpretation mem_grant: device_grant_store memory_grant_ops dget
  by unfold_locales (auto simp: memory_grant_ops_def mem_grant_rotate_def mem_grant_revoke_def mem_grant_delete_def
      split: option.splits if_splits)

end
