(* ===== verification/DeviceGrants.thy ===== *)
theory DeviceGrants
  imports DeviceStores
begin

text \<open>
  identity/device_grant.py, the service: user codes, starting a login, the person's decision, the
  client's polls, refreshing, revoking and the liveness check a resource server makes. The two
  stores are arguments; the product's hooks, the keyed hashes, SHA-256, the random draws and
  the access token minter are parameters, so a token answer is the values that go into it. The
  description of an error is left out, its code and status are kept. Typed text is ASCII.
\<close>

section \<open>Constants and strings\<close>

definition user_code_alphabet :: string where "user_code_alphabet = ''BCDFGHJKLMNPQRSTVWXZ''"
definition user_code_length :: nat where "user_code_length = 8"
definition slow_down_step :: int where "slow_down_step = 5"
definition lookup_failure_limit :: int where "lookup_failure_limit = 10"
definition lookup_failure_window :: int where "lookup_failure_window = 900"
definition refresh_grace_seconds :: int where "refresh_grace_seconds = 30"
definition liveness_max_cache_seconds :: rat where "liveness_max_cache_seconds = 5"
definition user_code_attempts :: nat where "user_code_attempts = 5"
definition device_refresh_prefix :: string where "device_refresh_prefix = ''wpdr_''"

text \<open>\<^verbatim>\<open>s.split()\<close>.\<close>

fun split_words :: "string \<Rightarrow> string \<Rightarrow> string list" where
  "split_words w [] = (if w = [] then [] else [w])"
| "split_words w (c # cs) =
     (if is_space c then (if w = [] then split_words [] cs else w # split_words [] cs)
      else split_words (w @ [c]) cs)"

definition new_user_code :: "string \<Rightarrow> string" where
  "new_user_code raw = take 4 raw @ ''-'' @ drop 4 raw"

definition normalize_user_code :: "string \<Rightarrow> string" where
  "normalize_user_code value =
     (let cleaned = filter (\<lambda>c. c \<notin> set [CHR ''-'', CHR '' '', CHR 0x09]) (upper value) in
      if length cleaned \<noteq> user_code_length \<or> list_ex (\<lambda>c. c \<notin> set user_code_alphabet) cleaned then []
      else cleaned)"

definition format_user_code :: "string \<Rightarrow> string" where
  "format_user_code normalized = take 4 normalized @ ''-'' @ drop 4 normalized"

definition split_refresh :: "string \<Rightarrow> string \<times> string" where
  "split_refresh token =
     (if \<not> startswith token device_refresh_prefix then ([], [])
      else
        let rest = drop (length device_refresh_prefix) token;
            grant_id = takeWhile (\<lambda>c. c \<noteq> CHR ''.'') rest;
            secret = drop 1 (dropWhile (\<lambda>c. c \<noteq> CHR ''.'') rest)
        in if grant_id = [] \<or> secret = [] then ([], []) else (grant_id, secret))"

section \<open>Claims\<close>

text \<open>
  What the product's claims say of scopes: the items of a sequence, a string, or another value.
\<close>

datatype scope_claim = ScopeItems "string list" | ScopeText string | ScopeOther

record product_claims =
  pc_scopes :: "scope_claim option"
  pc_scope :: "scope_claim option"

definition claims_scopes :: "product_claims \<Rightarrow> string list" where
  "claims_scopes claims =
     (case pc_scopes claims of
        Some (ScopeItems xs) \<Rightarrow> xs
      | _ \<Rightarrow> (case pc_scope claims of Some (ScopeText s) \<Rightarrow> split_words [] s | _ \<Rightarrow> []))"

text \<open>The claims of an access token as the liveness check reads them, empty when absent.\<close>

record token_claims =
  tc_grant :: string
  tc_sid :: string
  tc_sub :: string

definition device_grant_is_live :: "'g grant_ops \<Rightarrow> 'g \<Rightarrow> datetime \<Rightarrow> token_claims \<Rightarrow> bool" where
  "device_grant_is_live G gs wall claims =
     (if tc_grant claims \<noteq> ''device'' then True
      else if tc_sid claims = [] then False
      else (case gr_get G gs (tc_sid claims) of
              None \<Rightarrow> False
            | Some g \<Rightarrow> dg_user_id g = tc_sub claims \<and> grant_live wall g))"

record liveness =
  lc_ttl :: rat
  lc_max_entries :: nat
  lc_cache :: "(string \<times> string, rat \<times> bool) dict"

text \<open>\<^const>\<open>None\<close> is the \<^verbatim>\<open>ValueError\<close> of a cache kept too long.\<close>

definition liveness_new :: "rat \<Rightarrow> nat \<Rightarrow> liveness option" where
  "liveness_new ttl max_entries =
     (if \<not> (0 \<le> ttl \<and> ttl \<le> liveness_max_cache_seconds) then None
      else Some \<lparr>lc_ttl = ttl, lc_max_entries = max_entries, lc_cache = []\<rparr>)"

definition liveness_call ::
  "'g grant_ops \<Rightarrow> 'g \<Rightarrow> datetime \<Rightarrow> liveness \<Rightarrow> rat \<Rightarrow> token_claims \<Rightarrow> bool \<times> liveness" where
  "liveness_call G gs wall lv moment claims =
     (if tc_grant claims \<noteq> ''device'' then (True, lv)
      else
        let key = (tc_sid claims, tc_sub claims);
            fresh =
              (let live = device_grant_is_live G gs wall claims in
               if lc_ttl lv > 0
               then (let cache = (if length (lc_cache lv) \<ge> lc_max_entries lv then [] else lc_cache lv)
                     in (live, lv\<lparr>lc_cache := dset key (moment + lc_ttl lv, live) cache\<rparr>))
               else (live, lv))
        in case dget (lc_cache lv) key of
             Some (until, answer) \<Rightarrow> if until > moment then (answer, lv) else fresh
           | None \<Rightarrow> fresh)"

section \<open>The service\<close>

record ('c, 'g, 'u) device_service =
  dv_codes :: "'c code_ops"
  dv_grants :: "'g grant_ops"
  dv_clients :: "(string, string) dict"
  dv_scopes_supported :: "string list"
  dv_explicit_scopes :: "string list"
  dv_code_ttl :: int
  dv_poll_interval :: int
  dv_session_ttl :: int
  dv_access_ttl :: int
  dv_issuer :: string
  dv_hash :: "string \<Rightarrow> string"
  dv_successor :: "string \<Rightarrow> string \<Rightarrow> string"
  dv_sign :: "string \<Rightarrow> string"
  dv_load_user :: "string \<Rightarrow> 'u option"
  dv_may_authenticate :: "'u \<Rightarrow> bool"
  dv_claims_for :: "'u \<Rightarrow> product_claims"

record ('c, 'g) device_state =
  ds_codes :: 'c
  ds_grants :: 'g

datatype device_error = DeviceError string nat | DeviceTypeError

abbreviation device_refused :: "string \<Rightarrow> device_error" where
  "device_refused e \<equiv> DeviceError e 400"

type_synonym form = "(string, string) dict"

definition form_get :: "form \<Rightarrow> string \<Rightarrow> string" where
  "form_get params name = (case dget params name of None \<Rightarrow> [] | Some v \<Rightarrow> v)"

definition user_code_hash :: "('c, 'g, 'u) device_service \<Rightarrow> string \<Rightarrow> string" where
  "user_code_hash dv normalized = dv_hash dv (''user-code:'' @ normalized)"

definition device_client_name :: "('c, 'g, 'u) device_service \<Rightarrow> string \<Rightarrow> string" where
  "device_client_name dv client_id = (case dget (dv_clients dv) client_id of None \<Rightarrow> client_id | Some n \<Rightarrow> n)"

definition default_scopes :: "('c, 'g, 'u) device_service \<Rightarrow> string list" where
  "default_scopes dv = filter (\<lambda>s. s \<notin> set (dv_explicit_scopes dv)) (dv_scopes_supported dv)"

definition dg_iso :: "int \<Rightarrow> string" where
  "dg_iso moment = iso_seconds (moment * second)"

record device_started =
  sd_device_code :: string
  sd_user_code :: string
  sd_verification_uri :: string
  sd_verification_uri_complete :: string
  sd_expires_in :: int
  sd_interval :: int

text \<open>The attempts to store a request; each draws a device code and eight letters.\<close>

fun store_request ::
  "('c, 'g, 'u) device_service \<Rightarrow> 'c \<Rightarrow> datetime \<Rightarrow> string \<Rightarrow> string list \<Rightarrow> int \<Rightarrow> (string \<times> string) list \<Rightarrow>
     (string \<times> string) option \<times> 'c" where
  "store_request dv cs wall client_id scopes moment [] = (None, cs)"
| "store_request dv cs wall client_id scopes moment ((device_code, raw) # draws) =
     (let user_code = new_user_code raw;
          (stored, cs) = co_put (dv_codes dv) cs wall
            \<lparr>dc_hash = dv_hash dv device_code,
             dc_user_code_hash = user_code_hash dv (normalize_user_code user_code),
             dc_client_id = client_id, dc_scopes = scopes, dc_created_at = dg_iso moment,
             dc_expires_at = moment + dv_code_ttl dv, dc_interval = dv_poll_interval dv,
             dc_status = DevicePending, dc_user_id = [], dc_auth_time = 0, dc_last_polled_at = 0\<rparr>
      in if stored then (Some (device_code, user_code), cs)
         else store_request dv cs wall client_id scopes moment draws)"

definition start_device ::
  "('c, 'g, 'u) device_service \<Rightarrow> ('c, 'g) device_state \<Rightarrow> datetime \<Rightarrow> form \<Rightarrow> int \<Rightarrow> (string \<times> string) list \<Rightarrow>
     (device_error + device_started) \<times> ('c, 'g) device_state" where
  "start_device dv s wall params moment draws =
     (let client_id = form_get params ''client_id'' in
      if dget (dv_clients dv) client_id = None then (Inl (DeviceError ''invalid_client'' 401), s)
      else
        let requested = fromkeys (split_words [] (form_get params ''scope'')) in
        if list_ex (\<lambda>x. x \<notin> set (dv_scopes_supported dv)) requested
        then (Inl (device_refused ''invalid_scope''), s)
        else
          let scopes = (if requested \<noteq> [] then requested else default_scopes dv) in
          if scopes = [] then (Inl (device_refused ''invalid_scope''), s)
          else
            (case store_request dv (ds_codes s) wall client_id scopes moment (take user_code_attempts draws) of
               (None, cs) \<Rightarrow> (Inl (DeviceError ''temporarily_unavailable'' 503), s\<lparr>ds_codes := cs\<rparr>)
             | (Some (device_code, user_code), cs) \<Rightarrow>
                 (let uri = dv_issuer dv @ ''/device''
                  in (Inr \<lparr>sd_device_code = device_code, sd_user_code = user_code, sd_verification_uri = uri,
                           sd_verification_uri_complete = uri @ ''?user_code='' @ user_code,
                           sd_expires_in = dv_code_ttl dv, sd_interval = dv_poll_interval dv\<rparr>,
                      s\<lparr>ds_codes := cs\<rparr>))))"

definition held_scopes :: "('c, 'g, 'u) device_service \<Rightarrow> 'u \<Rightarrow> string list option" where
  "held_scopes dv user =
     (let claims = dv_claims_for dv user in
      if pc_scope claims = None \<and> pc_scopes claims = None then None else Some (claims_scopes claims))"

definition lookups_exhausted :: "('c, 'g, 'u) device_service \<Rightarrow> ('c, 'g) device_state \<Rightarrow> string \<Rightarrow> int \<Rightarrow> bool" where
  "lookups_exhausted dv s user_id moment =
     (co_failed_lookups (dv_codes dv) (ds_codes s) user_id moment lookup_failure_window \<ge> lookup_failure_limit)"

definition note_failed_lookup ::
  "('c, 'g, 'u) device_service \<Rightarrow> ('c, 'g) device_state \<Rightarrow> string \<Rightarrow> int \<Rightarrow> ('c, 'g) device_state" where
  "note_failed_lookup dv s user_id moment =
     s\<lparr>ds_codes := snd (co_record_failed_lookup (dv_codes dv) (ds_codes s) user_id moment lookup_failure_window)\<rparr>"

section \<open>Approval\<close>

record device_approval =
  da_record :: device_code
  da_user_code :: string
  da_client_name :: string
  da_scopes :: "string list"

definition narrow :: "string list \<Rightarrow> string list option \<Rightarrow> string list" where
  "narrow scopes held = (case held of None \<Rightarrow> scopes | Some h \<Rightarrow> filter (\<lambda>x. x \<in> set h) scopes)"

definition pending_approval ::
  "('c, 'g, 'u) device_service \<Rightarrow> ('c, 'g) device_state \<Rightarrow> datetime \<Rightarrow> string \<Rightarrow> string \<Rightarrow> device_approval option" where
  "pending_approval dv s wall user_code user_id =
     (let normalized = normalize_user_code user_code in
      if normalized = [] then None
      else
        (case co_find (dv_codes dv) (ds_codes s) wall (user_code_hash dv normalized) of
           None \<Rightarrow> None
         | Some r \<Rightarrow>
             if dc_status r \<noteq> DevicePending \<or> is_expired wall (dc_expires_at r) then None
             else
               (case dv_load_user dv user_id of
                  None \<Rightarrow> None
                | Some user \<Rightarrow>
                    Some \<lparr>da_record = r, da_user_code = format_user_code normalized,
                          da_client_name = device_client_name dv (dc_client_id r),
                          da_scopes = narrow (dc_scopes r) (held_scopes dv user)\<rparr>)))"

definition joined :: "string \<Rightarrow> string list \<Rightarrow> string" where
  "joined sep xs = (case xs of [] \<Rightarrow> [] | x # ys \<Rightarrow> x @ concat (map (\<lambda>y. sep @ y) ys))"

definition approval_signature :: "('c, 'g, 'u) device_service \<Rightarrow> device_approval \<Rightarrow> string \<Rightarrow> string" where
  "approval_signature dv a user_id =
     dv_sign dv (joined ''|'' [''device-approval'', dc_hash (da_record a), joined '' '' (da_scopes a), user_id])"

definition decide_device ::
  "('c, 'g, 'u) device_service \<Rightarrow> ('c, 'g) device_state \<Rightarrow> datetime \<Rightarrow> device_approval \<Rightarrow> string \<Rightarrow> bool \<Rightarrow> int \<Rightarrow>
     bool \<times> ('c, 'g) device_state" where
  "decide_device dv s wall a user_id allow auth_time =
     (if allow \<and> da_scopes a = [] then (False, s)
      else
        let (decided, cs) = co_decide (dv_codes dv) (ds_codes s) wall (dc_hash (da_record a))
              (if allow then DeviceApproved else DeviceDenied) user_id (if allow then da_scopes a else []) auth_time
        in (decided, s\<lparr>ds_codes := cs\<rparr>))"

section \<open>Tokens\<close>

text \<open>
  The answer of a token request: the subject, scope, client, session id and sign-in time of the
  access token that is minted, and the fields of the body.
\<close>

record device_tokens =
  dt_sub :: string
  dt_scope :: "string list"
  dt_client_id :: string
  dt_sid :: string
  dt_auth_time :: int
  dt_expires_in :: int
  dt_refresh_token :: string
  dt_refresh_expires_in :: int

definition load_permitted :: "('c, 'g, 'u) device_service \<Rightarrow> string \<Rightarrow> 'u option" where
  "load_permitted dv user_id =
     (case dv_load_user dv user_id of
        None \<Rightarrow> None
      | Some user \<Rightarrow> if dv_may_authenticate dv user then Some user else None)"

definition token_body ::
  "('c, 'g, 'u) device_service \<Rightarrow> device_grant \<Rightarrow> 'u \<Rightarrow> string \<Rightarrow> int \<Rightarrow> device_tokens" where
  "token_body dv g user secret moment =
     \<lparr>dt_sub = dg_user_id g, dt_scope = narrow (dg_scopes g) (held_scopes dv user),
      dt_client_id = dg_client_id g, dt_sid = dg_grant_id g, dt_auth_time = dg_auth_time g,
      dt_expires_in = dv_access_ttl dv,
      dt_refresh_token = device_refresh_prefix @ dg_grant_id g @ ''.'' @ secret,
      dt_refresh_expires_in = max (dg_expires_at g - moment) 0\<rparr>"

text \<open>\<open>grant_id\<close> and \<open>fresh\<close> are the random draws of a new grant.\<close>

definition open_grant ::
  "('c, 'g, 'u) device_service \<Rightarrow> ('c, 'g) device_state \<Rightarrow> device_code \<Rightarrow> int \<Rightarrow> string \<Rightarrow> string \<Rightarrow>
     (device_error + device_tokens) \<times> ('c, 'g) device_state" where
  "open_grant dv s r moment grant_id fresh =
     (case load_permitted dv (dc_user_id r) of
        None \<Rightarrow> (Inl (device_refused ''access_denied''), s)
      | Some user \<Rightarrow>
          (let secret = dv_successor dv grant_id (dv_hash dv fresh);
               g = \<lparr>dg_grant_id = grant_id, dg_user_id = dc_user_id r, dg_client_id = dc_client_id r,
                    dg_scopes = dc_scopes r, dg_created_at = dg_iso moment,
                    dg_expires_at = moment + dv_session_ttl dv, dg_refresh_hash = dv_hash dv secret,
                    dg_auth_time = dc_auth_time r, dg_previous_refresh_hash = [], dg_generation = 1,
                    dg_revoked = False, dg_last_used_at = dg_iso moment, dg_rotated_at = 0\<rparr>
           in (Inr (token_body dv g user secret moment),
               s\<lparr>ds_grants := gr_put (dv_grants dv) (ds_grants s) g\<rparr>)))"

definition poll_device ::
  "('c, 'g, 'u) device_service \<Rightarrow> ('c, 'g) device_state \<Rightarrow> datetime \<Rightarrow> form \<Rightarrow> int \<Rightarrow> string \<Rightarrow> string \<Rightarrow>
     (device_error + device_tokens) \<times> ('c, 'g) device_state" where
  "poll_device dv s wall params moment grant_id fresh =
     (let device_code = form_get params ''device_code'';
          client_id = form_get params ''client_id'' in
      if device_code = [] \<or> client_id = [] then (Inl (device_refused ''invalid_request''), s)
      else
        let h = dv_hash dv device_code in
        case co_get (dv_codes dv) (ds_codes s) wall h True of
          None \<Rightarrow> (Inl (device_refused ''invalid_grant''), s)
        | Some r \<Rightarrow>
            if dc_expires_at r \<le> moment then (Inl (device_refused ''expired_token''), s)
            else
              (case compare_digest (dc_client_id r) client_id of
                 None \<Rightarrow> (Inl DeviceTypeError, s)
               | Some False \<Rightarrow> (Inl (device_refused ''invalid_grant''), s)
               | Some True \<Rightarrow>
                   (case co_record_poll (dv_codes dv) (ds_codes s) h moment (dc_interval r) of
                      (False, cs) \<Rightarrow>
                        (Inl (device_refused ''slow_down''),
                         s\<lparr>ds_codes := co_slow_down (dv_codes dv) cs h (dc_interval r + slow_down_step)\<rparr>)
                    | (True, cs) \<Rightarrow>
                        if dc_status r = DevicePending
                        then (Inl (device_refused ''authorization_pending''), s\<lparr>ds_codes := cs\<rparr>)
                        else
                          (case co_consume (dv_codes dv) cs h moment of
                             (None, cs) \<Rightarrow> (Inl (device_refused ''invalid_grant''), s\<lparr>ds_codes := cs\<rparr>)
                           | (Some c, cs) \<Rightarrow>
                               if dc_status c \<noteq> DeviceApproved \<or> dc_user_id c = []
                               then (Inl (device_refused ''access_denied''), s\<lparr>ds_codes := cs\<rparr>)
                               else open_grant dv (s\<lparr>ds_codes := cs\<rparr>) c moment grant_id fresh))))"

section \<open>Refreshing\<close>

text \<open>Both sides of a comparison of hashes are hexadecimal digests, so it never raises.\<close>

definition device_within_grace ::
  "('c, 'g, 'u) device_service \<Rightarrow> datetime \<Rightarrow> device_grant \<Rightarrow> string \<Rightarrow> string \<Rightarrow> int \<Rightarrow> bool" where
  "device_within_grace dv wall g presented successor moment =
     (grant_live wall g \<and> dg_previous_refresh_hash g \<noteq> [] \<and> dg_previous_refresh_hash g = presented \<and>
      dg_rotated_at g > 0 \<and>
      0 \<le> moment - dg_rotated_at g \<and> moment - dg_rotated_at g \<le> refresh_grace_seconds \<and>
      dg_refresh_hash g = dv_hash dv successor)"

definition issue_device ::
  "('c, 'g, 'u) device_service \<Rightarrow> ('c, 'g) device_state \<Rightarrow> device_grant \<Rightarrow> string \<Rightarrow> int \<Rightarrow>
     (device_error + device_tokens) \<times> ('c, 'g) device_state" where
  "issue_device dv s g successor moment =
     (case load_permitted dv (dg_user_id g) of
        None \<Rightarrow> (Inl (device_refused ''invalid_grant''),
                 s\<lparr>ds_grants := snd (gr_revoke (dv_grants dv) (ds_grants s) (dg_grant_id g))\<rparr>)
      | Some user \<Rightarrow> (Inr (token_body dv g user successor moment), s))"

text \<open>The end of \<^verbatim>\<open>refresh\<close>, once the presented token did not rotate the grant.\<close>

definition refresh_replayed ::
  "('c, 'g, 'u) device_service \<Rightarrow> ('c, 'g) device_state \<Rightarrow> datetime \<Rightarrow> device_grant \<Rightarrow> string \<Rightarrow> string \<Rightarrow> string \<Rightarrow>
     int \<Rightarrow> (device_error + device_tokens) \<times> ('c, 'g) device_state" where
  "refresh_replayed dv s wall g grant_id presented successor moment =
     (if device_within_grace dv wall g presented successor moment then issue_device dv s g successor moment
      else
        (Inl (device_refused ''invalid_grant''),
         if dg_previous_refresh_hash g \<noteq> [] \<and> dg_previous_refresh_hash g = presented
         then s\<lparr>ds_grants := snd (gr_revoke (dv_grants dv) (ds_grants s) grant_id)\<rparr> else s))"

definition refresh_device ::
  "('c, 'g, 'u) device_service \<Rightarrow> ('c, 'g) device_state \<Rightarrow> datetime \<Rightarrow> form \<Rightarrow> int \<Rightarrow>
     (device_error + device_tokens) \<times> ('c, 'g) device_state" where
  "refresh_device dv s wall params moment =
     (let (grant_id, secret) = split_refresh (form_get params ''refresh_token'');
          client_id = form_get params ''client_id'' in
      if grant_id = [] \<or> client_id = [] then (Inl (device_refused ''invalid_request''), s)
      else
        case gr_get (dv_grants dv) (ds_grants s) grant_id of
          None \<Rightarrow> (Inl (device_refused ''invalid_grant''), s)
        | Some g \<Rightarrow>
            (case compare_digest (dg_client_id g) client_id of
               None \<Rightarrow> (Inl DeviceTypeError, s)
             | Some False \<Rightarrow> (Inl (device_refused ''invalid_grant''), s)
             | Some True \<Rightarrow>
                 if \<not> grant_live wall g then (Inl (device_refused ''invalid_grant''), s)
                 else
                   let presented = dv_hash dv secret;
                       successor = dv_successor dv grant_id presented in
                   if dg_refresh_hash g = presented
                   then
                     (case gr_rotate (dv_grants dv) (ds_grants s) grant_id presented (dv_hash dv successor)
                             (dg_iso moment) moment of
                        (True, gs) \<Rightarrow> issue_device dv (s\<lparr>ds_grants := gs\<rparr>) g successor moment
                      | (False, gs) \<Rightarrow>
                          (case gr_get (dv_grants dv) gs grant_id of
                             None \<Rightarrow> (Inl (device_refused ''invalid_grant''), s\<lparr>ds_grants := gs\<rparr>)
                           | Some g \<Rightarrow>
                               refresh_replayed dv (s\<lparr>ds_grants := gs\<rparr>) wall g grant_id presented successor moment))
                   else refresh_replayed dv s wall g grant_id presented successor moment))"

section \<open>Revoking and listing\<close>

definition revoke_device_token ::
  "('c, 'g, 'u) device_service \<Rightarrow> ('c, 'g) device_state \<Rightarrow> string \<Rightarrow> bool \<times> ('c, 'g) device_state" where
  "revoke_device_token dv s token =
     (let (grant_id, secret) = split_refresh token in
      if grant_id = [] then (False, s)
      else
        case gr_get (dv_grants dv) (ds_grants s) grant_id of
          None \<Rightarrow> (False, s)
        | Some g \<Rightarrow>
            (let presented = dv_hash dv secret in
             if dg_refresh_hash g = presented \<or>
                dg_previous_refresh_hash g \<noteq> [] \<and> dg_previous_refresh_hash g = presented
             then (let (existed, gs) = gr_revoke (dv_grants dv) (ds_grants s) grant_id
                   in (existed, s\<lparr>ds_grants := gs\<rparr>))
             else (False, s)))"

definition revoke_device_grant ::
  "('c, 'g, 'u) device_service \<Rightarrow> ('c, 'g) device_state \<Rightarrow> string \<Rightarrow> string \<Rightarrow> bool \<times> ('c, 'g) device_state" where
  "revoke_device_grant dv s grant_id user_id =
     (case gr_get (dv_grants dv) (ds_grants s) grant_id of
        None \<Rightarrow> (False, s)
      | Some g \<Rightarrow>
          if dg_user_id g \<noteq> user_id then (False, s)
          else (let (existed, gs) = gr_revoke (dv_grants dv) (ds_grants s) grant_id
                in (existed, s\<lparr>ds_grants := gs\<rparr>)))"

definition revoke_all_device ::
  "('c, 'g, 'u) device_service \<Rightarrow> ('c, 'g) device_state \<Rightarrow> string \<Rightarrow> int \<times> ('c, 'g) device_state" where
  "revoke_all_device dv s user_id =
     (let (n, gs) = gr_revoke_all_for_user (dv_grants dv) (ds_grants s) user_id in (n, s\<lparr>ds_grants := gs\<rparr>))"

record listed_grant =
  lg_grant_id :: string
  lg_client_id :: string
  lg_client_name :: string
  lg_scopes :: "string list"
  lg_created_at :: string
  lg_expires_at :: int
  lg_last_used_at :: string

definition list_device_grants ::
  "('c, 'g, 'u) device_service \<Rightarrow> ('c, 'g) device_state \<Rightarrow> datetime \<Rightarrow> string \<Rightarrow> listed_grant list" where
  "list_device_grants dv s wall user_id =
     map (\<lambda>g. \<lparr>lg_grant_id = dg_grant_id g, lg_client_id = dg_client_id g,
              lg_client_name = device_client_name dv (dg_client_id g), lg_scopes = dg_scopes g,
              lg_created_at = dg_created_at g, lg_expires_at = dg_expires_at g,
              lg_last_used_at = dg_last_used_at g\<rparr>)
       (filter (grant_live wall) (gr_list_for_user (dv_grants dv) (ds_grants s) user_id))"

end
