(* ===== verification/DeviceProperties.thy ===== *)
theory DeviceProperties
  imports DeviceGrants
begin

text \<open>
  The guarantees of the device grant, over any stores that keep the contracts of DeviceStores.
  \<open>device_step\<close> is one request of the service, with any arguments and clocks, so a run of steps
  is any history of requests; the random draws of a start avoid the hashes in \<open>avoid\<close>, and a
  grant id is new when it is drawn.
\<close>

inductive device_step ::
  "('c, 'g, 'u) device_service \<Rightarrow> string set \<Rightarrow> ('c, 'g) device_state \<Rightarrow> ('c, 'g) device_state \<Rightarrow> bool"
  for dv avoid where
  step_start: "start_device dv s wall params moment draws = (r, s') \<Longrightarrow> dv_hash dv ` fst ` set draws \<inter> avoid = {} \<Longrightarrow>
    device_step dv avoid s s'"
| step_lookup: "device_step dv avoid s (note_failed_lookup dv s user_id moment)"
| step_decide: "decide_device dv s wall a user_id allow auth_time = (b, s') \<Longrightarrow> device_step dv avoid s s'"
| step_poll: "poll_device dv s wall params moment grant_id fresh = (p, s') \<Longrightarrow>
    gr_get (dv_grants dv) (ds_grants s) grant_id = None \<Longrightarrow> device_step dv avoid s s'"
| step_refresh: "refresh_device dv s wall params moment = (p, s') \<Longrightarrow> device_step dv avoid s s'"
| step_revoke_token: "revoke_device_token dv s token = (b, s') \<Longrightarrow> device_step dv avoid s s'"
| step_revoke_grant: "revoke_device_grant dv s grant_id user_id = (b, s') \<Longrightarrow> device_step dv avoid s s'"
| step_revoke_all: "revoke_all_device dv s user_id = (n, s') \<Longrightarrow> device_step dv avoid s s'"

section \<open>What no request changes of a grant\<close>

definition grant_kept :: "device_grant option \<Rightarrow> device_grant option \<Rightarrow> bool" where
  "grant_kept old new =
     (\<forall>g. old = Some g \<longrightarrow> (\<exists>g'. new = Some g' \<and> dg_grant_id g' = dg_grant_id g \<and> dg_user_id g' = dg_user_id g \<and> dg_client_id g' = dg_client_id g \<and>
        dg_scopes g' = dg_scopes g \<and> dg_expires_at g' = dg_expires_at g \<and> dg_auth_time g' = dg_auth_time g \<and>
        (dg_revoked g \<longrightarrow> dg_revoked g')))"

lemma grant_kept_refl [simp]: "grant_kept g g"
  by (simp add: grant_kept_def)

lemma grant_kept_trans: "grant_kept a b \<Longrightarrow> grant_kept b c \<Longrightarrow> grant_kept a c"
  by (fastforce simp: grant_kept_def)

lemma grant_kept_None [simp]: "grant_kept None g"
  by (simp add: grant_kept_def)

lemma narrow_subset: "set (narrow scopes held) \<subseteq> set scopes"
  by (auto simp: narrow_def split: option.split)

locale device_service_over =
  C: device_code_store "dv_codes dv" codes + G: device_grant_store "dv_grants dv" grants
  for dv :: "('c, 'g, 'u) device_service"
    and codes :: "'c \<Rightarrow> string \<Rightarrow> device_code option"
    and grants :: "'g \<Rightarrow> string \<Rightarrow> device_grant option"
begin

lemma revoke_kept: "grant_kept (grants gs k) (grants (snd (gr_revoke (dv_grants dv) gs j)) k)"
  by (auto simp: G.grant_revoke grant_kept_def split: option.split)

lemma revoke_rows_kept:
  "revoke_rows (dv_grants dv) gs rows n = (m, gs') \<Longrightarrow> grant_kept (grants gs k) (grants gs' k)"
proof (induction rows arbitrary: gs n)
  case Nil
  then show ?case by simp
next
  case (Cons g rows)
  obtain e gs1 where r: "gr_revoke (dv_grants dv) gs (dg_grant_id g) = (e, gs1)" by fastforce
  show ?case
  proof (cases "dg_revoked g")
    case True
    then show ?thesis using Cons by simp
  next
    case False
    then have "grant_kept (grants gs1 k) (grants gs' k)" using Cons r by (simp split: if_splits)
    then show ?thesis using revoke_kept [of gs k "dg_grant_id g"] r by (auto intro: grant_kept_trans)
  qed
qed

lemma rotate_kept: "grant_kept (grants gs k) (grants (snd (gr_rotate (dv_grants dv) gs j old new u t)) k)"
proof (cases "fst (gr_rotate (dv_grants dv) gs j old new u t)")
  case True
  from G.grant_rotate [OF this] show ?thesis by (auto simp: grant_kept_def)
next
  case False
  from G.grant_not_rotated [OF this] show ?thesis by simp
qed

lemma issue_kept:
  "issue_device dv s g successor moment = (p, s') \<Longrightarrow> grant_kept (grants (ds_grants s) k) (grants (ds_grants s') k)"
  using revoke_kept [of "ds_grants s" k "dg_grant_id g"] by (auto simp: issue_device_def split: option.splits)

lemma replayed_kept:
  "refresh_replayed dv s wall g i presented successor moment = (p, s') \<Longrightarrow>
     grant_kept (grants (ds_grants s) k) (grants (ds_grants s') k)"
  using revoke_kept [of "ds_grants s" k i] issue_kept [of s g successor moment p s' k]
  by (auto simp: refresh_replayed_def split: if_splits)

text \<open>The ways a refresh ends: refused as it was, rotated, or a token that did not rotate.\<close>

lemma refresh_cases:
  assumes run: "refresh_device dv s wall params moment = (p, s')"
  defines "i \<equiv> fst (split_refresh (form_get params ''refresh_token''))"
    and "h \<equiv> dv_hash dv (snd (split_refresh (form_get params ''refresh_token'')))"
  obtains (refused) e gs where "p = Inl e" "s' = s\<lparr>ds_grants := gs\<rparr>" "grants gs = grants (ds_grants s)"
  | (rotated) g gs where "grants (ds_grants s) i = Some g" "grant_live wall g"
      "gr_rotate (dv_grants dv) (ds_grants s) i h (dv_hash dv (dv_successor dv i h)) (dg_iso moment) moment = (True, gs)"
      "issue_device dv (s\<lparr>ds_grants := gs\<rparr>) g (dv_successor dv i h) moment = (p, s')"
  | (replayed) g gs where "grants gs = grants (ds_grants s)" "grants gs i = Some g"
      "refresh_replayed dv (s\<lparr>ds_grants := gs\<rparr>) wall g i h (dv_successor dv i h) moment = (p, s')"
proof -
  let ?c = "form_get params ''client_id''" and ?n = "dv_successor dv i h"
  obtain secret where sp: "split_refresh (form_get params ''refresh_token'') = (i, secret)"
    by (metis i_def prod.collapse)
  then have h: "dv_hash dv secret = h" by (simp add: h_def)
  have self: "s\<lparr>ds_grants := ds_grants s\<rparr> = s" by simp
  show thesis
  proof (cases "\<exists>g. i \<noteq> [] \<and> ?c \<noteq> [] \<and> grants (ds_grants s) i = Some g \<and>
      compare_digest (dg_client_id g) ?c = Some True \<and> grant_live wall g")
    case False
    have "s' = s \<and> (\<exists>e. p = Inl e)"
      using run False
      by (auto simp: refresh_device_def sp Let_def G.grant_get split: option.splits bool.splits if_splits)
    then show ?thesis using refused [of _ "ds_grants s"] self by auto
  next
    case True
    then obtain g where g: "i \<noteq> []" "?c \<noteq> []" "grants (ds_grants s) i = Some g"
      "compare_digest (dg_client_id g) ?c = Some True" "grant_live wall g" by blast
    obtain won gs where rot: "gr_rotate (dv_grants dv) (ds_grants s) i h (dv_hash dv ?n) (dg_iso moment) moment =
        (won, gs)" by fastforce
    have kept: "\<not> won \<Longrightarrow> grants gs = grants (ds_grants s)"
      using G.grant_not_rotated [of "ds_grants s" i h "dv_hash dv ?n" "dg_iso moment" moment] rot by simp
    consider "dg_refresh_hash g = h" "won" | "dg_refresh_hash g = h" "\<not> won" | "dg_refresh_hash g \<noteq> h" by blast
    then show ?thesis
    proof cases
      case 1
      then have "issue_device dv (s\<lparr>ds_grants := gs\<rparr>) g ?n moment = (p, s')"
        using run g rot by (simp add: refresh_device_def sp Let_def G.grant_get h)
      then show ?thesis using rotated [OF g(3,5)] rot 1 by simp
    next
      case 2
      then have "(case grants gs i of
           None \<Rightarrow> (Inl (device_refused ''invalid_grant''), s\<lparr>ds_grants := gs\<rparr>)
         | Some g \<Rightarrow> refresh_replayed dv (s\<lparr>ds_grants := gs\<rparr>) wall g i h ?n moment) = (p, s')"
        using run g rot unfolding h [symmetric] by (simp add: refresh_device_def sp Let_def G.grant_get)
      then show ?thesis using replayed [OF kept [OF 2(2)], of g] kept [OF 2(2)] g(3) by simp
    next
      case 3
      then have "refresh_replayed dv s wall g i h ?n moment = (p, s')"
        using run g by (simp add: refresh_device_def sp Let_def G.grant_get h)
      then show ?thesis using replayed [of "ds_grants s" g] g(3) self by simp
    qed
  qed
qed

lemma refresh_kept:
  assumes "refresh_device dv s wall params moment = (p, s')"
  shows "grant_kept (grants (ds_grants s) k) (grants (ds_grants s') k)"
  using assms
proof (cases rule: refresh_cases)
  case (refused e gs)
  then show ?thesis by simp
next
  case (rotated g gs)
  note out = rotated
  from out(3) have "grant_kept (grants (ds_grants s) k) (grants gs k)"
    using rotate_kept by (metis snd_conv)
  then show ?thesis using issue_kept [OF out(4), of k] grant_kept_trans by auto
next
  case (replayed g gs)
  then show ?thesis using replayed_kept [OF replayed(3), of k] by simp
qed

lemma open_grant_kept:
  assumes "open_grant dv s r moment i fresh = (p, s')" and "grants (ds_grants s) i = None"
  shows "grant_kept (grants (ds_grants s) k) (grants (ds_grants s') k)"
  using assms by (cases "k = i") (auto simp: open_grant_def Let_def G.grant_put split: option.splits)

section \<open>Polling\<close>

lemma poll_success:
  assumes "poll_device dv s wall params moment i fresh = (Inr t, s')"
  defines "h \<equiv> dv_hash dv (form_get params ''device_code'')"
  obtains r user where "codes (ds_codes s) h = Some r"
    and "compare_digest (dc_client_id r) (form_get params ''client_id'') = Some True"
    and "dc_status r = DeviceApproved" and "dc_user_id r \<noteq> []" and "moment < dc_expires_at r"
    and "load_permitted dv (dc_user_id r) = Some user" and "codes (ds_codes s') h = None"
    and "grants (ds_grants s') i = Some \<lparr>dg_grant_id = i, dg_user_id = dc_user_id r, dg_client_id = dc_client_id r,
      dg_scopes = dc_scopes r, dg_created_at = dg_iso moment, dg_expires_at = moment + dv_session_ttl dv,
      dg_refresh_hash = dv_hash dv (dv_successor dv i (dv_hash dv fresh)), dg_auth_time = dc_auth_time r,
      dg_previous_refresh_hash = [], dg_generation = 1, dg_revoked = False, dg_last_used_at = dg_iso moment,
      dg_rotated_at = 0\<rparr>"
    and "t = token_body dv (the (grants (ds_grants s') i)) user (dv_successor dv i (dv_hash dv fresh)) moment"
proof -
  have nz: "form_get params ''device_code'' \<noteq> []" "form_get params ''client_id'' \<noteq> []"
    using assms(1) by (auto simp: poll_device_def Let_def)
  obtain r where r: "co_get (dv_codes dv) (ds_codes s) wall h True = Some r"
    using assms(1) nz by (auto simp: poll_device_def Let_def h_def split: option.splits)
  have cmp: "\<not> dc_expires_at r \<le> moment"
    "compare_digest (dc_client_id r) (form_get params ''client_id'') = Some True"
    using assms(1) nz r by (auto simp: poll_device_def Let_def h_def split: option.splits bool.splits if_splits)
  obtain ok cs where poll: "co_record_poll (dv_codes dv) (ds_codes s) h moment (dc_interval r) = (ok, cs)" by fastforce
  have ok: "ok" "dc_status r \<noteq> DevicePending"
    using assms(1) nz r cmp poll by (auto simp: poll_device_def Let_def h_def split: bool.splits if_splits)
  obtain x cs2 where cons: "co_consume (dv_codes dv) cs h moment = (x, cs2)" by fastforce
  have run: "(case x of None \<Rightarrow> (Inl (device_refused ''invalid_grant''), s\<lparr>ds_codes := cs2\<rparr>)
      | Some c \<Rightarrow> if dc_status c \<noteq> DeviceApproved \<or> dc_user_id c = []
          then (Inl (device_refused ''access_denied''), s\<lparr>ds_codes := cs2\<rparr>)
          else open_grant dv (s\<lparr>ds_codes := cs2\<rparr>) c moment i fresh) = (Inr t, s')"
    using assms(1) nz r cmp poll ok cons unfolding h_def by (simp add: poll_device_def Let_def)
  then obtain c where c: "x = Some c" "dc_status c = DeviceApproved" "dc_user_id c \<noteq> []"
    "open_grant dv (s\<lparr>ds_codes := cs2\<rparr>) c moment i fresh = (Inr t, s')"
    by (auto split: option.splits if_splits)
  have row: "codes (ds_codes s) h = Some r" using r by (simp add: C.code_get split: option.splits if_splits)
  have c_row: "codes cs h = Some c" "codes cs2 h = None" "moment < dc_expires_at c"
    using C.code_consume [of cs h moment c] cons c(1) by simp_all
  have "paced (Some r) (Some c)"
    using C.code_record_poll [of "ds_codes s" h h moment "dc_interval r"] poll row c_row(1) by simp
  then obtain a b where same: "c = r\<lparr>dc_interval := a, dc_last_polled_at := b\<rparr>" by (auto simp: paced_def)
  obtain user where user: "load_permitted dv (dc_user_id r) = Some user"
    using c(4) by (auto simp: open_grant_def same split: option.splits)
  then show thesis
    using that [OF row cmp(2), of user] c c_row cmp(1)
    by (auto simp: open_grant_def same Let_def G.grant_put)
qed

lemma poll_kept:
  assumes "poll_device dv s wall params moment i fresh = (p, s')" and "grants (ds_grants s) i = None"
  shows "grant_kept (grants (ds_grants s) k) (grants (ds_grants s') k)"
proof -
  have "ds_grants s' = ds_grants s \<or> (\<exists>cs r. open_grant dv (s\<lparr>ds_codes := cs\<rparr>) r moment i fresh = (p, s'))"
    using assms(1) by (auto simp: poll_device_def Let_def split: option.splits bool.splits if_splits prod.splits)
  then show ?thesis using open_grant_kept assms(2) by fastforce
qed

lemma device_step_kept:
  assumes "device_step dv avoid s s'"
  shows "grant_kept (grants (ds_grants s) k) (grants (ds_grants s') k)"
  using assms
proof (cases rule: device_step.cases)
  case (step_start wall params moment draws r)
  then have "ds_grants s' = ds_grants s"
    by (auto simp: start_device_def Let_def split: option.splits if_splits prod.splits)
  then show ?thesis by simp
next
  case (step_lookup user_id moment)
  then show ?thesis by (simp add: note_failed_lookup_def)
next
  case (step_decide wall a user_id allow auth_time b)
  then have "ds_grants s' = ds_grants s" by (auto simp: decide_device_def Let_def split: if_splits prod.splits)
  then show ?thesis by simp
next
  case (step_poll wall params moment grant_id fresh p)
  then show ?thesis using poll_kept by (simp add: G.grant_get)
next
  case (step_refresh wall params moment p)
  then show ?thesis by (blast intro: refresh_kept)
next
  case (step_revoke_token token b)
  then have "ds_grants s' = ds_grants s \<or> (\<exists>j. ds_grants s' = snd (gr_revoke (dv_grants dv) (ds_grants s) j))"
    by (auto simp: revoke_device_token_def Let_def split: option.splits if_splits prod.splits) (metis snd_conv)+
  then show ?thesis using revoke_kept by auto
next
  case (step_revoke_grant grant_id user_id b)
  then have "ds_grants s' = ds_grants s \<or> (\<exists>j. ds_grants s' = snd (gr_revoke (dv_grants dv) (ds_grants s) j))"
    by (auto simp: revoke_device_grant_def Let_def split: option.splits if_splits prod.splits) (metis snd_conv)+
  then show ?thesis using revoke_kept by auto
next
  case (step_revoke_all user_id n)
  then show ?thesis
    using revoke_rows_kept
    by (auto simp: revoke_all_device_def gr_revoke_all_for_user_def split: prod.splits)
qed

lemma device_run_kept:
  "(device_step dv avoid)\<^sup>*\<^sup>* s s' \<Longrightarrow> grant_kept (grants (ds_grants s) k) (grants (ds_grants s') k)"
proof (induction rule: rtranclp_induct)
  case base
  then show ?case by simp
next
  case (step u v)
  then show ?case using device_step_kept grant_kept_trans by blast
qed

section \<open>A code that is gone\<close>

lemma store_request_absent:
  "store_request dv cs wall c sc moment draws = (r, cs') \<Longrightarrow> h \<notin> dv_hash dv ` fst ` set draws \<Longrightarrow>
    codes cs h = None \<Longrightarrow> codes cs' h = None"
proof (induction draws arbitrary: cs)
  case Nil
  then show ?case by simp
next
  case (Cons d draws)
  obtain device_code raw where d: "d = (device_code, raw)" by (cases d)
  define row where "row = \<lparr>dc_hash = dv_hash dv device_code,
     dc_user_code_hash = user_code_hash dv (normalize_user_code (new_user_code raw)),
     dc_client_id = c, dc_scopes = sc, dc_created_at = dg_iso moment,
     dc_expires_at = moment + dv_code_ttl dv, dc_interval = dv_poll_interval dv,
     dc_status = DevicePending, dc_user_id = [], dc_auth_time = 0, dc_last_polled_at = 0\<rparr>"
  obtain stored cs1 where put: "co_put (dv_codes dv) cs wall row = (stored, cs1)" by fastforce
  have "dc_hash row \<noteq> h" using Cons.prems(2) by (auto simp: row_def d)
  then have absent: "codes cs1 h = None"
    using C.code_put [of cs wall row] put Cons.prems(3) by (simp split: if_splits)
  show ?case
  proof (cases stored)
    case True
    then have "cs' = cs1" using Cons.prems(1) put by (simp add: d row_def [symmetric] Let_def)
    then show ?thesis using absent by simp
  next
    case False
    then have "store_request dv cs1 wall c sc moment draws = (r, cs')"
      using Cons.prems(1) put by (simp add: d row_def [symmetric] Let_def)
    then show ?thesis using Cons.IH Cons.prems(2) absent by simp
  qed
qed

lemma paced_None: "paced None r \<longleftrightarrow> r = None"
  by (cases r) (simp_all add: paced_def)

lemma poll_absent:
  assumes "poll_device dv s wall params moment i fresh = (p, s')" and "codes (ds_codes s) h = None"
  shows "codes (ds_codes s') h = None"
proof -
  have polled: "codes cs h = None" if "co_record_poll (dv_codes dv) (ds_codes s) k m n = (b, cs)" for k m n b cs
    using C.code_record_poll [of "ds_codes s" h k m n] that assms(2) by (simp add: paced_None)
  have slowed: "codes (co_slow_down (dv_codes dv) cs k n) h = None" if "codes cs h = None" for cs k n
    using C.code_slow_down [of cs h k n] that by (simp add: paced_None)
  have consumed: "codes cs' h = None" if "codes cs h = None" "co_consume (dv_codes dv) cs k m = (x, cs')" for cs k m x cs'
    using C.code_consume [of cs k m] C.code_not_consumed [of cs k m] that by (cases x) auto
  let ?h = "dv_hash dv (form_get params ''device_code'')" and ?c = "form_get params ''client_id''"
  show ?thesis
  proof (cases "\<exists>r. form_get params ''device_code'' \<noteq> [] \<and> ?c \<noteq> [] \<and>
      co_get (dv_codes dv) (ds_codes s) wall ?h True = Some r \<and> \<not> dc_expires_at r \<le> moment \<and>
      compare_digest (dc_client_id r) ?c = Some True")
    case False
    then have "s' = s"
      using assms(1) by (auto simp: poll_device_def Let_def split: option.splits bool.splits if_splits)
    then show ?thesis using assms(2) by simp
  next
    case True
    then obtain r where r: "form_get params ''device_code'' \<noteq> []" "?c \<noteq> []"
      "co_get (dv_codes dv) (ds_codes s) wall ?h True = Some r" "\<not> dc_expires_at r \<le> moment"
      "compare_digest (dc_client_id r) ?c = Some True" by blast
    obtain ok cs where poll: "co_record_poll (dv_codes dv) (ds_codes s) ?h moment (dc_interval r) = (ok, cs)"
      by fastforce
    obtain x cs2 where cons: "co_consume (dv_codes dv) cs ?h moment = (x, cs2)" by fastforce
    have "ds_codes s' = co_slow_down (dv_codes dv) cs ?h (dc_interval r + slow_down_step) \<or> ds_codes s' = cs \<or>
        ds_codes s' = cs2"
      using assms(1) r poll cons
      by (cases ok) (auto simp: poll_device_def Let_def open_grant_def split: option.splits if_splits)
    then show ?thesis
      using slowed [OF polled [OF poll]] polled [OF poll] consumed [OF polled [OF poll] cons] by auto
  qed
qed

lemma device_step_absent:
  assumes "device_step dv {h} s s'" and "codes (ds_codes s) h = None"
  shows "codes (ds_codes s') h = None"
  using assms
proof (cases rule: device_step.cases)
  case (step_start wall params moment draws r)
  then have "h \<notin> dv_hash dv ` fst ` set (take user_code_attempts draws)" by (auto dest: in_set_takeD)
  then show ?thesis
    using step_start assms(2) store_request_absent
    by (auto simp: start_device_def Let_def split: option.splits if_splits prod.splits)
next
  case (step_lookup user_id moment)
  then show ?thesis using assms(2) by (simp add: note_failed_lookup_def C.code_record_failed)
next
  case (step_decide wall a user_id allow auth_time b)
  then have "ds_codes s' = ds_codes s \<or> (\<exists>j st u sc t. ds_codes s' = snd (co_decide (dv_codes dv) (ds_codes s) wall j st u sc t))"
    by (auto simp: decide_device_def Let_def split: if_splits prod.splits) (metis snd_conv)+
  moreover have "codes (snd (co_decide (dv_codes dv) (ds_codes s) wall j st u sc t)) h = None" for j st u sc t
    using C.code_decide [of "ds_codes s" wall j st u sc t] C.code_undecided [of "ds_codes s" wall j st u sc t] assms(2)
    by (cases "fst (co_decide (dv_codes dv) (ds_codes s) wall j st u sc t)") auto
  ultimately show ?thesis using assms(2) by auto
next
  case (step_poll wall params moment grant_id fresh p)
  then show ?thesis using poll_absent assms(2) by blast
next
  case (step_refresh wall params moment p)
  from step_refresh(1) have "ds_codes s' = ds_codes s"
    by (cases rule: refresh_cases)
      (auto simp: issue_device_def refresh_replayed_def split: option.splits if_splits)
  then show ?thesis using assms(2) by simp
next
  case (step_revoke_token token b)
  then have "ds_codes s' = ds_codes s"
    by (auto simp: revoke_device_token_def Let_def split: option.splits if_splits prod.splits)
  then show ?thesis using assms(2) by simp
next
  case (step_revoke_grant grant_id user_id b)
  then have "ds_codes s' = ds_codes s"
    by (auto simp: revoke_device_grant_def Let_def split: option.splits if_splits prod.splits)
  then show ?thesis using assms(2) by simp
next
  case (step_revoke_all user_id n)
  then have "ds_codes s' = ds_codes s" by (auto simp: revoke_all_device_def split: prod.splits)
  then show ?thesis using assms(2) by simp
qed

lemma device_run_absent:
  "(device_step dv {h})\<^sup>*\<^sup>* s s' \<Longrightarrow> codes (ds_codes s) h = None \<Longrightarrow> codes (ds_codes s') h = None"
proof (induction rule: rtranclp_induct)
  case base
  then show ?case by simp
next
  case (step u v)
  then show ?case using device_step_absent by blast
qed

section \<open>Refreshing\<close>

lemma refresh_success:
  assumes "refresh_device dv s wall params moment = (Inr t, s')"
  obtains g user secret where "grants (ds_grants s) (fst (split_refresh (form_get params ''refresh_token''))) = Some g"
    and "grant_live wall g" and "t = token_body dv g user secret moment"
  using assms
proof (cases rule: refresh_cases)
  case (refused e gs)
  then show ?thesis by simp
next
  case (rotated g gs)
  then show ?thesis using that by (auto simp: issue_device_def split: option.splits)
next
  case (replayed g gs)
  then show ?thesis
    using that by (auto simp: refresh_replayed_def issue_device_def device_within_grace_def split: option.splits if_splits)
qed

lemma revoked_no_refresh:
  assumes "grants (ds_grants s) (fst (split_refresh (form_get params ''refresh_token''))) = Some g" and "dg_revoked g"
  shows "\<exists>e s'. refresh_device dv s wall params moment = (Inl e, s')"
proof -
  obtain p s' where run: "refresh_device dv s wall params moment = (p, s')" by fastforce
  have "p \<noteq> Inr t" for t
  proof
    assume "p = Inr t"
    with run have "refresh_device dv s wall params moment = (Inr t, s')" by simp
    then show False using assms by (auto elim!: refresh_success simp: grant_live_def)
  qed
  then show ?thesis using run by (cases p) auto
qed

text \<open>A token that was replaced, presented again after its grace, ends the grant.\<close>

lemma refresh_reuse:
  assumes "grants (ds_grants s) i = Some g"
    and "split_refresh (form_get params ''refresh_token'') = (i, secret)" and "i \<noteq> []"
    and "form_get params ''client_id'' \<noteq> []"
    and "compare_digest (dg_client_id g) (form_get params ''client_id'') = Some True" and "grant_live wall g"
    and "dg_previous_refresh_hash g = dv_hash dv secret" and "dv_hash dv secret \<noteq> []"
    and "dg_refresh_hash g \<noteq> dv_hash dv secret" and "refresh_grace_seconds < moment - dg_rotated_at g"
    and "refresh_device dv s wall params moment = (p, s')"
  shows "p = Inl (device_refused ''invalid_grant'') \<and>
    (\<exists>g'. grants (ds_grants s') i = Some g' \<and> dg_revoked g')"
proof -
  have "\<not> device_within_grace dv wall g (dv_hash dv secret) (dv_successor dv i (dv_hash dv secret)) moment"
    using assms(10) by (simp add: device_within_grace_def)
  then have "refresh_device dv s wall params moment =
      (Inl (device_refused ''invalid_grant''), s\<lparr>ds_grants := snd (gr_revoke (dv_grants dv) (ds_grants s) i)\<rparr>)"
    using assms by (simp add: refresh_device_def Let_def G.grant_get refresh_replayed_def)
  then show ?thesis using assms(1,11) by (auto simp: G.grant_revoke)
qed

end

section \<open>The in-memory stores\<close>

definition memory_devices ::
  "(code_memory, grant_memory, 'u) device_service \<Rightarrow> (code_memory, grant_memory, 'u) device_service" where
  "memory_devices dv = dv\<lparr>dv_codes := memory_code_ops, dv_grants := memory_grant_ops\<rparr>"

interpretation devices: device_service_over "memory_devices dv" "\<lambda>s. dget (cm_items s)" dget for dv
  using mem_code.device_code_store_axioms mem_grant.device_grant_store_axioms
  by (simp add: device_service_over_def memory_devices_def)

definition demo_devices :: "(code_memory, grant_memory, unit) device_service" where
  "demo_devices = memory_devices
     \<lparr>dv_codes = memory_code_ops, dv_grants = memory_grant_ops, dv_clients = [(''cli'', ''The CLI'')],
      dv_scopes_supported = [''read'', ''write''], dv_explicit_scopes = [''write''], dv_code_ttl = 600,
      dv_poll_interval = 5, dv_session_ttl = 1000, dv_access_ttl = 60, dv_issuer = ''https://id'',
      dv_hash = demo_hash, dv_successor = (\<lambda>i h. i @ h), dv_sign = demo_hash, dv_load_user = (\<lambda>_. Some ()),
      dv_may_authenticate = (\<lambda>_. True), dv_claims_for = (\<lambda>_. \<lparr>pc_scopes = None, pc_scope = None\<rparr>)\<rparr>"

definition demo_device_code :: device_code where
  "demo_device_code = \<lparr>dc_hash = demo_hash ''D'', dc_user_code_hash = ''u'', dc_client_id = ''cli'',
     dc_scopes = [''read''], dc_created_at = [], dc_expires_at = 600, dc_interval = 5, dc_status = DeviceApproved,
     dc_user_id = ''u1'', dc_auth_time = 3, dc_last_polled_at = 0\<rparr>"

definition demo_device_state :: "(code_memory, grant_memory) device_state" where
  "demo_device_state = \<lparr>ds_codes = \<lparr>cm_items = [(demo_hash ''D'', demo_device_code)], cm_reservations = [],
     cm_failures = []\<rparr>, ds_grants = []\<rparr>"

definition demo_poll :: form where
  "demo_poll = [(''device_code'', ''D''), (''client_id'', ''cli'')]"

lemma demo_devices_simps:
  "dv_hash demo_devices = demo_hash" "dv_grants demo_devices = memory_grant_ops"
  "load_permitted demo_devices u = Some ()"
  by (simp_all add: demo_devices_def memory_devices_def load_permitted_def)

lemma demo_service: "device_service_over demo_devices (\<lambda>s. dget (cm_items s)) dget"
  unfolding demo_devices_def by (rule devices.device_service_over_axioms)

definition opened_grant :: device_grant where
  "opened_grant = \<lparr>dg_grant_id = ''g'', dg_user_id = ''u1'', dg_client_id = ''cli'', dg_scopes = [''read''],
     dg_created_at = dg_iso 10, dg_expires_at = 1010, dg_refresh_hash = demo_hash (''g'' @ demo_hash ''f''),
     dg_auth_time = 3, dg_previous_refresh_hash = [], dg_generation = 1, dg_revoked = False,
     dg_last_used_at = dg_iso 10, dg_rotated_at = 0\<rparr>"

lemma demo_poll_succeeds:
  "\<exists>t cs. poll_device demo_devices demo_device_state 0 demo_poll 10 ''g'' ''f'' =
     (Inr t, \<lparr>ds_codes = cs, ds_grants = [(''g'', opened_grant)]\<rparr>)"
  by (simp add: opened_grant_def poll_device_def demo_devices_def memory_devices_def demo_device_state_def demo_poll_def form_get_def
      memory_code_ops_def memory_grant_ops_def mem_code_get_def demo_device_code_def demo_hash_def Let_def
      compare_digest_def is_ascii_def mem_code_record_poll_def mem_code_consume_def open_grant_def load_permitted_def)

definition demo_refresh :: "string \<Rightarrow> form" where
  "demo_refresh secret = [(''refresh_token'', ''wpdr_g.'' @ secret), (''client_id'', ''cli'')]"

lemma demo_refresh_simps:
  "secret \<noteq> [] \<Longrightarrow> split_refresh (form_get (demo_refresh secret) ''refresh_token'') = (''g'', secret)"
  "form_get (demo_refresh secret) ''client_id'' = ''cli''"
  by (simp_all add: demo_refresh_def form_get_def split_refresh_def device_refresh_prefix_def)

definition reused_grant :: device_grant where
  "reused_grant = \<lparr>dg_grant_id = ''g'', dg_user_id = ''u1'', dg_client_id = ''cli'', dg_scopes = [''read''],
     dg_created_at = [], dg_expires_at = 1000, dg_refresh_hash = demo_hash ''new'', dg_auth_time = 3,
     dg_previous_refresh_hash = demo_hash ''gx'', dg_generation = 2, dg_revoked = False, dg_last_used_at = [],
     dg_rotated_at = 10\<rparr>"

definition reused_state :: "(code_memory, grant_memory) device_state" where
  "reused_state = \<lparr>ds_codes = code_memory_new, ds_grants = [(''g'', reused_grant)]\<rparr>"

section \<open>Properties\<close>

text \<open>
  C28. A device code signs in once, and only after a person approved it. A poll that answers
  tokens names a stored request that was approved, has not expired and belongs to the client,
  and the tokens are for the person who approved it, within the scopes of the approval; and
  after any further history of requests that draw other codes, the same code earns nothing.
\<close>

theorem device_code_single_use:
  assumes "device_service_over dv codes grants"
    and "poll_device dv s wall params moment i fresh = (Inr t, s1)"
    and "(device_step dv {dv_hash dv (form_get params ''device_code'')})\<^sup>*\<^sup>* s1 s2"
    and "form_get params' ''device_code'' = form_get params ''device_code''"
  shows "(\<exists>r. codes (ds_codes s) (dv_hash dv (form_get params ''device_code'')) = Some r \<and>
      dc_status r = DeviceApproved \<and> moment < dc_expires_at r \<and> dc_client_id r = form_get params ''client_id'' \<and>
      dt_sub t = dc_user_id r \<and> set (dt_scope t) \<subseteq> set (dc_scopes r)) \<and>
    (\<exists>e s3. poll_device dv s2 wall' params' moment' i' fresh' = (Inl e, s3))"
proof -
  let ?h = "dv_hash dv (form_get params ''device_code'')"
  from device_service_over.poll_success [OF assms(1,2)] obtain r user where
    r: "codes (ds_codes s) ?h = Some r" "compare_digest (dc_client_id r) (form_get params ''client_id'') = Some True"
      "dc_status r = DeviceApproved" "moment < dc_expires_at r" "codes (ds_codes s1) ?h = None"
    and g: "grants (ds_grants s1) i = Some \<lparr>dg_grant_id = i, dg_user_id = dc_user_id r, dg_client_id = dc_client_id r,
      dg_scopes = dc_scopes r, dg_created_at = dg_iso moment, dg_expires_at = moment + dv_session_ttl dv,
      dg_refresh_hash = dv_hash dv (dv_successor dv i (dv_hash dv fresh)), dg_auth_time = dc_auth_time r,
      dg_previous_refresh_hash = [], dg_generation = 1, dg_revoked = False, dg_last_used_at = dg_iso moment,
      dg_rotated_at = 0\<rparr>"
    and t: "t = token_body dv (the (grants (ds_grants s1) i)) user (dv_successor dv i (dv_hash dv fresh)) moment"
    by metis
  have gone: "codes (ds_codes s2) ?h = None"
    by (rule device_service_over.device_run_absent [OF assms(1,3) r(5)])
  obtain p s3 where again: "poll_device dv s2 wall' params' moment' i' fresh' = (p, s3)" by fastforce
  have "p \<noteq> Inr t'" for t'
  proof
    assume "p = Inr t'"
    with again have "poll_device dv s2 wall' params' moment' i' fresh' = (Inr t', s3)" by simp
    from device_service_over.poll_success [OF assms(1) this] obtain r' where
      "codes (ds_codes s2) (dv_hash dv (form_get params' ''device_code'')) = Some r'" by metis
    then show False using gone by (simp add: assms(4))
  qed
  then have "\<exists>e s3. poll_device dv s2 wall' params' moment' i' fresh' = (Inl e, s3)"
    using again by (cases p) auto
  moreover have "dc_client_id r = form_get params ''client_id''"
    using r(2) by (simp add: compare_digest_def split: if_splits)
  moreover have "dt_sub t = dc_user_id r \<and> set (dt_scope t) \<subseteq> set (dc_scopes r)"
    using narrow_subset by (simp add: t g token_body_def)
  ultimately show ?thesis using r by blast
qed

theorem device_code_single_use_witness:
  "\<exists>t s1. poll_device demo_devices demo_device_state 0 demo_poll 10 ''g'' ''f'' = (Inr t, s1) \<and>
    set (dt_scope t) \<subseteq> {''read''} \<and> (\<exists>e s3. poll_device demo_devices s1 0 demo_poll 20 ''h'' ''f2'' = (Inl e, s3))"
proof -
  obtain t s1 where p: "poll_device demo_devices demo_device_state 0 demo_poll 10 ''g'' ''f'' = (Inr t, s1)"
    using demo_poll_succeeds by blast
  have hash: "dv_hash demo_devices = demo_hash" by (simp add: demo_devices_def memory_devices_def)
  show ?thesis
    using device_code_single_use [OF demo_service p rtranclp.rtrancl_refl refl, of 0 20 "''h''" "''f2''"] p
    by (auto simp: hash demo_device_state_def demo_poll_def form_get_def demo_device_code_def)
qed

text \<open>
  C29. A device login never widens or outlives itself. The tokens a later refresh answers for
  the grant a poll opened, after any history of requests, are for the same person, client and
  grant, hold no scope the approval did not, and are answered only before the session cap set
  when it was opened, which the refresh token's life still counts down to.
\<close>

theorem device_grant_never_widens:
  assumes "device_service_over dv codes grants"
    and "poll_device dv s wall params moment i fresh = (Inr t, s1)"
    and "(device_step dv avoid)\<^sup>*\<^sup>* s1 s2"
    and "refresh_device dv s2 wall' params' moment' = (Inr t', s3)"
    and "fst (split_refresh (form_get params' ''refresh_token'')) = i"
  shows "dt_sub t' = dt_sub t \<and> dt_client_id t' = dt_client_id t \<and> dt_sid t' = dt_sid t \<and>
    (\<exists>r. codes (ds_codes s) (dv_hash dv (form_get params ''device_code'')) = Some r \<and>
       set (dt_scope t') \<subseteq> set (dc_scopes r)) \<and>
    \<not> is_expired wall' (moment + dv_session_ttl dv) \<and>
    dt_refresh_expires_in t' = max (moment + dv_session_ttl dv - moment') 0"
proof -
  from device_service_over.poll_success [OF assms(1,2)] obtain r user where
    r: "codes (ds_codes s) (dv_hash dv (form_get params ''device_code'')) = Some r"
    and g: "grants (ds_grants s1) i = Some \<lparr>dg_grant_id = i, dg_user_id = dc_user_id r, dg_client_id = dc_client_id r,
      dg_scopes = dc_scopes r, dg_created_at = dg_iso moment, dg_expires_at = moment + dv_session_ttl dv,
      dg_refresh_hash = dv_hash dv (dv_successor dv i (dv_hash dv fresh)), dg_auth_time = dc_auth_time r,
      dg_previous_refresh_hash = [], dg_generation = 1, dg_revoked = False, dg_last_used_at = dg_iso moment,
      dg_rotated_at = 0\<rparr>"
    and t: "t = token_body dv (the (grants (ds_grants s1) i)) user (dv_successor dv i (dv_hash dv fresh)) moment"
    by metis
  from device_service_over.refresh_success [OF assms(1,4)] obtain g2 user2 secret2 where
    g2: "grants (ds_grants s2) i = Some g2" "grant_live wall' g2" "t' = token_body dv g2 user2 secret2 moment'"
    unfolding assms(5) by metis
  have "grant_kept (grants (ds_grants s1) i) (grants (ds_grants s2) i)"
    by (rule device_service_over.device_run_kept [OF assms(1,3)])
  then have same: "dg_grant_id g2 = i" "dg_user_id g2 = dc_user_id r" "dg_client_id g2 = dc_client_id r"
    "dg_scopes g2 = dc_scopes r" "dg_expires_at g2 = moment + dv_session_ttl dv"
    by (simp_all add: grant_kept_def g g2(1))
  show ?thesis
    using r g2(2) narrow_subset by (simp add: t g g2(3) token_body_def same grant_live_def)
qed

theorem device_grant_never_widens_witness:
  "\<exists>t s1 t' s3. poll_device demo_devices demo_device_state 0 demo_poll 10 ''g'' ''f'' = (Inr t, s1) \<and>
    refresh_device demo_devices s1 0 (demo_refresh (''g'' @ demo_hash ''f'')) 20 = (Inr t', s3) \<and>
    dt_sub t' = dt_sub t \<and> dt_refresh_expires_in t' = 990"
proof -
  obtain t cs where p: "poll_device demo_devices demo_device_state 0 demo_poll 10 ''g'' ''f'' =
      (Inr t, \<lparr>ds_codes = cs, ds_grants = [(''g'', opened_grant)]\<rparr>)"
    using demo_poll_succeeds by blast
  let ?s1 = "\<lparr>ds_codes = cs, ds_grants = [(''g'', opened_grant)]\<rparr>"
  have "\<exists>t' s3. refresh_device demo_devices ?s1 0 (demo_refresh (''g'' @ demo_hash ''f'')) 20 = (Inr t', s3)"
    by (simp add: refresh_device_def demo_refresh_simps demo_devices_simps memory_grant_ops_def mem_grant_rotate_def
        issue_device_def opened_grant_def grant_live_def compare_digest_def is_ascii_def is_expired_def Let_def
        int_timestamp_def)
  then obtain t' s3 where r: "refresh_device demo_devices ?s1 0 (demo_refresh (''g'' @ demo_hash ''f'')) 20 = (Inr t', s3)"
    by blast
  have "dv_session_ttl demo_devices = 1000" by (simp add: demo_devices_def memory_devices_def)
  then show ?thesis
    using device_grant_never_widens [OF demo_service p rtranclp.rtrancl_refl r] p r
    by (simp add: demo_refresh_simps)
qed

text \<open>
  C30. Reuse ends a device login for good. The refresh token that was replaced last, presented by
  its client later than the grace window, is refused and revokes the grant; and after any further
  history no refresh token of that grant earns tokens and no access token of it is live. (A token
  replaced before it is refused without revoking: the grant keeps one previous hash.)
\<close>

theorem device_reuse_ends_grant:
  assumes "device_service_over dv codes grants" and "grants (ds_grants s) i = Some g"
    and "split_refresh (form_get params ''refresh_token'') = (i, secret)" and "i \<noteq> []"
    and "form_get params ''client_id'' \<noteq> []"
    and "compare_digest (dg_client_id g) (form_get params ''client_id'') = Some True" and "grant_live wall g"
    and "dg_previous_refresh_hash g = dv_hash dv secret" and "dv_hash dv secret \<noteq> []"
    and "dg_refresh_hash g \<noteq> dv_hash dv secret" and "refresh_grace_seconds < moment - dg_rotated_at g"
    and "refresh_device dv s wall params moment = (p, s1)" and "(device_step dv avoid)\<^sup>*\<^sup>* s1 s2"
    and "fst (split_refresh (form_get params' ''refresh_token'')) = i"
    and "tc_grant claims = ''device''" and "tc_sid claims = i"
  shows "p = Inl (device_refused ''invalid_grant'') \<and>
    (\<exists>e s3. refresh_device dv s2 wall' params' moment' = (Inl e, s3)) \<and>
    \<not> device_grant_is_live (dv_grants dv) (ds_grants s2) wall' claims"
proof -
  from device_service_over.refresh_reuse [OF assms(1-12)] obtain g1 where
    p: "p = Inl (device_refused ''invalid_grant'')" and g1: "grants (ds_grants s1) i = Some g1" "dg_revoked g1"
    by blast
  have "grant_kept (grants (ds_grants s1) i) (grants (ds_grants s2) i)"
    by (rule device_service_over.device_run_kept [OF assms(1,13)])
  then obtain g2 where g2: "grants (ds_grants s2) i = Some g2" "dg_revoked g2"
    using g1 by (auto simp: grant_kept_def)
  have get: "gr_get (dv_grants dv) (ds_grants s2) i = Some g2"
    using device_grant_store.grant_get [OF device_service_over.axioms(2) [OF assms(1)]] g2 by simp
  show ?thesis
    using p device_service_over.revoked_no_refresh [OF assms(1), of s2 params' g2 wall' moment'] g2 assms(4,14-16) get
    by (simp add: device_grant_is_live_def grant_live_def)
qed

theorem device_reuse_ends_grant_witness:
  "fst (refresh_device demo_devices reused_state 0 (demo_refresh ''gx'') 50) = Inl (device_refused ''invalid_grant'') \<and>
   \<not> device_grant_is_live memory_grant_ops
       (ds_grants (snd (refresh_device demo_devices reused_state 0 (demo_refresh ''gx'') 50))) 0
       \<lparr>tc_grant = ''device'', tc_sid = ''g'', tc_sub = ''u1''\<rparr>"
proof -
  obtain p s1 where run: "refresh_device demo_devices reused_state 0 (demo_refresh ''gx'') 50 = (p, s1)" by fastforce
  have row: "dget (ds_grants reused_state) ''g'' = Some reused_grant" by (simp add: reused_state_def)
  have split: "split_refresh (form_get (demo_refresh ''gx'') ''refresh_token'') = (''g'', ''gx'')"
    by (simp add: demo_refresh_simps)
  have facts: "compare_digest (dg_client_id reused_grant) (form_get (demo_refresh ''gx'') ''client_id'') = Some True"
    "grant_live 0 reused_grant" "dg_previous_refresh_hash reused_grant = dv_hash demo_devices ''gx''"
    "dv_hash demo_devices ''gx'' \<noteq> []" "dg_refresh_hash reused_grant \<noteq> dv_hash demo_devices ''gx''"
    "refresh_grace_seconds < 50 - dg_rotated_at reused_grant"
    by (simp_all add: reused_grant_def demo_refresh_simps demo_devices_simps compare_digest_def is_ascii_def
        grant_live_def is_expired_def int_timestamp_def demo_hash_def refresh_grace_seconds_def)
  show ?thesis
    using device_reuse_ends_grant [OF demo_service row split _ _ facts run rtranclp.rtrancl_refl,
        of "demo_refresh ''gx''" "\<lparr>tc_grant = ''device'', tc_sid = ''g'', tc_sub = ''u1''\<rparr>" 0 50]
    by (simp add: run split demo_refresh_simps demo_devices_simps)
qed

end
