(* ===== verification/ApiKeys.thy ===== *)
theory ApiKeys
  imports Stores
begin

text \<open>
  identity/api_keys.py: long-lived keys, stored under the SHA-256 of what the caller presents.
  \<open>hash_key\<close> is that digest, a parameter; the 256 random bits of a new key and its id are
  arguments of \<open>mint_key\<close>. A store is a record of operations, so the functions below run over
  any implementation; the dictionary one follows. \<^verbatim>\<open>hmac.compare_digest\<close> raises \<^verbatim>\<open>TypeError\<close>
  on a string outside ASCII, here the error of the functions that compare.
\<close>

section \<open>Records\<close>

definition api_key_prefix :: string where "api_key_prefix = ''wpk_''"
definition prefix_display_length :: nat where "prefix_display_length = 12"
definition kind_user :: string where "kind_user = ''user''"

record api_key =
  ak_key_hash :: string
  ak_user_id :: string
  ak_tenant_id :: string
  ak_prefix :: string
  ak_scopes :: "string list"
  ak_name :: string
  ak_created_at :: string
  ak_expires_at :: int
  ak_last_used_at :: string
  ak_revoked_at :: string
  ak_key_id :: string
  ak_kind :: string
  ak_created_by :: "string option"
  ak_metadata :: json_object

definition is_api_key :: "string \<Rightarrow> bool" where
  "is_api_key candidate = startswith candidate api_key_prefix"

definition display_prefix :: "string \<Rightarrow> string" where
  "display_prefix plaintext = take prefix_display_length plaintext"

text \<open>\<^verbatim>\<open>tuple(sorted({...}))\<close> of the stripped, non-blank scopes.\<close>

definition normalise_scopes :: "string list \<Rightarrow> string list" where
  "normalise_scopes scopes = sort (remdups (filter (\<lambda>s. s \<noteq> []) (map strip scopes)))"

definition revoke_handle :: "api_key \<Rightarrow> string" where
  "revoke_handle r = str_or (ak_key_id r) (ak_key_hash r)"

definition ak_is_revoked :: "api_key \<Rightarrow> bool" where
  "ak_is_revoked r = (ak_revoked_at r \<noteq> [])"

definition ak_is_expired :: "datetime \<Rightarrow> api_key \<Rightarrow> bool" where
  "ak_is_expired now r = (ak_expires_at r \<noteq> 0 \<and> ak_expires_at r * second \<le> now)"

definition ak_is_usable :: "datetime \<Rightarrow> api_key \<Rightarrow> bool" where
  "ak_is_usable now r = (\<not> ak_is_revoked r \<and> \<not> ak_is_expired now r)"

section \<open>The store\<close>

text \<open>\<open>ko_revoke\<close> and \<open>ko_touch\<close> take the stamp to write, which defaults to now.\<close>

record 's key_ops =
  ko_get :: "'s \<Rightarrow> string \<Rightarrow> api_key option"
  ko_put :: "'s \<Rightarrow> api_key \<Rightarrow> 's"
  ko_list_for_user :: "'s \<Rightarrow> string \<Rightarrow> api_key list"
  ko_revoke :: "'s \<Rightarrow> string \<Rightarrow> string option \<Rightarrow> api_key option \<times> 's"
  ko_touch :: "'s \<Rightarrow> string \<Rightarrow> string option \<Rightarrow> 's"
  ko_delete_all_for_user :: "'s \<Rightarrow> string \<Rightarrow> 's \<times> nat"
  ko_list_for_tenant :: "'s \<Rightarrow> string \<Rightarrow> api_key list"

definition stamp_or :: "string option \<Rightarrow> datetime \<Rightarrow> string" where
  "stamp_or given wall = str_or (case given of Some s \<Rightarrow> s | None \<Rightarrow> []) (now_iso wall)"

datatype key_error = KeyTypeError

fun find_handle :: "string \<Rightarrow> api_key list \<Rightarrow> key_error + api_key option" where
  "find_handle key_id [] = Inr None"
| "find_handle key_id (r # rs) =
     (case compare_digest (revoke_handle r) key_id of
        None \<Rightarrow> Inl KeyTypeError
      | Some True \<Rightarrow> Inr (Some r)
      | Some False \<Rightarrow> find_handle key_id rs)"

definition ko_get_by_id :: "'s key_ops \<Rightarrow> 's \<Rightarrow> string \<Rightarrow> string \<Rightarrow> key_error + api_key option" where
  "ko_get_by_id K s tenant_id key_id =
     (if tenant_id = [] \<or> key_id = [] then Inr None else find_handle key_id (ko_list_for_tenant K s tenant_id))"

definition ko_revoke_by_id ::
  "'s key_ops \<Rightarrow> 's \<Rightarrow> string \<Rightarrow> string \<Rightarrow> string option \<Rightarrow> (key_error + api_key option) \<times> 's" where
  "ko_revoke_by_id K s tenant_id key_id revoked_at =
     (case ko_get_by_id K s tenant_id key_id of
        Inl e \<Rightarrow> (Inl e, s)
      | Inr None \<Rightarrow> (Inr None, s)
      | Inr (Some r) \<Rightarrow> (case ko_revoke K s (ak_key_hash r) revoked_at of (old, s') \<Rightarrow> (Inr old, s')))"

definition ko_count_for_tenant :: "'s key_ops \<Rightarrow> 's \<Rightarrow> string \<Rightarrow> nat" where
  "ko_count_for_tenant K s tenant_id = length (ko_list_for_tenant K s tenant_id)"

fun revoke_listed_keys :: "'s key_ops \<Rightarrow> string option \<Rightarrow> api_key list \<Rightarrow> 's \<Rightarrow> nat \<Rightarrow> 's \<times> nat" where
  "revoke_listed_keys K revoked_at [] s n = (s, n)"
| "revoke_listed_keys K revoked_at (r # rs) s n =
     (if \<not> ak_is_revoked r
      then (case ko_revoke K s (ak_key_hash r) revoked_at of
              (old, s') \<Rightarrow> revoke_listed_keys K revoked_at rs s' (if old \<noteq> None then Suc n else n))
      else revoke_listed_keys K revoked_at rs s n)"

definition ko_revoke_all_for_tenant :: "'s key_ops \<Rightarrow> 's \<Rightarrow> string \<Rightarrow> string option \<Rightarrow> 's \<times> nat" where
  "ko_revoke_all_for_tenant K s tenant_id revoked_at =
     revoke_listed_keys K revoked_at (ko_list_for_tenant K s tenant_id) s 0"

section \<open>The store in memory\<close>

type_synonym key_memory = "(string, api_key) dict"

definition mem_key_get :: "key_memory \<Rightarrow> string \<Rightarrow> api_key option" where
  "mem_key_get s h = dget s h"

definition mem_key_put :: "key_memory \<Rightarrow> api_key \<Rightarrow> key_memory" where
  "mem_key_put s r = dset (ak_key_hash r) r s"

definition mem_key_list_for_user :: "key_memory \<Rightarrow> string \<Rightarrow> api_key list" where
  "mem_key_list_for_user s u = sort_key ak_created_at (filter (\<lambda>r. ak_user_id r = u) (dvalues s))"

definition mem_key_revoke :: "datetime \<Rightarrow> key_memory \<Rightarrow> string \<Rightarrow> string option \<Rightarrow> api_key option \<times> key_memory" where
  "mem_key_revoke wall s h revoked_at =
     (case dget s h of
        None \<Rightarrow> (None, s)
      | Some r \<Rightarrow>
          if ak_is_revoked r then (None, s)
          else (Some r, dset h (r\<lparr>ak_revoked_at := stamp_or revoked_at wall\<rparr>) s))"

definition mem_key_touch :: "datetime \<Rightarrow> key_memory \<Rightarrow> string \<Rightarrow> string option \<Rightarrow> key_memory" where
  "mem_key_touch wall s h used_at =
     (case dget s h of
        None \<Rightarrow> s
      | Some r \<Rightarrow> dset h (r\<lparr>ak_last_used_at := stamp_or used_at wall\<rparr>) s)"

definition mem_key_delete_all_for_user :: "key_memory \<Rightarrow> string \<Rightarrow> key_memory \<times> nat" where
  "mem_key_delete_all_for_user s u = delete_where (\<lambda>h r. ak_user_id r = u) s"

definition mem_key_list_for_tenant :: "key_memory \<Rightarrow> string \<Rightarrow> api_key list" where
  "mem_key_list_for_tenant s t = sort_key ak_created_at (filter (\<lambda>r. ak_tenant_id r = t) (dvalues s))"

definition mem_key_count_for_tenant :: "key_memory \<Rightarrow> string \<Rightarrow> nat" where
  "mem_key_count_for_tenant s t = length (filter (\<lambda>r. ak_tenant_id r = t) (dvalues s))"

definition memory_key_ops :: "datetime \<Rightarrow> key_memory key_ops" where
  "memory_key_ops wall =
     \<lparr>ko_get = mem_key_get, ko_put = mem_key_put, ko_list_for_user = mem_key_list_for_user,
      ko_revoke = mem_key_revoke wall, ko_touch = mem_key_touch wall,
      ko_delete_all_for_user = mem_key_delete_all_for_user, ko_list_for_tenant = mem_key_list_for_tenant\<rparr>"

lemma memory_count: "ko_count_for_tenant (memory_key_ops wall) s t = mem_key_count_for_tenant s t"
  by (simp add: ko_count_for_tenant_def memory_key_ops_def mem_key_list_for_tenant_def mem_key_count_for_tenant_def)

section \<open>Rows of the table\<close>

text \<open>
  A row as a mapping. \<open>st\<close> is \<^verbatim>\<open>str\<close> of a value that is not a string, and \<open>as_int\<close> is \<^verbatim>\<open>int\<close> of
  one; a missing key hash is the \<^verbatim>\<open>KeyError\<close>, \<^const>\<open>None\<close>.
\<close>

definition key_to_item :: "api_key \<Rightarrow> json_object" where
  "key_to_item r =
     [(''key_hash'', JStr (ak_key_hash r)), (''user_id'', JStr (ak_user_id r)), (''tenant_id'', JStr (ak_tenant_id r)),
      (''prefix'', JStr (ak_prefix r)), (''scopes'', JArr (map JStr (ak_scopes r))), (''name'', JStr (ak_name r)),
      (''created_at'', JStr (ak_created_at r)), (''expires_at'', JNum (of_int (ak_expires_at r))),
      (''last_used_at'', JStr (ak_last_used_at r)), (''revoked_at'', JStr (ak_revoked_at r)),
      (''key_id'', JStr (ak_key_id r)), (''kind'', JStr (ak_kind r)),
      (''created_by'', JStr (case ak_created_by r of Some s \<Rightarrow> s | None \<Rightarrow> [])),
      (''metadata'', JObj (ak_metadata r))]"

definition json_str :: "(json \<Rightarrow> string) \<Rightarrow> json \<Rightarrow> string" where
  "json_str st v = (case v of JStr s \<Rightarrow> s | _ \<Rightarrow> st v)"

definition item_str :: "(json \<Rightarrow> string) \<Rightarrow> json_object \<Rightarrow> string \<Rightarrow> string" where
  "item_str st item k = (case dget item k of Some v \<Rightarrow> json_str st v | None \<Rightarrow> [])"

definition item_or :: "json_object \<Rightarrow> string \<Rightarrow> json \<Rightarrow> json" where
  "item_or item k other = (case dget item k of Some v \<Rightarrow> if truthy v then v else other | None \<Rightarrow> other)"

definition key_from_item :: "(json \<Rightarrow> string) \<Rightarrow> (json \<Rightarrow> int) \<Rightarrow> json_object \<Rightarrow> api_key option" where
  "key_from_item st as_int item =
     (case dget item ''key_hash'' of
        None \<Rightarrow> None
      | Some h \<Rightarrow>
          (let created_by = json_str st (item_or item ''created_by'' (JStr [])) in
           Some \<lparr>ak_key_hash = json_str st h, ak_user_id = item_str st item ''user_id'',
             ak_tenant_id = item_str st item ''tenant_id'', ak_prefix = item_str st item ''prefix'',
             ak_scopes = (case item_or item ''scopes'' (JArr []) of
                JArr xs \<Rightarrow> map (json_str st) xs | JStr s \<Rightarrow> map (\<lambda>c. [c]) s | _ \<Rightarrow> []),
             ak_name = item_str st item ''name'', ak_created_at = item_str st item ''created_at'',
             ak_expires_at = as_int (item_or item ''expires_at'' (JNum 0)),
             ak_last_used_at = item_str st item ''last_used_at'', ak_revoked_at = item_str st item ''revoked_at'',
             ak_key_id = item_str st item ''key_id'', ak_kind = json_str st (item_or item ''kind'' (JStr kind_user)),
             ak_created_by = (if created_by = [] then None else Some created_by),
             ak_metadata = (case dget item ''metadata'' of Some (JObj m) \<Rightarrow> m | _ \<Rightarrow> [])\<rparr>))"

section \<open>Minting, verifying and revoking\<close>

record key_request =
  kr_user_id :: string
  kr_tenant_id :: string
  kr_scopes :: "string list"
  kr_name :: string
  kr_expires_at :: "(datetime + int) option"
  kr_created_at :: "string option"
  kr_kind :: string
  kr_created_by :: "string option"
  kr_metadata :: json_object
  kr_key_id :: "string option"

text \<open>\<open>secret\<close> and \<open>fresh_id\<close> are the random draws, \<open>K\<close> the store if there is one.\<close>

definition minted_key :: "(string \<Rightarrow> string) \<Rightarrow> datetime \<Rightarrow> key_request \<Rightarrow> string \<Rightarrow> string \<Rightarrow> string \<times> api_key" where
  "minted_key hash_key wall q secret fresh_id =
     (let plaintext = api_key_prefix @ secret in
      (plaintext,
       \<lparr>ak_key_hash = hash_key plaintext, ak_user_id = kr_user_id q, ak_tenant_id = kr_tenant_id q,
        ak_prefix = display_prefix plaintext, ak_scopes = normalise_scopes (kr_scopes q), ak_name = kr_name q,
        ak_created_at = stamp_or (kr_created_at q) wall,
        ak_expires_at = (case kr_expires_at q of
           None \<Rightarrow> 0 | Some (Inl moment) \<Rightarrow> int_timestamp moment | Some (Inr n) \<Rightarrow> n),
        ak_last_used_at = [], ak_revoked_at = [],
        ak_key_id = (case kr_key_id q of Some i \<Rightarrow> i | None \<Rightarrow> fresh_id), ak_kind = kr_kind q,
        ak_created_by = kr_created_by q, ak_metadata = kr_metadata q\<rparr>))"

definition mint_key ::
  "'s key_ops option \<Rightarrow> (string \<Rightarrow> string) \<Rightarrow> datetime \<Rightarrow> 's \<Rightarrow> key_request \<Rightarrow> string \<Rightarrow> string \<Rightarrow> (string \<times> api_key) \<times> 's" where
  "mint_key K hash_key wall s q secret fresh_id =
     (let minted = minted_key hash_key wall q secret fresh_id in
      (minted, case K of Some ops \<Rightarrow> ko_put ops s (snd minted) | None \<Rightarrow> s))"

definition verify_key ::
  "'s key_ops \<Rightarrow> (string \<Rightarrow> string) \<Rightarrow> datetime \<Rightarrow> bool \<Rightarrow> 's \<Rightarrow> string \<Rightarrow> (key_error + api_key option) \<times> 's" where
  "verify_key K hash_key now touch s plaintext =
     (if \<not> is_api_key plaintext then (Inr None, s)
      else
        (let key_hash = hash_key plaintext in
         case ko_get K s key_hash of
           None \<Rightarrow> (Inr None, s)
         | Some r \<Rightarrow>
             (case compare_digest (ak_key_hash r) key_hash of
                None \<Rightarrow> (Inl KeyTypeError, s)
              | Some same \<Rightarrow>
                  if \<not> same then (Inr None, s)
                  else if \<not> ak_is_usable now r then (Inr None, s)
                  else (Inr (Some r), if touch then ko_touch K s key_hash None else s))))"

definition verify_for_tenant ::
  "'s key_ops \<Rightarrow> (string \<Rightarrow> string) \<Rightarrow> datetime \<Rightarrow> bool \<Rightarrow> 's \<Rightarrow> string \<Rightarrow> string \<Rightarrow> (key_error + api_key option) \<times> 's" where
  "verify_for_tenant K hash_key now touch s plaintext tenant_id =
     (if tenant_id = [] then (Inr None, s)
      else
        (case fst (verify_key K hash_key now False s plaintext) of
           Inl e \<Rightarrow> (Inl e, s)
         | Inr None \<Rightarrow> (Inr None, s)
         | Inr (Some r) \<Rightarrow>
             (case compare_digest (ak_tenant_id r) tenant_id of
                None \<Rightarrow> (Inl KeyTypeError, s)
              | Some same \<Rightarrow>
                  if \<not> same then (Inr None, s)
                  else (Inr (Some r), if touch then ko_touch K s (ak_key_hash r) None else s))))"

definition revoke_key ::
  "'s key_ops \<Rightarrow> (string \<Rightarrow> string) \<Rightarrow> 's \<Rightarrow> string \<Rightarrow> string option \<Rightarrow> api_key option \<times> 's" where
  "revoke_key K hash_key s plaintext_or_hash revoked_at =
     ko_revoke K s (if is_api_key plaintext_or_hash then hash_key plaintext_or_hash else plaintext_or_hash) revoked_at"

definition effective_scopes :: "string list \<Rightarrow> string list \<Rightarrow> string list" where
  "effective_scopes key_scopes live_scopes =
     (let live = normalise_scopes live_scopes in
      sort (remdups (filter (\<lambda>s. s \<in> set live) (filter (\<lambda>s. s \<noteq> []) (map strip key_scopes)))))"

end
