(* ===== verification/Claims.thy ===== *)
theory Claims
  imports Prelude
begin

text \<open>
  identity/claims.py: the verified claims an API Gateway authorizer puts on a request, coerced
  back to the types of a JWT. A request is what the code reads of one: the raw context header
  and the path. \<open>loads\<close> is \<^verbatim>\<open>json.loads\<close> and \<open>st\<close> is \<^verbatim>\<open>str\<close> of a value that is not a string.
  An \<^verbatim>\<open>HTTPException\<close> is its status.
\<close>

definition py_str :: "(json \<Rightarrow> string) \<Rightarrow> json \<Rightarrow> string" where
  "py_str st v = (case v of JStr s \<Rightarrow> s | _ \<Rightarrow> st v)"

text \<open>\<^verbatim>\<open>str(d.get(k, "") or "")\<close>.\<close>

definition text_claim :: "(json \<Rightarrow> string) \<Rightarrow> json_object \<Rightarrow> string \<Rightarrow> string" where
  "text_claim st d k = (let v = (case dget d k of Some v \<Rightarrow> v | None \<Rightarrow> JStr []) in if truthy v then py_str st v else [])"

text \<open>\<^verbatim>\<open>s.split()\<close>, with the word read so far.\<close>

fun words_from :: "string \<Rightarrow> string \<Rightarrow> string list" where
  "words_from w [] = (if w = [] then [] else [w])"
| "words_from w (c # cs) =
     (if is_space c then (if w = [] then words_from [] cs else w # words_from [] cs) else words_from (w @ [c]) cs)"

abbreviation words :: "string \<Rightarrow> string list" where "words s \<equiv> words_from [] s"

section \<open>Coercion\<close>

definition integer_claims :: "string list" where "integer_claims = [''exp'', ''iat'', ''nbf'', ''auth_time'']"
definition email_verified_claim :: string where "email_verified_claim = ''email_verified''"
definition boolean_claims :: "string list" where "boolean_claims = [email_verified_claim]"
definition array_claims :: "string list" where "array_claims = [''amr'', ''roles'', ''groups'', ''aud'']"

definition coerce_int :: "json \<Rightarrow> json" where
  "coerce_int v =
     (case v of JStr s \<Rightarrow> (case int_of_string s of Some n \<Rightarrow> JNum (of_int n) | None \<Rightarrow> v) | _ \<Rightarrow> v)"

definition coerce_bool :: "json \<Rightarrow> json" where
  "coerce_bool v =
     (case v of
        JStr s \<Rightarrow>
          (let lowered = lower (strip s) in
           if lowered = ''true'' then JBool True else if lowered = ''false'' then JBool False else v)
      | _ \<Rightarrow> v)"

text \<open>\<^verbatim>\<open>s.strip(c)\<close> at one character.\<close>

definition strip_char :: "char \<Rightarrow> string \<Rightarrow> string" where
  "strip_char q s = rstrip_char q (dropWhile (\<lambda>c. c = q) s)"

definition coerce_array :: "(string \<Rightarrow> json option) \<Rightarrow> (json \<Rightarrow> string) \<Rightarrow> json \<Rightarrow> json" where
  "coerce_array loads st v =
     (case v of
        JArr xs \<Rightarrow> JArr (map (\<lambda>x. JStr (py_str st x)) xs)
      | JStr s \<Rightarrow>
          (let stripped = strip s in
           if \<not> (startswith stripped ''['' \<and> stripped \<noteq> [] \<and> List.last stripped = CHR '']'')
           then JArr (if stripped \<noteq> [] then [JStr stripped] else [])
           else
             (case loads stripped of
                Some (JArr xs) \<Rightarrow> JArr (map (\<lambda>x. JStr (py_str st x)) xs)
              | _ \<Rightarrow>
                  (let inner = strip (butlast (drop 1 stripped)) in
                   if inner = [] then JArr []
                   else JArr (map (\<lambda>part. JStr (strip_char (CHR 0x27) (strip_char (CHR 0x22) (strip part))))
                          (filter (\<lambda>part. strip part \<noteq> []) (split_char (CHR '','') inner))))))
      | _ \<Rightarrow> v)"

definition coerce_named :: "(json \<Rightarrow> json) \<Rightarrow> string list \<Rightarrow> json_object \<Rightarrow> json_object" where
  "coerce_named f ks d = map (\<lambda>(k, v). (k, if k \<in> set ks then f v else v)) d"

definition coerce_claims :: "(string \<Rightarrow> json option) \<Rightarrow> (json \<Rightarrow> string) \<Rightarrow> json_object \<Rightarrow> json_object" where
  "coerce_claims loads st raw =
     (let coerced = coerce_named (coerce_array loads st) array_claims
            (coerce_named coerce_bool boolean_claims (coerce_named coerce_int integer_claims raw))
      in case dget coerced ''scope'' of
           Some (JStr s) \<Rightarrow> dset ''scopes'' (JArr (map JStr (words s))) coerced
         | _ \<Rightarrow> coerced)"

record authorizer_claims =
  ac_raw :: json_object
  ac_coerced :: json_object

definition new_claims :: "(string \<Rightarrow> json option) \<Rightarrow> (json \<Rightarrow> string) \<Rightarrow> json_object \<Rightarrow> authorizer_claims" where
  "new_claims loads st raw = \<lparr>ac_raw = raw, ac_coerced = coerce_claims loads st raw\<rparr>"

section \<open>What the claims say\<close>

definition is_browser_session :: "(string \<Rightarrow> json option) \<Rightarrow> (json \<Rightarrow> string) \<Rightarrow> json_object \<Rightarrow> string \<Rightarrow> bool" where
  "is_browser_session loads st claims audience =
     (if text_claim st claims ''grant'' \<noteq> [] \<or> text_claim st claims ''client_id'' \<noteq> [] then False
      else
        (case dget claims ''aud'' of
           None \<Rightarrow> True
         | Some aud \<Rightarrow>
             (case coerce_array loads st aud of
                JArr xs \<Rightarrow> audience \<in> set (map (py_str st) xs)
              | JStr s \<Rightarrow> audience = s
              | _ \<Rightarrow> False)))"

definition stamp_email_verified :: "json_object \<Rightarrow> json_object \<Rightarrow> json_object" where
  "stamp_email_verified claims user =
     (let stamped = ddel email_verified_claim claims in
      case dget user email_verified_claim of
        Some v \<Rightarrow> dset email_verified_claim (JBool (truthy v)) stamped
      | None \<Rightarrow> stamped)"

definition email_unverified :: "json_object \<Rightarrow> bool" where
  "email_unverified claims =
     (case dget claims email_verified_claim of
        None \<Rightarrow> False
      | Some v \<Rightarrow> coerce_bool v = JBool False)"

definition require_verified_email :: "string \<Rightarrow> json_object \<Rightarrow> string list \<Rightarrow> nat option" where
  "require_verified_email path claims allowed_routes =
     (if \<not> email_unverified claims then None
      else if list_ex (\<lambda>route.
          let trimmed = rstrip_char (CHR ''/'') route in
          trimmed \<noteq> [] \<and> (path = trimmed \<or> startswith path (trimmed @ ''/''))) allowed_routes
      then None
      else Some 403)"

section \<open>The claims of a request\<close>

datatype claims_fault = MissingRequestContext | UnparseableRequestContext | NoClaimsSection

record http_request =
  rq_context :: "string option"
  rq_authorization :: string
  rq_path :: string
  rq_path_params :: "(string, string) dict"

definition gate_claims_key :: string where "gate_claims_key = ''jwt.claims''"

definition read_authorizer_claims ::
  "(string \<Rightarrow> json option) \<Rightarrow> (json \<Rightarrow> string) \<Rightarrow> http_request \<Rightarrow> claims_fault + authorizer_claims" where
  "read_authorizer_claims loads st request =
     (case rq_context request of
        None \<Rightarrow> Inl MissingRequestContext
      | Some raw \<Rightarrow>
          if strip raw = [] then Inl MissingRequestContext
          else
            (case loads raw of
               Some (JObj context) \<Rightarrow>
                 (case dget context ''authorizer'' of
                    Some (JObj authorizer) \<Rightarrow>
                      (case dget authorizer ''jwt'' of
                         Some (JObj jwt_section) \<Rightarrow>
                           (case dget jwt_section ''claims'' of
                              Some (JObj claims) \<Rightarrow> Inr (new_claims loads st claims)
                            | _ \<Rightarrow> Inl NoClaimsSection)
                       | _ \<Rightarrow> Inl NoClaimsSection)
                  | _ \<Rightarrow> Inl NoClaimsSection)
             | _ \<Rightarrow> Inl UnparseableRequestContext))"

definition gate_claims :: "(string \<Rightarrow> json option) \<Rightarrow> http_request \<Rightarrow> json_object option" where
  "gate_claims loads request =
     (case rq_context request of
        None \<Rightarrow> None
      | Some raw \<Rightarrow>
          if strip raw = [] then None
          else
            (case loads raw of
               Some (JObj context) \<Rightarrow>
                 (case dget context ''authorizer'' of
                    Some (JObj authorizer) \<Rightarrow>
                      (case dget authorizer ''lambda'' of
                         Some (JObj lambda_context) \<Rightarrow>
                           (case dget lambda_context gate_claims_key of
                              Some (JStr encoded) \<Rightarrow>
                                if strip encoded = [] then None
                                else (case loads encoded of Some (JObj claims) \<Rightarrow> Some claims | _ \<Rightarrow> None)
                            | _ \<Rightarrow> None)
                       | _ \<Rightarrow> None)
                  | _ \<Rightarrow> None)
             | _ \<Rightarrow> None))"

definition identity_claims :: "(string \<Rightarrow> json option) \<Rightarrow> (json \<Rightarrow> string) \<Rightarrow> http_request \<Rightarrow> authorizer_claims option" where
  "identity_claims loads st request =
     (case read_authorizer_claims loads st request of
        Inr c \<Rightarrow> Some c
      | Inl _ \<Rightarrow> map_option (new_claims loads st) (gate_claims loads request))"

definition identity_subject :: "(string \<Rightarrow> json option) \<Rightarrow> (json \<Rightarrow> string) \<Rightarrow> http_request \<Rightarrow> string" where
  "identity_subject loads st request =
     (case identity_claims loads st request of None \<Rightarrow> [] | Some c \<Rightarrow> text_claim st (ac_coerced c) ''sub'')"

definition subject_dependency :: "bool \<Rightarrow> (string \<Rightarrow> json option) \<Rightarrow> (json \<Rightarrow> string) \<Rightarrow> http_request \<Rightarrow> nat + string" where
  "subject_dependency required loads st request =
     (let subject = identity_subject loads st request in if subject = [] \<and> required then Inl 401 else Inr subject)"

text \<open>
  The dependency of \<^verbatim>\<open>authorizer_claims\<close>: building it can be refused, here \<^const>\<open>None\<close>, and the
  fallback of a workstation answers raw claims or none.
\<close>

definition authorizer_claims_dependency ::
  "string \<Rightarrow> (http_request \<Rightarrow> json_object option) option \<Rightarrow>
     ((string \<Rightarrow> json option) \<Rightarrow> (json \<Rightarrow> string) \<Rightarrow> http_request \<Rightarrow> nat + authorizer_claims) option" where
  "authorizer_claims_dependency environment local_fallback =
     (if \<not> Option.is_none local_fallback \<and> lower (strip environment) \<in> set [''production'', ''prod''] then None
      else Some (\<lambda>loads st request.
        (case read_authorizer_claims loads st request of
           Inr c \<Rightarrow> Inr c
         | Inl _ \<Rightarrow>
             (case local_fallback of
                None \<Rightarrow> Inl 401
              | Some fallback \<Rightarrow>
                  (case fallback request of None \<Rightarrow> Inl 401 | Some raw \<Rightarrow> Inr (new_claims loads st raw))))))"

end
