(* ===== verification/Access.thy ===== *)
theory Access
  imports ApiKeys Claims
begin

text \<open>
  identity/scopes.py: the dependency that answers verified claims from the authorizer or from an
  API key, and the guards on scopes, tenant and freshness of the login. A dependency is a
  function of the request; an \<^verbatim>\<open>HTTPException\<close> is its status and error code. A callable the
  product supplies answers \<^const>\<open>None\<close> where it raises, and the liveness check of device grants
  is the predicate it is at this moment (DeviceGrants).
\<close>

datatype http_refusal = Http nat string

definition unauthenticated :: http_refusal where "unauthenticated = Http 401 ''UNAUTHORIZED''"
definition insufficient_scope :: http_refusal where "insufficient_scope = Http 403 ''INSUFFICIENT_SCOPE''"
definition step_up_required :: http_refusal where "step_up_required = Http 401 ''STEP_UP_REQUIRED''"

definition tenant_claim :: string where "tenant_claim = ''tenant_id''"
definition actor_claim :: string where "actor_claim = ''actor_kind''"
definition actor_api_key :: string where "actor_api_key = ''api_key''"

definition bearer_credential :: "http_request \<Rightarrow> string" where
  "bearer_credential request =
     (let header = rq_authorization request in
      if \<not> startswith (lower header) ''bearer '' then [] else strip (drop 7 header))"

section \<open>Reading claims\<close>

definition scopes_of_claims :: "(json \<Rightarrow> string) \<Rightarrow> json_object \<Rightarrow> string list" where
  "scopes_of_claims st claims =
     (case dget claims ''scopes'' of
        Some (JArr xs) \<Rightarrow> map (py_str st) xs
      | _ \<Rightarrow> (case dget claims ''scope'' of Some (JStr s) \<Rightarrow> words s | _ \<Rightarrow> []))"

definition claims_tenant :: "(json \<Rightarrow> string) \<Rightarrow> json_object \<Rightarrow> string" where
  "claims_tenant st claims = strip (text_claim st claims tenant_claim)"

definition tenant_matches :: "(json \<Rightarrow> string) \<Rightarrow> json_object \<Rightarrow> string \<Rightarrow> bool" where
  "tenant_matches st claims tenant_id =
     (let bound = claims_tenant st claims in bound = [] \<or> bound = tenant_id)"

definition missing_scopes :: "(json \<Rightarrow> string) \<Rightarrow> json_object \<Rightarrow> string list \<Rightarrow> string list" where
  "missing_scopes st claims required =
     sort (remdups (filter (\<lambda>s. s \<noteq> [] \<and> s \<notin> set (scopes_of_claims st claims)) required))"

definition has_scopes :: "(json \<Rightarrow> string) \<Rightarrow> json_object \<Rightarrow> string list \<Rightarrow> bool" where
  "has_scopes st claims required = (missing_scopes st claims required = [])"

definition is_api_key_actor :: "(json \<Rightarrow> string) \<Rightarrow> json_object \<Rightarrow> bool" where
  "is_api_key_actor st claims =
     ((case dget claims actor_claim of Some v \<Rightarrow> py_str st v | None \<Rightarrow> []) = actor_api_key)"

definition join_words :: "string list \<Rightarrow> string" where
  "join_words ws = (case ws of [] \<Rightarrow> [] | w # rest \<Rightarrow> w @ concat (map (\<lambda>x. CHR '' '' # x) rest))"

definition claims_for_key ::
  "(string \<Rightarrow> json option) \<Rightarrow> (json \<Rightarrow> string) \<Rightarrow> api_key \<Rightarrow> string list option \<Rightarrow> authorizer_claims" where
  "claims_for_key loads st r scopes =
     (let granted = normalise_scopes (case scopes of Some s \<Rightarrow> s | None \<Rightarrow> ak_scopes r) in
      new_claims loads st
        [(''sub'', JStr (ak_user_id r)), (tenant_claim, JStr (ak_tenant_id r)), (''scope'', JStr (join_words granted)),
         (actor_claim, JStr actor_api_key)])"

section \<open>Claims or a key\<close>

record 's access_config =
  cf_store :: "'s key_ops option"
  cf_live_scopes :: "(api_key \<Rightarrow> string list option) option"
  cf_tenant :: "(http_request \<Rightarrow> string option) option"
  cf_liveness :: "(json_object \<Rightarrow> bool) option"

definition tenant_checked ::
  "(json \<Rightarrow> string) \<Rightarrow> 's access_config \<Rightarrow> authorizer_claims \<Rightarrow> http_request \<Rightarrow> http_refusal + authorizer_claims" where
  "tenant_checked st cf claims request =
     (case cf_tenant cf of
        None \<Rightarrow> Inr claims
      | Some tenant \<Rightarrow>
          (case tenant request of
             None \<Rightarrow> Inl unauthenticated
           | Some wanted \<Rightarrow>
               if \<not> tenant_matches st (ac_coerced claims) wanted then Inl unauthenticated else Inr claims))"

definition authorizer_path ::
  "(json \<Rightarrow> string) \<Rightarrow> 's access_config \<Rightarrow> authorizer_claims \<Rightarrow> http_request \<Rightarrow> http_refusal + authorizer_claims" where
  "authorizer_path st cf claims request =
     (let allowed = (case cf_liveness cf of
            None \<Rightarrow> text_claim st (ac_coerced claims) ''grant'' \<noteq> ''device''
          | Some live \<Rightarrow> live (ac_coerced claims))
      in if \<not> allowed then Inl unauthenticated else tenant_checked st cf claims request)"

definition claims_or_api_key ::
  "(string \<Rightarrow> json option) \<Rightarrow> (json \<Rightarrow> string) \<Rightarrow> (string \<Rightarrow> string) \<Rightarrow> 's access_config \<Rightarrow> datetime \<Rightarrow> 's \<Rightarrow> http_request \<Rightarrow>
     (http_refusal + authorizer_claims) \<times> 's" where
  "claims_or_api_key loads st hash_key cf now s request =
     (case identity_claims loads st request of
        Some claims \<Rightarrow> (authorizer_path st cf claims request, s)
      | None \<Rightarrow>
          (case cf_store cf of
             None \<Rightarrow> (Inl unauthenticated, s)
           | Some K \<Rightarrow>
               (let presented = bearer_credential request in
                if presented = [] \<or> \<not> is_api_key presented then (Inl unauthenticated, s)
                else
                  (case verify_key K hash_key now True s presented of
                     (Inl _, s') \<Rightarrow> (Inl unauthenticated, s')
                   | (Inr None, s') \<Rightarrow> (Inl unauthenticated, s')
                   | (Inr (Some r), s') \<Rightarrow>
                       (case cf_live_scopes cf of
                          None \<Rightarrow> (tenant_checked st cf (claims_for_key loads st r None) request, s')
                        | Some load \<Rightarrow>
                            (case load r of
                               None \<Rightarrow> (Inl unauthenticated, s')
                             | Some live \<Rightarrow>
                                 (tenant_checked st cf
                                    (claims_for_key loads st r (Some (effective_scopes (ak_scopes r) live))) request, s')))))))"

section \<open>Guards\<close>

definition require_scopes ::
  "(json \<Rightarrow> string) \<Rightarrow> string list \<Rightarrow> http_refusal + authorizer_claims \<Rightarrow> http_refusal + authorizer_claims" where
  "require_scopes st required resolved =
     (case resolved of
        Inl e \<Rightarrow> Inl e
      | Inr claims \<Rightarrow>
          if missing_scopes st (ac_coerced claims) (filter (\<lambda>s. s \<noteq> []) required) \<noteq> [] then Inl insufficient_scope
          else Inr claims)"

definition require_tenant ::
  "(json \<Rightarrow> string) \<Rightarrow> string \<Rightarrow> http_request \<Rightarrow> http_refusal + authorizer_claims \<Rightarrow> http_refusal + authorizer_claims" where
  "require_tenant st path_param request resolved =
     (case resolved of
        Inl e \<Rightarrow> Inl e
      | Inr claims \<Rightarrow>
          (let wanted = strip (case dget (rq_path_params request) path_param of Some s \<Rightarrow> s | None \<Rightarrow> []) in
           if \<not> tenant_matches st (ac_coerced claims) wanted then Inl unauthenticated else Inr claims))"

definition step_up_challenge :: "int \<Rightarrow> string" where
  "step_up_challenge max_age =
     ''Bearer error='' @ [CHR 0x22] @ ''insufficient_user_authentication'' @ [CHR 0x22] @ '', error_description='' @
     [CHR 0x22] @ ''A more recent authentication is required'' @ [CHR 0x22] @ '', max_age='' @ int_str max_age"

definition auth_time_claim :: "json_object \<Rightarrow> int option" where
  "auth_time_claim claims =
     (case dget claims ''auth_time'' of
        Some (JNum n) \<Rightarrow> Some (if n < 0 then - \<lfloor>- n\<rfloor> else \<lfloor>n\<rfloor>)
      | Some (JStr s) \<Rightarrow> int_of_string s
      | _ \<Rightarrow> None)"

text \<open>\<^const>\<open>None\<close> is the \<^verbatim>\<open>ValueError\<close> of an age that is not positive; \<open>clock\<close> is in seconds.\<close>

definition require_recent_auth ::
  "(json \<Rightarrow> string) \<Rightarrow> int \<Rightarrow> rat \<Rightarrow> http_refusal + authorizer_claims \<Rightarrow> (http_refusal + authorizer_claims) option" where
  "require_recent_auth st max_age_seconds clock resolved =
     (if max_age_seconds \<le> 0 then None
      else Some
        (case resolved of
           Inl e \<Rightarrow> Inl e
         | Inr claims \<Rightarrow>
             if is_api_key_actor st (ac_coerced claims) then Inr claims
             else
               (case auth_time_claim (ac_coerced claims) of
                  Some t \<Rightarrow> if clock - of_int t \<le> of_int max_age_seconds then Inr claims else Inl step_up_required
                | None \<Rightarrow> Inl step_up_required)))"

end
