(* ===== verification/OAuthStores.thy ===== *)
theory OAuthStores
  imports Access
begin

text \<open>
  identity/oauth_server_storage.py: registered clients, authorization codes and standing
  consents, the operations of the three stores as records, the methods their base classes
  give, the dictionary implementations, and the rows of the DynamoDB ones. \<open>wall\<close> is the clock
  during the call. The contracts the server relies on are locales, interpreted on the
  dictionaries at the end.
\<close>

section \<open>Records\<close>

record oauth_client =
  oc_client_id :: string
  oc_redirect_uris :: "string list"
  oc_client_name :: string
  oc_created_at :: string
  oc_last_used_at :: string
  oc_expires_at :: int
  oc_first_party :: bool
  oc_scopes :: "string list"

definition client_allows :: "oauth_client \<Rightarrow> string \<Rightarrow> bool" where
  "client_allows r redirect_uri = (redirect_uri \<in> set (oc_redirect_uris r))"

record authorization_code =
  az_code_hash :: string
  az_client_id :: string
  az_user_id :: string
  az_redirect_uri :: string
  az_code_challenge :: string
  az_resource :: string
  az_tenant_id :: string
  az_created_at :: string
  az_expires_at :: int
  az_scopes :: "string list"
  az_challenge_method :: string

record consent =
  cn_consent_id :: string
  cn_user_id :: string
  cn_client_id :: string
  cn_tenant_id :: string
  cn_resource :: string
  cn_scopes :: "string list"
  cn_granted_at :: string
  cn_updated_at :: string
  cn_last_used_at :: string

definition consent_covers :: "consent \<Rightarrow> string list \<Rightarrow> bool" where
  "consent_covers r scopes = (set scopes \<subseteq> set (cn_scopes r))"

section \<open>The stores\<close>

record 'c client_ops =
  cl_get :: "datetime \<Rightarrow> 'c \<Rightarrow> string \<Rightarrow> oauth_client option"
  cl_put :: "'c \<Rightarrow> oauth_client \<Rightarrow> 'c"
  cl_touch :: "datetime \<Rightarrow> 'c \<Rightarrow> string \<Rightarrow> int \<Rightarrow> 'c"

record 'd authz_ops =
  cd_put :: "'d \<Rightarrow> authorization_code \<Rightarrow> 'd"
  cd_consume :: "datetime \<Rightarrow> 'd \<Rightarrow> string \<Rightarrow> authorization_code option \<times> 'd"

record 'g consent_ops =
  cs_get :: "'g \<Rightarrow> string \<Rightarrow> consent option"
  cs_put :: "'g \<Rightarrow> consent \<Rightarrow> 'g"
  cs_list_for_user :: "'g \<Rightarrow> string \<Rightarrow> consent list"
  cs_delete :: "'g \<Rightarrow> string \<Rightarrow> 'g"
  cs_mark_used :: "'g \<Rightarrow> string \<Rightarrow> string \<Rightarrow> bool \<times> 'g"

text \<open>The methods \<^verbatim>\<open>ConsentStore\<close> itself gives; \<^verbatim>\<open>mark_used\<close> only as a default.\<close>

definition base_mark_used :: "'g consent_ops \<Rightarrow> 'g \<Rightarrow> string \<Rightarrow> string \<Rightarrow> bool \<times> 'g" where
  "base_mark_used G s consent_id last_used_at =
     (case cs_get G s consent_id of
        None \<Rightarrow> (False, s)
      | Some r \<Rightarrow> (True, cs_put G s (r\<lparr>cn_last_used_at := last_used_at\<rparr>)))"

definition list_for_client :: "'g consent_ops \<Rightarrow> 'g \<Rightarrow> string \<Rightarrow> string \<Rightarrow> consent list" where
  "list_for_client G s user_id client_id =
     filter (\<lambda>r. cn_client_id r = client_id) (cs_list_for_user G s user_id)"

fun delete_consents :: "'g consent_ops \<Rightarrow> 'g \<Rightarrow> consent list \<Rightarrow> 'g" where
  "delete_consents G s [] = s"
| "delete_consents G s (r # rs) = delete_consents G (cs_delete G s (cn_consent_id r)) rs"

definition delete_for_client ::
  "'g consent_ops \<Rightarrow> 'g \<Rightarrow> string \<Rightarrow> string \<Rightarrow> string \<Rightarrow> consent list \<times> 'g" where
  "delete_for_client G s user_id client_id tenant_id =
     (let doomed = filter (\<lambda>r. tenant_id = [] \<or> cn_tenant_id r = tenant_id) (list_for_client G s user_id client_id)
      in (doomed, delete_consents G s doomed))"

definition delete_for_tenant :: "'g consent_ops \<Rightarrow> 'g \<Rightarrow> string \<Rightarrow> string \<Rightarrow> consent list \<times> 'g" where
  "delete_for_tenant G s user_id tenant_id =
     (let doomed = filter (\<lambda>r. cn_tenant_id r = tenant_id) (cs_list_for_user G s user_id)
      in (doomed, delete_consents G s doomed))"

section \<open>In memory\<close>

type_synonym client_memory = "(string, oauth_client) dict"
type_synonym authz_memory = "(string, authorization_code) dict"
type_synonym consent_memory = "(string, consent) dict"

definition mem_client_get :: "datetime \<Rightarrow> client_memory \<Rightarrow> string \<Rightarrow> oauth_client option" where
  "mem_client_get wall s client_id =
     (case dget s client_id of
        None \<Rightarrow> None
      | Some r \<Rightarrow> if oc_expires_at r \<noteq> 0 \<and> is_expired wall (oc_expires_at r) then None else Some r)"

definition mem_client_put :: "client_memory \<Rightarrow> oauth_client \<Rightarrow> client_memory" where
  "mem_client_put s r = dset (oc_client_id r) r s"

definition mem_client_touch :: "datetime \<Rightarrow> client_memory \<Rightarrow> string \<Rightarrow> int \<Rightarrow> client_memory" where
  "mem_client_touch wall s client_id expires_at =
     (case dget s client_id of
        None \<Rightarrow> s
      | Some r \<Rightarrow>
          if oc_first_party r then s
          else dset client_id (r\<lparr>oc_last_used_at := now_iso wall, oc_expires_at := expires_at\<rparr>) s)"

definition memory_client_ops :: "client_memory client_ops" where
  "memory_client_ops = \<lparr>cl_get = mem_client_get, cl_put = mem_client_put, cl_touch = mem_client_touch\<rparr>"

definition mem_authz_put :: "authz_memory \<Rightarrow> authorization_code \<Rightarrow> authz_memory" where
  "mem_authz_put s r = dset (az_code_hash r) r s"

definition mem_authz_consume ::
  "datetime \<Rightarrow> authz_memory \<Rightarrow> string \<Rightarrow> authorization_code option \<times> authz_memory" where
  "mem_authz_consume wall s code_hash =
     (case dget s code_hash of
        None \<Rightarrow> (None, s)
      | Some r \<Rightarrow> (if is_expired wall (az_expires_at r) then None else Some r, ddel code_hash s))"

definition memory_authz_ops :: "authz_memory authz_ops" where
  "memory_authz_ops = \<lparr>cd_put = mem_authz_put, cd_consume = mem_authz_consume\<rparr>"

definition mem_consent_get :: "consent_memory \<Rightarrow> string \<Rightarrow> consent option" where
  "mem_consent_get s consent_id = dget s consent_id"

definition mem_consent_put :: "consent_memory \<Rightarrow> consent \<Rightarrow> consent_memory" where
  "mem_consent_put s r = dset (cn_consent_id r) r s"

definition mem_consent_list :: "consent_memory \<Rightarrow> string \<Rightarrow> consent list" where
  "mem_consent_list s user_id = filter (\<lambda>r. cn_user_id r = user_id) (dvalues s)"

definition mem_consent_delete :: "consent_memory \<Rightarrow> string \<Rightarrow> consent_memory" where
  "mem_consent_delete s consent_id = ddel consent_id s"

definition mem_consent_mark_used :: "consent_memory \<Rightarrow> string \<Rightarrow> string \<Rightarrow> bool \<times> consent_memory" where
  "mem_consent_mark_used s consent_id last_used_at =
     (case dget s consent_id of
        None \<Rightarrow> (False, s)
      | Some r \<Rightarrow> (True, dset consent_id (r\<lparr>cn_last_used_at := last_used_at\<rparr>) s))"

definition memory_consent_ops :: "consent_memory consent_ops" where
  "memory_consent_ops =
     \<lparr>cs_get = mem_consent_get, cs_put = mem_consent_put, cs_list_for_user = mem_consent_list,
      cs_delete = mem_consent_delete, cs_mark_used = mem_consent_mark_used\<rparr>"

section \<open>Rows\<close>

text \<open>
  The items the DynamoDB stores write and read back. \<open>as_int\<close> is \<^verbatim>\<open>int\<close> of a stored number, and
  a missing key is the \<^verbatim>\<open>KeyError\<close>, \<^const>\<open>None\<close>.
\<close>

definition client_to_item :: "datetime \<Rightarrow> oauth_client \<Rightarrow> json_object" where
  "client_to_item wall r =
     [(''client_id'', JStr (oc_client_id r)), (''redirect_uris'', JArr (map JStr (oc_redirect_uris r))),
      (''client_name'', JStr (oc_client_name r)), (''created_at'', JStr (str_or (oc_created_at r) (now_iso wall))),
      (''last_used_at'', JStr (oc_last_used_at r)), (''first_party'', JBool (oc_first_party r)),
      (''scopes'', JArr (map JStr (oc_scopes r)))]
     @ (if oc_expires_at r \<noteq> 0 then [(''expires_at'', JNum (of_int (oc_expires_at r)))] else [])"

definition code_to_item :: "authorization_code \<Rightarrow> json_object" where
  "code_to_item r =
     [(''code_hash'', JStr (az_code_hash r)), (''client_id'', JStr (az_client_id r)),
      (''user_id'', JStr (az_user_id r)), (''redirect_uri'', JStr (az_redirect_uri r)),
      (''code_challenge'', JStr (az_code_challenge r)), (''code_challenge_method'', JStr (az_challenge_method r)),
      (''resource'', JStr (az_resource r)), (''tenant_id'', JStr (az_tenant_id r)),
      (''scopes'', JArr (map JStr (az_scopes r))), (''created_at'', JStr (az_created_at r)),
      (''expires_at'', JNum (of_int (az_expires_at r)))]"

definition consent_to_item :: "datetime \<Rightarrow> consent \<Rightarrow> json_object" where
  "consent_to_item wall r =
     [(''consent_id'', JStr (cn_consent_id r)), (''user_id'', JStr (cn_user_id r)),
      (''client_id'', JStr (cn_client_id r)), (''tenant_id'', JStr (cn_tenant_id r)),
      (''resource'', JStr (cn_resource r)), (''scopes'', JArr (map JStr (cn_scopes r))),
      (''granted_at'', JStr (str_or (cn_granted_at r) (now_iso wall))),
      (''updated_at'', JStr (str_or (cn_updated_at r) (now_iso wall))), (''last_used_at'', JStr (cn_last_used_at r))]"

text \<open>\<^verbatim>\<open>tuple(str(v) for v in item.get(k, []))\<close>; a value that is no sequence does not arise.\<close>

definition item_strs :: "(json \<Rightarrow> string) \<Rightarrow> json_object \<Rightarrow> string \<Rightarrow> string list" where
  "item_strs st item k = (case dget item k of Some (JArr xs) \<Rightarrow> map (json_str st) xs | _ \<Rightarrow> [])"

definition item_int :: "(json \<Rightarrow> int) \<Rightarrow> json_object \<Rightarrow> string \<Rightarrow> int" where
  "item_int as_int item k = (case dget item k of Some v \<Rightarrow> as_int v | None \<Rightarrow> 0)"

definition client_from_item :: "(json \<Rightarrow> string) \<Rightarrow> (json \<Rightarrow> int) \<Rightarrow> json_object \<Rightarrow> oauth_client option" where
  "client_from_item st as_int item =
     map_option (\<lambda>client_id.
       \<lparr>oc_client_id = json_str st client_id, oc_redirect_uris = item_strs st item ''redirect_uris'',
        oc_client_name = item_str st item ''client_name'', oc_created_at = item_str st item ''created_at'',
        oc_last_used_at = item_str st item ''last_used_at'', oc_expires_at = item_int as_int item ''expires_at'',
        oc_first_party = truthy (jget item ''first_party''), oc_scopes = item_strs st item ''scopes''\<rparr>)
     (dget item ''client_id'')"

definition code_from_item :: "(json \<Rightarrow> string) \<Rightarrow> (json \<Rightarrow> int) \<Rightarrow> json_object \<Rightarrow> authorization_code option" where
  "code_from_item st as_int item =
     map_option (\<lambda>code_hash.
       \<lparr>az_code_hash = json_str st code_hash, az_client_id = item_str st item ''client_id'',
        az_user_id = item_str st item ''user_id'', az_redirect_uri = item_str st item ''redirect_uri'',
        az_code_challenge = item_str st item ''code_challenge'', az_resource = item_str st item ''resource'',
        az_tenant_id = item_str st item ''tenant_id'', az_created_at = item_str st item ''created_at'',
        az_expires_at = item_int as_int item ''expires_at'', az_scopes = item_strs st item ''scopes'',
        az_challenge_method =
          (case dget item ''code_challenge_method'' of Some v \<Rightarrow> json_str st v | None \<Rightarrow> ''S256'')\<rparr>)
     (dget item ''code_hash'')"

definition consent_from_item :: "(json \<Rightarrow> string) \<Rightarrow> json_object \<Rightarrow> consent option" where
  "consent_from_item st item =
     map_option (\<lambda>consent_id.
       \<lparr>cn_consent_id = json_str st consent_id, cn_user_id = item_str st item ''user_id'',
        cn_client_id = item_str st item ''client_id'', cn_tenant_id = item_str st item ''tenant_id'',
        cn_resource = item_str st item ''resource'', cn_scopes = item_strs st item ''scopes'',
        cn_granted_at = item_str st item ''granted_at'', cn_updated_at = item_str st item ''updated_at'',
        cn_last_used_at = item_str st item ''last_used_at''\<rparr>)
     (dget item ''consent_id'')"

lemmas item_reads = item_strs_def item_int_def item_str_def json_str_def jget_def truthy_def comp_def

lemma json_str_JStr: "map (json_str st) (map JStr xs) = xs"
  by (induction xs) (simp_all add: json_str_def)

lemma client_row_round_trip:
  assumes "\<And>n. as_int (JNum (of_int n)) = n"
  shows "client_from_item st as_int (client_to_item wall r) =
    Some (r\<lparr>oc_created_at := str_or (oc_created_at r) (now_iso wall)\<rparr>)"
  using assms json_str_JStr [of st, unfolded json_str_def]
  by (simp add: client_from_item_def client_to_item_def item_reads)

lemma code_row_round_trip:
  assumes "\<And>n. as_int (JNum (of_int n)) = n"
  shows "code_from_item st as_int (code_to_item r) = Some r"
  using assms json_str_JStr [of st, unfolded json_str_def]
  by (simp add: code_from_item_def code_to_item_def item_reads)

lemma consent_row_round_trip:
  "consent_from_item st (consent_to_item wall r) =
    Some (r\<lparr>cn_granted_at := str_or (cn_granted_at r) (now_iso wall),
             cn_updated_at := str_or (cn_updated_at r) (now_iso wall)\<rparr>)"
  using json_str_JStr [of st, unfolded json_str_def]
  by (simp add: consent_from_item_def consent_to_item_def item_reads)

section \<open>The contracts\<close>

locale oauth_client_store =
  fixes C :: "'c client_ops"
    and crow :: "'c \<Rightarrow> string \<Rightarrow> oauth_client option"
    and cok :: "'c \<Rightarrow> bool"
  assumes client_keyed: "cok s \<Longrightarrow> crow s i = Some r \<Longrightarrow> oc_client_id r = i"
    and client_get: "cok s \<Longrightarrow> cl_get C wall s i =
      (case crow s i of None \<Rightarrow> None
       | Some r \<Rightarrow> if oc_expires_at r \<noteq> 0 \<and> is_expired wall (oc_expires_at r) then None else Some r)"
    and client_put: "cok s \<Longrightarrow> cok (cl_put C s r) \<and> crow (cl_put C s r) = (crow s)(oc_client_id r \<mapsto> r)"
    and client_touch: "cok s \<Longrightarrow> cok (cl_touch C wall s i e) \<and>
      crow (cl_touch C wall s i e) =
        (case crow s i of None \<Rightarrow> crow s
         | Some r \<Rightarrow> if oc_first_party r then crow s
             else (crow s)(i \<mapsto> r\<lparr>oc_last_used_at := now_iso wall, oc_expires_at := e\<rparr>))"

locale oauth_code_store =
  fixes D :: "'d authz_ops"
    and drow :: "'d \<Rightarrow> string \<Rightarrow> authorization_code option"
    and dok :: "'d \<Rightarrow> bool"
  assumes code_put: "dok s \<Longrightarrow> dok (cd_put D s r) \<and> drow (cd_put D s r) = (drow s)(az_code_hash r \<mapsto> r)"
    and code_consume_ok: "dok s \<Longrightarrow> dok (snd (cd_consume D wall s h)) \<and>
      drow (snd (cd_consume D wall s h)) = (drow s)(h := None)"
    and code_consume: "dok s \<Longrightarrow> fst (cd_consume D wall s h) =
      (case drow s h of None \<Rightarrow> None
       | Some r \<Rightarrow> if is_expired wall (az_expires_at r) then None else Some r)"

locale oauth_consent_store =
  fixes G :: "'g consent_ops"
    and grow :: "'g \<Rightarrow> string \<Rightarrow> consent option"
    and gok :: "'g \<Rightarrow> bool"
  assumes consent_keyed: "gok s \<Longrightarrow> grow s i = Some r \<Longrightarrow> cn_consent_id r = i"
    and consent_get: "gok s \<Longrightarrow> cs_get G s i = grow s i"
    and consent_put: "gok s \<Longrightarrow> gok (cs_put G s r) \<and> grow (cs_put G s r) = (grow s)(cn_consent_id r \<mapsto> r)"
    and consent_list: "gok s \<Longrightarrow> set (cs_list_for_user G s u) = {r. grow s (cn_consent_id r) = Some r \<and> cn_user_id r = u}"
    and consent_delete: "gok s \<Longrightarrow> gok (cs_delete G s i) \<and> grow (cs_delete G s i) = (grow s)(i := None)"
    and consent_mark: "gok s \<Longrightarrow> gok (snd (cs_mark_used G s i t)) \<and>
      fst (cs_mark_used G s i t) = (grow s i \<noteq> None) \<and>
      grow (snd (cs_mark_used G s i t)) =
        (case grow s i of None \<Rightarrow> grow s | Some r \<Rightarrow> (grow s)(i \<mapsto> r\<lparr>cn_last_used_at := t\<rparr>))"
begin

lemma client_list:
  "gok s \<Longrightarrow> r \<in> set (list_for_client G s u c) \<longleftrightarrow>
    grow s (cn_consent_id r) = Some r \<and> cn_user_id r = u \<and> cn_client_id r = c"
  by (auto simp: list_for_client_def consent_list)

text \<open>The default \<^verbatim>\<open>mark_used\<close> keeps the contract the overriding ones do.\<close>

lemma base_mark_used_keeps:
  "gok s \<Longrightarrow> gok (snd (base_mark_used G s i t)) \<and> fst (base_mark_used G s i t) = (grow s i \<noteq> None) \<and>
    grow (snd (base_mark_used G s i t)) =
      (case grow s i of None \<Rightarrow> grow s | Some r \<Rightarrow> (grow s)(i \<mapsto> r\<lparr>cn_last_used_at := t\<rparr>))"
  using consent_put [of s] consent_keyed [of s i]
  by (auto simp: base_mark_used_def consent_get split: option.splits)

lemma delete_consents_rows:
  "gok s \<Longrightarrow> gok (delete_consents G s rs) \<and>
    grow (delete_consents G s rs) k = (if k \<in> cn_consent_id ` set rs then None else grow s k)"
  by (induction rs arbitrary: s) (auto simp: consent_delete)

lemma doomed_keys:
  assumes "gok s" and "\<And>r. r \<in> set rs \<Longrightarrow> grow s (cn_consent_id r) = Some r"
  shows "k \<in> cn_consent_id ` set rs \<longleftrightarrow> (case grow s k of None \<Rightarrow> False | Some r \<Rightarrow> r \<in> set rs)"
proof (cases "grow s k")
  case None
  then have "cn_consent_id r \<noteq> k" if "r \<in> set rs" for r using assms(2) [OF that] by auto
  then show ?thesis using None by auto
next
  case (Some r)
  have "r = q" if "q \<in> set rs" "cn_consent_id q = k" for q using assms(2) [OF that(1)] that(2) Some by simp
  then show ?thesis using Some consent_keyed [OF assms(1) Some] by auto
qed

lemma delete_listed:
  assumes "gok s" and "\<And>r. r \<in> set rs \<Longrightarrow> grow s (cn_consent_id r) = Some r"
    and "\<And>r. grow s k = Some r \<Longrightarrow> r \<in> set rs \<longleftrightarrow> p r"
  shows "grow (delete_consents G s rs) k =
    (case grow s k of None \<Rightarrow> None | Some r \<Rightarrow> if p r then None else Some r)"
proof -
  have "k \<in> cn_consent_id ` set rs \<longleftrightarrow> (case grow s k of None \<Rightarrow> False | Some r \<Rightarrow> r \<in> set rs)"
    using assms(1,2) by (rule doomed_keys)
  then show ?thesis
    using delete_consents_rows [OF assms(1), of rs k] assms(3) by (cases "grow s k") simp_all
qed

lemma delete_for_client_rows:
  assumes "gok s"
  shows "gok (snd (delete_for_client G s u c t))"
    and "grow (snd (delete_for_client G s u c t)) k =
      (case grow s k of None \<Rightarrow> None
       | Some r \<Rightarrow> if cn_user_id r = u \<and> cn_client_id r = c \<and> (t = [] \<or> cn_tenant_id r = t) then None else Some r)"
    and "set (fst (delete_for_client G s u c t)) =
      {r. grow s (cn_consent_id r) = Some r \<and> cn_user_id r = u \<and> cn_client_id r = c \<and> (t = [] \<or> cn_tenant_id r = t)}"
proof -
  let ?doomed = "filter (\<lambda>r. t = [] \<or> cn_tenant_id r = t) (list_for_client G s u c)"
  have eq: "delete_for_client G s u c t = (?doomed, delete_consents G s ?doomed)"
    by (simp add: delete_for_client_def Let_def)
  show "gok (snd (delete_for_client G s u c t))"
    using delete_consents_rows [OF assms] by (simp add: eq)
  show "set (fst (delete_for_client G s u c t)) =
      {r. grow s (cn_consent_id r) = Some r \<and> cn_user_id r = u \<and> cn_client_id r = c \<and> (t = [] \<or> cn_tenant_id r = t)}"
    by (auto simp: eq client_list [OF assms])
  have "grow s (cn_consent_id r) = Some r" if "r \<in> set ?doomed" for r
    using that client_list [OF assms] by simp
  moreover have "r \<in> set ?doomed \<longleftrightarrow> cn_user_id r = u \<and> cn_client_id r = c \<and> (t = [] \<or> cn_tenant_id r = t)"
    if "grow s k = Some r" for r
    using that consent_keyed [OF assms that] client_list [OF assms] by auto
  ultimately show "grow (snd (delete_for_client G s u c t)) k =
      (case grow s k of None \<Rightarrow> None
       | Some r \<Rightarrow> if cn_user_id r = u \<and> cn_client_id r = c \<and> (t = [] \<or> cn_tenant_id r = t) then None else Some r)"
    unfolding eq snd_conv by (intro delete_listed [OF assms])
qed

lemma delete_for_tenant_rows:
  assumes "gok s"
  shows "gok (snd (delete_for_tenant G s u t))"
    and "grow (snd (delete_for_tenant G s u t)) k =
      (case grow s k of None \<Rightarrow> None
       | Some r \<Rightarrow> if cn_user_id r = u \<and> cn_tenant_id r = t then None else Some r)"
proof -
  let ?doomed = "filter (\<lambda>r. cn_tenant_id r = t) (cs_list_for_user G s u)"
  have eq: "delete_for_tenant G s u t = (?doomed, delete_consents G s ?doomed)"
    by (simp add: delete_for_tenant_def Let_def)
  show "gok (snd (delete_for_tenant G s u t))" using delete_consents_rows [OF assms] by (simp add: eq)
  have "grow s (cn_consent_id r) = Some r" if "r \<in> set ?doomed" for r
    using that consent_list [OF assms] by simp
  moreover have "r \<in> set ?doomed \<longleftrightarrow> cn_user_id r = u \<and> cn_tenant_id r = t" if "grow s k = Some r" for r
    using that consent_keyed [OF assms that] consent_list [OF assms] by auto
  ultimately show "grow (snd (delete_for_tenant G s u t)) k =
      (case grow s k of None \<Rightarrow> None
       | Some r \<Rightarrow> if cn_user_id r = u \<and> cn_tenant_id r = t then None else Some r)"
    unfolding eq snd_conv by (intro delete_listed [OF assms])
qed

end

section \<open>The dictionaries keep them\<close>

definition client_memory_ok :: "client_memory \<Rightarrow> bool" where
  "client_memory_ok s = (\<forall>i r. dget s i = Some r \<longrightarrow> oc_client_id r = i)"

definition consent_memory_ok :: "consent_memory \<Rightarrow> bool" where
  "consent_memory_ok s = (dict_ok s \<and> (\<forall>i r. dget s i = Some r \<longrightarrow> cn_consent_id r = i))"

interpretation mem_clients: oauth_client_store memory_client_ops map_of client_memory_ok
  by unfold_locales
    (auto simp: memory_client_ops_def mem_client_get_def mem_client_put_def mem_client_touch_def
      client_memory_ok_def split: option.splits if_splits)

interpretation mem_codes: oauth_code_store memory_authz_ops map_of "\<lambda>_. True"
  by unfold_locales
    (auto simp: memory_authz_ops_def mem_authz_put_def mem_authz_consume_def split: option.splits)

lemma mem_consent_listed:
  assumes "consent_memory_ok s"
  shows "set (mem_consent_list s u) = {r. dget s (cn_consent_id r) = Some r \<and> cn_user_id r = u}"
  using assms mem_dvalues [of s] by (auto simp: mem_consent_list_def consent_memory_ok_def)

interpretation mem_consents: oauth_consent_store memory_consent_ops map_of consent_memory_ok
proof unfold_locales
  fix s :: consent_memory and u
  assume ok: "consent_memory_ok s"
  show "set (cs_list_for_user memory_consent_ops s u) = {r. dget s (cn_consent_id r) = Some r \<and> cn_user_id r = u}"
    using mem_consent_listed [OF ok] by (simp add: memory_consent_ops_def)
qed (auto simp: memory_consent_ops_def mem_consent_get_def mem_consent_put_def mem_consent_delete_def
    mem_consent_mark_used_def consent_memory_ok_def split: option.splits if_splits)

end
