(* ===== verification/Urls.thy ===== *)
theory Urls
  imports Prelude
begin

text \<open>
  What the code uses of \<^verbatim>\<open>urllib.parse.urlsplit\<close> (CPython 3.13): the five parts of a URL and the
  host name in its network location. \<^const>\<open>None\<close> is the \<^verbatim>\<open>ValueError\<close> of a malformed bracketed
  host; whether the text in the brackets is an IPv6 address is a parameter \<open>ipv6\<close>. No Latin-1
  character normalises to a delimiter, so the check of the normalised location never fires.
\<close>

record split_url =
  url_scheme :: string
  url_netloc :: string
  url_path :: string
  url_query :: string
  url_fragment :: string

text \<open>\<^verbatim>\<open>s.partition(c)\<close> without the separator, and \<^verbatim>\<open>s.rpartition(c)[2]\<close>.\<close>

definition url_partition :: "char \<Rightarrow> string \<Rightarrow> string \<times> string" where
  "url_partition c s = (takeWhile (\<lambda>x. x \<noteq> c) s, drop 1 (dropWhile (\<lambda>x. x \<noteq> c) s))"

definition after_last :: "char \<Rightarrow> string \<Rightarrow> string" where
  "after_last c s = rev (takeWhile (\<lambda>x. x \<noteq> c) (rev s))"

definition clean_url :: "string \<Rightarrow> string" where
  "clean_url url = filter (\<lambda>c. code c \<noteq> 9 \<and> code c \<noteq> 10 \<and> code c \<noteq> 13) (dropWhile (\<lambda>c. code c \<le> 32) url)"

definition scheme_char :: "char \<Rightarrow> bool" where
  "scheme_char c = (is_alnum c \<or> c = CHR ''+'' \<or> c = CHR ''-'' \<or> c = CHR ''.'')"

definition split_scheme :: "string \<Rightarrow> string \<times> string" where
  "split_scheme url =
     (let (scheme, rest) = url_partition (CHR '':'') url in
      if CHR '':'' \<in> set url \<and> scheme \<noteq> [] \<and> is_alpha (hd scheme) \<and> list_all scheme_char scheme
      then (lower scheme, rest) else ([], url))"

definition netloc_end :: "char \<Rightarrow> bool" where
  "netloc_end c = (c = CHR ''/'' \<or> c = CHR ''?'' \<or> c = CHR ''#'')"

definition split_netloc :: "string \<Rightarrow> string \<times> string" where
  "split_netloc url =
     (if startswith url ''//''
      then (takeWhile (\<lambda>c. \<not> netloc_end c) (drop 2 url), dropWhile (\<lambda>c. \<not> netloc_end c) (drop 2 url))
      else ([], url))"

definition is_hex :: "char \<Rightarrow> bool" where
  "is_hex c = (is_digit c \<or> (65 \<le> code c \<and> code c \<le> 70) \<or> (97 \<le> code c \<and> code c \<le> 102))"

definition bracketed_host_ok :: "(string \<Rightarrow> bool) \<Rightarrow> string \<Rightarrow> bool" where
  "bracketed_host_ok ipv6 host =
     (if startswith host ''v''
      then takeWhile is_hex (tl host) \<noteq> [] \<and> startswith (dropWhile is_hex (tl host)) ''.''
        \<and> tl (dropWhile is_hex (tl host)) \<noteq> []
      else ipv6 host)"

definition bracketed_netloc_ok :: "(string \<Rightarrow> bool) \<Rightarrow> string \<Rightarrow> bool" where
  "bracketed_netloc_ok ipv6 netloc =
     (let hostport = after_last (CHR ''@'') netloc in
      if CHR ''['' \<in> set hostport
      then (case url_partition (CHR ''['') hostport of (lead, bracketed) \<Rightarrow>
              case url_partition (CHR '']'') bracketed of (host, port) \<Rightarrow>
                lead = [] \<and> (port = [] \<or> startswith port '':'') \<and> bracketed_host_ok ipv6 host)
      else bracketed_host_ok ipv6 (fst (url_partition (CHR '':'') hostport)))"

definition netloc_ok :: "(string \<Rightarrow> bool) \<Rightarrow> string \<Rightarrow> bool" where
  "netloc_ok ipv6 netloc =
     ((CHR ''['' \<in> set netloc \<longleftrightarrow> CHR '']'' \<in> set netloc) \<and>
      (CHR ''['' \<in> set netloc \<longrightarrow> bracketed_netloc_ok ipv6 netloc))"

definition urlsplit :: "(string \<Rightarrow> bool) \<Rightarrow> string \<Rightarrow> split_url option" where
  "urlsplit ipv6 url =
     (case split_scheme (clean_url url) of (scheme, rest) \<Rightarrow>
        case split_netloc rest of (netloc, rest) \<Rightarrow>
          if \<not> netloc_ok ipv6 netloc then None
          else (case url_partition (CHR ''#'') rest of (rest, fragment) \<Rightarrow>
                  case url_partition (CHR ''?'') rest of (path, query) \<Rightarrow>
                    Some \<lparr>url_scheme = scheme, url_netloc = netloc, url_path = path,
                          url_query = query, url_fragment = fragment\<rparr>))"

text \<open>\<^verbatim>\<open>SplitResult.hostname\<close>, the empty string for \<^const>\<open>None\<close>.\<close>

definition url_hostname :: "split_url \<Rightarrow> string" where
  "url_hostname u =
     (let hostinfo = after_last (CHR ''@'') (url_netloc u);
          host = (if CHR ''['' \<in> set hostinfo
                  then fst (url_partition (CHR '']'') (snd (url_partition (CHR ''['') hostinfo)))
                  else fst (url_partition (CHR '':'') hostinfo))
      in lower (takeWhile (\<lambda>c. c \<noteq> CHR ''%'') host) @ dropWhile (\<lambda>c. c \<noteq> CHR ''%'') host)"

end
