(* ===== verification/OAuthServer.thy ===== *)
theory OAuthServer
  imports OAuthStores Urls Sessions
begin

text \<open>
  identity/oauth_server.py, \<^verbatim>\<open>OAuthServerService\<close> and the two metadata documents. The stores, the
  session service behind refresh tokens and the product's refresh guard are fields of a record;
  SHA-256, the PKCE digest, the HMAC and the signing of a token's claims are parameters. The
  random draws, the clock and the caller's address are those of a call. An error is its code
  and status, its description is left out; \<open>Raised\<close> is an exception of another kind.
\<close>

section \<open>Constants, settings and errors\<close>

definition authorize_path :: string where "authorize_path = ''/authorize''"
definition token_path :: string where "token_path = ''/token''"
definition register_client_path :: string where "register_client_path = ''/register-client''"
definition revoke_path :: string where "revoke_path = ''/revoke''"
definition jwks_path :: string where "jwks_path = ''/.well-known/jwks.json''"
definition code_challenge_methods :: "string list" where "code_challenge_methods = [''S256'']"
definition grant_types_supported :: "string list" where "grant_types_supported = [''authorization_code'', ''refresh_token'']"
definition response_types_supported :: "string list" where "response_types_supported = [''code'']"
definition token_endpoint_auth_methods :: "string list" where "token_endpoint_auth_methods = [''none'']"
definition max_redirect_uris :: nat where "max_redirect_uris = 10"
definition max_client_name_length :: nat where "max_client_name_length = 200"
definition loopback_hosts :: "string list" where "loopback_hosts = [''127.0.0.1'', ''::1'', ''localhost'']"
definition max_access_token_ttl :: timedelta where "max_access_token_ttl = 3600 * second"
definition registered_claims :: "string list" where
  "registered_claims = [''iss'', ''sub'', ''aud'', ''exp'', ''iat'', ''nbf'', ''jti'', ''typ'', ''sid'']"

record oauth_settings =
  os_issuer :: string
  os_audience :: string
  os_access_token_ttl :: timedelta
  os_totp_master_key :: string
  mcp_resource_url :: string
  mcp_scopes_supported :: "string list"
  mcp_registration_enabled :: bool
  mcp_clients :: "json_object list"
  mcp_tenant_claim :: string
  mcp_authorization_code_ttl :: timedelta
  mcp_client_ttl :: timedelta
  mcp_login_url :: string
  mcp_consent_max_age :: timedelta
  mcp_include_granted_scopes :: bool

datatype oauth_fault = Refused string int | Raised

abbreviation bad :: "string \<Rightarrow> oauth_fault" where "bad error \<equiv> Refused error 400"

datatype guard_answer = GuardFalse | GuardOther | GuardRaises

text \<open>\<open>oa_flows\<close> is the session service of the flows, when the product mounts them.\<close>

record ('c, 'd, 'g, 's) oauth_server =
  oa_settings :: oauth_settings
  oa_clients :: "'c client_ops"
  oa_codes :: "'d authz_ops"
  oa_consents :: "'g consent_ops"
  oa_flows :: "'s session_service option"
  oa_guard :: "(consent \<Rightarrow> guard_answer) option"
  oa_hash :: "string \<Rightarrow> string"
  oa_challenge :: "string \<Rightarrow> string"
  oa_hmac :: "string \<Rightarrow> string \<Rightarrow> string"
  oa_encode :: "json_object \<Rightarrow> string"
  oa_str :: "json \<Rightarrow> string"
  oa_ipv6 :: "string \<Rightarrow> bool"

record ('c, 'd, 'g, 's) oauth_state =
  st_clients :: 'c
  st_codes :: 'd
  st_consents :: 'g
  st_sessions :: 's

text \<open>What a call sees and draws; \<open>oq_now\<close> is the \<^verbatim>\<open>now\<close> argument, in epoch seconds.\<close>

record oauth_call =
  oq_wall :: datetime
  oq_now :: "int option"
  oq_ip :: string
  oq_user_agent :: string
  oq_jti :: string
  oq_family :: string
  oq_token1 :: string
  oq_token2 :: string
  oq_uuid :: string
  oq_code :: string

definition call_moment :: "oauth_call \<Rightarrow> int" where
  "call_moment q = (case oq_now q of None \<Rightarrow> int_timestamp (oq_wall q) | Some n \<Rightarrow> n)"

definition whole_seconds :: "timedelta \<Rightarrow> int" where
  "whole_seconds d = int_timestamp d"

definition iso_epoch :: "int \<Rightarrow> string" where
  "iso_epoch moment = iso_seconds (moment * second)"

type_synonym oauth_params = "(string, string) dict"

definition param :: "oauth_params \<Rightarrow> string \<Rightarrow> string" where
  "param params k = (case dget params k of Some v \<Rightarrow> v | None \<Rightarrow> [])"

abbreviation no_slash :: "string \<Rightarrow> string" where "no_slash s \<equiv> rstrip_char (CHR ''/'') s"

section \<open>Metadata\<close>

definition json_strs :: "string list \<Rightarrow> json" where
  "json_strs xs = JArr (map JStr xs)"

definition authorization_server_metadata :: "oauth_settings \<Rightarrow> json_object" where
  "authorization_server_metadata cfg =
     (let issuer = no_slash (os_issuer cfg) in
      [(''issuer'', JStr issuer), (''authorization_endpoint'', JStr (issuer @ authorize_path)),
       (''token_endpoint'', JStr (issuer @ token_path)),
       (''registration_endpoint'', JStr (issuer @ register_client_path)),
       (''revocation_endpoint'', JStr (issuer @ revoke_path)), (''jwks_uri'', JStr (issuer @ jwks_path)),
       (''scopes_supported'', json_strs (mcp_scopes_supported cfg)),
       (''response_types_supported'', json_strs response_types_supported),
       (''grant_types_supported'', json_strs grant_types_supported),
       (''code_challenge_methods_supported'', json_strs code_challenge_methods),
       (''token_endpoint_auth_methods_supported'', json_strs token_endpoint_auth_methods),
       (''resource_indicators_supported'', JBool True)])"

definition protected_resource_metadata :: "oauth_settings \<Rightarrow> json_object" where
  "protected_resource_metadata cfg =
     (let issuer = no_slash (os_issuer cfg) in
      [(''resource'', JStr (mcp_resource_url cfg)), (''authorization_servers'', json_strs [issuer]),
       (''scopes_supported'', json_strs (mcp_scopes_supported cfg)),
       (''bearer_methods_supported'', json_strs [''header'']), (''resource_documentation'', JStr issuer)])"

text \<open>\<^verbatim>\<open>d.update(other)\<close>.\<close>

definition dict_update :: "('k, 'v) dict \<Rightarrow> ('k, 'v) dict \<Rightarrow> ('k, 'v) dict" where
  "dict_update d other = fold (\<lambda>(k, v). dset k v) other d"

definition extend_discovery_document :: "json_object \<Rightarrow> oauth_settings \<Rightarrow> json_object" where
  "extend_discovery_document document cfg =
     (let issuer = no_slash (os_issuer cfg) in
      dict_update document
        [(''authorization_endpoint'', JStr (issuer @ authorize_path)),
         (''token_endpoint'', JStr (issuer @ token_path)),
         (''registration_endpoint'', JStr (issuer @ register_client_path)),
         (''code_challenge_methods_supported'', json_strs code_challenge_methods),
         (''scopes_supported'', json_strs (mcp_scopes_supported cfg)),
         (''response_types_supported'', json_strs response_types_supported),
         (''grant_types_supported'', json_strs grant_types_supported)])"

section \<open>Access tokens\<close>

text \<open>
  \<^verbatim>\<open>TokenService.mint_access_token\<close> of identity/service.py with one audience: the claims it
  signs, and the refusal of a lifetime out of range.
\<close>

definition access_payload ::
  "oauth_settings \<Rightarrow> string \<Rightarrow> string \<Rightarrow> json_object \<Rightarrow> string \<Rightarrow> string \<Rightarrow> int \<Rightarrow> timedelta \<Rightarrow> json_object" where
  "access_payload cfg jti subject claims audience session_id issued_at lifetime =
     dict_update (filter (\<lambda>(k, v). k \<notin> set registered_claims) claims)
       ([(''iss'', JStr (os_issuer cfg)), (''sub'', JStr subject), (''aud'', JStr (str_or audience (os_audience cfg))),
         (''iat'', JNum (of_int issued_at)), (''exp'', JNum (of_int (issued_at + whole_seconds lifetime))),
         (''jti'', JStr jti), (''typ'', JStr ''access'')]
        @ (if session_id \<noteq> [] then [(''sid'', JStr session_id)] else []))"

definition mint_access_token ::
  "('c, 'd, 'g, 's) oauth_server \<Rightarrow> string \<Rightarrow> string \<Rightarrow> json_object \<Rightarrow> string \<Rightarrow> int \<Rightarrow> oauth_fault + string" where
  "mint_access_token srv jti subject claims audience now =
     (let lifetime = os_access_token_ttl (oa_settings srv) in
      if \<not> (0 < lifetime \<and> lifetime \<le> max_access_token_ttl) then Inl Raised
      else Inr (oa_encode srv (access_payload (oa_settings srv) jti subject claims audience [] now lifetime)))"

definition grant_claims :: "oauth_settings \<Rightarrow> string list \<Rightarrow> string \<Rightarrow> string \<Rightarrow> json_object" where
  "grant_claims cfg scopes client_id tenant_id =
     dset (mcp_tenant_claim cfg) (JStr tenant_id)
       [(''scope'', JStr (join '' '' scopes)), (''client_id'', JStr client_id)]"

record oauth_token_body =
  tk_access_token :: string
  tk_expires_in :: int
  tk_scope :: string
  tk_refresh_token :: "string option"

section \<open>Clients\<close>

definition is_loopback :: "split_url \<Rightarrow> bool" where
  "is_loopback u = (url_hostname u \<in> set loopback_hosts)"

definition validate_redirect_uri :: "(string \<Rightarrow> bool) \<Rightarrow> string \<Rightarrow> oauth_fault + string" where
  "validate_redirect_uri ipv6 value =
     (case urlsplit ipv6 value of
        None \<Rightarrow> Inl Raised
      | Some u \<Rightarrow>
          if url_fragment u \<noteq> [] then Inl (bad ''invalid_redirect_uri'')
          else if url_hostname u = [] then Inl (bad ''invalid_redirect_uri'')
          else if url_scheme u = ''https'' then Inr value
          else if url_scheme u = ''http'' \<and> is_loopback u then Inr value
          else Inl (bad ''invalid_redirect_uri''))"

fun validate_uris :: "(string \<Rightarrow> bool) \<Rightarrow> string list \<Rightarrow> oauth_fault + string list" where
  "validate_uris ipv6 [] = Inr []"
| "validate_uris ipv6 (u # us) =
     (case validate_redirect_uri ipv6 u of
        Inl f \<Rightarrow> Inl f
      | Inr v \<Rightarrow> (case validate_uris ipv6 us of Inl f \<Rightarrow> Inl f | Inr vs \<Rightarrow> Inr (v # vs)))"

text \<open>\<^verbatim>\<open>str(x) for x in v\<close>; a number, a boolean and \<^verbatim>\<open>None\<close> cannot be iterated.\<close>

definition iter_strs :: "(json \<Rightarrow> string) \<Rightarrow> json \<Rightarrow> string list option" where
  "iter_strs st v =
     (case v of JArr xs \<Rightarrow> Some (map (json_str st) xs) | JStr s \<Rightarrow> Some (map (\<lambda>c. [c]) s)
      | JObj o' \<Rightarrow> Some (map fst o') | _ \<Rightarrow> None)"

definition get_or :: "json_object \<Rightarrow> string \<Rightarrow> json \<Rightarrow> json" where
  "get_or d k other = (case dget d k of Some v \<Rightarrow> v | None \<Rightarrow> other)"

definition seeded_client :: "(json \<Rightarrow> string) \<Rightarrow> json_object \<Rightarrow> string list \<Rightarrow> string list \<Rightarrow> oauth_client" where
  "seeded_client st entry redirect_uris scopes =
     \<lparr>oc_client_id = item_str st entry ''client_id'', oc_redirect_uris = redirect_uris,
      oc_client_name = item_str st entry ''client_name'', oc_created_at = [], oc_last_used_at = [],
      oc_expires_at = 0, oc_first_party = True, oc_scopes = scopes\<rparr>"

fun seed_clients :: "('c, 'd, 'g, 's) oauth_server \<Rightarrow> 'c \<Rightarrow> json_object list \<Rightarrow> oauth_fault + 'c" where
  "seed_clients srv s [] = Inr s"
| "seed_clients srv s (entry # entries) =
     (case iter_strs (oa_str srv) (get_or entry ''redirect_uris'' (JArr [])) of
        None \<Rightarrow> Inl Raised
      | Some uris \<Rightarrow>
          (case validate_uris (oa_ipv6 srv) uris of
             Inl f \<Rightarrow> Inl f
           | Inr _ \<Rightarrow>
               (case iter_strs (oa_str srv) (get_or entry ''scopes'' (JArr [])) of
                  None \<Rightarrow> Inl Raised
                | Some scopes \<Rightarrow>
                    seed_clients srv (cl_put (oa_clients srv) s (seeded_client (oa_str srv) entry uris scopes)) entries)))"

definition validate_scopes :: "oauth_settings \<Rightarrow> string list \<Rightarrow> oauth_fault + string list" where
  "validate_scopes cfg requested =
     (if requested = [] then Inr (mcp_scopes_supported cfg)
      else if filter (\<lambda>s. s \<notin> set (mcp_scopes_supported cfg)) requested \<noteq> [] then Inl (bad ''invalid_scope'')
      else Inr requested)"

text \<open>The values of a list field of the metadata, or its default when the field is falsy.\<close>

definition metadata_list :: "(json \<Rightarrow> string) \<Rightarrow> json_object \<Rightarrow> string \<Rightarrow> string list \<Rightarrow> string list option" where
  "metadata_list st request k supported = iter_strs st (item_or request k (json_strs supported))"

definition register_checks ::
  "('c, 'd, 'g, 's) oauth_server \<Rightarrow> json_object \<Rightarrow> oauth_fault + (string list \<times> string list)" where
  "register_checks srv request =
     (let st = oa_str srv in
      if json_str st (get_or request ''token_endpoint_auth_method'' (JStr ''none'')) \<noteq> ''none''
      then Inl (bad ''invalid_client_metadata'')
      else case jget request ''redirect_uris'' of
          JArr (u # us) \<Rightarrow>
            (if length (u # us) > max_redirect_uris then Inl (bad ''invalid_redirect_uri'')
             else case validate_uris (oa_ipv6 srv) (map (json_str st) (u # us)) of
                 Inl f \<Rightarrow> Inl f
               | Inr uris \<Rightarrow>
                   (case metadata_list st request ''grant_types'' grant_types_supported of
                      None \<Rightarrow> Inl Raised
                    | Some grants \<Rightarrow>
                        if \<not> set grants \<subseteq> set grant_types_supported then Inl (bad ''invalid_client_metadata'')
                        else case metadata_list st request ''response_types'' response_types_supported of
                            None \<Rightarrow> Inl Raised
                          | Some responses \<Rightarrow>
                              if \<not> set responses \<subseteq> set response_types_supported
                              then Inl (bad ''invalid_client_metadata'')
                              else (case validate_scopes (oa_settings srv) (words (item_str st request ''scope'')) of
                                      Inl f \<Rightarrow> Inl f | Inr scopes \<Rightarrow> Inr (uris, scopes))))
        | _ \<Rightarrow> Inl (bad ''invalid_redirect_uri''))"

text \<open>\<open>fresh\<close> is the hexadecimal \<^verbatim>\<open>uuid4\<close>.\<close>

definition registered_client ::
  "('c, 'd, 'g, 's) oauth_server \<Rightarrow> json_object \<Rightarrow> string \<Rightarrow> int \<Rightarrow> string list \<Rightarrow> string list \<Rightarrow> oauth_client" where
  "registered_client srv request fresh moment uris scopes =
     \<lparr>oc_client_id = ''mcp_'' @ fresh, oc_redirect_uris = uris,
      oc_client_name = take max_client_name_length (item_str (oa_str srv) request ''client_name''),
      oc_created_at = iso_epoch moment, oc_last_used_at = [],
      oc_expires_at = moment + whole_seconds (mcp_client_ttl (oa_settings srv)),
      oc_first_party = False, oc_scopes = scopes\<rparr>"

definition registration_answer :: "oauth_settings \<Rightarrow> oauth_client \<Rightarrow> int \<Rightarrow> json_object" where
  "registration_answer cfg r moment =
     [(''client_id'', JStr (oc_client_id r)), (''client_id_issued_at'', JNum (of_int moment)),
      (''redirect_uris'', json_strs (oc_redirect_uris r)), (''client_name'', JStr (oc_client_name r)),
      (''grant_types'', json_strs grant_types_supported), (''response_types'', json_strs response_types_supported),
      (''token_endpoint_auth_method'', JStr ''none''),
      (''scope'', JStr (join '' '' (if oc_scopes r \<noteq> [] then oc_scopes r else mcp_scopes_supported cfg)))]"

definition register_client ::
  "('c, 'd, 'g, 's) oauth_server \<Rightarrow> 'c \<Rightarrow> oauth_call \<Rightarrow> string \<Rightarrow> json_object \<Rightarrow> (oauth_fault + json_object) \<times> 'c" where
  "register_client srv s q fresh request =
     (case register_checks srv request of
        Inl f \<Rightarrow> (Inl f, s)
      | Inr (uris, scopes) \<Rightarrow>
          let r = registered_client srv request fresh (call_moment q) uris scopes
          in (Inr (registration_answer (oa_settings srv) r (call_moment q)), cl_put (oa_clients srv) s r))"

section \<open>Authorization\<close>

record authorization_request =
  ar_client :: oauth_client
  ar_redirect_uri :: string
  ar_resource :: string
  ar_scopes :: "string list"
  ar_code_challenge :: string
  ar_state :: string
  ar_challenge_method :: string

definition parse_authorization_request ::
  "('c, 'd, 'g, 's) oauth_server \<Rightarrow> 'c \<Rightarrow> datetime \<Rightarrow> oauth_params \<Rightarrow> oauth_fault + authorization_request" where
  "parse_authorization_request srv s wall params =
     (let cfg = oa_settings srv; client_id = param params ''client_id'' in
      if client_id = [] then Inl (bad ''invalid_request'')
      else case cl_get (oa_clients srv) wall s client_id of
          None \<Rightarrow> Inl (Refused ''invalid_client'' 401)
        | Some client \<Rightarrow>
            let redirect_uri = param params ''redirect_uri''; challenge = param params ''code_challenge'';
                method = param params ''code_challenge_method''; resource = param params ''resource'' in
            if redirect_uri = [] then Inl (bad ''invalid_request'')
            else if \<not> client_allows client redirect_uri then Inl (bad ''invalid_request'')
            else if param params ''response_type'' \<noteq> ''code'' then Inl (bad ''unsupported_response_type'')
            else if challenge = [] then Inl (bad ''invalid_request'')
            else if method \<notin> set code_challenge_methods then Inl (bad ''invalid_request'')
            else if resource = [] then Inl (bad ''invalid_target'')
            else if no_slash resource \<noteq> no_slash (mcp_resource_url cfg) then Inl (bad ''invalid_target'')
            else (case validate_scopes cfg (words (param params ''scope'')) of
                    Inl f \<Rightarrow> Inl f
                  | Inr scopes \<Rightarrow>
                      Inr \<lparr>ar_client = client, ar_redirect_uri = redirect_uri,
                           ar_resource = mcp_resource_url cfg, ar_scopes = scopes,
                           ar_code_challenge = challenge, ar_state = param params ''state'',
                           ar_challenge_method = method\<rparr>))"

text \<open>\<open>plain\<close> is the fresh authorization code.\<close>

definition issued_code ::
  "('c, 'd, 'g, 's) oauth_server \<Rightarrow> oauth_call \<Rightarrow> string \<Rightarrow> authorization_request \<Rightarrow> string \<Rightarrow> string \<Rightarrow> authorization_code" where
  "issued_code srv q plain request user_id tenant_id =
     \<lparr>az_code_hash = oa_hash srv plain, az_client_id = oc_client_id (ar_client request), az_user_id = user_id,
      az_redirect_uri = ar_redirect_uri request, az_code_challenge = ar_code_challenge request,
      az_resource = ar_resource request, az_tenant_id = tenant_id, az_created_at = iso_epoch (call_moment q),
      az_expires_at = call_moment q + whole_seconds (mcp_authorization_code_ttl (oa_settings srv)),
      az_scopes = ar_scopes request, az_challenge_method = ar_challenge_method request\<rparr>"

definition issue_code ::
  "('c, 'd, 'g, 's) oauth_server \<Rightarrow> 'd \<Rightarrow> oauth_call \<Rightarrow> string \<Rightarrow> authorization_request \<Rightarrow> string \<Rightarrow> string \<Rightarrow> 'd" where
  "issue_code srv s q plain request user_id tenant_id =
     cd_put (oa_codes srv) s (issued_code srv q plain request user_id tenant_id)"

definition granted_scopes :: "oauth_settings \<Rightarrow> authorization_request \<Rightarrow> consent option \<Rightarrow> string list" where
  "granted_scopes cfg request existing =
     (case existing of
        None \<Rightarrow> ar_scopes request
      | Some c \<Rightarrow>
          if \<not> mcp_include_granted_scopes cfg then ar_scopes request
          else filter (\<lambda>s. s \<in> set (cn_scopes c) \<or> s \<in> set (ar_scopes request)) (mcp_scopes_supported cfg))"

definition existing_consent ::
  "('c, 'd, 'g, 's) oauth_server \<Rightarrow> 'g \<Rightarrow> authorization_request \<Rightarrow> string \<Rightarrow> string \<Rightarrow> consent option" where
  "existing_consent srv s request user_id tenant_id =
     find (\<lambda>c. cn_tenant_id c = tenant_id \<and> cn_resource c = ar_resource request)
       (list_for_client (oa_consents srv) s user_id (oc_client_id (ar_client request)))"

text \<open>\<open>fresh\<close> is the id a first grant gets.\<close>

definition consented ::
  "('c, 'd, 'g, 's) oauth_server \<Rightarrow> 'g \<Rightarrow> oauth_call \<Rightarrow> string \<Rightarrow> authorization_request \<Rightarrow> string \<Rightarrow> string \<Rightarrow> consent" where
  "consented srv s q fresh request user_id tenant_id =
     (let existing = existing_consent srv s request user_id tenant_id; stamp = iso_epoch (call_moment q) in
      \<lparr>cn_consent_id = (case existing of Some c \<Rightarrow> cn_consent_id c | None \<Rightarrow> fresh), cn_user_id = user_id,
       cn_client_id = oc_client_id (ar_client request), cn_tenant_id = tenant_id,
       cn_resource = ar_resource request, cn_scopes = granted_scopes (oa_settings srv) request existing,
       cn_granted_at = (case existing of Some c \<Rightarrow> str_or (cn_granted_at c) stamp | None \<Rightarrow> stamp),
       cn_updated_at = stamp, cn_last_used_at = stamp\<rparr>)"

definition record_consent ::
  "('c, 'd, 'g, 's) oauth_server \<Rightarrow> 'g \<Rightarrow> oauth_call \<Rightarrow> string \<Rightarrow> authorization_request \<Rightarrow> string \<Rightarrow> string \<Rightarrow>
   consent \<times> 'g" where
  "record_consent srv s q fresh request user_id tenant_id =
     (let r = consented srv s q fresh request user_id tenant_id in (r, cs_put (oa_consents srv) s r))"

definition authorized_request :: "oauth_settings \<Rightarrow> authorization_request \<Rightarrow> consent \<Rightarrow> authorization_request" where
  "authorized_request cfg request c =
     (if \<not> mcp_include_granted_scopes cfg \<or> cn_scopes c = ar_scopes request then request
      else request\<lparr>ar_scopes := cn_scopes c\<rparr>)"

section \<open>The token endpoint\<close>

definition refresh_device_label :: "string \<Rightarrow> string \<Rightarrow> string" where
  "refresh_device_label client_id tenant_id =
     (if tenant_id \<noteq> [] then ''mcp:'' @ client_id @ '':'' @ tenant_id else ''mcp:'' @ client_id)"

definition start_refresh_family ::
  "('c, 'd, 'g, 's) oauth_server \<Rightarrow> 's \<Rightarrow> oauth_call \<Rightarrow> authorization_code \<Rightarrow> string option \<times> 's" where
  "start_refresh_family srv s q r =
     (case oa_flows srv of
        None \<Rightarrow> (None, s)
      | Some svc \<Rightarrow>
          (case start_family svc s (oq_wall q) (oq_family q) (oq_token1 q) (az_user_id r)
                  (refresh_device_label (az_client_id r) (az_tenant_id r)) (oq_ip q) (oq_user_agent q) (oq_wall q) None [] of
             (issued, s) \<Rightarrow> (Some (ir_token issued), s)))"

definition issue_tokens ::
  "('c, 'd, 'g, 's) oauth_server \<Rightarrow> ('c, 'd, 'g, 's) oauth_state \<Rightarrow> oauth_call \<Rightarrow> authorization_code \<Rightarrow>
   (oauth_fault + oauth_token_body) \<times> ('c, 'd, 'g, 's) oauth_state" where
  "issue_tokens srv st q r =
     (let cfg = oa_settings srv in
      case mint_access_token srv (oq_jti q) (az_user_id r)
             (grant_claims cfg (az_scopes r) (az_client_id r) (az_tenant_id r)) (az_resource r) (call_moment q) of
        Inl f \<Rightarrow> (Inl f, st)
      | Inr access \<Rightarrow>
          (case start_refresh_family srv (st_sessions st) q r of
             (refresh, s) \<Rightarrow>
               (Inr \<lparr>tk_access_token = access, tk_expires_in = whole_seconds (os_access_token_ttl cfg),
                     tk_scope = join '' '' (az_scopes r), tk_refresh_token = refresh\<rparr>,
                st\<lparr>st_sessions := s\<rparr>)))"

text \<open>\<^verbatim>\<open>if not constant_time_equals(a, b): raise\<close>, which raises \<^verbatim>\<open>TypeError\<close> off ASCII.\<close>

definition differ_fault :: "string \<Rightarrow> string \<Rightarrow> oauth_fault \<Rightarrow> oauth_fault option" where
  "differ_fault a b f =
     (case compare_digest a b of None \<Rightarrow> Some Raised | Some True \<Rightarrow> None | Some False \<Rightarrow> Some f)"

definition exchange_fault ::
  "('c, 'd, 'g, 's) oauth_server \<Rightarrow> oauth_params \<Rightarrow> authorization_code \<Rightarrow> int \<Rightarrow> oauth_fault option" where
  "exchange_fault srv params r moment =
     (let verifier = param params ''code_verifier''; resource = param params ''resource'' in
      if az_expires_at r \<le> moment then Some (bad ''invalid_grant'')
      else case differ_fault (param params ''client_id'') (az_client_id r) (bad ''invalid_grant'') of
          Some f \<Rightarrow> Some f
        | None \<Rightarrow>
            (case differ_fault (param params ''redirect_uri'') (az_redirect_uri r) (bad ''invalid_grant'') of
               Some f \<Rightarrow> Some f
             | None \<Rightarrow>
                 if verifier = [] then Some (bad ''invalid_request'')
                 else if \<not> list_all is_ascii verifier then Some Raised
                 else (case differ_fault (oa_challenge srv verifier) (az_code_challenge r) (bad ''invalid_grant'') of
                         Some f \<Rightarrow> Some f
                       | None \<Rightarrow>
                           if resource \<noteq> [] \<and> no_slash resource \<noteq> no_slash (az_resource r)
                           then Some (bad ''invalid_target'') else None)))"

definition touch_client ::
  "('c, 'd, 'g, 's) oauth_server \<Rightarrow> 'c \<Rightarrow> oauth_call \<Rightarrow> oauth_client \<Rightarrow> 'c" where
  "touch_client srv s q client =
     (if oc_first_party client then s
      else cl_touch (oa_clients srv) (oq_wall q) s (oc_client_id client)
             (call_moment q + whole_seconds (mcp_client_ttl (oa_settings srv))))"

definition exchange_code ::
  "('c, 'd, 'g, 's) oauth_server \<Rightarrow> ('c, 'd, 'g, 's) oauth_state \<Rightarrow> oauth_call \<Rightarrow> oauth_params \<Rightarrow>
   (oauth_fault + oauth_token_body) \<times> ('c, 'd, 'g, 's) oauth_state" where
  "exchange_code srv st q params =
     (let presented = param params ''code'' in
      if presented = [] then (Inl (bad ''invalid_request''), st)
      else case cd_consume (oa_codes srv) (oq_wall q) (st_codes st) (oa_hash srv presented) of
          (None, codes) \<Rightarrow> (Inl (bad ''invalid_grant''), st\<lparr>st_codes := codes\<rparr>)
        | (Some r, codes) \<Rightarrow>
            (case exchange_fault srv params r (call_moment q) of
               Some f \<Rightarrow> (Inl f, st\<lparr>st_codes := codes\<rparr>)
             | None \<Rightarrow>
                 (case cl_get (oa_clients srv) (oq_wall q) (st_clients st) (az_client_id r) of
                    None \<Rightarrow> (Inl (Refused ''invalid_client'' 401), st\<lparr>st_codes := codes\<rparr>)
                  | Some client \<Rightarrow>
                      issue_tokens srv
                        (st\<lparr>st_codes := codes, st_clients := touch_client srv (st_clients st) q client\<rparr>) q r)))"

section \<open>Refreshing\<close>

text \<open>\<^verbatim>\<open>_consent_for_refresh\<close>: the grant of the family's own tenant, or any for an old family.\<close>

definition consent_for_refresh ::
  "('c, 'd, 'g, 's) oauth_server \<Rightarrow> 'g \<Rightarrow> string \<Rightarrow> string \<Rightarrow> string \<Rightarrow> consent option" where
  "consent_for_refresh srv s user_id client_id device =
     (let grants = list_for_client (oa_consents srv) s user_id client_id;
          prefix = refresh_device_label client_id [] @ '':'' in
      if client_id = [] then None
      else if device = refresh_device_label client_id [] then (case grants of [] \<Rightarrow> None | g # _ \<Rightarrow> Some g)
      else if \<not> startswith device prefix then None
      else find (\<lambda>g. cn_tenant_id g = drop (length prefix) device) grants)"

definition refresh_could_cover ::
  "('c, 'd, 'g, 's) oauth_server \<Rightarrow> ('c, 'd, 'g, 's) oauth_state \<Rightarrow> 's session_service \<Rightarrow> datetime \<Rightarrow> string \<Rightarrow>
   string \<Rightarrow> string list \<Rightarrow> bool" where
  "refresh_could_cover srv st svc wall token client_id requested =
     (if client_id = [] then True
      else case peek svc (st_sessions st) wall token wall of
          None \<Rightarrow> True
        | Some presented \<Rightarrow>
            let grants = list_for_client (oa_consents srv) (st_consents st) (ps_user_id presented) client_id
            in grants = [] \<or> list_ex (\<lambda>g. consent_covers g requested) grants)"

text \<open>\<^verbatim>\<open>_refresh_allowed\<close>, \<^const>\<open>None\<close> when the guard raises.\<close>

definition refresh_allowed ::
  "('c, 'd, 'g, 's) oauth_server \<Rightarrow> ('c, 'd, 'g, 's) oauth_state \<Rightarrow> 's session_service \<Rightarrow> datetime \<Rightarrow> string \<Rightarrow>
   string \<Rightarrow> bool option" where
  "refresh_allowed srv st svc wall token client_id =
     (case oa_guard srv of
        None \<Rightarrow> Some True
      | Some guard \<Rightarrow>
          (case peek svc (st_sessions st) wall token wall of
             None \<Rightarrow> Some True
           | Some presented \<Rightarrow>
               (case consent_for_refresh srv (st_consents st) (ps_user_id presented) client_id (ps_device presented) of
                  None \<Rightarrow> Some True
                | Some c \<Rightarrow>
                    (case guard c of GuardFalse \<Rightarrow> Some False | GuardOther \<Rightarrow> Some True | GuardRaises \<Rightarrow> None))))"

text \<open>\<^verbatim>\<open>_refresh_scopes\<close>, \<^const>\<open>None\<close> when the request goes beyond the consent.\<close>

definition refresh_scopes :: "oauth_settings \<Rightarrow> consent \<Rightarrow> string list \<Rightarrow> string list option" where
  "refresh_scopes cfg c requested =
     (if requested \<noteq> [] then (if consent_covers c requested then Some requested else None)
      else Some (filter (\<lambda>s. s \<in> set (mcp_scopes_supported cfg)) (cn_scopes c)))"

text \<open>What \<^verbatim>\<open>refresh\<close> checks before the token is spent.\<close>

definition refresh_fault ::
  "('c, 'd, 'g, 's) oauth_server \<Rightarrow> ('c, 'd, 'g, 's) oauth_state \<Rightarrow> 's session_service \<Rightarrow> datetime \<Rightarrow> oauth_params \<Rightarrow>
   oauth_fault option" where
  "refresh_fault srv st svc wall params =
     (let cfg = oa_settings srv; token = param params ''refresh_token''; client_id = param params ''client_id'';
          requested = words (param params ''scope'');
          resource = str_or (param params ''resource'') (mcp_resource_url cfg) in
      case (if requested \<noteq> [] then validate_scopes cfg requested else Inr []) of
        Inl f \<Rightarrow> Some f
      | Inr _ \<Rightarrow>
          if no_slash resource \<noteq> no_slash (mcp_resource_url cfg) then Some (bad ''invalid_target'')
          else if requested \<noteq> [] \<and> \<not> refresh_could_cover srv st svc wall token client_id requested
          then Some (bad ''invalid_scope'')
          else (case refresh_allowed srv st svc wall token client_id of
                  None \<Rightarrow> Some Raised | Some False \<Rightarrow> Some (bad ''invalid_grant'') | Some True \<Rightarrow> None))"

text \<open>
  After the rotation: the grant must still stand, is stamped as used, and bounds the scopes.
  \<open>end_family\<close> is the refusal that revokes the family.
\<close>

definition end_family ::
  "('c, 'd, 'g, 's) oauth_state \<Rightarrow> 's session_service \<Rightarrow> string \<Rightarrow>
   (oauth_fault + oauth_token_body) \<times> ('c, 'd, 'g, 's) oauth_state" where
  "end_family st svc family_id =
     (Inl (bad ''invalid_grant''), st\<lparr>st_sessions := fst (revoke_family svc (st_sessions st) family_id)\<rparr>)"

definition refresh_answer ::
  "('c, 'd, 'g, 's) oauth_server \<Rightarrow> ('c, 'd, 'g, 's) oauth_state \<Rightarrow> 's session_service \<Rightarrow> oauth_call \<Rightarrow> oauth_params \<Rightarrow>
   rotation_result \<Rightarrow> issued_refresh \<Rightarrow> (oauth_fault + oauth_token_body) \<times> ('c, 'd, 'g, 's) oauth_state" where
  "refresh_answer srv st svc q params outcome issued =
     (let cfg = oa_settings srv; client_id = param params ''client_id'' in
      case consent_for_refresh srv (st_consents st) (rr_user_id outcome) client_id (ir_device issued) of
        None \<Rightarrow> end_family st svc (rr_family_id outcome)
      | Some c \<Rightarrow>
          (case cs_mark_used (oa_consents srv) (st_consents st) (cn_consent_id c) (iso_epoch (call_moment q)) of
             (used, consents) \<Rightarrow>
               let st = st\<lparr>st_consents := consents\<rparr> in
               if \<not> used then end_family st svc (rr_family_id outcome)
               else (case refresh_scopes cfg c (words (param params ''scope'')) of
                       None \<Rightarrow> (Inl (bad ''invalid_scope''), st)
                     | Some scopes \<Rightarrow>
                         (case mint_access_token srv (oq_jti q) (rr_user_id outcome)
                                 (grant_claims cfg scopes client_id (cn_tenant_id c)) (mcp_resource_url cfg)
                                 (call_moment q) of
                            Inl f \<Rightarrow> (Inl f, st)
                          | Inr access \<Rightarrow>
                              (Inr \<lparr>tk_access_token = access, tk_expires_in = whole_seconds (os_access_token_ttl cfg),
                                    tk_scope = join '' '' scopes, tk_refresh_token = Some (ir_token issued)\<rparr>, st)))))"

definition refresh ::
  "('c, 'd, 'g, 's) oauth_server \<Rightarrow> ('c, 'd, 'g, 's) oauth_state \<Rightarrow> oauth_call \<Rightarrow> oauth_params \<Rightarrow>
   (oauth_fault + oauth_token_body) \<times> ('c, 'd, 'g, 's) oauth_state" where
  "refresh srv st q params =
     (let token = param params ''refresh_token'' in
      if token = [] then (Inl (bad ''invalid_request''), st)
      else case oa_flows srv of
          None \<Rightarrow> (Inl (bad ''unsupported_grant_type''), st)
        | Some svc \<Rightarrow>
            (case refresh_fault srv st svc (oq_wall q) params of
               Some f \<Rightarrow> (Inl f, st)
             | None \<Rightarrow>
                 (case rotate_session svc (st_sessions st) (oq_wall q) (oq_token1 q) (oq_token2 q) token
                         (oq_ip q) (oq_user_agent q) (oq_wall q) of
                    (outcome, s) \<Rightarrow>
                      (case rr_issued outcome of
                         None \<Rightarrow> (Inl (bad ''invalid_grant''), st\<lparr>st_sessions := s\<rparr>)
                       | Some issued \<Rightarrow> refresh_answer srv (st\<lparr>st_sessions := s\<rparr>) svc q params outcome issued))))"

section \<open>Revocation\<close>

fun revoke_devices ::
  "'s session_service \<Rightarrow> 's \<Rightarrow> string \<Rightarrow> string \<Rightarrow> string list \<Rightarrow> 's \<times> nat" where
  "revoke_devices svc s user_id client_id [] = (s, 0)"
| "revoke_devices svc s user_id client_id (t # ts) =
     (case revoke_device svc s user_id (refresh_device_label client_id t) of
        (s, n) \<Rightarrow> (case revoke_devices svc s user_id client_id ts of (s, m) \<Rightarrow> (s, n + m)))"

definition revoke_authorization ::
  "('c, 'd, 'g, 's) oauth_server \<Rightarrow> ('c, 'd, 'g, 's) oauth_state \<Rightarrow> string \<Rightarrow> string \<Rightarrow> string \<Rightarrow>
   (consent list \<times> nat) \<times> ('c, 'd, 'g, 's) oauth_state" where
  "revoke_authorization srv st user_id client_id tenant_id =
     (case delete_for_client (oa_consents srv) (st_consents st) user_id client_id tenant_id of
        (deleted, consents) \<Rightarrow>
          let st = st\<lparr>st_consents := consents\<rparr> in
          case oa_flows srv of
            None \<Rightarrow> ((deleted, 0), st)
          | Some svc \<Rightarrow>
              let tenants = sort (remdups (map cn_tenant_id deleted @ (if tenant_id \<noteq> [] then [tenant_id] else []))) in
              (case revoke_devices svc (st_sessions st) user_id client_id tenants of
                 (s, n) \<Rightarrow>
                   (case (if list_for_client (oa_consents srv) consents user_id client_id = []
                          then revoke_device svc s user_id (refresh_device_label client_id []) else (s, 0)) of
                      (s, m) \<Rightarrow> ((deleted, n + m), st\<lparr>st_sessions := s\<rparr>))))"

definition revoke ::
  "('c, 'd, 'g, 's) oauth_server \<Rightarrow> ('c, 'd, 'g, 's) oauth_state \<Rightarrow> oauth_params \<Rightarrow> ('c, 'd, 'g, 's) oauth_state" where
  "revoke srv st params =
     (case oa_flows srv of
        None \<Rightarrow> st
      | Some svc \<Rightarrow>
          if param params ''token'' = [] then st
          else st\<lparr>st_sessions := snd (revoke_presented svc (st_sessions st) (param params ''token''))\<rparr>)"

end
