(* ===== verification/OAuthRoutes.thy ===== *)
theory OAuthRoutes
  imports OAuthServer
begin

text \<open>
  The routes of \<^verbatim>\<open>build_oauth_server_router\<close> in identity/oauth_server.py, over the service of
  OAuthServer. A reply is what the handler answers with, before it is rendered: a redirect keeps
  its target and the parameters appended to it, the consent page its context, a redirect to the
  sign-in page the parameters it carries back. The resolvers the product passes are fields of a
  record; a request is its form or query, the account it resolves to and one header.
\<close>

section \<open>Requests and replies\<close>

record auth_subject =
  sj_user_id :: string
  sj_auth_time :: int
  sj_session_id :: string
  sj_email :: string
  sj_name :: string
  sj_amr :: "string list"

record tenant_choice =
  tc_id :: string
  tc_name :: string

record 'r oauth_router =
  or_subject_resolver :: "('r \<Rightarrow> auth_subject option) option"
  or_user_resolver :: "('r \<Rightarrow> string) option"
  or_session_tenants :: "(auth_subject \<Rightarrow> tenant_choice list) option"
  or_tenants :: "(string \<Rightarrow> tenant_choice list) option"

record consent_context =
  cx_request :: authorization_request
  cx_user_id :: string
  cx_tenants :: "tenant_choice list"
  cx_form_fields :: oauth_params
  cx_tenant_required :: bool
  cx_account_email :: string
  cx_account_name :: string

datatype oauth_reply =
  OAuthError string int
| LoginRequired
| SignIn oauth_params bool int
| ConsentPage consent_context
| BackTo string oauth_params
| Tokens oauth_token_body
| Registered json_object
| Done
| Failed

fun fault_reply :: "oauth_fault \<Rightarrow> oauth_reply" where
  "fault_reply (Refused error status) = OAuthError error status"
| "fault_reply Raised = Failed"

definition subject_of :: "'r oauth_router \<Rightarrow> 'r \<Rightarrow> auth_subject option" where
  "subject_of rt req =
     (case or_subject_resolver rt of
        Some resolve \<Rightarrow>
          (case resolve req of None \<Rightarrow> None | Some s \<Rightarrow> if sj_user_id s \<noteq> [] then Some s else None)
      | None \<Rightarrow>
          let user_id = (case or_user_resolver rt of Some resolve \<Rightarrow> resolve req | None \<Rightarrow> []) in
          if user_id \<noteq> []
          then Some \<lparr>sj_user_id = user_id, sj_auth_time = 0, sj_session_id = [], sj_email = [], sj_name = [], sj_amr = []\<rparr>
          else None)"

definition tenant_required :: "'r oauth_router \<Rightarrow> bool" where
  "tenant_required rt = (or_session_tenants rt \<noteq> None \<or> or_tenants rt \<noteq> None)"

definition tenants_for :: "'r oauth_router \<Rightarrow> auth_subject \<Rightarrow> tenant_choice list" where
  "tenants_for rt s =
     (case or_session_tenants rt of
        Some resolve \<Rightarrow> resolve s
      | None \<Rightarrow> (case or_tenants rt of Some resolve \<Rightarrow> resolve (sj_user_id s) | None \<Rightarrow> []))"

definition is_stale :: "oauth_settings \<Rightarrow> datetime \<Rightarrow> auth_subject \<Rightarrow> bool" where
  "is_stale cfg wall s =
     (let max_age = whole_seconds (mcp_consent_max_age cfg) in
      0 < max_age \<and> (sj_auth_time s \<le> 0 \<or> int_timestamp wall - sj_auth_time s > max_age))"

definition sign_in_response :: "oauth_settings \<Rightarrow> oauth_params \<Rightarrow> bool \<Rightarrow> int \<Rightarrow> oauth_reply" where
  "sign_in_response cfg params stale status =
     (if mcp_login_url cfg = [] then LoginRequired else SignIn params stale status)"

text \<open>The parameters \<^verbatim>\<open>_redirect_with\<close> appends: those that are not empty.\<close>

definition redirect_with :: "string \<Rightarrow> oauth_params \<Rightarrow> oauth_reply" where
  "redirect_with target params = BackTo target (filter (\<lambda>(k, v). v \<noteq> []) params)"

section \<open>The consent form\<close>

definition signed_material :: "oauth_params \<Rightarrow> string \<Rightarrow> string" where
  "signed_material payload subject =
     (let bound = dset (char_of (0 :: nat) # ''subject'') subject payload in
      join ''|'' (map (\<lambda>k. k @ ''='' @ param bound k) (sort (map fst bound))))"

definition consent_signature :: "('c, 'd, 'g, 's) oauth_server \<Rightarrow> oauth_params \<Rightarrow> string \<Rightarrow> string" where
  "consent_signature srv payload subject =
     oa_hmac srv (str_or (os_totp_master_key (oa_settings srv)) (os_issuer (oa_settings srv)))
       (signed_material payload subject)"

definition consent_fields :: "authorization_request \<Rightarrow> oauth_params" where
  "consent_fields r =
     [(''response_type'', ''code''), (''client_id'', oc_client_id (ar_client r)),
      (''redirect_uri'', ar_redirect_uri r), (''resource'', ar_resource r),
      (''scope'', join '' '' (ar_scopes r)), (''state'', ar_state r),
      (''code_challenge'', ar_code_challenge r), (''code_challenge_method'', ar_challenge_method r)]"

definition authorize_route ::
  "('c, 'd, 'g, 's) oauth_server \<Rightarrow> 'r oauth_router \<Rightarrow> 'c \<Rightarrow> datetime \<Rightarrow> 'r \<Rightarrow> oauth_params \<Rightarrow> oauth_reply" where
  "authorize_route srv rt s wall req query =
     (case parse_authorization_request srv s wall query of
        Inl f \<Rightarrow> fault_reply f
      | Inr parsed \<Rightarrow>
          (case subject_of rt req of
             None \<Rightarrow> sign_in_response (oa_settings srv) query False 302
           | Some subject \<Rightarrow>
               if is_stale (oa_settings srv) wall subject then sign_in_response (oa_settings srv) query True 302
               else let fields = consent_fields parsed in
                 ConsentPage \<lparr>cx_request = parsed, cx_user_id = sj_user_id subject, cx_tenants = tenants_for rt subject,
                   cx_form_fields = dset ''signature'' (consent_signature srv fields (sj_user_id subject)) fields,
                   cx_tenant_required = tenant_required rt, cx_account_email = sj_email subject,
                   cx_account_name = sj_name subject\<rparr>))"

text \<open>
  The checks of the consent post, in order: the answer it gives without granting anything, or the
  request, the user and the tenant it grants. \<open>site\<close> is the \<^verbatim>\<open>sec-fetch-site\<close> header.
\<close>

definition consent_decision ::
  "('c, 'd, 'g, 's) oauth_server \<Rightarrow> 'r oauth_router \<Rightarrow> 'c \<Rightarrow> datetime \<Rightarrow> 'r \<Rightarrow> string \<Rightarrow> oauth_params \<Rightarrow>
   oauth_reply + (authorization_request \<times> string \<times> string)" where
  "consent_decision srv rt s wall req site form =
     (let cfg = oa_settings srv; signature = param form ''signature''; decision = param form ''decision'';
          tenant_id = param form ''tenant_id'';
          params = ddel ''tenant_id'' (ddel ''decision'' (ddel ''signature'' form)) in
      if lower site = ''cross-site'' then Inl (OAuthError ''invalid_request'' 403)
      else case parse_authorization_request srv s wall params of
          Inl f \<Rightarrow> Inl (fault_reply f)
        | Inr parsed \<Rightarrow>
            (case subject_of rt req of
               None \<Rightarrow> Inl (sign_in_response cfg params False 303)
             | Some subject \<Rightarrow>
                 if is_stale cfg wall subject then Inl (sign_in_response cfg params True 303)
                 else (case compare_digest signature (consent_signature srv params (sj_user_id subject)) of
                         None \<Rightarrow> Inl Failed
                       | Some False \<Rightarrow> Inl (OAuthError ''invalid_request'' 400)
                       | Some True \<Rightarrow>
                           if decision \<noteq> ''allow''
                           then Inl (redirect_with (ar_redirect_uri parsed)
                             [(''error'', ''access_denied''), (''error_description'', ''The user declined.''),
                              (''state'', ar_state parsed)])
                           else if tenant_required rt \<and> tenant_id \<notin> tc_id ` set (tenants_for rt subject)
                           then Inl (OAuthError ''invalid_request'' 400)
                           else Inr (parsed, sj_user_id subject, tenant_id))))"

text \<open>The grant itself: the consent is recorded, then a code issued for what it holds.\<close>

definition approve ::
  "('c, 'd, 'g, 's) oauth_server \<Rightarrow> ('c, 'd, 'g, 's) oauth_state \<Rightarrow> oauth_call \<Rightarrow> authorization_request \<Rightarrow> string \<Rightarrow>
   string \<Rightarrow> oauth_reply \<times> ('c, 'd, 'g, 's) oauth_state" where
  "approve srv st q parsed user_id tenant_id =
     (case record_consent srv (st_consents st) q (oq_uuid q) parsed user_id tenant_id of
        (recorded, consents) \<Rightarrow>
          (redirect_with (ar_redirect_uri parsed) [(''code'', oq_code q), (''state'', ar_state parsed)],
           st\<lparr>st_consents := consents,
              st_codes := issue_code srv (st_codes st) q (oq_code q)
                (authorized_request (oa_settings srv) parsed recorded) user_id tenant_id\<rparr>))"

definition consent_route ::
  "('c, 'd, 'g, 's) oauth_server \<Rightarrow> 'r oauth_router \<Rightarrow> ('c, 'd, 'g, 's) oauth_state \<Rightarrow> oauth_call \<Rightarrow> 'r \<Rightarrow> string \<Rightarrow>
   oauth_params \<Rightarrow> oauth_reply \<times> ('c, 'd, 'g, 's) oauth_state" where
  "consent_route srv rt st q req site form =
     (case consent_decision srv rt (st_clients st) (oq_wall q) req site form of
        Inl reply \<Rightarrow> (reply, st)
      | Inr (parsed, user_id, tenant_id) \<Rightarrow> approve srv st q parsed user_id tenant_id)"

section \<open>The other routes\<close>

definition token_route ::
  "('c, 'd, 'g, 's) oauth_server \<Rightarrow> ('c, 'd, 'g, 's) oauth_state \<Rightarrow> oauth_call \<Rightarrow> oauth_params \<Rightarrow>
   oauth_reply \<times> ('c, 'd, 'g, 's) oauth_state" where
  "token_route srv st q form =
     (case (if param form ''grant_type'' = ''authorization_code'' then exchange_code srv st q form
            else if param form ''grant_type'' = ''refresh_token'' then refresh srv st q form
            else (Inl (bad ''unsupported_grant_type''), st)) of
        (Inl f, st) \<Rightarrow> (fault_reply f, st)
      | (Inr body, st) \<Rightarrow> (Tokens body, st))"

text \<open>\<open>payload\<close> is the decoded body, \<^const>\<open>None\<close> when it is not JSON.\<close>

definition register_route ::
  "('c, 'd, 'g, 's) oauth_server \<Rightarrow> 'c \<Rightarrow> oauth_call \<Rightarrow> json option \<Rightarrow> oauth_reply \<times> 'c" where
  "register_route srv s q payload =
     (if \<not> mcp_registration_enabled (oa_settings srv) then (OAuthError ''invalid_request'' 403, s)
      else case payload of
          Some (JObj request) \<Rightarrow>
            (case register_client srv s q (oq_uuid q) request of
               (Inl f, s) \<Rightarrow> (fault_reply f, s)
             | (Inr body, s) \<Rightarrow> (Registered body, s))
        | _ \<Rightarrow> (OAuthError ''invalid_client_metadata'' 400, s))"

definition revoke_route ::
  "('c, 'd, 'g, 's) oauth_server \<Rightarrow> ('c, 'd, 'g, 's) oauth_state \<Rightarrow> oauth_params \<Rightarrow>
   oauth_reply \<times> ('c, 'd, 'g, 's) oauth_state" where
  "revoke_route srv st form = (Done, revoke srv st form)"

end
