(* ===== verification/OAuthRuns.thy ===== *)
theory OAuthRuns
  imports OAuthRoutes
begin

text \<open>
  Runs of the authorization server over any three stores that keep their contracts. A run
  carries, beside the state, what the server was told: the approvals given on the consent form,
  those not withdrawn since, the hashes of the codes issued and of those redeemed. The
  invariant relates every stored client, code and consent to them.
\<close>

section \<open>Runs\<close>

record approval =
  ap_user_id :: string
  ap_client_id :: string
  ap_tenant_id :: string
  ap_resource :: string
  ap_scopes :: "string list"
  ap_redirect_uri :: string
  ap_code_challenge :: string

definition approval_of :: "authorization_request \<Rightarrow> string \<Rightarrow> string \<Rightarrow> approval" where
  "approval_of parsed user_id tenant_id =
     \<lparr>ap_user_id = user_id, ap_client_id = oc_client_id (ar_client parsed), ap_tenant_id = tenant_id,
      ap_resource = ar_resource parsed, ap_scopes = ar_scopes parsed,
      ap_redirect_uri = ar_redirect_uri parsed, ap_code_challenge = ar_code_challenge parsed\<rparr>"

text \<open>The approvals of one user for one client, tenant and resource, and the scopes they add up to.\<close>

definition approvals_for :: "approval list \<Rightarrow> string \<Rightarrow> string \<Rightarrow> string \<Rightarrow> string \<Rightarrow> approval list" where
  "approvals_for as u c t res =
     filter (\<lambda>a. ap_user_id a = u \<and> ap_client_id a = c \<and> ap_tenant_id a = t \<and> ap_resource a = res) as"

definition approved_scopes :: "approval list \<Rightarrow> string \<Rightarrow> string \<Rightarrow> string \<Rightarrow> string \<Rightarrow> string set" where
  "approved_scopes as u c t res = (\<Union>a \<in> set (approvals_for as u c t res). set (ap_scopes a))"

record ('c, 'd, 'g, 's) oauth_run =
  ru_state :: "('c, 'd, 'g, 's) oauth_state"
  ru_approved :: "approval list"
  ru_standing :: "approval list"
  ru_issued :: "string list"
  ru_redeemed :: "string list"

definition approvals_made ::
  "('c, 'd, 'g, 's) oauth_server \<Rightarrow> 'r oauth_router \<Rightarrow> 'c \<Rightarrow> oauth_call \<Rightarrow> 'r \<Rightarrow> string \<Rightarrow> oauth_params \<Rightarrow> approval list" where
  "approvals_made srv rt s q req site form =
     (case consent_decision srv rt s (oq_wall q) req site form of
        Inl _ \<Rightarrow> [] | Inr (parsed, user_id, tenant_id) \<Rightarrow> [approval_of parsed user_id tenant_id])"

definition codes_redeemed :: "('c, 'd, 'g, 's) oauth_server \<Rightarrow> oauth_reply \<Rightarrow> oauth_params \<Rightarrow> string list" where
  "codes_redeemed srv reply form =
     (case reply of
        Tokens _ \<Rightarrow> if param form ''grant_type'' = ''authorization_code'' then [oa_hash srv (param form ''code'')] else []
      | _ \<Rightarrow> [])"

definition withdrawn :: "string \<Rightarrow> string \<Rightarrow> string \<Rightarrow> approval \<Rightarrow> bool" where
  "withdrawn u c t a = (ap_user_id a = u \<and> ap_client_id a = c \<and> (t = [] \<or> ap_tenant_id a = t))"

text \<open>
  One request or library call. The code and the consent id drawn are new, as 256 random bits and
  \<^verbatim>\<open>uuid4\<close> are; the session table may change in any way between requests.
\<close>

inductive oauth_step ::
  "('c, 'd, 'g, 's) oauth_server \<Rightarrow> 'r oauth_router \<Rightarrow> ('c, 'd, 'g, 's) oauth_run \<Rightarrow> ('c, 'd, 'g, 's) oauth_run \<Rightarrow> bool"
  for srv rt where
  step_consent: "oa_hash srv (oq_code q) \<notin> set (ru_issued r) \<Longrightarrow>
    cs_get (oa_consents srv) (st_consents (ru_state r)) (oq_uuid q) = None \<Longrightarrow>
    new = approvals_made srv rt (st_clients (ru_state r)) q req site form \<Longrightarrow>
    oauth_step srv rt r
      (r\<lparr>ru_state := snd (consent_route srv rt (ru_state r) q req site form),
         ru_approved := new @ ru_approved r, ru_standing := new @ ru_standing r,
         ru_issued := oa_hash srv (oq_code q) # ru_issued r\<rparr>)"
| step_token: "token_route srv (ru_state r) q form = (reply, st) \<Longrightarrow>
    oauth_step srv rt r (r\<lparr>ru_state := st, ru_redeemed := codes_redeemed srv reply form @ ru_redeemed r\<rparr>)"
| step_register: "oauth_step srv rt r
    (r\<lparr>ru_state := (ru_state r)\<lparr>st_clients := snd (register_route srv (st_clients (ru_state r)) q payload)\<rparr>\<rparr>)"
| step_revoke: "oauth_step srv rt r (r\<lparr>ru_state := snd (revoke_route srv (ru_state r) form)\<rparr>)"
| step_revoke_authorization: "oauth_step srv rt r
    (r\<lparr>ru_state := snd (revoke_authorization srv (ru_state r) u c t),
       ru_standing := filter (\<lambda>a. \<not> withdrawn u c t a) (ru_standing r)\<rparr>)"
| step_leave_tenant: "oauth_step srv rt r
    (r\<lparr>ru_state := (ru_state r)\<lparr>st_consents := snd (delete_for_tenant (oa_consents srv) (st_consents (ru_state r)) u t)\<rparr>,
       ru_standing := filter (\<lambda>a. \<not> (ap_user_id a = u \<and> ap_tenant_id a = t)) (ru_standing r)\<rparr>)"
| step_sessions: "oauth_step srv rt r (r\<lparr>ru_state := (ru_state r)\<lparr>st_sessions := s\<rparr>\<rparr>)"

section \<open>The invariant\<close>

definition client_valid :: "(string \<Rightarrow> bool) \<Rightarrow> oauth_client \<Rightarrow> bool" where
  "client_valid ipv6 c = (\<forall>u \<in> set (oc_redirect_uris c). validate_redirect_uri ipv6 u = Inr u)"

definition approval_valid :: "('c, 'd, 'g, 's) oauth_server \<Rightarrow> approval \<Rightarrow> bool" where
  "approval_valid srv a =
     (set (ap_scopes a) \<subseteq> set (mcp_scopes_supported (oa_settings srv)) \<and>
      ap_resource a = mcp_resource_url (oa_settings srv) \<and>
      validate_redirect_uri (oa_ipv6 srv) (ap_redirect_uri a) = Inr (ap_redirect_uri a))"

definition code_backed :: "approval list \<Rightarrow> authorization_code \<Rightarrow> bool" where
  "code_backed as c =
     ((\<exists>a \<in> set (approvals_for as (az_user_id c) (az_client_id c) (az_tenant_id c) (az_resource c)).
         ap_redirect_uri a = az_redirect_uri c \<and> ap_code_challenge a = az_code_challenge c) \<and>
      set (az_scopes c) \<subseteq> approved_scopes as (az_user_id c) (az_client_id c) (az_tenant_id c) (az_resource c))"

definition consent_backed :: "approval list \<Rightarrow> consent \<Rightarrow> bool" where
  "consent_backed as g =
     (approvals_for as (cn_user_id g) (cn_client_id g) (cn_tenant_id g) (cn_resource g) \<noteq> [] \<and>
      set (cn_scopes g) \<subseteq> approved_scopes as (cn_user_id g) (cn_client_id g) (cn_tenant_id g) (cn_resource g))"

lemma approved_scopes_mono: "set as \<subseteq> set bs \<Longrightarrow> approved_scopes as u c t res \<subseteq> approved_scopes bs u c t res"
  by (auto simp: approved_scopes_def approvals_for_def)

lemma approvals_for_mono:
  "set as \<subseteq> set bs \<Longrightarrow> a \<in> set (approvals_for as u c t res) \<Longrightarrow> a \<in> set (approvals_for bs u c t res)"
  by (auto simp: approvals_for_def)

lemma code_backed_mono: "set as \<subseteq> set bs \<Longrightarrow> code_backed as c \<Longrightarrow> code_backed bs c"
  unfolding code_backed_def using approvals_for_mono approved_scopes_mono by blast

lemma consent_backed_mono:
  assumes "set as \<subseteq> set bs" and "consent_backed as g"
  shows "consent_backed bs g"
proof -
  have "hd (approvals_for as (cn_user_id g) (cn_client_id g) (cn_tenant_id g) (cn_resource g)) \<in>
      set (approvals_for as (cn_user_id g) (cn_client_id g) (cn_tenant_id g) (cn_resource g))"
    using assms(2) by (intro hd_in_set) (simp add: consent_backed_def)
  from approvals_for_mono [OF assms(1) this]
  have "approvals_for bs (cn_user_id g) (cn_client_id g) (cn_tenant_id g) (cn_resource g) \<noteq> []" by auto
  then show ?thesis using assms approved_scopes_mono unfolding consent_backed_def by blast
qed

lemma consent_backed_used [simp]: "consent_backed as (g\<lparr>cn_last_used_at := s\<rparr>) = consent_backed as g"
  by (simp add: consent_backed_def)

text \<open>Withdrawing leaves a consent backed unless it is one of those withdrawn.\<close>

lemma consent_backed_filter:
  assumes "consent_backed as g"
    and "\<And>a. ap_user_id a = cn_user_id g \<Longrightarrow> ap_client_id a = cn_client_id g \<Longrightarrow> ap_tenant_id a = cn_tenant_id g \<Longrightarrow> p a"
  shows "consent_backed (filter p as) g"
proof -
  have "approvals_for (filter p as) (cn_user_id g) (cn_client_id g) (cn_tenant_id g) (cn_resource g) =
      approvals_for as (cn_user_id g) (cn_client_id g) (cn_tenant_id g) (cn_resource g)"
    unfolding approvals_for_def filter_filter by (rule filter_cong) (auto intro: assms(2))
  then show ?thesis using assms(1) by (simp add: consent_backed_def approved_scopes_def)
qed

section \<open>Parsing and granting\<close>

lemma validate_uri_same: "validate_redirect_uri ipv6 u = Inr v \<Longrightarrow> v = u"
  by (auto simp: validate_redirect_uri_def split: option.splits if_splits)

lemma validate_uris_all: "validate_uris ipv6 us = Inr vs \<Longrightarrow> vs = us \<and> (\<forall>u \<in> set us. validate_redirect_uri ipv6 u = Inr u)"
  by (induction us arbitrary: vs) (auto split: sum.splits dest: validate_uri_same)

lemma validate_scopes_supported:
  "validate_scopes cfg xs = Inr ys \<Longrightarrow> set ys \<subseteq> set (mcp_scopes_supported cfg)"
  by (auto simp: validate_scopes_def filter_empty_conv split: if_splits)

lemma parse_request_facts:
  assumes "parse_authorization_request srv s wall params = Inr p"
  shows "cl_get (oa_clients srv) wall s (param params ''client_id'') = Some (ar_client p)"
    and "ar_redirect_uri p \<in> set (oc_redirect_uris (ar_client p))"
    and "set (ar_scopes p) \<subseteq> set (mcp_scopes_supported (oa_settings srv))"
    and "ar_resource p = mcp_resource_url (oa_settings srv)"
    and "ar_code_challenge p \<noteq> []" and "ar_challenge_method p = ''S256''"
  using assms
  by (auto simp: parse_authorization_request_def Let_def client_allows_def code_challenge_methods_def
      split: option.splits if_splits sum.splits dest!: validate_scopes_supported [THEN subsetD])

lemma decision_facts:
  assumes "consent_decision srv rt s wall req site form = Inr (p, u, t)"
  shows "parse_authorization_request srv s wall (ddel ''tenant_id'' (ddel ''decision'' (ddel ''signature'' form))) = Inr p"
    and "\<exists>subject. subject_of rt req = Some subject \<and> sj_user_id subject = u \<and>
      \<not> is_stale (oa_settings srv) wall subject \<and> t = param form ''tenant_id'' \<and>
      (tenant_required rt \<longrightarrow> t \<in> tc_id ` set (tenants_for rt subject))"
    and "param form ''signature'' =
      consent_signature srv (ddel ''tenant_id'' (ddel ''decision'' (ddel ''signature'' form))) u"
    and "param form ''decision'' = ''allow''"
proof -
  let ?form = "ddel ''tenant_id'' (ddel ''decision'' (ddel ''signature'' form))"
  note eq = assms [unfolded consent_decision_def Let_def]
  have "lower site \<noteq> ''cross-site''" by (rule notI) (use eq in simp)
  note eq = eq [unfolded if_not_P [OF this]]
  obtain p' where p': "parse_authorization_request srv s wall ?form = Inr p'"
    using eq by (cases "parse_authorization_request srv s wall ?form") simp_all
  note eq = eq [unfolded p' sum.case]
  obtain subject where subject: "subject_of rt req = Some subject" using eq by (cases "subject_of rt req") simp_all
  note eq = eq [unfolded subject option.case]
  have stale: "\<not> is_stale (oa_settings srv) wall subject" by (rule notI) (use eq in simp)
  note eq = eq [unfolded if_not_P [OF stale]]
  have signed: "compare_digest (param form ''signature'') (consent_signature srv ?form (sj_user_id subject)) = Some True"
    using eq by (simp split: option.splits bool.splits)
  note eq = eq [unfolded signed option.case bool.case]
  have allow: "param form ''decision'' = ''allow''"
    by (rule ccontr) (use eq in \<open>simp add: redirect_with_def\<close>)
  note eq = eq [unfolded allow, simplified]
  have "p' = p \<and> sj_user_id subject = u \<and> param form ''tenant_id'' = t \<and>
      (tenant_required rt \<longrightarrow> t \<in> tc_id ` set (tenants_for rt subject))"
    using eq by (auto split: if_splits)
  then show "parse_authorization_request srv s wall ?form = Inr p"
    and "\<exists>subject. subject_of rt req = Some subject \<and> sj_user_id subject = u \<and>
      \<not> is_stale (oa_settings srv) wall subject \<and> t = param form ''tenant_id'' \<and>
      (tenant_required rt \<longrightarrow> t \<in> tc_id ` set (tenants_for rt subject))"
    and "param form ''signature'' = consent_signature srv ?form u"
    and "param form ''decision'' = ''allow''"
    using p' subject stale signed allow by (auto simp: compare_digest_def split: if_splits)
qed

lemma register_checks_uris:
  assumes "register_checks srv request = Inr (uris, scopes)"
  shows "\<forall>u \<in> set uris. validate_redirect_uri (oa_ipv6 srv) u = Inr u"
proof -
  obtain us where "validate_uris (oa_ipv6 srv) us = Inr uris"
    using assms by (auto simp: register_checks_def Let_def simp del: validate_uris.simps
        split: json.splits list.splits if_splits sum.splits option.splits)
  then show ?thesis using validate_uris_all by blast
qed

section \<open>The server over stores that keep their contracts\<close>

locale oauth_server_over =
  clients: oauth_client_store "oa_clients srv" crow cok +
  codes: oauth_code_store "oa_codes srv" drow dok +
  consents: oauth_consent_store "oa_consents srv" grow gok
  for srv :: "('c, 'd, 'g, 's) oauth_server"
    and crow :: "'c \<Rightarrow> string \<Rightarrow> oauth_client option" and cok
    and drow :: "'d \<Rightarrow> string \<Rightarrow> authorization_code option" and dok
    and grow :: "'g \<Rightarrow> string \<Rightarrow> consent option" and gok
begin

definition clients_ok :: "'c \<Rightarrow> bool" where
  "clients_ok s = (cok s \<and> (\<forall>i c. crow s i = Some c \<longrightarrow> client_valid (oa_ipv6 srv) c))"

definition consents_ok :: "'g \<Rightarrow> approval list \<Rightarrow> bool" where
  "consents_ok s as = (gok s \<and> (\<forall>i g. grow s i = Some g \<longrightarrow> consent_backed as g))"

definition codes_ok :: "'d \<Rightarrow> approval list \<Rightarrow> string list \<Rightarrow> string list \<Rightarrow> bool" where
  "codes_ok s as issued redeemed =
     (dok s \<and> (\<forall>h c. drow s h = Some c \<longrightarrow> code_backed as c \<and> h \<in> set issued \<and> h \<notin> set redeemed))"

definition run_ok :: "('c, 'd, 'g, 's) oauth_run \<Rightarrow> bool" where
  "run_ok r =
     (clients_ok (st_clients (ru_state r)) \<and> consents_ok (st_consents (ru_state r)) (ru_standing r) \<and>
      codes_ok (st_codes (ru_state r)) (ru_approved r) (ru_issued r) (ru_redeemed r) \<and>
      set (ru_standing r) \<subseteq> set (ru_approved r) \<and> (\<forall>a \<in> set (ru_approved r). approval_valid srv a) \<and>
      set (ru_redeemed r) \<subseteq> set (ru_issued r) \<and> distinct (ru_redeemed r))"

lemma clients_ok_put: "clients_ok s \<Longrightarrow> client_valid (oa_ipv6 srv) c \<Longrightarrow> clients_ok (cl_put (oa_clients srv) s c)"
  using clients.client_put [of s c] by (auto simp: clients_ok_def)

lemma clients_ok_touch: "clients_ok s \<Longrightarrow> clients_ok (touch_client srv s q c)"
  using clients.client_touch [of s "oq_wall q" "oc_client_id c" "call_moment q + whole_seconds (mcp_client_ttl (oa_settings srv))"]
  by (auto simp: clients_ok_def touch_client_def client_valid_def split: option.splits if_splits)

lemma parsed_valid:
  assumes "clients_ok s" and "parse_authorization_request srv s wall params = Inr p"
  shows "validate_redirect_uri (oa_ipv6 srv) (ar_redirect_uri p) = Inr (ar_redirect_uri p)"
    and "crow s (oc_client_id (ar_client p)) = Some (ar_client p)"
    and "oc_client_id (ar_client p) = param params ''client_id''"
proof -
  note facts = parse_request_facts [OF assms(2)]
  have ok: "cok s" using assms(1) by (simp add: clients_ok_def)
  have row: "crow s (param params ''client_id'') = Some (ar_client p)"
    using facts(1) clients.client_get [OF ok] by (auto split: option.splits if_splits)
  then show "oc_client_id (ar_client p) = param params ''client_id''" by (rule clients.client_keyed [OF ok])
  with row show "crow s (oc_client_id (ar_client p)) = Some (ar_client p)" by simp
  show "validate_redirect_uri (oa_ipv6 srv) (ar_redirect_uri p) = Inr (ar_redirect_uri p)"
    using row facts(2) assms(1) by (auto simp: clients_ok_def client_valid_def)
qed

lemma register_ok: "clients_ok s \<Longrightarrow> clients_ok (snd (register_route srv s q payload))"
proof -
  assume ok: "clients_ok s"
  have "client_valid (oa_ipv6 srv) (registered_client srv request fresh m uris scopes)"
    if checks: "register_checks srv request = Inr (uris, scopes)" for request fresh m uris scopes
    using register_checks_uris [OF checks] by (simp add: registered_client_def client_valid_def)
  with ok show ?thesis
    by (auto simp: register_route_def register_client_def Let_def intro: clients_ok_put
        split: option.splits json.splits sum.splits prod.splits)
qed

lemma seed_ok:
  "clients_ok s \<Longrightarrow> seed_clients srv s entries = Inr s' \<Longrightarrow> clients_ok s'"
proof (induction entries arbitrary: s)
  case (Cons entry entries)
  then obtain uris scopes vs where e:
    "validate_uris (oa_ipv6 srv) uris = Inr vs"
    "seed_clients srv (cl_put (oa_clients srv) s (seeded_client (oa_str srv) entry uris scopes)) entries = Inr s'"
    by (auto split: option.splits sum.splits)
  then have "client_valid (oa_ipv6 srv) (seeded_client (oa_str srv) entry uris scopes)"
    by (auto simp: seeded_client_def client_valid_def dest!: validate_uris_all)
  then show ?case using Cons.IH [OF _ e(2)] clients_ok_put [OF Cons.prems(1)] by blast
qed simp

text \<open>A consent given and the code issued for it rest on the approval and on those before it.\<close>

lemma existing_facts:
  assumes "gok s" and "existing_consent srv s p u t = Some e"
  shows "grow s (cn_consent_id e) = Some e \<and> cn_user_id e = u \<and>
    cn_client_id e = oc_client_id (ar_client p) \<and> cn_tenant_id e = t \<and> cn_resource e = ar_resource p"
  using assms consents.client_list [OF assms(1)]
  by (auto simp: existing_consent_def find_Some_iff dest!: nth_mem)

lemma consented_backed:
  assumes "consents_ok s as"
  shows "consent_backed (approval_of p u t # as) (consented srv s q fresh p u t)"
proof -
  let ?as = "approval_of p u t # as" and ?c = "oc_client_id (ar_client p)" and ?res = "ar_resource p"
  have new: "set (ar_scopes p) \<subseteq> approved_scopes ?as u ?c t ?res"
    by (auto simp: approved_scopes_def approvals_for_def approval_of_def)
  have "set (granted_scopes (oa_settings srv) p (existing_consent srv s p u t)) \<subseteq> approved_scopes ?as u ?c t ?res"
  proof (cases "existing_consent srv s p u t")
    case None
    then show ?thesis using new by (simp add: granted_scopes_def)
  next
    case (Some e)
    note e = existing_facts [OF _ Some]
    have "consent_backed as e" "gok s" using assms e by (auto simp: consents_ok_def)
    then have "set (cn_scopes e) \<subseteq> approved_scopes as u ?c t ?res"
      using e by (simp add: consent_backed_def)
    also have "\<dots> \<subseteq> approved_scopes ?as u ?c t ?res" by (rule approved_scopes_mono) auto
    finally show ?thesis using new Some by (auto simp: granted_scopes_def)
  qed
  then show ?thesis
    by (simp add: consent_backed_def consented_def Let_def approvals_for_def approval_of_def)
qed

lemma record_ok:
  assumes "consents_ok s as"
  shows "consents_ok (snd (record_consent srv s q fresh p u t)) (approval_of p u t # as)"
proof -
  have ok: "gok s" using assms by (simp add: consents_ok_def)
  have old: "consent_backed (approval_of p u t # as) g" if "grow s i = Some g" for i g
    using assms that consent_backed_mono [of as "approval_of p u t # as" g] by (auto simp: consents_ok_def)
  show ?thesis
    using consents.consent_put [OF ok] old consented_backed [OF assms]
    by (auto simp: record_consent_def Let_def consents_ok_def)
qed

lemma issued_backed:
  assumes "consent_backed as g" and "set as \<subseteq> set bs" and "approval_of p u t \<in> set bs"
    and "cn_user_id g = u" "cn_client_id g = oc_client_id (ar_client p)" "cn_tenant_id g = t" "cn_resource g = ar_resource p"
  shows "code_backed bs (issued_code srv q plain (authorized_request (oa_settings srv) p g) u t)"
proof -
  have "set (cn_scopes g) \<subseteq> approved_scopes bs u (oc_client_id (ar_client p)) t (ar_resource p)"
    using consent_backed_mono [OF assms(2,1)] assms(4-7) by (simp add: consent_backed_def)
  moreover have "set (ar_scopes p) \<subseteq> approved_scopes bs u (oc_client_id (ar_client p)) t (ar_resource p)"
    using assms(3) by (force simp: approved_scopes_def approvals_for_def approval_of_def)
  moreover have "approval_of p u t \<in> set (approvals_for bs u (oc_client_id (ar_client p)) t (ar_resource p))"
    using assms(3) by (simp add: approvals_for_def approval_of_def)
  then have "\<exists>a \<in> set (approvals_for bs u (oc_client_id (ar_client p)) t (ar_resource p)).
      ap_redirect_uri a = ar_redirect_uri p \<and> ap_code_challenge a = ar_code_challenge p"
    by (rule bexI [rotated]) (simp add: approval_of_def)
  ultimately show ?thesis
    by (simp add: code_backed_def issued_code_def authorized_request_def)
qed

lemma codes_ok_more:
  assumes "codes_ok s as issued redeemed" and "set as \<subseteq> set bs" and "set issued \<subseteq> set issued'"
  shows "codes_ok s bs issued' redeemed"
  using assms code_backed_mono [OF assms(2)] unfolding codes_ok_def by blast

lemma approve_ok:
  assumes "consent_decision srv rt (st_clients st) (oq_wall q) req site form = Inr (p, u, t)"
    and "clients_ok (st_clients st)" and "consents_ok (st_consents st) standing"
    and "codes_ok (st_codes st) approved issued redeemed" and "set standing \<subseteq> set approved"
    and "oa_hash srv (oq_code q) \<notin> set issued" and "set redeemed \<subseteq> set issued"
  defines "st' \<equiv> snd (approve srv st q p u t)" and "a \<equiv> approval_of p u t"
  shows "st_clients st' = st_clients st" and "consents_ok (st_consents st') (a # standing)"
    and "codes_ok (st_codes st') (a # approved) (oa_hash srv (oq_code q) # issued) redeemed"
    and "approval_valid srv a"
proof -
  let ?g = "consented srv (st_consents st) q (oq_uuid q) p u t"
  have st': "st' = st\<lparr>st_consents := snd (record_consent srv (st_consents st) q (oq_uuid q) p u t),
      st_codes := issue_code srv (st_codes st) q (oq_code q) (authorized_request (oa_settings srv) p ?g) u t\<rparr>"
    by (simp add: st'_def approve_def record_consent_def Let_def)
  show "st_clients st' = st_clients st" by (simp add: st')
  show "consents_ok (st_consents st') (a # standing)" using record_ok [OF assms(3)] by (simp add: st' a_def)
  note parsed = decision_facts(1) [OF assms(1)]
  show "approval_valid srv a"
    using parse_request_facts(3,4) [OF parsed] parsed_valid(1) [OF assms(2) parsed]
    by (simp add: approval_valid_def a_def approval_of_def)
  have "code_backed (a # approved) (issued_code srv q (oq_code q) (authorized_request (oa_settings srv) p ?g) u t)"
    using assms(5) by (intro issued_backed [OF consented_backed [OF assms(3)]])
      (auto simp: a_def consented_def Let_def)
  moreover have "codes_ok (st_codes st) (a # approved) (oa_hash srv (oq_code q) # issued) redeemed"
    by (rule codes_ok_more [OF assms(4)]) auto
  moreover have "az_code_hash (issued_code srv q (oq_code q) x u t) = oa_hash srv (oq_code q)" for x
    by (simp add: issued_code_def)
  ultimately show "codes_ok (st_codes st') (a # approved) (oa_hash srv (oq_code q) # issued) redeemed"
    using codes.code_put [of "st_codes st"] assms(6,7) by (auto simp: st' issue_code_def codes_ok_def)
qed

section \<open>The token endpoint\<close>

text \<open>
  \<open>exchanged\<close>: the code a form presents, the tokens minted for its record alone.
\<close>

definition exchanged ::
  "('c, 'd, 'g, 's) oauth_state \<Rightarrow> oauth_call \<Rightarrow> oauth_params \<Rightarrow> oauth_token_body \<Rightarrow> authorization_code \<Rightarrow> bool" where
  "exchanged st q form body c =
     (drow (st_codes st) (oa_hash srv (param form ''code'')) = Some c \<and>
      exchange_fault srv form c (call_moment q) = None \<and>
      mint_access_token srv (oq_jti q) (az_user_id c)
        (grant_claims (oa_settings srv) (az_scopes c) (az_client_id c) (az_tenant_id c)) (az_resource c) (call_moment q) =
          Inr (tk_access_token body) \<and>
      tk_scope body = join '' '' (az_scopes c))"

lemma issue_tokens_facts:
  assumes "issue_tokens srv st q c = (res, st')"
  shows "st_clients st' = st_clients st \<and> st_codes st' = st_codes st \<and> st_consents st' = st_consents st"
    and "res = Inr body \<Longrightarrow>
      mint_access_token srv (oq_jti q) (az_user_id c)
        (grant_claims (oa_settings srv) (az_scopes c) (az_client_id c) (az_tenant_id c)) (az_resource c) (call_moment q) =
          Inr (tk_access_token body) \<and> tk_scope body = join '' '' (az_scopes c)"
  using assms by (auto simp: issue_tokens_def Let_def split: sum.splits prod.splits)

lemma exchange_effect:
  assumes "exchange_code srv st q form = (res, st')" and "dok (st_codes st)" and "clients_ok (st_clients st)"
  shows "st_consents st' = st_consents st" and "clients_ok (st_clients st')"
    and "param form ''code'' = [] \<Longrightarrow> st' = st \<and> res = Inl (bad ''invalid_request'')"
    and "param form ''code'' \<noteq> [] \<Longrightarrow> dok (st_codes st') \<and>
      drow (st_codes st') = (drow (st_codes st))(oa_hash srv (param form ''code'') := None)"
    and "res = Inr body \<Longrightarrow> param form ''code'' \<noteq> [] \<and> (\<exists>c. exchanged st q form body c)"
proof -
  let ?h = "oa_hash srv (param form ''code'')"
  let ?st = "\<lambda>codes. st\<lparr>st_codes := codes\<rparr>"
  show blank: "param form ''code'' = [] \<Longrightarrow> st' = st \<and> res = Inl (bad ''invalid_request'')"
    using assms(1) by (auto simp: exchange_code_def Let_def)
  have full: "st_consents st' = st_consents st \<and> clients_ok (st_clients st') \<and> dok (st_codes st') \<and>
      drow (st_codes st') = (drow (st_codes st))(?h := None) \<and>
      (res = Inr body \<longrightarrow> (\<exists>c. exchanged st q form body c))" if code: "param form ''code'' \<noteq> []"
  proof -
    obtain found codes where con: "cd_consume (oa_codes srv) (oq_wall q) (st_codes st) ?h = (found, codes)" by force
    have codes: "dok codes" "drow codes = (drow (st_codes st))(?h := None)"
      using codes.code_consume_ok [OF assms(2), of "oq_wall q" ?h] con by simp_all
    consider (refused) f where "res = Inl f" "st' = ?st codes"
      | (issued) c client where "found = Some c" "exchange_fault srv form c (call_moment q) = None"
        "issue_tokens srv ((?st codes)\<lparr>st_clients := touch_client srv (st_clients st) q client\<rparr>) q c = (res, st')"
      using assms(1) con code by (auto simp: exchange_code_def split: option.splits)
    then show ?thesis
    proof cases
      case refused
      then show ?thesis using codes assms(3) by simp
    next
      case issued
      have "drow (st_codes st) ?h = Some c"
        using codes.code_consume [OF assms(2), of "oq_wall q" ?h] con issued(1)
        by (auto split: option.splits if_splits)
      then show ?thesis
        using issue_tokens_facts [OF issued(3)] issued(2) codes clients_ok_touch [OF assms(3)]
        by (auto simp: exchanged_def)
    qed
  qed
  show "st_consents st' = st_consents st" using blank full by (cases "param form ''code'' = []") simp_all
  show "clients_ok (st_clients st')" using blank full assms(3) by (cases "param form ''code'' = []") simp_all
  show "param form ''code'' \<noteq> [] \<Longrightarrow> dok (st_codes st') \<and> drow (st_codes st') = (drow (st_codes st))(?h := None)"
    using full by simp
  show "res = Inr body \<Longrightarrow> param form ''code'' \<noteq> [] \<and> (\<exists>c. exchanged st q form body c)"
    using blank full by (cases "param form ''code'' = []") simp_all
qed

text \<open>
  \<open>refreshed\<close>: the rotation whose token is answered, and the standing consent that bounds the
  access token.
\<close>

definition refreshed ::
  "('c, 'd, 'g, 's) oauth_state \<Rightarrow> oauth_call \<Rightarrow> oauth_params \<Rightarrow> oauth_token_body \<Rightarrow> consent \<Rightarrow> string list \<Rightarrow> bool" where
  "refreshed st q form body g scopes =
     (\<exists>svc issued. oa_flows srv = Some svc \<and> param form ''refresh_token'' \<noteq> [] \<and>
        (case rotate_session svc (st_sessions st) (oq_wall q) (oq_token1 q) (oq_token2 q)
            (param form ''refresh_token'') (oq_ip q) (oq_user_agent q) (oq_wall q) of
           (outcome, s) \<Rightarrow> rr_issued outcome = Some issued \<and> rr_user_id outcome = cn_user_id g) \<and>
        tk_refresh_token body = Some (ir_token issued) \<and>
        grow (st_consents st) (cn_consent_id g) = Some g \<and> cn_client_id g = param form ''client_id'' \<and>
        set scopes \<subseteq> set (cn_scopes g) \<inter> set (mcp_scopes_supported (oa_settings srv)) \<and>
        mint_access_token srv (oq_jti q) (cn_user_id g)
          (grant_claims (oa_settings srv) scopes (cn_client_id g) (cn_tenant_id g))
          (mcp_resource_url (oa_settings srv)) (call_moment q) = Inr (tk_access_token body) \<and>
        tk_scope body = join '' '' scopes)"

text \<open>A consent store after at most one \<^verbatim>\<open>mark_used\<close>.\<close>

definition marked :: "'g \<Rightarrow> 'g \<Rightarrow> bool" where
  "marked s s' = (gok s' \<and> (s' = s \<or> (\<exists>i g x. grow s i = Some g \<and> grow s' = (grow s)(i \<mapsto> g\<lparr>cn_last_used_at := x\<rparr>)) \<or>
     grow s' = grow s))"

lemma marked_ok: "marked s s' \<Longrightarrow> consents_ok s as \<Longrightarrow> consents_ok s' as"
  by (auto simp: marked_def consents_ok_def split: if_splits)

lemma mark_marked: "gok s \<Longrightarrow> marked s (snd (cs_mark_used (oa_consents srv) s i x))"
  using consents.consent_mark [of s i x] by (auto simp: marked_def split: option.splits)

lemma consent_for_refresh_facts:
  assumes "gok s" and "consent_for_refresh srv s u c device = Some g"
  shows "grow s (cn_consent_id g) = Some g \<and> cn_user_id g = u \<and> cn_client_id g = c \<and> c \<noteq> []"
proof -
  have "g \<in> set (list_for_client (oa_consents srv) s u c) \<and> c \<noteq> []"
    using assms(2) by (auto simp: consent_for_refresh_def Let_def find_Some_iff split: if_splits list.splits)
  then show ?thesis using consents.client_list [OF assms(1)] by simp
qed

lemma refresh_scopes_within:
  assumes "refresh_scopes cfg g requested = Some scopes"
    and "requested \<noteq> [] \<Longrightarrow> set requested \<subseteq> set (mcp_scopes_supported cfg)"
  shows "set scopes \<subseteq> set (cn_scopes g) \<inter> set (mcp_scopes_supported cfg)"
  using assms by (auto simp: refresh_scopes_def consent_covers_def split: if_splits)

lemma refresh_fault_scopes:
  assumes "refresh_fault srv st svc wall params = None" and "words (param params ''scope'') \<noteq> []"
  shows "set (words (param params ''scope'')) \<subseteq> set (mcp_scopes_supported (oa_settings srv))"
  using assms
  by (auto simp: refresh_fault_def Let_def validate_scopes_def filter_empty_conv split: sum.splits if_splits)

lemma refresh_answer_effect:
  assumes "refresh_answer srv st svc q form outcome issued = (res, st')" and "gok (st_consents st)"
  shows "st_clients st' = st_clients st" and "st_codes st' = st_codes st" and "marked (st_consents st) (st_consents st')"
    and "res = Inr body \<Longrightarrow> \<exists>g scopes. grow (st_consents st) (cn_consent_id g) = Some g \<and>
      cn_user_id g = rr_user_id outcome \<and> cn_client_id g = param form ''client_id'' \<and>
      consent_for_refresh srv (st_consents st) (rr_user_id outcome) (param form ''client_id'') (ir_device issued) = Some g \<and>
      refresh_scopes (oa_settings srv) g (words (param form ''scope'')) = Some scopes \<and>
      mint_access_token srv (oq_jti q) (cn_user_id g)
        (grant_claims (oa_settings srv) scopes (cn_client_id g) (cn_tenant_id g))
        (mcp_resource_url (oa_settings srv)) (call_moment q) = Inr (tk_access_token body) \<and>
      tk_scope body = join '' '' scopes \<and> tk_refresh_token body = Some (ir_token issued)"
proof -
  have same: "marked (st_consents st) (st_consents st)" using assms(2) by (simp add: marked_def)
  note mark = mark_marked [OF assms(2)]
  show "st_clients st' = st_clients st" "st_codes st' = st_codes st"
    using assms(1) by (auto simp: refresh_answer_def end_family_def Let_def split: option.splits prod.splits sum.splits if_splits)
  show "marked (st_consents st) (st_consents st')"
    using assms(1) same mark
    by (auto simp: refresh_answer_def end_family_def Let_def split: option.splits prod.splits sum.splits if_splits)
      (metis snd_conv)+
  show "res = Inr body \<Longrightarrow> \<exists>g scopes. grow (st_consents st) (cn_consent_id g) = Some g \<and>
      cn_user_id g = rr_user_id outcome \<and> cn_client_id g = param form ''client_id'' \<and>
      consent_for_refresh srv (st_consents st) (rr_user_id outcome) (param form ''client_id'') (ir_device issued) = Some g \<and>
      refresh_scopes (oa_settings srv) g (words (param form ''scope'')) = Some scopes \<and>
      mint_access_token srv (oq_jti q) (cn_user_id g)
        (grant_claims (oa_settings srv) scopes (cn_client_id g) (cn_tenant_id g))
        (mcp_resource_url (oa_settings srv)) (call_moment q) = Inr (tk_access_token body) \<and>
      tk_scope body = join '' '' scopes \<and> tk_refresh_token body = Some (ir_token issued)"
    using assms(1) consent_for_refresh_facts [OF assms(2)]
    by (auto simp: refresh_answer_def end_family_def Let_def split: option.splits prod.splits sum.splits if_splits)
qed

lemma refresh_effect:
  assumes "refresh srv st q form = (res, st')" and "gok (st_consents st)"
  shows "st_clients st' = st_clients st" and "st_codes st' = st_codes st" and "marked (st_consents st) (st_consents st')"
    and "res = Inr body \<Longrightarrow> \<exists>g scopes. refreshed st q form body g scopes"
proof -
  let ?token = "param form ''refresh_token''"
  let ?rot = "\<lambda>svc. rotate_session svc (st_sessions st) (oq_wall q) (oq_token1 q) (oq_token2 q) ?token
      (oq_ip q) (oq_user_agent q) (oq_wall q)"
  have same: "marked (st_consents st) (st_consents st)" using assms(2) by (simp add: marked_def)
  consider (refused) f s where "res = Inl f" "st' = st\<lparr>st_sessions := s\<rparr>"
    | (answer) svc outcome s issued where "oa_flows srv = Some svc" "?token \<noteq> []"
      "refresh_fault srv st svc (oq_wall q) form = None" "?rot svc = (outcome, s)"
      "rr_issued outcome = Some issued" "refresh_answer srv (st\<lparr>st_sessions := s\<rparr>) svc q form outcome issued = (res, st')"
  proof (cases "\<exists>svc. oa_flows srv = Some svc \<and> ?token \<noteq> [] \<and> refresh_fault srv st svc (oq_wall q) form = None")
    case False
    then have "st' = st \<and> (\<exists>f. res = Inl f)"
      using assms(1) by (auto simp: refresh_def Let_def split: option.splits if_splits)
    then show thesis using that(1) [of _ "st_sessions st"] by auto
  next
    case True
    then obtain svc where svc: "oa_flows srv = Some svc" "?token \<noteq> []" "refresh_fault srv st svc (oq_wall q) form = None"
      by blast
    obtain outcome s where rot: "?rot svc = (outcome, s)" by force
    show thesis
    proof (cases "rr_issued outcome")
      case None
      then have "res = Inl (bad ''invalid_grant'')" "st' = st\<lparr>st_sessions := s\<rparr>"
        using assms(1) svc rot by (simp_all add: refresh_def Let_def)
      then show thesis by (rule that(1))
    next
      case (Some issued)
      then have "refresh_answer srv (st\<lparr>st_sessions := s\<rparr>) svc q form outcome issued = (res, st')"
        using assms(1) svc rot by (simp add: refresh_def Let_def)
      then show thesis by (rule that(2) [OF svc rot Some])
    qed
  qed
  note cases = this
  show "st_clients st' = st_clients st" "st_codes st' = st_codes st" "marked (st_consents st) (st_consents st')"
    using cases
    by (cases; use same refresh_answer_effect(1-3) assms(2) in fastforce)+
  show "res = Inr body \<Longrightarrow> \<exists>g scopes. refreshed st q form body g scopes"
    using cases
  proof cases
    case answer
    assume "res = Inr body"
    from refresh_answer_effect(4) [OF answer(6) _ this] assms(2) obtain g scopes where g:
      "grow (st_consents st) (cn_consent_id g) = Some g" "cn_user_id g = rr_user_id outcome"
      "cn_client_id g = param form ''client_id''"
      "refresh_scopes (oa_settings srv) g (words (param form ''scope'')) = Some scopes"
      "mint_access_token srv (oq_jti q) (cn_user_id g)
        (grant_claims (oa_settings srv) scopes (cn_client_id g) (cn_tenant_id g))
        (mcp_resource_url (oa_settings srv)) (call_moment q) = Inr (tk_access_token body)"
      "tk_scope body = join '' '' scopes" "tk_refresh_token body = Some (ir_token issued)" by auto
    have "refreshed st q form body g scopes"
      unfolding refreshed_def
      using g answer(1,2,4,5) refresh_scopes_within [OF g(4) refresh_fault_scopes [OF answer(3)]] by auto
    then show ?thesis by blast
  qed simp
qed

section \<open>Every step keeps the invariant\<close>

lemma revoke_authorization_state:
  "st_clients (snd (revoke_authorization srv st u c t)) = st_clients st"
  "st_codes (snd (revoke_authorization srv st u c t)) = st_codes st"
  "st_consents (snd (revoke_authorization srv st u c t)) =
    snd (delete_for_client (oa_consents srv) (st_consents st) u c t)"
  by (auto simp: revoke_authorization_def Let_def split: prod.splits option.splits if_splits)

lemma withdraw_ok:
  assumes "consents_ok s as"
  shows "consents_ok (snd (delete_for_client (oa_consents srv) s u c t)) (filter (\<lambda>a. \<not> withdrawn u c t a) as)"
proof -
  have ok: "gok s" using assms by (simp add: consents_ok_def)
  have "consent_backed (filter (\<lambda>a. \<not> withdrawn u c t a) as) g"
    if "grow (snd (delete_for_client (oa_consents srv) s u c t)) i = Some g" for i g
  proof (rule consent_backed_filter)
    have g: "grow s i = Some g" "\<not> (cn_user_id g = u \<and> cn_client_id g = c \<and> (t = [] \<or> cn_tenant_id g = t))"
      using that by (auto simp: consents.delete_for_client_rows(2) [OF ok] split: option.splits if_splits)
    then show "consent_backed as g" using assms by (simp add: consents_ok_def)
    show "\<not> withdrawn u c t a" if "ap_user_id a = cn_user_id g" "ap_client_id a = cn_client_id g"
      "ap_tenant_id a = cn_tenant_id g" for a
      using that g(2) by (simp add: withdrawn_def)
  qed
  then show ?thesis using consents.delete_for_client_rows(1) [OF ok] by (simp add: consents_ok_def)
qed

lemma leave_tenant_ok:
  assumes "consents_ok s as"
  shows "consents_ok (snd (delete_for_tenant (oa_consents srv) s u t))
    (filter (\<lambda>a. \<not> (ap_user_id a = u \<and> ap_tenant_id a = t)) as)"
proof -
  have ok: "gok s" using assms by (simp add: consents_ok_def)
  have "consent_backed (filter (\<lambda>a. \<not> (ap_user_id a = u \<and> ap_tenant_id a = t)) as) g"
    if "grow (snd (delete_for_tenant (oa_consents srv) s u t)) i = Some g" for i g
  proof (rule consent_backed_filter)
    have g: "grow s i = Some g" "\<not> (cn_user_id g = u \<and> cn_tenant_id g = t)"
      using that by (auto simp: consents.delete_for_tenant_rows(2) [OF ok] split: option.splits if_splits)
    then show "consent_backed as g" using assms by (simp add: consents_ok_def)
    show "\<not> (ap_user_id a = u \<and> ap_tenant_id a = t)" if "ap_user_id a = cn_user_id g"
      "ap_tenant_id a = cn_tenant_id g" for a
      using that g(2) by simp
  qed
  then show ?thesis using consents.delete_for_tenant_rows(1) [OF ok] by (simp add: consents_ok_def)
qed

lemma token_step_ok:
  assumes "token_route srv (ru_state r) q form = (reply, st)" and "run_ok r"
  shows "run_ok (r\<lparr>ru_state := st, ru_redeemed := codes_redeemed srv reply form @ ru_redeemed r\<rparr>)"
proof -
  let ?st = "ru_state r" and ?h = "oa_hash srv (param form ''code'')"
  have inv: "clients_ok (st_clients ?st)" "consents_ok (st_consents ?st) (ru_standing r)"
    "codes_ok (st_codes ?st) (ru_approved r) (ru_issued r) (ru_redeemed r)"
    "gok (st_consents ?st)" "dok (st_codes ?st)"
    using assms(2) by (auto simp: run_ok_def consents_ok_def codes_ok_def)
  consider (exchange) res where "param form ''grant_type'' = ''authorization_code''" "exchange_code srv ?st q form = (res, st)"
      "reply = (case res of Inl f \<Rightarrow> fault_reply f | Inr body \<Rightarrow> Tokens body)"
    | (refresh) res where "param form ''grant_type'' \<noteq> ''authorization_code''" "refresh srv ?st q form = (res, st)"
    | (other) "st = ?st" "reply = fault_reply (bad ''unsupported_grant_type'')"
    using assms(1) by (auto simp: token_route_def split: if_splits prod.splits sum.splits)
  then show ?thesis
  proof cases
    case exchange
    note eff = exchange_effect [OF exchange(2) inv(5,1)]
    show ?thesis
    proof (cases res)
      case (Inl f)
      then have "codes_redeemed srv reply form = []" using exchange(3) by (cases f) (simp_all add: codes_redeemed_def)
      moreover have "codes_ok (st_codes st) (ru_approved r) (ru_issued r) (ru_redeemed r)"
        using eff(3,4) inv(3) by (cases "param form ''code'' = []") (auto simp: codes_ok_def split: if_splits)
      ultimately show ?thesis using assms(2) eff(1,2) by (simp add: run_ok_def)
    next
      case (Inr body)
      then have red: "codes_redeemed srv reply form = [?h]" using exchange(1,3) by (simp add: codes_redeemed_def)
      obtain c where c: "drow (st_codes ?st) ?h = Some c" and code: "param form ''code'' \<noteq> []"
        using eff(5) [OF Inr] by (auto simp: exchanged_def)
      have "?h \<in> set (ru_issued r)" "?h \<notin> set (ru_redeemed r)" using c inv(3) by (auto simp: codes_ok_def)
      moreover have "codes_ok (st_codes st) (ru_approved r) (ru_issued r) (?h # ru_redeemed r)"
        using eff(4) [OF code] inv(3) by (auto simp: codes_ok_def split: if_splits)
      ultimately show ?thesis using assms(2) eff(1,2) red by (simp add: run_ok_def)
    qed
  next
    case refresh
    note eff = refresh_effect(1-3) [OF refresh(2) inv(4)]
    have "codes_redeemed srv reply form = []"
      using refresh(1) by (simp add: codes_redeemed_def split: oauth_reply.splits)
    then show ?thesis using assms(2) eff marked_ok [OF eff(3)] by (simp add: run_ok_def)
  next
    case other
    then show ?thesis using assms(2) by (simp add: codes_redeemed_def)
  qed
qed

lemma oauth_step_ok: "oauth_step srv rt r r' \<Longrightarrow> run_ok r \<Longrightarrow> run_ok r'"
proof (induction rule: oauth_step.induct)
  case (step_consent q r new req site form)
  have inv: "clients_ok (st_clients (ru_state r))" "consents_ok (st_consents (ru_state r)) (ru_standing r)"
    "codes_ok (st_codes (ru_state r)) (ru_approved r) (ru_issued r) (ru_redeemed r)"
    "set (ru_standing r) \<subseteq> set (ru_approved r)" "\<forall>a \<in> set (ru_approved r). approval_valid srv a"
    "set (ru_redeemed r) \<subseteq> set (ru_issued r)" "distinct (ru_redeemed r)"
    using step_consent.prems by (simp_all add: run_ok_def)
  show ?case
  proof (cases "consent_decision srv rt (st_clients (ru_state r)) (oq_wall q) req site form")
    case (Inl reply)
    then have "snd (consent_route srv rt (ru_state r) q req site form) = ru_state r" "new = []"
      using step_consent.hyps(3) by (simp_all add: consent_route_def approvals_made_def)
    moreover have "codes_ok (st_codes (ru_state r)) (ru_approved r) (oa_hash srv (oq_code q) # ru_issued r) (ru_redeemed r)"
      by (rule codes_ok_more [OF inv(3)]) auto
    ultimately show ?thesis using inv by (auto simp: run_ok_def)
  next
    case (Inr put)
    obtain p u t where put: "put = (p, u, t)" by (metis prod.collapse)
    have eq: "snd (consent_route srv rt (ru_state r) q req site form) = snd (approve srv (ru_state r) q p u t)"
      and new: "new = [approval_of p u t]"
      using step_consent.hyps(3) Inr put by (simp_all add: consent_route_def approvals_made_def)
    note ok = approve_ok [OF Inr [unfolded put] inv(1-4) step_consent.hyps(1) inv(6)]
    show ?thesis using ok inv by (auto simp: run_ok_def eq new)
  qed
next
  case (step_token r q form reply st)
  then show ?case by (rule token_step_ok)
next
  case (step_register r q payload)
  then show ?case using register_ok by (simp add: run_ok_def)
next
  case (step_revoke r form)
  then show ?case by (auto simp: run_ok_def revoke_route_def revoke_def split: option.splits)
next
  case (step_revoke_authorization r u c t)
  then show ?case
    using withdraw_ok [of "st_consents (ru_state r)" "ru_standing r" u c t]
    by (auto simp: run_ok_def revoke_authorization_state)
next
  case (step_leave_tenant r u t)
  then show ?case
    using leave_tenant_ok [of "st_consents (ru_state r)" "ru_standing r" u t] by (auto simp: run_ok_def)
next
  case (step_sessions r s)
  then show ?case by (simp add: run_ok_def)
qed

lemma oauth_run_ok: "(oauth_step srv rt)\<^sup>*\<^sup>* r r' \<Longrightarrow> run_ok r \<Longrightarrow> run_ok r'"
  by (induction rule: rtranclp_induct) (auto intro: oauth_step_ok)

text \<open>What a run without codes, consents or approvals starts from.\<close>

lemma run_ok_start:
  assumes "clients_ok (st_clients (ru_state r))" and "gok (st_consents (ru_state r))" and "dok (st_codes (ru_state r))"
    and "\<And>i. grow (st_consents (ru_state r)) i = None" and "\<And>h. drow (st_codes (ru_state r)) h = None"
    and "ru_approved r = []" "ru_standing r = []" "ru_issued r = []" "ru_redeemed r = []"
  shows "run_ok r"
  using assms by (simp add: run_ok_def consents_ok_def codes_ok_def)

text \<open>A code that was issued and is no longer stored never comes back.\<close>

definition burned :: "('c, 'd, 'g, 's) oauth_run \<Rightarrow> string \<Rightarrow> bool" where
  "burned r h = (h \<in> set (ru_issued r) \<and> drow (st_codes (ru_state r)) h = None)"

lemma token_codes:
  assumes "token_route srv st q form = (reply, st')" and "dok (st_codes st)" and "clients_ok (st_clients st)"
    and "gok (st_consents st)"
  shows "drow (st_codes st) h = None \<Longrightarrow> drow (st_codes st') h = None"
    and "param form ''grant_type'' = ''authorization_code'' \<Longrightarrow> param form ''code'' \<noteq> [] \<Longrightarrow>
      drow (st_codes st') (oa_hash srv (param form ''code'')) = None"
proof -
  consider (exchange) res where "param form ''grant_type'' = ''authorization_code''" "exchange_code srv st q form = (res, st')"
    | (refresh) res where "param form ''grant_type'' \<noteq> ''authorization_code''" "refresh srv st q form = (res, st')"
    | (other) "param form ''grant_type'' \<noteq> ''authorization_code''" "st' = st"
    using assms(1) by (auto simp: token_route_def split: if_splits prod.splits sum.splits)
  note cases = this
  show "drow (st_codes st) h = None \<Longrightarrow> drow (st_codes st') h = None"
    using cases
  proof cases
    case exchange
    assume none: "drow (st_codes st) h = None"
    show ?thesis
      using exchange_effect(3,4) [OF exchange(2) assms(2,3)] none by (cases "param form ''code'' = []") auto
  next
    case refresh
    assume "drow (st_codes st) h = None"
    then show ?thesis using refresh_effect(2) [OF refresh(2) assms(4)] by simp
  qed simp
  show "param form ''grant_type'' = ''authorization_code'' \<Longrightarrow> param form ''code'' \<noteq> [] \<Longrightarrow>
      drow (st_codes st') (oa_hash srv (param form ''code'')) = None"
    using cases exchange_effect(4) [OF _ assms(2,3)] by (cases) auto
qed

lemma burned_step:
  assumes "oauth_step srv rt r r'" and "run_ok r" and "burned r h"
  shows "burned r' h"
proof -
  have inv: "dok (st_codes (ru_state r))" "clients_ok (st_clients (ru_state r))" "gok (st_consents (ru_state r))"
    using assms(2) by (auto simp: run_ok_def codes_ok_def consents_ok_def)
  show ?thesis
    using assms(1)
  proof (cases rule: oauth_step.cases)
    case (step_consent q new req site form)
    have "h \<noteq> oa_hash srv (oq_code q)" using assms(3) step_consent(2) by (auto simp: burned_def)
    then have "drow (st_codes (snd (consent_route srv rt (ru_state r) q req site form))) h = None"
      using assms(3) codes.code_put [OF inv(1)]
      by (auto simp: burned_def consent_route_def approve_def record_consent_def Let_def issue_code_def issued_code_def
          split: sum.splits prod.splits)
    then show ?thesis using assms(3) step_consent(1) by (auto simp: burned_def)
  next
    case (step_token q form reply st)
    then show ?thesis using token_codes(1) [OF step_token(2) inv] assms(3) by (simp add: burned_def)
  next
    case (step_revoke form)
    then show ?thesis
      using assms(3) by (auto simp: burned_def revoke_route_def revoke_def split: option.splits)
  next
    case (step_revoke_authorization u c t)
    then show ?thesis using assms(3) by (simp add: burned_def revoke_authorization_state)
  qed (use assms(3) in \<open>simp_all add: burned_def\<close>)
qed

lemma burned_run: "(oauth_step srv rt)\<^sup>*\<^sup>* r r' \<Longrightarrow> run_ok r \<Longrightarrow> burned r h \<Longrightarrow> burned r' h"
proof (induction rule: rtranclp_induct)
  case (step r1 r2)
  then show ?case using burned_step [OF step.hyps(2) oauth_run_ok [OF step.hyps(1)]] by blast
qed simp

lemma exchange_unknown:
  assumes "dok (st_codes st)" and "param form ''grant_type'' = ''authorization_code''" and "param form ''code'' \<noteq> []"
    and "drow (st_codes st) (oa_hash srv (param form ''code'')) = None"
  shows "fst (token_route srv st q form) = OAuthError ''invalid_grant'' 400"
  using assms(2-4) codes.code_consume [OF assms(1), of "oq_wall q" "oa_hash srv (param form ''code'')"]
  by (auto simp: token_route_def exchange_code_def Let_def split: prod.splits option.splits)

end

end
