(* ===== verification/OAuthProperties.thy ===== *)
theory OAuthProperties
  imports OAuthRuns SessionProperties
begin

text \<open>
  The authorization server over the in-memory stores: what a token it answers may carry, that a
  code is redeemed once, where it redirects, and the consent form.
\<close>

definition memory_oauth ::
  "(client_memory, authz_memory, consent_memory, 's) oauth_server \<Rightarrow>
   (client_memory, authz_memory, consent_memory, 's) oauth_server" where
  "memory_oauth srv =
     srv\<lparr>oa_clients := memory_client_ops, oa_codes := memory_authz_ops, oa_consents := memory_consent_ops\<rparr>"

lemma memory_oauth_simps [simp]:
  "oa_clients (memory_oauth srv) = memory_client_ops" "oa_codes (memory_oauth srv) = memory_authz_ops"
  "oa_consents (memory_oauth srv) = memory_consent_ops" "oa_settings (memory_oauth srv) = oa_settings srv"
  "oa_flows (memory_oauth srv) = oa_flows srv" "oa_hash (memory_oauth srv) = oa_hash srv"
  "oa_challenge (memory_oauth srv) = oa_challenge srv" "oa_encode (memory_oauth srv) = oa_encode srv"
  "oa_ipv6 (memory_oauth srv) = oa_ipv6 srv" "oa_hmac (memory_oauth srv) = oa_hmac srv"
  by (simp_all add: memory_oauth_def)

interpretation oauth: oauth_server_over "memory_oauth srv" map_of client_memory_ok map_of "\<lambda>_. True" map_of consent_memory_ok
  for srv
  using mem_clients.oauth_client_store_axioms mem_codes.oauth_code_store_axioms
    mem_consents.oauth_consent_store_axioms
  by (simp add: oauth_server_over_def)

abbreviation memory_run_ok ::
  "(client_memory, authz_memory, consent_memory, 's) oauth_server \<Rightarrow>
   (client_memory, authz_memory, consent_memory, 's) oauth_run \<Rightarrow> bool" where
  "memory_run_ok srv \<equiv> oauth_server_over.run_ok (memory_oauth srv) map_of client_memory_ok map_of (\<lambda>_. True)
     map_of consent_memory_ok"

text \<open>A server as it is constructed, with the clients its settings declare.\<close>

definition oauth_start ::
  "(client_memory, authz_memory, consent_memory, 's) oauth_server \<Rightarrow> 's \<Rightarrow>
   (client_memory, authz_memory, consent_memory, 's) oauth_run option" where
  "oauth_start srv sessions =
     (case seed_clients srv [] (mcp_clients (oa_settings srv)) of
        Inl _ \<Rightarrow> None
      | Inr clients \<Rightarrow>
          Some \<lparr>ru_state = \<lparr>st_clients = clients, st_codes = [], st_consents = [], st_sessions = sessions\<rparr>,
                ru_approved = [], ru_standing = [], ru_issued = [], ru_redeemed = []\<rparr>)"

lemma start_ok: "oauth_start (memory_oauth srv) sessions = Some r \<Longrightarrow> memory_run_ok srv r"
proof -
  assume start: "oauth_start (memory_oauth srv) sessions = Some r"
  then obtain clients where seed: "seed_clients (memory_oauth srv) [] (mcp_clients (oa_settings srv)) = Inr clients"
    and r: "r = \<lparr>ru_state = \<lparr>st_clients = clients, st_codes = [], st_consents = [], st_sessions = sessions\<rparr>,
                ru_approved = [], ru_standing = [], ru_issued = [], ru_redeemed = []\<rparr>"
    by (auto simp: oauth_start_def split: sum.splits)
  have "oauth_server_over.clients_ok (memory_oauth srv) map_of client_memory_ok []"
    by (simp add: oauth.clients_ok_def client_memory_ok_def)
  note clients = oauth.seed_ok [OF this seed]
  show ?thesis
    by (rule oauth.run_ok_start) (use clients in \<open>simp_all add: r consent_memory_ok_def\<close>)
qed

lemma reached_ok:
  assumes "oauth_start (memory_oauth srv) sessions = Some r0"
    and "(oauth_step (memory_oauth srv) rt)\<^sup>*\<^sup>* r0 r"
  shows "memory_run_ok srv r"
  by (rule oauth.oauth_run_ok [OF assms(2) start_ok [OF assms(1)]])

section \<open>A server for the concrete instances\<close>

text \<open>The fields of a consent form, without its signature, and the post that allows it.\<close>

definition form_fields :: "string \<Rightarrow> string \<Rightarrow> string \<Rightarrow> string \<Rightarrow> string \<Rightarrow> string \<Rightarrow> oauth_params" where
  "form_fields client_id redirect_uri resource scope state challenge =
     [(''response_type'', ''code''), (''client_id'', client_id), (''redirect_uri'', redirect_uri),
      (''resource'', resource), (''scope'', scope), (''state'', state), (''code_challenge'', challenge),
      (''code_challenge_method'', ''S256'')]"

definition allow_post :: "oauth_params \<Rightarrow> string \<Rightarrow> string \<Rightarrow> oauth_params" where
  "allow_post fs signature tenant_id =
     fs @ [(''signature'', signature), (''tenant_id'', tenant_id), (''decision'', ''allow'')]"

definition demo_oauth_settings :: oauth_settings where
  "demo_oauth_settings =
     \<lparr>os_issuer = ''https://id.x'', os_audience = ''app'', os_access_token_ttl = 600 * second,
      os_totp_master_key = [], mcp_resource_url = ''https://m.x'', mcp_scopes_supported = [''read'', ''write''],
      mcp_registration_enabled = True,
      mcp_clients = [[(''client_id'', JStr ''c1''), (''redirect_uris'', JArr [JStr ''https://c.x/cb''])]],
      mcp_tenant_claim = ''tenant_id'', mcp_authorization_code_ttl = 60 * second, mcp_client_ttl = 86400 * second,
      mcp_login_url = [], mcp_consent_max_age = 0, mcp_include_granted_scopes = False\<rparr>"

definition demo_oauth :: "(client_memory, authz_memory, consent_memory, refresh_memory) oauth_server" where
  "demo_oauth =
     \<lparr>oa_settings = demo_oauth_settings, oa_clients = memory_client_ops, oa_codes = memory_authz_ops,
      oa_consents = memory_consent_ops, oa_flows = Some (memory_service demo_settings demo_hash 0), oa_guard = None,
      oa_hash = demo_hash, oa_challenge = (\<lambda>v. CHR ''s'' # v), oa_hmac = (\<lambda>k m. filter is_ascii m),
      oa_encode = (\<lambda>_. ''jwt''), oa_str = (\<lambda>_. []), oa_ipv6 = (\<lambda>_. True)\<rparr>"

definition demo_router :: "string oauth_router" where
  "demo_router =
     \<lparr>or_subject_resolver = None, or_user_resolver = Some (\<lambda>u. u), or_session_tenants = None,
      or_tenants = Some (\<lambda>_. [\<lparr>tc_id = ''t1'', tc_name = []\<rparr>])\<rparr>"

definition demo_call :: "datetime \<Rightarrow> string \<Rightarrow> oauth_call" where
  "demo_call wall n = \<lparr>oq_wall = wall, oq_now = None, oq_ip = [], oq_user_agent = [], oq_jti = ''j'' @ n,
     oq_family = ''f'' @ n, oq_token1 = ''x'' @ n, oq_token2 = ''y'' @ n, oq_uuid = ''u'' @ n, oq_code = ''code'' @ n\<rparr>"

definition demo_form :: "string \<Rightarrow> oauth_params" where
  "demo_form scope = form_fields ''c1'' ''https://c.x/cb'' ''https://m.x'' scope ''st'' ''sv''"

definition demo_post :: "string \<Rightarrow> oauth_params" where
  "demo_post scope = allow_post (demo_form scope) (consent_signature demo_oauth (demo_form scope) ''u1'') ''t1''"

definition demo_code_form :: oauth_params where
  "demo_code_form = [(''grant_type'', ''authorization_code''), (''code'', ''code1''), (''client_id'', ''c1''),
     (''redirect_uri'', ''https://c.x/cb''), (''code_verifier'', ''v'')]"

definition demo_run0 :: "(client_memory, authz_memory, consent_memory, refresh_memory) oauth_run" where
  "demo_run0 = the (oauth_start demo_oauth [])"

definition demo_run1 :: "(client_memory, authz_memory, consent_memory, refresh_memory) oauth_run" where
  "demo_run1 = (let q = demo_call second ''1'';
          new = approvals_made demo_oauth demo_router (st_clients (ru_state demo_run0)) q ''u1'' [] (demo_post ''read'') in
     demo_run0\<lparr>ru_state := snd (consent_route demo_oauth demo_router (ru_state demo_run0) q ''u1'' [] (demo_post ''read'')),
         ru_approved := new @ ru_approved demo_run0, ru_standing := new @ ru_standing demo_run0,
         ru_issued := oa_hash demo_oauth (oq_code q) # ru_issued demo_run0\<rparr>)"
lemma memory_demo_oauth [simp]: "memory_oauth demo_oauth = demo_oauth"
  by (simp add: memory_oauth_def demo_oauth_def)

lemma demo_oauth_parts [simp]:
  "oa_settings demo_oauth = demo_oauth_settings" "oa_hash demo_oauth = demo_hash"
  "oa_flows demo_oauth = Some (memory_service demo_settings demo_hash 0)"
  by (simp_all add: demo_oauth_def)

lemma demo_started: "oauth_start demo_oauth [] = Some demo_run0"
proof -
  have "\<not> Option.is_none (oauth_start demo_oauth [])" by code_simp
  then show ?thesis by (auto simp: demo_run0_def Option.is_none_def)
qed

lemma demo_reached: "(oauth_step demo_oauth demo_router)\<^sup>*\<^sup>* demo_run0 demo_run1"
proof (rule r_into_rtranclp)
  have "oa_hash demo_oauth (oq_code (demo_call second ''1'')) \<notin> set (ru_issued demo_run0)"
    "cs_get (oa_consents demo_oauth) (st_consents (ru_state demo_run0)) (oq_uuid (demo_call second ''1'')) = None"
    by code_simp+
  from step_consent [OF this refl] show "oauth_step demo_oauth demo_router demo_run0 demo_run1"
    unfolding demo_run1_def Let_def .
qed

lemma demo_tenant_claim: "mcp_tenant_claim demo_oauth_settings \<notin> set ([''scope'', ''client_id''] @ registered_claims)"
  by code_simp

section \<open>The claims of a token\<close>

lemma map_of_filter_key: "map_of (filter (\<lambda>(k, v). p k) xs) k = (if p k then map_of xs k else None)"
  by (induction xs) auto

lemma access_payload_claims:
  shows "dget (access_payload cfg jti u claims aud sid now ttl) ''sub'' = Some (JStr u)"
    and "dget (access_payload cfg jti u claims aud sid now ttl) ''aud'' = Some (JStr (str_or aud (os_audience cfg)))"
    and "k \<notin> set registered_claims \<Longrightarrow> dget (access_payload cfg jti u claims aud sid now ttl) k = dget claims k"
  by (simp_all add: access_payload_def dict_update_def registered_claims_def map_of_filter_key)

lemma grant_claims_get:
  assumes "mcp_tenant_claim cfg \<notin> {''scope'', ''client_id''}"
  shows "dget (grant_claims cfg scopes c t) ''scope'' = Some (JStr (join '' '' scopes))"
    and "dget (grant_claims cfg scopes c t) ''client_id'' = Some (JStr c)"
    and "dget (grant_claims cfg scopes c t) (mcp_tenant_claim cfg) = Some (JStr t)"
  using assms by (auto simp: grant_claims_def)

text \<open>The settings let the tenant claim be named \<open>scope\<close>, and the tenant then replaces the scopes.\<close>

lemma tenant_claim_hides_scope:
  "mcp_tenant_claim cfg = ''scope'' \<Longrightarrow> dget (grant_claims cfg scopes c t) ''scope'' = Some (JStr t)"
  by (simp add: grant_claims_def)

definition token_names ::
  "oauth_settings \<Rightarrow> json_object \<Rightarrow> string \<Rightarrow> string \<Rightarrow> string \<Rightarrow> string list \<Rightarrow> bool" where
  "token_names cfg p u c t scopes =
     (dget p ''sub'' = Some (JStr u) \<and> dget p ''client_id'' = Some (JStr c) \<and>
      dget p (mcp_tenant_claim cfg) = Some (JStr t) \<and> dget p ''scope'' = Some (JStr (join '' '' scopes)) \<and>
      dget p ''aud'' = Some (JStr (str_or (mcp_resource_url cfg) (os_audience cfg))))"

lemma minted_names:
  assumes "mint_access_token srv jti u (grant_claims (oa_settings srv) scopes c t) (mcp_resource_url (oa_settings srv)) now = Inr a"
    and "mcp_tenant_claim (oa_settings srv) \<notin> set ([''scope'', ''client_id''] @ registered_claims)"
  shows "\<exists>p. a = oa_encode srv p \<and> token_names (oa_settings srv) p u c t scopes"
proof -
  let ?cfg = "oa_settings srv"
  let ?p = "access_payload ?cfg jti u (grant_claims ?cfg scopes c t) (mcp_resource_url ?cfg) [] now (os_access_token_ttl ?cfg)"
  have "''scope'' \<notin> set registered_claims" "''client_id'' \<notin> set registered_claims"
    by (simp_all add: registered_claims_def)
  then have "token_names ?cfg ?p u c t scopes"
    using assms(2) grant_claims_get [of ?cfg scopes c t]
    by (simp add: token_names_def access_payload_claims)
  moreover have "a = oa_encode srv ?p" using assms(1) by (simp add: mint_access_token_def Let_def split: if_splits)
  ultimately show ?thesis by blast
qed

lemma exchange_fault_facts:
  assumes "exchange_fault srv form c moment = None"
  shows "param form ''client_id'' = az_client_id c" and "param form ''redirect_uri'' = az_redirect_uri c"
    and "oa_challenge srv (param form ''code_verifier'') = az_code_challenge c" and "moment < az_expires_at c"
  using assms
  by (auto simp: exchange_fault_def differ_fault_def compare_digest_def Let_def
      split: option.splits if_splits bool.splits)

text \<open>A rotation that issues a token read it off a row of the presented token's owner.\<close>

lemma rotate_owner:
  fixes s :: refresh_memory
  assumes "rotate_session (memory_service scfg H w0) s wall t1 t2 token ip ua moment = (out, s')"
    and "rr_issued out = Some issued"
  shows "\<exists>row. dget s (H token) = Some row \<and> \<not> rt_revoked row \<and> rr_user_id out = rt_user_id row"
proof -
  let ?svc = "memory_service scfg H w0" and ?h = "H token"
  note mem = memory_refresh_ops_def mem_refresh_get_def mem_refresh_put_def mem_refresh_consume_def
  obtain r where r: "dget s ?h = Some r" "\<not> rt_revoked r" and chk: "rotate_check ?svc s wall token moment = (Inr r, s)"
    using assms
    by (auto simp: rotate_session_def rotate_check_def refused_def refused_for_def mem
        split: option.splits if_splits prod.splits)
  obtain i s1 where minted: "rotate_mint ?svc s wall t1 r ip ua moment = (i, s1)" by force
  have s1: "rt_user_id x = rt_user_id r" if "dget s1 ?h = Some x" for x
    using that r minted
    by (auto simp: rotate_mint_def mint_def mem minted_record_def successor_request_def split: if_splits)
  have "rotate_settle ?svc s1 wall t2 token r i moment = (out, s')"
    using assms(1) chk minted by (simp add: rotate_session_def)
  then have "rr_user_id out = rt_user_id r"
    using assms(2) s1
    by (auto simp: rotate_settle_def after_failed_consume_def reuse_detected_def issued_for_def refused_def
        refused_for_def mem split: option.splits if_splits prod.splits)
  with r show ?thesis by blast
qed

section \<open>Tokens stay within what was approved\<close>

lemma token_route_cases:
  assumes "token_route srv st q form = (Tokens body, st')"
  obtains "param form ''grant_type'' = ''authorization_code''" "exchange_code srv st q form = (Inr body, st')"
    | "param form ''grant_type'' = ''refresh_token''" "refresh srv st q form = (Inr body, st')"
proof -
  have no: "fault_reply f \<noteq> Tokens body" for f by (cases f) simp_all
  show thesis
    using assms that no
    by (auto simp: token_route_def split: if_splits prod.splits sum.splits)
qed

lemma run_parts:
  assumes "memory_run_ok srv r"
  shows "dget (st_codes (ru_state r)) h = Some c \<Longrightarrow> code_backed (ru_approved r) c"
    and "dget (st_consents (ru_state r)) i = Some g \<Longrightarrow> consent_backed (ru_standing r) g"
    and "set (ru_standing r) \<subseteq> set (ru_approved r)"
    and "a \<in> set (ru_approved r) \<Longrightarrow> approval_valid srv a"
    and "consent_memory_ok (st_consents (ru_state r))"
    and "oauth_server_over.clients_ok (memory_oauth srv) map_of client_memory_ok (st_clients (ru_state r))"
    and "distinct (ru_redeemed r)" and "h \<in> set (ru_redeemed r) \<Longrightarrow> dget (st_codes (ru_state r)) h = None"
proof -
  note inv = assms [unfolded oauth.run_ok_def oauth.codes_ok_def oauth.consents_ok_def]
  show "dget (st_codes (ru_state r)) h = Some c \<Longrightarrow> code_backed (ru_approved r) c" using inv by blast
  show "dget (st_consents (ru_state r)) i = Some g \<Longrightarrow> consent_backed (ru_standing r) g" using inv by blast
  show "set (ru_standing r) \<subseteq> set (ru_approved r)" using inv by blast
  show "a \<in> set (ru_approved r) \<Longrightarrow> approval_valid srv a" using inv by (simp add: approval_valid_def)
  show "consent_memory_ok (st_consents (ru_state r))" using inv by blast
  show "oauth_server_over.clients_ok (memory_oauth srv) map_of client_memory_ok (st_clients (ru_state r))" using inv by blast
  show "distinct (ru_redeemed r)" using inv by blast
  show "h \<in> set (ru_redeemed r) \<Longrightarrow> dget (st_codes (ru_state r)) h = None" using inv by (meson option.exhaust)
qed

text \<open>What \<open>approved_scopes\<close> of a run adds up to is offered by the server.\<close>

lemma approved_resource:
  assumes "memory_run_ok srv r" and "a \<in> set (approvals_for (ru_approved r) u c t res)"
  shows "res = mcp_resource_url (oa_settings srv)"
  using run_parts(4) [OF assms(1), of a] assms(2) by (auto simp: approvals_for_def approval_valid_def)

definition within_approvals ::
  "('c, 'd, 'g, 's) oauth_server \<Rightarrow> oauth_token_body \<Rightarrow> approval list \<Rightarrow> string \<Rightarrow> string \<Rightarrow> string \<Rightarrow> bool" where
  "within_approvals srv body as u c t =
     (\<exists>p scopes. tk_access_token body = oa_encode srv p \<and> tk_scope body = join '' '' scopes \<and>
        token_names (oa_settings srv) p u c t scopes \<and>
        set scopes \<subseteq> approved_scopes as u c t (mcp_resource_url (oa_settings srv)))"

lemma exchange_within:
  assumes "memory_run_ok srv r" and "exchange_code (memory_oauth srv) (ru_state r) q form = (Inr body, st')"
    and "mcp_tenant_claim (oa_settings srv) \<notin> set ([''scope'', ''client_id''] @ registered_claims)"
  shows "\<exists>a \<in> set (ru_approved r). ap_client_id a = param form ''client_id'' \<and>
    ap_redirect_uri a = param form ''redirect_uri'' \<and>
    ap_code_challenge a = oa_challenge srv (param form ''code_verifier'') \<and>
    within_approvals srv body (ru_approved r) (ap_user_id a) (ap_client_id a) (ap_tenant_id a)"
proof -
  obtain c where c: "dget (st_codes (ru_state r)) (oa_hash srv (param form ''code'')) = Some c"
      "exchange_fault (memory_oauth srv) form c (call_moment q) = None"
      "mint_access_token (memory_oauth srv) (oq_jti q) (az_user_id c)
        (grant_claims (oa_settings srv) (az_scopes c) (az_client_id c) (az_tenant_id c)) (az_resource c) (call_moment q) =
          Inr (tk_access_token body)" "tk_scope body = join '' '' (az_scopes c)"
    using oauth.exchange_effect(5) [OF assms(2) _ run_parts(6) [OF assms(1)]] by (auto simp: oauth.exchanged_def)
  have backed: "code_backed (ru_approved r) c" by (rule run_parts(1) [OF assms(1) c(1)])
  then obtain a where a: "a \<in> set (approvals_for (ru_approved r) (az_user_id c) (az_client_id c) (az_tenant_id c) (az_resource c))"
    "ap_redirect_uri a = az_redirect_uri c" "ap_code_challenge a = az_code_challenge c"
    by (auto simp: code_backed_def)
  have res: "az_resource c = mcp_resource_url (oa_settings srv)" by (rule approved_resource [OF assms(1) a(1)])
  from c(3) obtain p where p: "tk_access_token body = oa_encode srv p"
    "token_names (oa_settings srv) p (az_user_id c) (az_client_id c) (az_tenant_id c) (az_scopes c)"
    using minted_names [of "memory_oauth srv" "oq_jti q" "az_user_id c" "az_scopes c" "az_client_id c" "az_tenant_id c"
        "call_moment q" "tk_access_token body"] assms(3) res by auto
  have who: "a \<in> set (ru_approved r)" "ap_user_id a = az_user_id c" "ap_client_id a = az_client_id c"
    "ap_tenant_id a = az_tenant_id c" using a(1) by (simp_all add: approvals_for_def)
  then have "within_approvals srv body (ru_approved r) (ap_user_id a) (ap_client_id a) (ap_tenant_id a)"
    using backed p c(4) res by (auto simp: within_approvals_def code_backed_def)
  then show ?thesis using who a(2,3) exchange_fault_facts [OF c(2)] by auto
qed

lemma refresh_within:
  assumes "memory_run_ok srv r" and "refresh (memory_oauth srv) (ru_state r) q form = (Inr body, st')"
    and "mcp_tenant_claim (oa_settings srv) \<notin> set ([''scope'', ''client_id''] @ registered_claims)"
    and "oa_flows srv = Some (memory_service scfg H w0)"
  shows "\<exists>row a. dget (st_sessions (ru_state r)) (H (param form ''refresh_token'')) = Some row \<and> \<not> rt_revoked row \<and>
    a \<in> set (ru_standing r) \<and> ap_user_id a = rt_user_id row \<and> ap_client_id a = param form ''client_id'' \<and>
    within_approvals srv body (ru_standing r) (ap_user_id a) (ap_client_id a) (ap_tenant_id a)"
proof -
  obtain g scopes where ref: "oauth_server_over.refreshed (memory_oauth srv) map_of (ru_state r) q form body g scopes"
    using oauth.refresh_effect(4) [OF assms(2) run_parts(5) [OF assms(1)]] by auto
  note ref = ref [unfolded oauth.refreshed_def]
  have g: "dget (st_consents (ru_state r)) (cn_consent_id g) = Some g" "cn_client_id g = param form ''client_id''"
    "set scopes \<subseteq> set (cn_scopes g)" "tk_scope body = join '' '' scopes"
    "mint_access_token (memory_oauth srv) (oq_jti q) (cn_user_id g)
       (grant_claims (oa_settings srv) scopes (cn_client_id g) (cn_tenant_id g))
       (mcp_resource_url (oa_settings srv)) (call_moment q) = Inr (tk_access_token body)"
    using ref by auto
  obtain issued outcome s where rot: "rotate_session (memory_service scfg H w0) (st_sessions (ru_state r)) (oq_wall q)
      (oq_token1 q) (oq_token2 q) (param form ''refresh_token'') (oq_ip q) (oq_user_agent q) (oq_wall q) = (outcome, s)"
    "rr_issued outcome = Some issued" "rr_user_id outcome = cn_user_id g"
  proof -
    obtain outcome s where rot: "rotate_session (memory_service scfg H w0) (st_sessions (ru_state r)) (oq_wall q)
        (oq_token1 q) (oq_token2 q) (param form ''refresh_token'') (oq_ip q) (oq_user_agent q) (oq_wall q) = (outcome, s)"
      by force
    show thesis using ref assms(4) rot that [OF rot] by auto
  qed
  obtain row where row: "dget (st_sessions (ru_state r)) (H (param form ''refresh_token'')) = Some row" "\<not> rt_revoked row"
    "rt_user_id row = cn_user_id g"
    using rotate_owner [OF rot(1,2)] rot(3) by auto
  have backed: "consent_backed (ru_standing r) g" by (rule run_parts(2) [OF assms(1) g(1)])
  then obtain a where a: "a \<in> set (approvals_for (ru_standing r) (cn_user_id g) (cn_client_id g) (cn_tenant_id g) (cn_resource g))"
    unfolding consent_backed_def by (meson list.set_sel(1))
  have res: "cn_resource g = mcp_resource_url (oa_settings srv)"
    by (rule approved_resource [OF assms(1) approvals_for_mono [OF run_parts(3) [OF assms(1)] a]])
  from g(5) obtain p where p: "tk_access_token body = oa_encode srv p"
    "token_names (oa_settings srv) p (cn_user_id g) (cn_client_id g) (cn_tenant_id g) scopes"
    using minted_names [of "memory_oauth srv" "oq_jti q" "cn_user_id g" scopes "cn_client_id g" "cn_tenant_id g"
        "call_moment q" "tk_access_token body"] assms(3) by auto
  have who: "a \<in> set (ru_standing r)" "ap_user_id a = cn_user_id g" "ap_client_id a = cn_client_id g"
    "ap_tenant_id a = cn_tenant_id g" using a by (simp_all add: approvals_for_def)
  have "set scopes \<subseteq> approved_scopes (ru_standing r) (cn_user_id g) (cn_client_id g) (cn_tenant_id g) (cn_resource g)"
    using g(3) backed by (auto simp: consent_backed_def)
  then have "within_approvals srv body (ru_standing r) (ap_user_id a) (ap_client_id a) (ap_tenant_id a)"
    using p g(4) res unfolding within_approvals_def who by auto
  then show ?thesis using row who g(2) by auto
qed

text \<open>
  C31. In every run of the authorization server, an access token names a user who approved the
  client in that tenant on the consent form, and carries only scopes approved there. From a
  code, the approval also has the redirect URI presented and the PKCE challenge of the verifier;
  from a refresh token, the user owns the token and the approvals are those not withdrawn since.
\<close>

theorem oauth_tokens_within_approvals:
  assumes "oauth_start (memory_oauth srv) sessions = Some r0" and "(oauth_step (memory_oauth srv) rt)\<^sup>*\<^sup>* r0 r"
    and "token_route (memory_oauth srv) (ru_state r) q form = (Tokens body, st')"
    and "mcp_tenant_claim (oa_settings srv) \<notin> set ([''scope'', ''client_id''] @ registered_claims)"
    and "oa_flows srv = Some (memory_service scfg H w0)"
  shows "param form ''grant_type'' = ''authorization_code'' \<and>
      (\<exists>a \<in> set (ru_approved r). ap_client_id a = param form ''client_id'' \<and>
         ap_redirect_uri a = param form ''redirect_uri'' \<and>
         ap_code_challenge a = oa_challenge srv (param form ''code_verifier'') \<and>
         within_approvals srv body (ru_approved r) (ap_user_id a) (ap_client_id a) (ap_tenant_id a)) \<or>
    param form ''grant_type'' = ''refresh_token'' \<and>
      (\<exists>row a. dget (st_sessions (ru_state r)) (H (param form ''refresh_token'')) = Some row \<and> \<not> rt_revoked row \<and>
         a \<in> set (ru_standing r) \<and> ap_user_id a = rt_user_id row \<and> ap_client_id a = param form ''client_id'' \<and>
         within_approvals srv body (ru_standing r) (ap_user_id a) (ap_client_id a) (ap_tenant_id a))"
  using assms(3)
proof (cases rule: token_route_cases)
  case 1
  then show ?thesis using exchange_within [OF reached_ok [OF assms(1,2)] 1(2) assms(4)] by blast
next
  case 2
  then show ?thesis using refresh_within [OF reached_ok [OF assms(1,2)] 2(2) assms(4,5)] by blast
qed

theorem oauth_tokens_within_approvals_witness:
  "\<exists>body a. fst (token_route demo_oauth (ru_state demo_run1) (demo_call (2 * second) ''2'') demo_code_form) = Tokens body \<and>
     a \<in> set (ru_approved demo_run1) \<and> ap_client_id a = ''c1'' \<and>
     within_approvals demo_oauth body (ru_approved demo_run1) (ap_user_id a) (ap_client_id a) (ap_tenant_id a)"
proof -
  let ?q = "demo_call (2 * second) ''2''"
  have "case fst (token_route demo_oauth (ru_state demo_run1) ?q demo_code_form) of Tokens b \<Rightarrow> True | _ \<Rightarrow> False"
    by code_simp
  then obtain body st' where tok: "token_route demo_oauth (ru_state demo_run1) ?q demo_code_form = (Tokens body, st')"
    by (cases "token_route demo_oauth (ru_state demo_run1) ?q demo_code_form") (auto split: oauth_reply.splits)
  have form: "param demo_code_form ''grant_type'' \<noteq> ''refresh_token''" "param demo_code_form ''client_id'' = ''c1''"
    by code_simp+
  show ?thesis
    using oauth_tokens_within_approvals [of demo_oauth "[]" demo_run0 demo_router demo_run1 ?q demo_code_form body st'
        demo_settings demo_hash 0] demo_started demo_reached tok demo_tenant_claim form by auto
qed

text \<open>
  C32. A code is good for one attempt: once any token request has presented it, whatever the
  answer was, every later request with that code is refused as \<^verbatim>\<open>invalid_grant\<close>.
\<close>

theorem code_good_for_one_attempt:
  assumes "oauth_start (memory_oauth srv) sessions = Some r0" and "(oauth_step (memory_oauth srv) rt)\<^sup>*\<^sup>* r0 r"
    and "oa_hash srv (param form ''code'') \<in> set (ru_issued r)" and "param form ''code'' \<noteq> []"
    and "param form ''grant_type'' = ''authorization_code''"
    and "token_route (memory_oauth srv) (ru_state r) q form = (reply, st)"
    and "(oauth_step (memory_oauth srv) rt)\<^sup>*\<^sup>*
      (r\<lparr>ru_state := st, ru_redeemed := codes_redeemed (memory_oauth srv) reply form @ ru_redeemed r\<rparr>) r'"
    and "param form' ''grant_type'' = ''authorization_code''" and "param form' ''code'' = param form ''code''"
  shows "fst (token_route (memory_oauth srv) (ru_state r') q' form') = OAuthError ''invalid_grant'' 400"
proof -
  let ?r1 = "r\<lparr>ru_state := st, ru_redeemed := codes_redeemed (memory_oauth srv) reply form @ ru_redeemed r\<rparr>"
  let ?h = "oa_hash srv (param form ''code'')"
  note ok = reached_ok [OF assms(1,2)]
  have "memory_run_ok srv ?r1" by (rule oauth.oauth_step_ok [OF step_token [OF assms(6)] ok])
  moreover have "dget (st_codes st) ?h = None"
    using oauth.token_codes(2) [OF assms(6) _ run_parts(6) [OF ok] run_parts(5) [OF ok] assms(5,4)] by simp
  then have "oauth_server_over.burned map_of ?r1 ?h" using assms(3) by (simp add: oauth.burned_def)
  ultimately have "oauth_server_over.burned map_of r' ?h" by (rule oauth.burned_run [OF assms(7)])
  then show ?thesis
    using oauth.exchange_unknown [where st = "ru_state r'" and form = form'] assms(4,8,9) by (simp add: oauth.burned_def)
qed

theorem code_good_for_one_attempt_witness:
  "fst (token_route demo_oauth (snd (token_route demo_oauth (ru_state demo_run1) (demo_call (2 * second) ''2'')
       (dset ''code_verifier'' ''guess'' demo_code_form))) (demo_call (2 * second) ''3'') demo_code_form) =
     OAuthError ''invalid_grant'' 400"
proof -
  let ?bad = "dset ''code_verifier'' ''guess'' demo_code_form" and ?q = "demo_call (2 * second) ''2''"
  obtain reply st where bad: "token_route demo_oauth (ru_state demo_run1) ?q ?bad = (reply, st)" by force
  have issued: "oa_hash demo_oauth (param ?bad ''code'') \<in> set (ru_issued demo_run1)" by code_simp
  have form: "param ?bad ''code'' \<noteq> []" "param ?bad ''grant_type'' = ''authorization_code''"
    "param demo_code_form ''grant_type'' = ''authorization_code''" "param demo_code_form ''code'' = param ?bad ''code''"
    by code_simp+
  show ?thesis
    using code_good_for_one_attempt [of demo_oauth "[]" demo_run0 demo_router demo_run1 ?bad ?q reply st _ demo_code_form
        "demo_call (2 * second) ''3''", unfolded memory_demo_oauth,
        OF demo_started demo_reached issued form(1,2) bad rtranclp.rtrancl_refl form(3,4)] bad
    by simp
qed

text \<open>
  C33. In every run, the browser is only ever sent back, with a code or a refusal, to a URI the
  client registered, which names a host, has no fragment, and is https or http on loopback.
\<close>

theorem redirects_only_to_registered:
  assumes "oauth_start (memory_oauth srv) sessions = Some r0" and "(oauth_step (memory_oauth srv) rt)\<^sup>*\<^sup>* r0 r"
    and "consent_route (memory_oauth srv) rt (ru_state r) q req site form = (BackTo uri params, st')"
  shows "\<exists>c u. dget (st_clients (ru_state r)) (param form ''client_id'') = Some c \<and> uri \<in> set (oc_redirect_uris c) \<and>
    urlsplit (oa_ipv6 srv) uri = Some u \<and> url_fragment u = [] \<and> url_hostname u \<noteq> [] \<and>
    (url_scheme u = ''https'' \<or> url_scheme u = ''http'' \<and> url_hostname u \<in> {''127.0.0.1'', ''::1'', ''localhost''})"
proof -
  let ?form = "ddel ''tenant_id'' (ddel ''decision'' (ddel ''signature'' form))"
  have no: "fault_reply f \<noteq> BackTo x y" "sign_in_response cfg p b n \<noteq> BackTo x y" for f x y cfg p b n
    by (cases f; simp) (simp add: sign_in_response_def)
  obtain p where parsed: "parse_authorization_request (memory_oauth srv) (st_clients (ru_state r)) (oq_wall q) ?form = Inr p"
    and uri: "uri = ar_redirect_uri p"
  proof (cases "parse_authorization_request (memory_oauth srv) (st_clients (ru_state r)) (oq_wall q) ?form")
    case (Inl f)
    then show thesis
      using assms(3) no by (auto simp: consent_route_def consent_decision_def Let_def split: if_splits)
  next
    case (Inr p)
    then have "uri = ar_redirect_uri p"
      using assms(3) no
      by (auto simp: consent_route_def consent_decision_def Let_def redirect_with_def approve_def record_consent_def
          split: if_splits option.splits bool.splits)
    with Inr show thesis by (rule that)
  qed
  note valid = oauth.parsed_valid [OF run_parts(6) [OF reached_ok [OF assms(1,2)]] parsed]
  have "param ?form ''client_id'' = param form ''client_id''" by (simp add: param_def)
  then have "dget (st_clients (ru_state r)) (param form ''client_id'') = Some (ar_client p)" using valid(2,3) by simp
  then show ?thesis
    using valid(1) parse_request_facts(2) [OF parsed]
    by (auto simp: uri validate_redirect_uri_def is_loopback_def loopback_hosts_def split: option.splits if_splits)
qed

theorem redirects_only_to_registered_witness:
  "\<exists>c. dget (st_clients (ru_state demo_run0)) ''c1'' = Some c \<and> ''https://c.x/cb'' \<in> set (oc_redirect_uris c) \<and>
     fst (consent_route demo_oauth demo_router (ru_state demo_run0) (demo_call second ''1'') ''u1'' [] (demo_post ''read'')) =
       BackTo ''https://c.x/cb'' [(''code'', ''code1''), (''state'', ''st'')]"
proof -
  let ?route = "consent_route demo_oauth demo_router (ru_state demo_run0) (demo_call second ''1'') ''u1'' [] (demo_post ''read'')"
  have reply: "fst ?route = BackTo ''https://c.x/cb'' [(''code'', ''code1''), (''state'', ''st'')]" by code_simp
  then have route: "?route = (BackTo ''https://c.x/cb'' [(''code'', ''code1''), (''state'', ''st'')], snd ?route)"
    by (metis prod.collapse)
  have "param (demo_post ''read'') ''client_id'' = ''c1''" by code_simp
  then show ?thesis
    using redirects_only_to_registered [of demo_oauth "[]" demo_run0 demo_router demo_run0, unfolded memory_demo_oauth,
        OF demo_started rtranclp.rtrancl_refl route] reply by auto
qed

end
