(* ===== verification/OAuthConsent.thy ===== *)
theory OAuthConsent
  imports OAuthProperties
begin

text \<open>
  The consent form: what the authorize page prints is accepted when it is posted back, and one
  signature can stand for two different forms.
\<close>

section \<open>Space separated words\<close>

definition is_word :: "string \<Rightarrow> bool" where
  "is_word w = (w \<noteq> [] \<and> list_all (\<lambda>c. \<not> is_space c) w)"

lemma words_from_letters: "list_all (\<lambda>c. \<not> is_space c) w \<Longrightarrow> words_from acc (w @ rest) = words_from (acc @ w) rest"
  by (induction w arbitrary: acc) auto

lemma words_of_join: "list_all is_word xs \<Longrightarrow> words (join '' '' xs) = xs"
proof (induction "'' ''" xs rule: join.induct)
  case (2 x)
  then show ?case using words_from_letters [of x "[]" "[]"] by (simp add: is_word_def)
next
  case (3 x y xs)
  then show ?case
    using words_from_letters [of x "[]" "'' '' @ join '' '' (y # xs)"] by (simp add: is_word_def is_space_def)
qed simp

lemma words_are_words: "list_all (\<lambda>c. \<not> is_space c) acc \<Longrightarrow> list_all is_word (words_from acc s)"
  by (induction acc s rule: words_from.induct) (auto simp: is_word_def)

lemma validated_words:
  assumes "validate_scopes cfg (words s) = Inr scopes" and "list_all is_word (mcp_scopes_supported cfg)"
    and "mcp_scopes_supported cfg \<noteq> []"
  shows "validate_scopes cfg (words (join '' '' scopes)) = Inr scopes" and "scopes \<noteq> []"
proof -
  have "list_all is_word scopes \<and> scopes \<noteq> [] \<and> set scopes \<subseteq> set (mcp_scopes_supported cfg)"
    using assms words_are_words [of "[]" s] validate_scopes_supported [OF assms(1)]
    by (auto simp: validate_scopes_def split: if_splits)
  then show "validate_scopes cfg (words (join '' '' scopes)) = Inr scopes" and "scopes \<noteq> []"
    by (auto simp: words_of_join validate_scopes_def filter_empty_conv)
qed

section \<open>Posting a form\<close>

lemma allow_post_parts:
  fixes client_id redirect_uri resource scope state challenge :: string
  defines "fs \<equiv> form_fields client_id redirect_uri resource scope state challenge"
  shows "param (allow_post fs signature tenant_id) ''signature'' = signature"
    and "param (allow_post fs signature tenant_id) ''tenant_id'' = tenant_id"
    and "param (allow_post fs signature tenant_id) ''decision'' = ''allow''"
    and "ddel ''tenant_id'' (ddel ''decision'' (ddel ''signature'' (allow_post fs signature tenant_id))) = fs"
  by (simp_all add: fs_def form_fields_def allow_post_def param_def)

lemma consent_fields_form:
  "ar_challenge_method p = ''S256'' \<Longrightarrow>
    consent_fields p = form_fields (oc_client_id (ar_client p)) (ar_redirect_uri p) (ar_resource p)
      (join '' '' (ar_scopes p)) (ar_state p) (ar_code_challenge p)"
  by (simp add: consent_fields_def form_fields_def)

lemma decision_accepts:
  assumes "lower site \<noteq> ''cross-site''"
    and "parse_authorization_request srv s wall (form_fields c uri res sc state ch) = Inr p"
    and "subject_of rt req = Some subject" and "\<not> is_stale (oa_settings srv) wall subject"
    and "signature = consent_signature srv (form_fields c uri res sc state ch) (sj_user_id subject)"
    and "list_all is_ascii signature"
    and "tenant_required rt \<longrightarrow> t \<in> tc_id ` set (tenants_for rt subject)"
  shows "consent_decision srv rt s wall req site (allow_post (form_fields c uri res sc state ch) signature t) =
    Inr (p, sj_user_id subject, t)"
  using assms
  by (simp add: consent_decision_def Let_def allow_post_parts compare_digest_def)

lemma page_facts:
  assumes "authorize_route srv rt s wall req query = ConsentPage cx"
  shows "parse_authorization_request srv s wall query = Inr (cx_request cx)"
    and "\<exists>subject. subject_of rt req = Some subject \<and> cx_user_id cx = sj_user_id subject \<and>
      \<not> is_stale (oa_settings srv) wall subject \<and> cx_tenants cx = tenants_for rt subject"
    and "cx_form_fields cx =
      consent_fields (cx_request cx) @ [(''signature'', consent_signature srv (consent_fields (cx_request cx)) (cx_user_id cx))]"
proof -
  have no: "fault_reply f \<noteq> ConsentPage x" "sign_in_response cfg p b n \<noteq> ConsentPage x" for f x cfg p b n
    by (cases f; simp) (simp add: sign_in_response_def)
  obtain p where p: "parse_authorization_request srv s wall query = Inr p"
    using assms no by (cases "parse_authorization_request srv s wall query") (simp_all add: authorize_route_def)
  obtain subject where subject: "subject_of rt req = Some subject"
    using assms no p by (cases "subject_of rt req") (simp_all add: authorize_route_def)
  have "dset ''signature'' x (consent_fields p) = consent_fields p @ [(''signature'', x)]" for x
    by (simp add: consent_fields_def)
  then show "parse_authorization_request srv s wall query = Inr (cx_request cx)"
    and "\<exists>subject. subject_of rt req = Some subject \<and> cx_user_id cx = sj_user_id subject \<and>
      \<not> is_stale (oa_settings srv) wall subject \<and> cx_tenants cx = tenants_for rt subject"
    and "cx_form_fields cx =
      consent_fields (cx_request cx) @ [(''signature'', consent_signature srv (consent_fields (cx_request cx)) (cx_user_id cx))]"
    using assms no p subject by (auto simp: authorize_route_def Let_def split: if_splits)
qed

lemma parse_form:
  assumes "c \<noteq> []" and "cl_get (oa_clients srv) wall s c = Some client" and "uri \<in> set (oc_redirect_uris client)"
    and "uri \<noteq> []" and "ch \<noteq> []" and "mcp_resource_url (oa_settings srv) \<noteq> []"
    and "validate_scopes (oa_settings srv) (words sc) = Inr scopes"
  shows "parse_authorization_request srv s wall (form_fields c uri (mcp_resource_url (oa_settings srv)) sc state ch) =
    Inr \<lparr>ar_client = client, ar_redirect_uri = uri, ar_resource = mcp_resource_url (oa_settings srv), ar_scopes = scopes,
         ar_code_challenge = ch, ar_state = state, ar_challenge_method = ''S256''\<rparr>"
  using assms
  by (simp add: parse_authorization_request_def Let_def form_fields_def param_def client_allows_def code_challenge_methods_def)

section \<open>The round trip\<close>

lemma parsed_inputs:
  assumes "parse_authorization_request srv s wall query = Inr p"
  shows "param query ''client_id'' \<noteq> []" and "ar_redirect_uri p \<noteq> []"
    and "validate_scopes (oa_settings srv) (words (param query ''scope'')) = Inr (ar_scopes p)"
  using assms
  by (auto simp: parse_authorization_request_def Let_def split: option.splits if_splits sum.splits)

text \<open>
  A consent page answers to itself: the form it printed, posted back by the same signed-in
  user with a tenant the user may grant and while the client is still registered, is accepted as
  exactly the request the page showed, and sends the browser back with a code.
\<close>

theorem consent_form_round_trip:
  assumes "authorize_route (memory_oauth srv) rt s wall req query = ConsentPage cx"
    and "client_memory_ok s" and "mem_client_get wall' s (param query ''client_id'') \<noteq> None"
    and "subject_of rt req' = Some subject" and "sj_user_id subject = cx_user_id cx"
    and "\<not> is_stale (oa_settings srv) wall' subject" and "lower site \<noteq> ''cross-site''"
    and "tenant_required rt \<longrightarrow> t \<in> tc_id ` set (tenants_for rt subject)"
    and "\<forall>k m. list_all is_ascii (oa_hmac srv k m)"
    and "list_all is_word (mcp_scopes_supported (oa_settings srv))" and "mcp_scopes_supported (oa_settings srv) \<noteq> []"
    and "mcp_resource_url (oa_settings srv) \<noteq> []"
  shows "consent_decision (memory_oauth srv) rt s wall' req' site
      (cx_form_fields cx @ [(''tenant_id'', t), (''decision'', ''allow'')]) = Inr (cx_request cx, cx_user_id cx, t)"
proof -
  let ?srv = "memory_oauth srv" and ?p = "cx_request cx"
  note page = page_facts [OF assms(1)]
  note parsed = parse_request_facts [OF page(1)] and inputs = parsed_inputs [OF page(1)]
  have row: "dget s (param query ''client_id'') = Some (ar_client ?p)"
    using parsed(1) by (auto simp: memory_client_ops_def mem_client_get_def split: option.splits if_splits)
  then have client: "oc_client_id (ar_client ?p) = param query ''client_id''"
    using assms(2) by (simp add: client_memory_ok_def)
  let ?f = "form_fields (oc_client_id (ar_client ?p)) (ar_redirect_uri ?p) (ar_resource ?p)
      (join '' '' (ar_scopes ?p)) (ar_state ?p) (ar_code_challenge ?p)"
  have live: "cl_get (oa_clients ?srv) wall' s (oc_client_id (ar_client ?p)) = Some (ar_client ?p)"
    using assms(3) row client by (auto simp: memory_client_ops_def mem_client_get_def split: if_splits)
  have "validate_scopes (oa_settings srv) (words (join '' '' (ar_scopes ?p))) = Inr (ar_scopes ?p)"
    using validated_words(1) [OF _ assms(10,11), of "param query ''scope''"] inputs(3) by simp
  then have again: "parse_authorization_request ?srv s wall' ?f = Inr ?p"
    using parse_form [of "oc_client_id (ar_client ?p)" ?srv wall' s "ar_client ?p" "ar_redirect_uri ?p" "ar_code_challenge ?p"
        "join '' '' (ar_scopes ?p)" "ar_scopes ?p" "ar_state ?p"] live client inputs(1,2) parsed assms(12)
    by simp
  let ?sig = "consent_signature ?srv ?f (cx_user_id cx)"
  have "list_all is_ascii ?sig" using assms(9) by (simp add: consent_signature_def)
  from decision_accepts [OF assms(7) again assms(4) _ _ this assms(8)]
  have "consent_decision ?srv rt s wall' req' site (allow_post ?f ?sig t) = Inr (?p, cx_user_id cx, t)"
    using assms(5,6) by simp
  moreover have "cx_form_fields cx @ [(''tenant_id'', t), (''decision'', ''allow'')] = allow_post ?f ?sig t"
    by (simp add: page(3) consent_fields_form [OF parsed(6)] allow_post_def)
  ultimately show ?thesis by simp
qed

lemma demo_hmac: "\<forall>k m. list_all is_ascii (oa_hmac demo_oauth k m)"
  by (simp add: demo_oauth_def list_all_iff)

definition demo_clients :: client_memory where
  "demo_clients = st_clients (ru_state demo_run0)"

definition demo_page :: "string \<Rightarrow> consent_context" where
  "demo_page state =
     (case authorize_route demo_oauth demo_router demo_clients second ''u1''
         (form_fields ''c1'' ''https://c.x/cb'' ''https://m.x'' ''read'' state ''sv'') of
        ConsentPage cx \<Rightarrow> cx)"

lemma demo_clients_ok: "client_memory_ok demo_clients"
proof -
  have "list_all (\<lambda>(i, r). oc_client_id r = i) demo_clients" by code_simp
  then show ?thesis by (force simp: client_memory_ok_def list_all_iff dest: map_of_SomeD)
qed

theorem consent_form_round_trip_witness:
  "consent_decision demo_oauth demo_router demo_clients (2 * second) ''u1'' []
     (cx_form_fields (demo_page ''st'') @ [(''tenant_id'', ''t1''), (''decision'', ''allow'')]) =
   Inr (cx_request (demo_page ''st''), cx_user_id (demo_page ''st''), ''t1'')"
proof -
  let ?query = "form_fields ''c1'' ''https://c.x/cb'' ''https://m.x'' ''read'' ''st'' ''sv''"
  have page: "authorize_route demo_oauth demo_router demo_clients second ''u1'' ?query = ConsentPage (demo_page ''st'')"
    by code_simp
  obtain subject where subject: "subject_of demo_router ''u1'' = Some subject" "sj_user_id subject = cx_user_id (demo_page ''st'')"
    "\<not> is_stale demo_oauth_settings (2 * second) subject" "''t1'' \<in> tc_id ` set (tenants_for demo_router subject)"
  proof
    show "subject_of demo_router ''u1'' = Some (the (subject_of demo_router ''u1''))" by code_simp
  qed code_simp+
  have "mem_client_get (2 * second) demo_clients (param ?query ''client_id'') \<noteq> None"
    by code_simp
  moreover have "list_all is_word (mcp_scopes_supported demo_oauth_settings)"
    "mcp_scopes_supported demo_oauth_settings \<noteq> []" "mcp_resource_url demo_oauth_settings \<noteq> []" by code_simp+
  ultimately show ?thesis
    using consent_form_round_trip [of demo_oauth demo_router demo_clients second "''u1''" ?query "demo_page ''st''"
        "2 * second" "''u1''" subject "[]" "''t1''"] page demo_clients_ok subject demo_hmac by simp
qed

section \<open>One signature, two forms\<close>

definition signed_keys :: "string list" where
  "signed_keys = [char_of (0 :: nat) # ''subject'', ''client_id'', ''code_challenge'', ''code_challenge_method'',
     ''redirect_uri'', ''resource'', ''response_type'', ''scope'', ''state'']"

lemma sort_signed_keys:
  "sort [''response_type'', ''client_id'', ''redirect_uri'', ''resource'', ''scope'', ''state'', ''code_challenge'',
     ''code_challenge_method'', char_of (0 :: nat) # ''subject''] = signed_keys"
  by code_simp

text \<open>The part of the signed text that the fields between the challenge and the state make up.\<close>

definition middle :: "string \<Rightarrow> string \<Rightarrow> string \<Rightarrow> string \<Rightarrow> string" where
  "middle uri res sc state =
     ''|code_challenge_method=S256|redirect_uri='' @ uri @ ''|resource='' @ res @
     ''|response_type=code|scope='' @ sc @ ''|state='' @ state"

lemma form_material:
  "signed_material (form_fields c uri res sc state ch) u =
     (char_of (0 :: nat) # ''subject'') @ ''='' @ u @ ''|client_id='' @ c @ ''|code_challenge='' @ ch @ middle uri res sc state"
proof -
  let ?nul = "char_of (0 :: nat) # ''subject''"
  have new: "dset ?nul u (form_fields c uri res sc state ch) = form_fields c uri res sc state ch @ [(?nul, u)]"
    by (simp add: form_fields_def)
  have keys: "sort (map fst (form_fields c uri res sc state ch @ [(?nul, u)])) = signed_keys"
    using sort_signed_keys by (simp add: form_fields_def)
  show ?thesis
    unfolding signed_material_def Let_def new keys
    by (simp add: signed_keys_def form_fields_def param_def middle_def)
qed

lemma signature_collides:
  "consent_signature srv (form_fields c uri res sc (state @ middle uri res sc' state') ch) u =
   consent_signature srv (form_fields c uri res sc' state' (ch @ middle uri res sc state)) u"
  by (simp add: consent_signature_def form_material) (simp add: middle_def)

text \<open>
  C34. The signature on a consent page does not bind its scopes. A client that puts the right text
  into \<^verbatim>\<open>state\<close> gets a page for the scopes \<open>sc\<close> it asks for, whose printed signature also approves
  a form with any other scopes the server offers: posted by the same user it is accepted, and
  grants scopes the page did not show.
\<close>

theorem page_signature_approves_other_scopes:
  assumes "authorize_route (memory_oauth srv) rt s wall req query = ConsentPage cx" and "client_memory_ok s"
    and "ar_state (cx_request cx) = state @ middle (ar_redirect_uri (cx_request cx)) (ar_resource (cx_request cx)) sc' state'"
    and "validate_scopes (oa_settings srv) (words sc') = Inr scopes'"
    and "\<forall>k m. list_all is_ascii (oa_hmac srv k m)" and "lower site \<noteq> ''cross-site''"
    and "tenant_required rt \<longrightarrow> t \<in> tc_id ` set (cx_tenants cx)"
    and "mcp_resource_url (oa_settings srv) \<noteq> []"
  shows "\<exists>form p. param form ''signature'' = param (cx_form_fields cx) ''signature'' \<and>
    consent_decision (memory_oauth srv) rt s wall req site form = Inr (p, cx_user_id cx, t) \<and> ar_scopes p = scopes' \<and>
    ar_client p = ar_client (cx_request cx) \<and> ar_redirect_uri p = ar_redirect_uri (cx_request cx)"
proof -
  let ?srv = "memory_oauth srv" and ?p = "cx_request cx" and ?res = "mcp_resource_url (oa_settings srv)"
  let ?c = "oc_client_id (ar_client ?p)" and ?uri = "ar_redirect_uri ?p" and ?sc = "join '' '' (ar_scopes ?p)"
  note page = page_facts [OF assms(1)]
  note parsed = parse_request_facts [OF page(1)] and inputs = parsed_inputs [OF page(1)]
  obtain subject where subject: "subject_of rt req = Some subject" "cx_user_id cx = sj_user_id subject"
    "\<not> is_stale (oa_settings srv) wall subject" "cx_tenants cx = tenants_for rt subject" using page(2) by auto
  have tenants: "tenant_required rt \<longrightarrow> t \<in> tc_id ` set (tenants_for rt subject)"
    using assms(7) subject(4) by simp
  have row: "dget s (param query ''client_id'') = Some (ar_client ?p)"
    using parsed(1) by (auto simp: memory_client_ops_def mem_client_get_def split: option.splits if_splits)
  then have client: "?c = param query ''client_id''" using assms(2) by (simp add: client_memory_ok_def)
  let ?ch = "ar_code_challenge ?p @ middle ?uri ?res ?sc state"
  let ?f = "form_fields ?c ?uri ?res sc' state' ?ch"
  let ?sig = "consent_signature ?srv ?f (cx_user_id cx)"
  obtain p where p: "parse_authorization_request ?srv s wall ?f = Inr p" "ar_scopes p = scopes'"
    "ar_client p = ar_client ?p" "ar_redirect_uri p = ?uri"
    using parse_form [of ?c ?srv wall s "ar_client ?p" ?uri ?ch sc' scopes' state'] parsed inputs(1,2) client assms(4,8)
    by simp
  have "list_all is_ascii ?sig" using assms(5) by (simp add: consent_signature_def)
  from decision_accepts [OF assms(6) p(1) subject(1) _ _ this tenants]
  have "consent_decision ?srv rt s wall req site (allow_post ?f ?sig t) = Inr (p, cx_user_id cx, t)"
    using subject(2,3) by simp
  moreover have "param (cx_form_fields cx) ''signature'' = ?sig"
  proof -
    have "param (cx_form_fields cx) ''signature'' = consent_signature ?srv (consent_fields ?p) (cx_user_id cx)"
      by (simp add: page(3) consent_fields_def param_def)
    also have "consent_fields ?p = form_fields ?c ?uri ?res ?sc (state @ middle ?uri ?res sc' state') (ar_code_challenge ?p)"
      using assms(3) parsed(4) by (simp add: consent_fields_form [OF parsed(6)])
    finally show ?thesis by (simp only: signature_collides)
  qed
  moreover have "param (allow_post ?f ?sig t) ''signature'' = ?sig" by (rule allow_post_parts(1))
  ultimately show ?thesis
    using p(2-4) by (intro exI [of _ "allow_post ?f ?sig t"] exI [of _ p]) simp
qed

theorem page_signature_approves_other_scopes_witness:
  "ar_scopes (cx_request (demo_page (middle ''https://c.x/cb'' ''https://m.x'' ''write'' ''st''))) = [''read''] \<and>
   (\<exists>form p. param form ''signature'' =
        param (cx_form_fields (demo_page (middle ''https://c.x/cb'' ''https://m.x'' ''write'' ''st''))) ''signature'' \<and>
      consent_decision demo_oauth demo_router demo_clients second ''u1'' [] form = Inr (p, ''u1'', ''t1'') \<and>
      ar_scopes p = [''write''])"
proof -
  let ?state = "middle ''https://c.x/cb'' ''https://m.x'' ''write'' ''st''"
  let ?query = "form_fields ''c1'' ''https://c.x/cb'' ''https://m.x'' ''read'' ?state ''sv''"
  have page: "authorize_route demo_oauth demo_router demo_clients second ''u1'' ?query = ConsentPage (demo_page ?state)"
    by code_simp
  have facts: "ar_scopes (cx_request (demo_page ?state)) = [''read'']" "cx_user_id (demo_page ?state) = ''u1''"
    "ar_state (cx_request (demo_page ?state)) =
       [] @ middle (ar_redirect_uri (cx_request (demo_page ?state))) (ar_resource (cx_request (demo_page ?state))) ''write'' ''st''"
    "validate_scopes demo_oauth_settings (words ''write'') = Inr [''write'']"
    "''t1'' \<in> tc_id ` set (cx_tenants (demo_page ?state))" "mcp_resource_url demo_oauth_settings \<noteq> []"
    by code_simp+
  have site: "lower [] \<noteq> ''cross-site''" by simp
  show ?thesis
    using page_signature_approves_other_scopes [of demo_oauth, unfolded memory_demo_oauth demo_oauth_parts,
        OF page demo_clients_ok facts(3,4) demo_hmac site _ facts(6), of "''t1''"] facts(1,2,5) by auto
qed

end
