(* ===== verification/OAuthRefresh.thy ===== *)
theory OAuthRefresh
  imports OAuthProperties
begin

text \<open>
  What a refresh does before and after the rotation: the checks that leave the token unspent, and
  the one that comes too late.
\<close>

lemma unspent_on_fault:
  assumes "refresh_fault srv st svc (oq_wall q) form = Some f" and "oa_flows srv = Some svc"
    and "param form ''refresh_token'' \<noteq> []"
  shows "refresh srv st q form = (Inl f, st)"
  using assms by (simp add: refresh_def Let_def)

lemma device_label_own_prefix:
  assumes "t \<noteq> []"
  shows "refresh_device_label c t = (refresh_device_label c [] @ '':'') @ t" and "refresh_device_label c t \<noteq> refresh_device_label c []"
  using assms by (simp_all add: refresh_device_label_def)

lemma consent_for_own_tenant:
  assumes "t \<noteq> []" and "c \<noteq> []"
  shows "consent_for_refresh srv s u c (refresh_device_label c t) =
    find (\<lambda>g. cn_tenant_id g = t) (list_for_client (oa_consents srv) s u c)"
proof -
  let ?p = "refresh_device_label c [] @ '':''"
  have "drop (length p) (p @ t) = t" for p by simp
  note rest = this [of ?p, folded device_label_own_prefix(1) [OF assms(1)]]
  have "startswith (refresh_device_label c t) ?p"
    unfolding device_label_own_prefix(1) [OF assms(1)] by (rule startswith_append)
  then show ?thesis
    using device_label_own_prefix(2) [OF assms(1)] assms(2) rest by (simp add: consent_for_refresh_def Let_def)
qed

text \<open>
  A refresh may be refused after its token is spent. With consents for one client in two
  tenants, asking for a scope that only the other tenant's consent covers passes the check made
  before the rotation; the token is then spent, and the answer is \<^verbatim>\<open>invalid_scope\<close> with no
  successor, although the code promises to refuse such a request with the token intact.
\<close>

theorem late_scope_refusal_spends_token:
  fixes srv :: "(client_memory, authz_memory, consent_memory, refresh_memory) oauth_server"
    and st :: "(client_memory, authz_memory, consent_memory, refresh_memory) oauth_state"
  assumes "refresh_memory_ok (st_sessions st)" and "consent_memory_ok (st_consents st)"
    and "oa_flows srv = Some (memory_service scfg H w0)" and "oa_guard srv = None"
    and "param form ''refresh_token'' = token" and "token \<noteq> []" and "param form ''client_id'' = c" and "c \<noteq> []"
    and "param form ''resource'' = []"
    and "words (param form ''scope'') \<noteq> []"
    and "set (words (param form ''scope'')) \<subseteq> set (mcp_scopes_supported (oa_settings srv))"
    and "dget (st_sessions st) (H token) = Some row" and "live_record scfg (oq_wall q) (oq_wall q) row"
    and "\<not> rt_is_consumed row" and "rt_device row = refresh_device_label c t" and "t \<noteq> []"
    and "dget (st_sessions st) (H (oq_token1 q)) = None"
    and "g1 \<in> set (list_for_client memory_consent_ops (st_consents st) (rt_user_id row) c)" and "cn_tenant_id g1 = t"
    and "\<forall>g \<in> set (list_for_client memory_consent_ops (st_consents st) (rt_user_id row) c).
      cn_tenant_id g = t \<longrightarrow> \<not> consent_covers g (words (param form ''scope''))"
    and "g2 \<in> set (list_for_client memory_consent_ops (st_consents st) (rt_user_id row) c)"
    and "consent_covers g2 (words (param form ''scope''))"
  shows "\<exists>st' row'. refresh (memory_oauth srv) st q form = (Inl (bad ''invalid_scope''), st') \<and>
    dget (st_sessions st') (H token) = Some row' \<and> rt_is_consumed row'"
proof -
  let ?svc = "memory_service scfg H w0" and ?w = "oq_wall q" and ?srv = "memory_oauth srv"
  let ?grants = "list_for_client memory_consent_ops (st_consents st) (rt_user_id row) c"
  let ?m = "successor_request ?w row (oq_ip q) (oq_user_agent q) ?w"
  let ?rot = "rotate_session ?svc (st_sessions st) ?w (oq_token1 q) (oq_token2 q) token (oq_ip q) (oq_user_agent q) ?w"
  have "validate_scopes (oa_settings srv) (words (param form ''scope'')) = Inr (words (param form ''scope''))"
    using assms(10,11) by (auto simp: validate_scopes_def filter_empty_conv)
  moreover have "refresh_could_cover ?srv st ?svc ?w token c (words (param form ''scope''))"
  proof (cases "peek ?svc (st_sessions st) ?w token ?w")
    case (Some presented)
    then have "ps_user_id presented = rt_user_id row"
      using assms(12) by (auto simp: peek_def memory_refresh_ops_def mem_refresh_get_def split: if_splits)
    then show ?thesis
      using Some assms(21,22) by (auto simp: refresh_could_cover_def list_ex_iff Let_def)
  qed (simp add: refresh_could_cover_def)
  moreover have "refresh_allowed ?srv st ?svc ?w token c = Some True"
    using assms(4) by (simp add: refresh_allowed_def memory_oauth_def)
  ultimately have fault: "refresh_fault ?srv st ?svc ?w form = None"
    using assms(5,7,9) by (simp add: refresh_fault_def Let_def)
  note live = sessions.rotate_live [where cfg = scfg and H = H and clock = w0 and s = "st_sessions st", simplified,
      OF assms(1,12-14,17), of "oq_token2 q" "oq_ip q" "oq_user_agent q"]
  obtain outcome s where rot: "?rot = (outcome, s)" by force
  obtain issued where out: "rr_issued outcome = Some issued" "rr_user_id outcome = rt_user_id row"
    "ir_device issued = refresh_device_label c t"
    using live(1) rot assms(15) by (auto simp: issued_for_def mint_def successor_request_def refresh_device_label_def)
  have spent: "dget s (H token) = Some (row\<lparr>rt_consumed_at := iso_seconds ?w, rt_successor_hash := H (oq_token1 q)\<rparr>)"
    using live(2) rot by simp
  obtain g where g: "find (\<lambda>g. cn_tenant_id g = t) ?grants = Some g" "g \<in> set ?grants" "cn_tenant_id g = t"
  proof (cases "find (\<lambda>g. cn_tenant_id g = t) ?grants")
    case None
    then show thesis using assms(18,19) by (simp add: find_None_iff)
  next
    case (Some g)
    then have "g \<in> set ?grants \<and> cn_tenant_id g = t" by (auto simp: find_Some_iff dest!: nth_mem)
    then show thesis using that Some by blast
  qed
  have stands: "dget (st_consents st) (cn_consent_id g) = Some g"
    using g(2) mem_consents.client_list [OF assms(2)] by blast
  let ?mark = "cs_mark_used memory_consent_ops (st_consents st) (cn_consent_id g) (iso_epoch (call_moment q))"
  have used: "fst ?mark" using mem_consents.consent_mark [OF assms(2)] stands by blast
  let ?st = "st\<lparr>st_sessions := s, st_consents := snd ?mark\<rparr>"
  have "refresh_scopes (oa_settings srv) g (words (param form ''scope'')) = None"
    using assms(10,20) g(2,3) by (simp add: refresh_scopes_def)
  moreover have "consent_for_refresh ?srv (st_consents st) (rt_user_id row) c (refresh_device_label c t) = Some g"
    using consent_for_own_tenant [OF assms(16,8), of ?srv] g(1) by simp
  ultimately have "refresh_answer ?srv (st\<lparr>st_sessions := s\<rparr>) ?svc q form outcome issued = (Inl (bad ''invalid_scope''), ?st)"
    using out(2,3) used assms(7) by (simp add: refresh_answer_def Let_def case_prod_beta)
  then have "refresh ?srv st q form = (Inl (bad ''invalid_scope''), ?st)"
    using assms(3,5,6) fault rot out(1) by (simp add: refresh_def Let_def)
  moreover have "rt_is_consumed (row\<lparr>rt_consumed_at := iso_seconds ?w, rt_successor_hash := H (oq_token1 q)\<rparr>)"
    by (simp add: rt_is_consumed_def)
  ultimately show ?thesis using spent by auto
qed

text \<open>
  A user who approved reading in one tenant and writing in another has redeemed the first code, and
  asks to refresh for writing.
\<close>

definition demo_late_consent :: "string \<Rightarrow> string \<Rightarrow> string \<Rightarrow> consent" where
  "demo_late_consent i t sc =
     \<lparr>cn_consent_id = i, cn_user_id = ''u1'', cn_client_id = ''c1'', cn_tenant_id = t, cn_resource = ''https://m.x'',
      cn_scopes = [sc], cn_granted_at = ''1970-01-01T00:00:01Z'', cn_updated_at = ''1970-01-01T00:00:01Z'',
      cn_last_used_at = ''1970-01-01T00:00:01Z''\<rparr>"

definition demo_late_row :: refresh_token where
  "demo_late_row =
     \<lparr>rt_token_hash = demo_hash ''x2'', rt_family_id = ''f2'', rt_user_id = ''u1'', rt_generation = 1,
      rt_created_at = ''1970-01-01T00:00:02Z'', rt_expires_at = 3602, rt_consumed_at = [], rt_successor_hash = [],
      rt_revoked = False, rt_device = refresh_device_label ''c1'' ''t1'', rt_ip_first_seen = [],
      rt_family_started_at = ''1970-01-01T00:00:02Z'', rt_auth_time = 2, rt_amr = [], rt_ip_last_seen = [],
      rt_client = [], rt_platform = [], rt_browser = []\<rparr>"

definition demo_late :: "(client_memory, authz_memory, consent_memory, refresh_memory) oauth_state" where
  "demo_late = \<lparr>st_clients = st_clients (ru_state demo_run0), st_codes = [],
     st_consents = [(''u1'', demo_late_consent ''u1'' ''t1'' ''read''), (''u2'', demo_late_consent ''u2'' ''t2'' ''write'')],
     st_sessions = [(demo_hash ''x2'', demo_late_row)]\<rparr>"

definition demo_refresh_form :: oauth_params where
  "demo_refresh_form = [(''grant_type'', ''refresh_token''), (''refresh_token'', ''x2''), (''client_id'', ''c1''),
     (''scope'', ''write'')]"

theorem late_scope_refusal_spends_token_witness:
  "\<exists>st' row'. refresh demo_oauth demo_late (demo_call (3 * second) ''3'') demo_refresh_form = (Inl (bad ''invalid_scope''), st') \<and>
    dget (st_sessions st') (demo_hash ''x2'') = Some row' \<and> rt_is_consumed row'"
proof -
  let ?q = "demo_call (3 * second) ''3''"
  let ?grants = "list_for_client memory_consent_ops (st_consents demo_late) (rt_user_id demo_late_row) ''c1''"
  have sessions: "refresh_memory_ok (st_sessions demo_late)"
  proof (rule refresh_memory_okI)
    show "dict_ok (st_sessions demo_late)" by code_simp
    have "list_all (\<lambda>(h, r). rt_token_hash r = h) (st_sessions demo_late)" by code_simp
    then show "\<And>h r. dget (st_sessions demo_late) h = Some r \<Longrightarrow> rt_token_hash r = h"
      by (force simp: list_all_iff dest: map_of_SomeD)
  qed
  have consents: "consent_memory_ok (st_consents demo_late)"
  proof -
    have "dict_ok (st_consents demo_late)" "list_all (\<lambda>(i, r). cn_consent_id r = i) (st_consents demo_late)"
      by code_simp+
    then show ?thesis by (force simp: consent_memory_ok_def list_all_iff dest: map_of_SomeD)
  qed
  have form: "param demo_refresh_form ''refresh_token'' = ''x2''" "param demo_refresh_form ''client_id'' = ''c1''"
    "param demo_refresh_form ''resource'' = []" "words (param demo_refresh_form ''scope'') = [''write'']"
    "set [''write''] \<subseteq> set (mcp_scopes_supported demo_oauth_settings)" by code_simp+
  have row: "dget (st_sessions demo_late) (demo_hash ''x2'') = Some demo_late_row"
    "live_record demo_settings (oq_wall ?q) (oq_wall ?q) demo_late_row" "\<not> rt_is_consumed demo_late_row"
    "rt_device demo_late_row = refresh_device_label ''c1'' ''t1''"
    "dget (st_sessions demo_late) (demo_hash (oq_token1 ?q)) = None" by code_simp+
  have grants: "cn_tenant_id (?grants ! 0) = ''t1''" "consent_covers (?grants ! 1) [''write'']" "length ?grants = 2"
    "list_all (\<lambda>g. cn_tenant_id g = ''t1'' \<longrightarrow> \<not> consent_covers g [''write'']) ?grants" by code_simp+
  have first: "?grants ! 0 \<in> set ?grants" and other: "?grants ! 1 \<in> set ?grants"
    using grants(3) by (auto intro!: nth_mem)
  have guard: "oa_guard demo_oauth = None" by (simp add: demo_oauth_def)
  have ends: "''x2'' \<noteq> []" "''c1'' \<noteq> []" "''t1'' \<noteq> []" "[''write''] \<noteq> []" by simp_all
  show ?thesis
    using late_scope_refusal_spends_token [of demo_late demo_oauth demo_settings demo_hash 0 demo_refresh_form "''x2''" "''c1''"
        demo_late_row ?q "''t1''" "?grants ! 0" "?grants ! 1", unfolded memory_demo_oauth demo_oauth_parts form(4),
        OF sessions consents refl guard form(1) ends(1) form(2) ends(2) form(3) ends(4) form(5) row(1-4) ends(3) row(5)
        first grants(1) _ other grants(2)] grants(4)
    by (simp add: list_all_iff)
qed

end
