(* ===== verification/ScimSchema.thy ===== *)
theory ScimSchema
  imports Prelude
begin

text \<open>
  identity/scim/schema.py: the attribute definitions, schemas and resource types the SCIM router
  serves, their lookups by name or URN in any case, and the documents that describe them. The
  keyword arguments of an attribute other than its name and sub-attributes are a record, so a
  definition reads as the code's call: the record updates are the keywords given.
\<close>

definition user_schema :: string where "user_schema = ''urn:ietf:params:scim:schemas:core:2.0:User''"
definition enterprise_user_schema :: string where
  "enterprise_user_schema = ''urn:ietf:params:scim:schemas:extension:enterprise:2.0:User''"
definition group_schema :: string where "group_schema = ''urn:ietf:params:scim:schemas:core:2.0:Group''"
definition service_provider_config_schema :: string where
  "service_provider_config_schema = ''urn:ietf:params:scim:schemas:core:2.0:ServiceProviderConfig''"
definition resource_type_schema :: string where
  "resource_type_schema = ''urn:ietf:params:scim:schemas:core:2.0:ResourceType''"
definition schema_schema :: string where "schema_schema = ''urn:ietf:params:scim:schemas:core:2.0:Schema''"

section \<open>Attributes, schemas and resource types\<close>

record attribute_info =
  ai_type :: string
  ai_multi_valued :: bool
  ai_required :: bool
  ai_case_exact :: bool
  ai_mutability :: string
  ai_returned :: string
  ai_uniqueness :: string
  ai_description :: string
  ai_canonical_values :: "string list"
  ai_reference_types :: "string list"

definition plain :: attribute_info where
  "plain = \<lparr>ai_type = ''string'', ai_multi_valued = False, ai_required = False, ai_case_exact = False,
     ai_mutability = ''readWrite'', ai_returned = ''default'', ai_uniqueness = ''none'',
     ai_description = [], ai_canonical_values = [], ai_reference_types = []\<rparr>"

datatype scim_attribute =
  ScimAttribute (at_name: string) (at_info: attribute_info) (at_sub_attributes: "scim_attribute list")

definition named_attribute :: "scim_attribute list \<Rightarrow> string \<Rightarrow> scim_attribute option" where
  "named_attribute items name = find (\<lambda>item. lower (at_name item) = lower name) items"

definition sub_attribute :: "scim_attribute \<Rightarrow> string \<Rightarrow> scim_attribute option" where
  "sub_attribute a name = named_attribute (at_sub_attributes a) name"

fun attribute_dict :: "scim_attribute \<Rightarrow> json" where
  "attribute_dict (ScimAttribute name info subs) =
     JObj ([(''name'', JStr name), (''type'', JStr (ai_type info)), (''multiValued'', JBool (ai_multi_valued info)),
        (''description'', JStr (if ai_description info \<noteq> [] then ai_description info else name)),
        (''required'', JBool (ai_required info)), (''caseExact'', JBool (ai_case_exact info)),
        (''mutability'', JStr (ai_mutability info)), (''returned'', JStr (ai_returned info)),
        (''uniqueness'', JStr (ai_uniqueness info))] @
       (if subs \<noteq> [] then [(''subAttributes'', JArr (map attribute_dict subs))] else []) @
       (if ai_canonical_values info \<noteq> [] then [(''canonicalValues'', JArr (map JStr (ai_canonical_values info)))] else []) @
       (if ai_reference_types info \<noteq> [] then [(''referenceTypes'', JArr (map JStr (ai_reference_types info)))] else []))"

record scim_schema =
  sc_id :: string
  sc_name :: string
  sc_description :: string
  sc_attributes :: "scim_attribute list"

definition schema_attribute :: "scim_schema \<Rightarrow> string \<Rightarrow> scim_attribute option" where
  "schema_attribute s name = named_attribute (sc_attributes s) name"

definition schema_dict :: "scim_schema \<Rightarrow> string \<Rightarrow> json" where
  "schema_dict s base_url =
     JObj [(''schemas'', JArr [JStr schema_schema]), (''id'', JStr (sc_id s)), (''name'', JStr (sc_name s)),
       (''description'', JStr (sc_description s)), (''attributes'', JArr (map attribute_dict (sc_attributes s))),
       (''meta'', JObj [(''resourceType'', JStr ''Schema''),
          (''location'', JStr (base_url @ ''/Schemas/'' @ sc_id s))])]"

record scim_resource_type =
  rt_name :: string
  rt_endpoint :: string
  rt_schema :: scim_schema
  rt_extensions :: "scim_schema list"

definition rt_extension :: "scim_resource_type \<Rightarrow> string \<Rightarrow> scim_schema option" where
  "rt_extension rt urn = find (\<lambda>item. lower (sc_id item) = lower urn) (rt_extensions rt)"

definition schema_for :: "scim_resource_type \<Rightarrow> string \<Rightarrow> scim_schema option" where
  "schema_for rt urn = (if lower urn = lower (sc_id (rt_schema rt)) then Some (rt_schema rt) else rt_extension rt urn)"

definition resource_type_dict :: "scim_resource_type \<Rightarrow> string \<Rightarrow> json" where
  "resource_type_dict rt base_url =
     JObj [(''schemas'', JArr [JStr resource_type_schema]), (''id'', JStr (rt_name rt)), (''name'', JStr (rt_name rt)),
       (''endpoint'', JStr (rt_endpoint rt)), (''description'', JStr (rt_name rt @ '' resources'')),
       (''schema'', JStr (sc_id (rt_schema rt))),
       (''schemaExtensions'',
          JArr (map (\<lambda>item. JObj [(''schema'', JStr (sc_id item)), (''required'', JBool False)]) (rt_extensions rt))),
       (''meta'', JObj [(''resourceType'', JStr ''ResourceType''),
          (''location'', JStr (base_url @ ''/ResourceTypes/'' @ rt_name rt))])]"

section \<open>The tables\<close>

definition simple :: "string \<Rightarrow> scim_attribute" where
  "simple name = ScimAttribute name plain []"

definition multi :: "string \<Rightarrow> attribute_info \<Rightarrow> scim_attribute list \<Rightarrow> scim_attribute" where
  "multi name keywords sub =
     ScimAttribute name (keywords\<lparr>ai_type := ''complex'', ai_multi_valued := True\<rparr>)
       (if sub \<noteq> [] then sub
        else [simple ''value'', simple ''display'', simple ''type'',
              ScimAttribute ''primary'' (plain\<lparr>ai_type := ''boolean''\<rparr>) []])"

definition common_attributes :: "scim_attribute list" where
  "common_attributes =
     [ScimAttribute ''id'' (plain\<lparr>ai_case_exact := True, ai_mutability := ''readOnly'', ai_returned := ''always'',
        ai_uniqueness := ''server''\<rparr>) [],
      ScimAttribute ''externalId'' (plain\<lparr>ai_case_exact := True\<rparr>) [],
      ScimAttribute ''meta'' (plain\<lparr>ai_type := ''complex'', ai_mutability := ''readOnly''\<rparr>)
        [ScimAttribute ''resourceType'' (plain\<lparr>ai_case_exact := True, ai_mutability := ''readOnly''\<rparr>) [],
         ScimAttribute ''created'' (plain\<lparr>ai_type := ''dateTime'', ai_mutability := ''readOnly''\<rparr>) [],
         ScimAttribute ''lastModified'' (plain\<lparr>ai_type := ''dateTime'', ai_mutability := ''readOnly''\<rparr>) [],
         ScimAttribute ''location'' (plain\<lparr>ai_type := ''reference'', ai_case_exact := True, ai_mutability := ''readOnly''\<rparr>) [],
         ScimAttribute ''version'' (plain\<lparr>ai_case_exact := True, ai_mutability := ''readOnly''\<rparr>) []]]"

definition core_user :: scim_schema where
  "core_user =
     \<lparr>sc_id = user_schema, sc_name = ''User'', sc_description = ''User Account'',
      sc_attributes =
        [ScimAttribute ''userName'' (plain\<lparr>ai_required := True, ai_uniqueness := ''server'',
           ai_description := ''Unique identifier for the User.''\<rparr>) [],
         ScimAttribute ''name'' (plain\<lparr>ai_type := ''complex''\<rparr>)
           (map simple [''formatted'', ''familyName'', ''givenName'', ''middleName'', ''honorificPrefix'', ''honorificSuffix'']),
         simple ''displayName'', simple ''nickName'',
         ScimAttribute ''profileUrl'' (plain\<lparr>ai_type := ''reference'', ai_reference_types := [''external'']\<rparr>) [],
         simple ''title'', simple ''userType'', simple ''preferredLanguage'', simple ''locale'', simple ''timezone'',
         ScimAttribute ''active'' (plain\<lparr>ai_type := ''boolean''\<rparr>) [],
         ScimAttribute ''password'' (plain\<lparr>ai_mutability := ''writeOnly'', ai_returned := ''never''\<rparr>) [],
         multi ''emails'' plain [], multi ''phoneNumbers'' plain [], multi ''ims'' plain [], multi ''photos'' plain [],
         multi ''addresses'' plain
           (map simple [''formatted'', ''streetAddress'', ''locality'', ''region'', ''postalCode'', ''country'', ''type''] @
            [ScimAttribute ''primary'' (plain\<lparr>ai_type := ''boolean''\<rparr>) []]),
         multi ''groups'' (plain\<lparr>ai_mutability := ''readOnly''\<rparr>)
           [ScimAttribute ''value'' (plain\<lparr>ai_mutability := ''readOnly''\<rparr>) [],
            ScimAttribute ''$ref'' (plain\<lparr>ai_type := ''reference'', ai_mutability := ''readOnly'', ai_reference_types := [''Group'']\<rparr>) [],
            ScimAttribute ''display'' (plain\<lparr>ai_mutability := ''readOnly''\<rparr>) [],
            ScimAttribute ''type'' (plain\<lparr>ai_mutability := ''readOnly'', ai_canonical_values := [''direct'', ''indirect'']\<rparr>) []],
         multi ''entitlements'' plain [], multi ''roles'' plain [], multi ''x509Certificates'' plain []]\<rparr>"

definition enterprise_user :: scim_schema where
  "enterprise_user =
     \<lparr>sc_id = enterprise_user_schema, sc_name = ''EnterpriseUser'', sc_description = ''Enterprise User'',
      sc_attributes =
        map simple [''employeeNumber'', ''costCenter'', ''organization'', ''division'', ''department''] @
        [ScimAttribute ''manager'' (plain\<lparr>ai_type := ''complex''\<rparr>)
           [simple ''value'',
            ScimAttribute ''$ref'' (plain\<lparr>ai_type := ''reference'', ai_reference_types := [''User'']\<rparr>) [],
            ScimAttribute ''displayName'' (plain\<lparr>ai_mutability := ''readOnly''\<rparr>) []]]\<rparr>"

definition core_group :: scim_schema where
  "core_group =
     \<lparr>sc_id = group_schema, sc_name = ''Group'', sc_description = ''Group'',
      sc_attributes =
        [ScimAttribute ''displayName'' (plain\<lparr>ai_required := True,
           ai_description := ''A human-readable name for the Group.''\<rparr>) [],
         ScimAttribute ''members'' (plain\<lparr>ai_type := ''complex'', ai_multi_valued := True\<rparr>)
           [ScimAttribute ''value'' (plain\<lparr>ai_case_exact := True, ai_mutability := ''immutable''\<rparr>) [],
            ScimAttribute ''$ref'' (plain\<lparr>ai_type := ''reference'', ai_mutability := ''immutable'',
              ai_reference_types := [''User'', ''Group'']\<rparr>) [],
            ScimAttribute ''display'' (plain\<lparr>ai_mutability := ''readOnly''\<rparr>) [],
            ScimAttribute ''type'' (plain\<lparr>ai_mutability := ''immutable'', ai_canonical_values := [''User'', ''Group'']\<rparr>) []]]\<rparr>"

definition user_resource_type :: scim_resource_type where
  "user_resource_type = \<lparr>rt_name = ''User'', rt_endpoint = ''/Users'', rt_schema = core_user, rt_extensions = [enterprise_user]\<rparr>"

definition group_resource_type :: scim_resource_type where
  "group_resource_type = \<lparr>rt_name = ''Group'', rt_endpoint = ''/Groups'', rt_schema = core_group, rt_extensions = []\<rparr>"

definition all_schemas :: "scim_schema list" where
  "all_schemas = [core_user, enterprise_user, core_group]"

definition resource_type :: "string \<Rightarrow> scim_resource_type" where
  "resource_type kind = (if kind = ''User'' then user_resource_type else group_resource_type)"

definition schema_by_id :: "string \<Rightarrow> scim_schema option" where
  "schema_by_id urn = map_of (map (\<lambda>item. (lower (sc_id item), item)) all_schemas) (lower urn)"

definition service_provider_config :: "string \<Rightarrow> int \<Rightarrow> string \<Rightarrow> json" where
  "service_provider_config base_url max_results documentation_uri =
     JObj ([(''schemas'', JArr [JStr service_provider_config_schema]),
        (''patch'', JObj [(''supported'', JBool True)]),
        (''bulk'', JObj [(''supported'', JBool False), (''maxOperations'', JNum 0), (''maxPayloadSize'', JNum 0)]),
        (''filter'', JObj [(''supported'', JBool True), (''maxResults'', JNum (of_int max_results))]),
        (''changePassword'', JObj [(''supported'', JBool False)]),
        (''sort'', JObj [(''supported'', JBool False)]),
        (''etag'', JObj [(''supported'', JBool True)]),
        (''authenticationSchemes'',
           JArr [JObj [(''type'', JStr ''oauthbearertoken''), (''name'', JStr ''OAuth Bearer Token''),
             (''description'', JStr ''A per-directory bearer token, sent as `Authorization: Bearer <token>`.''),
             (''primary'', JBool True)]]),
        (''meta'', JObj [(''resourceType'', JStr ''ServiceProviderConfig''),
           (''location'', JStr (base_url @ ''/ServiceProviderConfig''))])] @
       (if documentation_uri \<noteq> [] then [(''documentationUri'', JStr documentation_uri)] else []))"

end
