(* ===== verification/ScimFilter.thy ===== *)
theory ScimFilter
  imports ScimSchema
begin

text \<open>
  identity/scim/filters.py: the tokens, the attribute paths and the recursive descent parser of
  the RFC 7644 filter language. The parser's index is the list of tokens left; its depth counter
  is the number of levels left, counted down from \<^verbatim>\<open>MAX_FILTER_DEPTH\<close>. The two loops of the
  parser take fuel, one unit for each token left, which is never used up (ScimProperties). A
  number is the rational its literal denotes, and a string literal with an escape outside
  Latin-1, where the development's strings end, is \<open>OutsideText\<close>. Messages are left out.
\<close>

datatype scim_error = InvalidFilter | OutsideText | OutOfFuel

definition max_filter_length :: nat where "max_filter_length = 4096"
definition max_filter_depth :: nat where "max_filter_depth = 32"

section \<open>Tokens\<close>

datatype token = Bracket char | StringTok string | Word string

definition is_bracket :: "char \<Rightarrow> bool" where
  "is_bracket c = (c \<in> set [CHR ''('', CHR '')'', CHR ''['', CHR '']''])"

definition is_word_char :: "char \<Rightarrow> bool" where
  "is_word_char c = (is_alnum c \<or> c \<in> set ''_$.:-+'')"

abbreviation dquote :: char where "dquote \<equiv> CHR 0x22"
abbreviation backslash :: char where "backslash \<equiv> CHR 0x5C"
abbreviation newline :: char where "newline \<equiv> CHR 0x0A"

text \<open>The rest of a string literal after its opening quote: what is between the quotes.\<close>

fun scan_string :: "string \<Rightarrow> (string \<times> string) option" where
  "scan_string [] = None"
| "scan_string [c] = (if c = dquote then Some ([], []) else None)"
| "scan_string (c # d # ds) =
     (if c = dquote then Some ([], d # ds)
      else if c = backslash
      then (if d = newline then None
            else map_option (\<lambda>(a, r). (c # d # a, r)) (scan_string ds))
      else map_option (\<lambda>(a, r). (c # a, r)) (scan_string (d # ds)))"

lemma scan_string_shorter: "scan_string s = Some (a, r) \<Longrightarrow> length r < length s"
  by (induction s arbitrary: a r rule: scan_string.induct) (auto split: if_splits)

function tokenize :: "string \<Rightarrow> token list option" where
  "tokenize text =
     (case dropWhile is_space text of
        [] \<Rightarrow> Some []
      | c # cs \<Rightarrow>
          if is_bracket c then map_option ((#) (Bracket c)) (tokenize cs)
          else if c = dquote
          then (case scan_string cs of
                  None \<Rightarrow> None
                | Some (raw, rest) \<Rightarrow> map_option ((#) (StringTok raw)) (tokenize rest))
          else if is_word_char c
          then map_option ((#) (Word (c # takeWhile is_word_char cs))) (tokenize (dropWhile is_word_char cs))
          else None)"
  by pat_completeness auto

lemma dropWhile_shorter: "dropWhile p xs = y # ys \<Longrightarrow> length ys < length xs"
  by (metis Suc_le_lessD length_Cons length_dropWhile_le)

termination tokenize
proof (relation "measure length", goal_cases)
  case 1
  then show ?case by simp
next
  case (2 s c cs)
  then show ?case using dropWhile_shorter by auto
next
  case (3 s c cs p raw rest)
  then have "length rest < length cs" using scan_string_shorter by auto
  then show ?case using dropWhile_shorter [OF 3(1)] by simp
next
  case (4 s c cs)
  have "length (dropWhile is_word_char cs) \<le> length cs" by (rule length_dropWhile_le)
  then show ?case using dropWhile_shorter [OF 4(1)] by simp
qed

declare tokenize.simps [simp del]

section \<open>Attribute paths\<close>

record attr_path =
  ap_urn :: string
  ap_attribute :: string
  ap_sub :: string

definition attr_path_str :: "attr_path \<Rightarrow> string" where
  "attr_path_str p =
     (let dotted = (if ap_sub p \<noteq> [] then ap_attribute p @ ''.'' @ ap_sub p else ap_attribute p)
      in if ap_urn p \<noteq> [] then ap_urn p @ '':'' @ dotted else dotted)"

text \<open>\<^verbatim>\<open>partition\<close> and \<^verbatim>\<open>rpartition\<close> at one character, without the separator.\<close>

definition partition_at :: "char \<Rightarrow> string \<Rightarrow> string \<times> string" where
  "partition_at sep s = (takeWhile (\<lambda>c. c \<noteq> sep) s, drop 1 (dropWhile (\<lambda>c. c \<noteq> sep) s))"

definition rpartition_at :: "char \<Rightarrow> string \<Rightarrow> string \<times> string" where
  "rpartition_at sep s =
     (let after = rev (takeWhile (\<lambda>c. c \<noteq> sep) (rev s)) in
      if sep \<in> set s then (take (length s - length after - 1) s, after) else ([], s))"

definition attr_name :: "string \<Rightarrow> bool" where
  "attr_name s =
     (let body = (case s of c # cs \<Rightarrow> if c = CHR ''$'' then cs else s | [] \<Rightarrow> [])
      in body \<noteq> [] \<and> is_alpha (hd body) \<and> list_all (\<lambda>c. is_alnum c \<or> c \<in> set ''_$-'') body)"

definition parse_attr_path :: "string \<Rightarrow> attr_path option" where
  "parse_attr_path text =
     (let named = (\<lambda>urn rest.
            let (attribute, sub) = partition_at (CHR ''.'') rest in
            if \<not> attr_name attribute \<or> (sub \<noteq> [] \<and> \<not> attr_name sub) then None
            else Some \<lparr>ap_urn = urn, ap_attribute = attribute, ap_sub = sub\<rparr>)
      in if startswith (lower text) ''urn:''
         then (let (urn, rest) = rpartition_at (CHR '':'') text in
               if urn = [] \<or> rest = [] then None else named urn rest)
         else named [] text)"

section \<open>Values\<close>

definition hex_digit :: "char \<Rightarrow> nat option" where
  "hex_digit c =
     (if is_digit c then Some (code c - 48)
      else if 97 \<le> code c \<and> code c \<le> 102 then Some (code c - 87)
      else if 65 \<le> code c \<and> code c \<le> 70 then Some (code c - 55)
      else None)"

definition hex4 :: "char \<Rightarrow> char \<Rightarrow> char \<Rightarrow> char \<Rightarrow> nat option" where
  "hex4 a b c d =
     (case (hex_digit a, hex_digit b, hex_digit c, hex_digit d) of
        (Some w, Some x, Some y, Some z) \<Rightarrow> Some (((w * 16 + x) * 16 + y) * 16 + z)
      | _ \<Rightarrow> None)"

definition simple_escape :: "char \<Rightarrow> char option" where
  "simple_escape c =
     map_of [(dquote, dquote), (backslash, backslash), (CHR ''/'', CHR ''/''), (CHR ''b'', CHR 0x08),
             (CHR ''f'', CHR 0x0C), (CHR ''n'', CHR 0x0A), (CHR ''r'', CHR 0x0D), (CHR ''t'', CHR 0x09)] c"

text \<open>
  \<^verbatim>\<open>json.loads\<close> of a string literal, given what is between its quotes, one character at a time:
  its code and what is left. \<^const>\<open>None\<close> is the \<^verbatim>\<open>ValueError\<close>.
\<close>

definition json_escape_char :: "string \<Rightarrow> (nat \<times> string) option" where
  "json_escape_char s =
     (case s of
        [] \<Rightarrow> None
      | e # rest \<Rightarrow>
          if e = CHR ''u''
          then (case rest of
                  h1 # h2 # h3 # h4 # tail \<Rightarrow> map_option (\<lambda>n. (n, tail)) (hex4 h1 h2 h3 h4)
                | _ \<Rightarrow> None)
          else map_option (\<lambda>c. (code c, rest)) (simple_escape e))"

definition json_char :: "char \<Rightarrow> string \<Rightarrow> (nat \<times> string) option" where
  "json_char c cs =
     (if code c < 32 then None else if c \<noteq> backslash then Some (code c, cs) else json_escape_char cs)"

lemma json_char_shorter: "json_char c cs = Some (n, rest) \<Longrightarrow> length rest \<le> length cs"
  by (auto simp: json_char_def json_escape_char_def split: if_splits list.splits)

function json_string :: "string \<Rightarrow> scim_error + string" where
  "json_string [] = Inr []"
| "json_string (c # cs) =
     (case json_char c cs of
        None \<Rightarrow> Inl InvalidFilter
      | Some (n, rest) \<Rightarrow>
          (case json_string rest of
             Inl e \<Rightarrow> Inl e
           | Inr s \<Rightarrow> if n < 256 then Inr (char_of n # s) else Inl OutsideText))"
  by pat_completeness auto

termination json_string
  by (relation "measure length") (auto simp: less_Suc_eq_le intro: json_char_shorter)

text \<open>The optional exponent and fraction of a number: what they denote, with nothing left over.\<close>

definition exponent :: "string \<Rightarrow> rat option" where
  "exponent s =
     (case s of
        [] \<Rightarrow> Some 1
      | e # rest \<Rightarrow>
          if e \<noteq> CHR ''e'' \<and> e \<noteq> CHR ''E'' then None
          else
            (let (negative, ds) =
               (case rest of c # cs \<Rightarrow> if c = CHR ''-'' then (True, cs) else if c = CHR ''+'' then (False, cs)
                                     else (False, rest) | [] \<Rightarrow> (False, []))
             in if ds = [] \<or> \<not> list_all is_digit ds then None
                else Some (if negative then 1 / 10 ^ digits_value ds else 10 ^ digits_value ds)))"

definition number :: "string \<Rightarrow> rat option" where
  "number text =
     (let (negative, body) = (case text of c # cs \<Rightarrow> if c = CHR ''-'' then (True, cs) else (False, text) | [] \<Rightarrow> (False, []));
          whole = takeWhile is_digit body;
          rest = dropWhile is_digit body;
          sign = (if negative then -1 else 1)
      in if whole = [] then None
         else
           (case rest of
              c # cs \<Rightarrow>
                if c = CHR ''.''
                then (let fraction = takeWhile is_digit cs in
                      if fraction = [] then None
                      else map_option (\<lambda>e. sign * (of_nat (digits_value whole) +
                              of_nat (digits_value fraction) / 10 ^ length fraction) * e)
                             (exponent (dropWhile is_digit cs)))
                else map_option (\<lambda>e. sign * of_nat (digits_value whole) * e) (exponent rest)
            | [] \<Rightarrow> Some (sign * of_nat (digits_value whole))))"

section \<open>The parser\<close>

datatype scim_op = OpEq | OpNe | OpCo | OpSw | OpEw | OpGt | OpLt | OpGe | OpLe | OpPr

definition op_names :: "(string \<times> scim_op) list" where
  "op_names = [(''eq'', OpEq), (''ne'', OpNe), (''co'', OpCo), (''sw'', OpSw), (''ew'', OpEw),
     (''gt'', OpGt), (''lt'', OpLt), (''ge'', OpGe), (''le'', OpLe), (''pr'', OpPr)]"

definition ordering_op :: "scim_op \<Rightarrow> bool" where
  "ordering_op op = (op \<in> set [OpGt, OpLt, OpGe, OpLe])"

datatype filter_node =
  Compare attr_path scim_op json
| FAnd filter_node filter_node
| FOr filter_node filter_node
| FNot filter_node
| ValuePath attr_path filter_node

type_synonym 'a parsed = "scim_error + 'a \<times> token list"

fun expect :: "char \<Rightarrow> token list \<Rightarrow> scim_error + token list" where
  "expect v (Bracket c # ts) = (if c = v then Inr ts else Inl InvalidFilter)"
| "expect v ts = Inl InvalidFilter"

fun keyword :: "string \<Rightarrow> token list \<Rightarrow> token list option" where
  "keyword w (Word t # ts) = (if lower t = w then Some ts else None)"
| "keyword w ts = None"

fun parse_value :: "token list \<Rightarrow> json parsed" where
  "parse_value (StringTok raw # ts) = map_sum id (\<lambda>s. (JStr s, ts)) (json_string raw)"
| "parse_value (Word text # ts) =
     (let lowered = lower text in
      if lowered = ''true'' then Inr (JBool True, ts)
      else if lowered = ''false'' then Inr (JBool False, ts)
      else if lowered = ''null'' then Inr (JNull, ts)
      else (case number text of Some n \<Rightarrow> Inr (JNum n, ts) | None \<Rightarrow> Inl InvalidFilter))"
| "parse_value ts = Inl InvalidFilter"

definition orderable :: "json \<Rightarrow> bool" where
  "orderable v = (case v of JNull \<Rightarrow> False | JBool _ \<Rightarrow> False | _ \<Rightarrow> True)"

fun parse_operator :: "attr_path \<Rightarrow> token list \<Rightarrow> filter_node parsed" where
  "parse_operator path (Word t # ts) =
     (case map_of op_names (lower t) of
        None \<Rightarrow> Inl InvalidFilter
      | Some op \<Rightarrow>
          if op = OpPr then Inr (Compare path OpPr JNull, ts)
          else
            (case parse_value ts of
               Inl e \<Rightarrow> Inl e
             | Inr (v, ts) \<Rightarrow>
                 if ordering_op op \<and> \<not> orderable v then Inl InvalidFilter else Inr (Compare path op v, ts)))"
| "parse_operator path ts = Inl InvalidFilter"

text \<open>\<open>inner\<close> is \<^verbatim>\<open>self._or\<close> at this depth.\<close>

fun parse_attribute :: "(token list \<Rightarrow> filter_node parsed) \<Rightarrow> token list \<Rightarrow> filter_node parsed" where
  "parse_attribute inner (Word text # ts) =
     (case parse_attr_path text of
        None \<Rightarrow> Inl InvalidFilter
      | Some path \<Rightarrow>
          (case expect (CHR ''['') ts of
             Inr ts \<Rightarrow>
               (case inner ts of
                  Inl e \<Rightarrow> Inl e
                | Inr (node, ts) \<Rightarrow> map_sum id (\<lambda>ts. (ValuePath path node, ts)) (expect (CHR '']'') ts))
           | Inl _ \<Rightarrow> parse_operator path ts))"
| "parse_attribute inner ts = Inl InvalidFilter"

text \<open>The loops of \<^verbatim>\<open>_or\<close> and \<^verbatim>\<open>_and\<close>: operands joined to the left by a keyword.\<close>

fun chain ::
  "string \<Rightarrow> (filter_node \<Rightarrow> filter_node \<Rightarrow> filter_node) \<Rightarrow> (token list \<Rightarrow> filter_node parsed) \<Rightarrow> nat \<Rightarrow>
     filter_node \<Rightarrow> token list \<Rightarrow> filter_node parsed" where
  "chain w mk p n node ts =
     (case keyword w ts of
        None \<Rightarrow> Inr (node, ts)
      | Some rest \<Rightarrow>
          (case n of
             0 \<Rightarrow> Inl OutOfFuel
           | Suc n \<Rightarrow>
               (case p rest of
                  Inl e \<Rightarrow> Inl e
                | Inr (right, ts) \<Rightarrow> chain w mk p n (mk node right) ts)))"

declare chain.simps [simp del]

definition joined_by ::
  "string \<Rightarrow> (filter_node \<Rightarrow> filter_node \<Rightarrow> filter_node) \<Rightarrow> (token list \<Rightarrow> filter_node parsed) \<Rightarrow>
     token list \<Rightarrow> filter_node parsed" where
  "joined_by w mk p ts =
     (case p ts of Inl e \<Rightarrow> Inl e | Inr (node, ts) \<Rightarrow> chain w mk p (length ts) node ts)"

definition parse_and :: "(token list \<Rightarrow> filter_node parsed) \<Rightarrow> token list \<Rightarrow> filter_node parsed" where
  "parse_and unary = joined_by ''and'' FAnd unary"

definition parse_or :: "(token list \<Rightarrow> filter_node parsed) \<Rightarrow> token list \<Rightarrow> filter_node parsed" where
  "parse_or unary = joined_by ''or'' FOr (parse_and unary)"

definition parse_closed :: "(token list \<Rightarrow> filter_node parsed) \<Rightarrow> token list \<Rightarrow> filter_node parsed" where
  "parse_closed inner ts =
     (case inner ts of
        Inl e \<Rightarrow> Inl e
      | Inr (node, ts) \<Rightarrow> map_sum id (\<lambda>ts. (node, ts)) (expect (CHR '')'') ts))"

primrec parse_unary :: "nat \<Rightarrow> token list \<Rightarrow> filter_node parsed" where
  "parse_unary 0 ts = Inl InvalidFilter"
| "parse_unary (Suc levels) ts =
     (case keyword ''not'' ts of
        Some ts \<Rightarrow>
          (case expect (CHR ''('') ts of
             Inl e \<Rightarrow> Inl e
           | Inr ts \<Rightarrow> map_sum id (\<lambda>(node, ts). (FNot node, ts)) (parse_closed (parse_or (parse_unary levels)) ts))
      | None \<Rightarrow>
          (case expect (CHR ''('') ts of
             Inr ts \<Rightarrow> parse_closed (parse_or (parse_unary levels)) ts
           | Inl _ \<Rightarrow> parse_attribute (parse_or (parse_unary levels)) ts))"

definition parse_tokens :: "token list \<Rightarrow> scim_error + filter_node" where
  "parse_tokens ts =
     (case parse_or (parse_unary max_filter_depth) ts of
        Inl e \<Rightarrow> Inl e
      | Inr (node, ts) \<Rightarrow> if ts \<noteq> [] then Inl InvalidFilter else Inr node)"

record scim_filter =
  sf_text :: string
  sf_root :: filter_node

definition parse_filter :: "string \<Rightarrow> scim_error + scim_filter" where
  "parse_filter text =
     (if strip text = [] then Inl InvalidFilter
      else if length text > max_filter_length then Inl InvalidFilter
      else
        (case tokenize text of
           None \<Rightarrow> Inl InvalidFilter
         | Some ts \<Rightarrow> map_sum id (\<lambda>root. \<lparr>sf_text = text, sf_root = root\<rparr>) (parse_tokens ts)))"

section \<open>Questions about a parsed filter\<close>

definition filter_equality :: "scim_filter \<Rightarrow> string \<Rightarrow> string option" where
  "filter_equality f attribute =
     (case sf_root f of
        Compare path OpEq (JStr v) \<Rightarrow>
          if ap_sub path \<noteq> [] then None
          else if ap_urn path \<noteq> [] \<and> lower (ap_urn path) \<notin> {lower user_schema, lower group_schema} then None
          else if lower (ap_attribute path) = lower attribute then Some v else None
      | _ \<Rightarrow> None)"

fun node_references :: "filter_node \<Rightarrow> string \<Rightarrow> bool" where
  "node_references (FAnd l r) a = (node_references l a \<or> node_references r a)"
| "node_references (FOr l r) a = (node_references l a \<or> node_references r a)"
| "node_references (FNot n) a = node_references n a"
| "node_references (Compare p op v) a = (lower (ap_attribute p) = lower a)"
| "node_references (ValuePath p n) a = (lower (ap_attribute p) = lower a)"

definition filter_references :: "scim_filter \<Rightarrow> string \<Rightarrow> bool" where
  "filter_references f a = node_references (sf_root f) a"

section \<open>Errors passed on\<close>

lemma map_sum_Inl [simp]: "map_sum id f r = Inl e \<longleftrightarrow> r = Inl e"
  by (cases r) simp_all

lemma map_sum_Inr [simp]: "map_sum id f r = Inr y \<longleftrightarrow> (\<exists>x. r = Inr x \<and> y = f x)"
  by (cases r) auto

end
