(* ===== verification/ScimPrinter.thy ===== *)
theory ScimPrinter
  imports ScimFilter
begin

text \<open>
  A printer of filters and the parser of ScimFilter on what it prints: a fully parenthesised
  form, each attribute path as \<^verbatim>\<open>AttrPath.__str__\<close> prints it. \<open>node_ok\<close> are the filters the
  grammar can spell with integers for numbers. The lemmas follow the parser's levels: the
  attribute paths, the values, then the filters, and last the tokens of the text.
\<close>

section \<open>Printing\<close>

text \<open>\<^verbatim>\<open>json.dumps(s, ensure_ascii=False)\<close> between its quotes.\<close>

definition short_escapes :: "(char \<times> char) list" where
  "short_escapes =
     [(dquote, dquote), (backslash, backslash), (newline, CHR ''n''), (CHR 0x0D, CHR ''r''), (CHR 0x09, CHR ''t''),
      (CHR 0x0C, CHR ''f''), (CHR 0x08, CHR ''b'')]"

definition low_digit :: "nat \<Rightarrow> char" where
  "low_digit n = (if n < 10 then char_of (48 + n) else char_of (87 + n))"

definition escape_char :: "char \<Rightarrow> string" where
  "escape_char c =
     (case map_of short_escapes c of
        Some e \<Rightarrow> [backslash, e]
      | None \<Rightarrow>
          if code c < 32
          then [backslash, CHR ''u'', CHR ''0'', CHR ''0'', low_digit (code c div 16), low_digit (code c mod 16)]
          else [c])"

definition json_escape :: "string \<Rightarrow> string" where
  "json_escape s = concat (map escape_char s)"

fun value_token :: "json \<Rightarrow> token" where
  "value_token (JStr s) = StringTok (json_escape s)"
| "value_token (JBool b) = Word (if b then ''true'' else ''false'')"
| "value_token (JNum n) = Word (int_str \<lfloor>n\<rfloor>)"
| "value_token _ = Word ''null''"

fun op_name :: "scim_op \<Rightarrow> string" where
  "op_name OpEq = ''eq''" | "op_name OpNe = ''ne''" | "op_name OpCo = ''co''" | "op_name OpSw = ''sw''"
| "op_name OpEw = ''ew''" | "op_name OpGt = ''gt''" | "op_name OpLt = ''lt''" | "op_name OpGe = ''ge''"
| "op_name OpLe = ''le''" | "op_name OpPr = ''pr''"

fun node_tokens :: "filter_node \<Rightarrow> token list" where
  "node_tokens (Compare p op v) =
     Word (attr_path_str p) # Word (op_name op) # (if op = OpPr then [] else [value_token v])"
| "node_tokens (FAnd l r) =
     Bracket (CHR ''('') # node_tokens l @ Word ''and'' # node_tokens r @ [Bracket (CHR '')'')]"
| "node_tokens (FOr l r) =
     Bracket (CHR ''('') # node_tokens l @ Word ''or'' # node_tokens r @ [Bracket (CHR '')'')]"
| "node_tokens (FNot n) = Word ''not'' # Bracket (CHR ''('') # node_tokens n @ [Bracket (CHR '')'')]"
| "node_tokens (ValuePath p n) =
     Word (attr_path_str p) # Bracket (CHR ''['') # node_tokens n @ [Bracket (CHR '']'')]"

fun token_text :: "token \<Rightarrow> string" where
  "token_text (Bracket c) = [c]"
| "token_text (StringTok raw) = dquote # raw @ [dquote]"
| "token_text (Word w) = w"

definition render :: "token list \<Rightarrow> string" where
  "render ts = concat (map (\<lambda>t. CHR '' '' # token_text t) ts)"

definition path_ok :: "attr_path \<Rightarrow> bool" where
  "path_ok p =
     (attr_name (ap_attribute p) \<and> (ap_sub p = [] \<or> attr_name (ap_sub p)) \<and>
      (ap_urn p = [] \<or> startswith (lower (ap_urn p) @ '':'') ''urn:'' \<and> list_all is_word_char (ap_urn p)) \<and>
      lower (attr_path_str p) \<noteq> ''not'')"

definition value_ok :: "json \<Rightarrow> bool" where
  "value_ok v = (case v of JNum n \<Rightarrow> n = of_int \<lfloor>n\<rfloor> | JArr _ \<Rightarrow> False | JObj _ \<Rightarrow> False | _ \<Rightarrow> True)"

fun node_ok :: "filter_node \<Rightarrow> bool" where
  "node_ok (Compare p op v) =
     (path_ok p \<and> (if op = OpPr then v = JNull else value_ok v \<and> (ordering_op op \<longrightarrow> orderable v)))"
| "node_ok (FAnd l r) = (node_ok l \<and> node_ok r)"
| "node_ok (FOr l r) = (node_ok l \<and> node_ok r)"
| "node_ok (FNot n) = node_ok n"
| "node_ok (ValuePath p n) = (path_ok p \<and> node_ok n)"

fun node_depth :: "filter_node \<Rightarrow> nat" where
  "node_depth (Compare p op v) = 1"
| "node_depth (FAnd l r) = Suc (max (node_depth l) (node_depth r))"
| "node_depth (FOr l r) = Suc (max (node_depth l) (node_depth r))"
| "node_depth (FNot n) = Suc (node_depth n)"
| "node_depth (ValuePath p n) = Suc (node_depth n)"

section \<open>Attribute paths read back\<close>

lemma name_chars: "attr_name s \<Longrightarrow> list_all (\<lambda>c. is_alnum c \<or> c \<in> set ''_$-'') s \<and> s \<noteq> []"
  by (cases s) (auto simp: attr_name_def Let_def split: if_splits)

lemma name_char_facts:
  "is_alnum c \<or> c \<in> set ''_$-'' \<Longrightarrow> c \<noteq> CHR ''.'' \<and> c \<noteq> CHR '':'' \<and> is_word_char c"
  by (auto simp: is_word_char_def is_alnum_def is_alpha_def is_upper_def is_lower_def is_digit_def)

lemma name_no_sep: "attr_name s \<Longrightarrow> CHR ''.'' \<notin> set s \<and> CHR '':'' \<notin> set s \<and> list_all is_word_char s"
  using name_chars [of s] name_char_facts by (fastforce simp: list_all_iff)

lemma lower_colon: "lower_char c = CHR '':'' \<longleftrightarrow> c = CHR '':''"
proof
  assume h: "lower_char c = CHR '':''"
  show "c = CHR '':''"
  proof (cases "is_upper c \<or> (192 \<le> code c \<and> code c \<le> 222 \<and> code c \<noteq> 215)")
    case True
    then have small: "code c + 32 < 256" "65 \<le> code c" by (auto simp: is_upper_def)
    have "lower_char c = char_of (code c + 32)" using True by (simp add: lower_char_def)
    then have "code (lower_char c) = code c + 32" using small(1) by (simp add: of_char_of)
    moreover have "code (lower_char c) = 58" unfolding h by simp
    ultimately show ?thesis using small(2) by simp
  next
    case False
    then have "lower_char c = c" unfolding lower_char_def by (simp only: if_False)
    then show ?thesis using h by (simp only:)
  qed
next
  assume "c = CHR '':''"
  then show "lower_char c = CHR '':''" by (simp add: lower_char_def is_upper_def)
qed

lemma lower_no_colon: "CHR '':'' \<notin> set s \<Longrightarrow> CHR '':'' \<notin> set (lower s)"
proof (induction s)
  case Nil
  then show ?case by simp
next
  case (Cons x s)
  then have "lower_char x \<noteq> CHR '':''" using lower_colon [of x] by force
  then show ?case using Cons by force
qed

lemma no_colon_no_urn: "CHR '':'' \<notin> set s \<Longrightarrow> \<not> startswith s ''urn:''"
  unfolding startswith_iff by force

lemma until_none: "c \<notin> set s \<Longrightarrow> takeWhile (\<lambda>x. x \<noteq> c) s = s" "c \<notin> set s \<Longrightarrow> dropWhile (\<lambda>x. x \<noteq> c) s = []"
  by (induction s) auto

lemma until_some: "c \<notin> set s \<Longrightarrow> takeWhile (\<lambda>x. x \<noteq> c) (s @ c # r) = s"
  "c \<notin> set s \<Longrightarrow> dropWhile (\<lambda>x. x \<noteq> c) (s @ c # r) = c # r"
  by (induction s) auto

lemma partition_none: "c \<notin> set s \<Longrightarrow> partition_at c s = (s, [])"
  by (simp add: partition_at_def until_none)

lemma partition_some: "c \<notin> set s \<Longrightarrow> partition_at c (s @ c # r) = (s, r)"
  by (simp add: partition_at_def until_some)

lemma rpartition_some: "c \<notin> set r \<Longrightarrow> rpartition_at c (s @ c # r) = (s, r)"
  by (simp add: rpartition_at_def Let_def until_some)

lemma dotted_no_colon:
  "path_ok p \<Longrightarrow> CHR '':'' \<notin> set (if ap_sub p \<noteq> [] then ap_attribute p @ ''.'' @ ap_sub p else ap_attribute p)"
  using name_no_sep [of "ap_attribute p"] name_no_sep [of "ap_sub p"]
  by (cases "ap_sub p = []") (simp_all add: path_ok_def)

lemma dotted_partition:
  "path_ok p \<Longrightarrow> partition_at (CHR ''.'') (if ap_sub p \<noteq> [] then ap_attribute p @ ''.'' @ ap_sub p else ap_attribute p) =
     (ap_attribute p, ap_sub p)"
  using name_no_sep [of "ap_attribute p"] partition_none [of "CHR ''.''" "ap_attribute p"]
    partition_some [of "CHR ''.''" "ap_attribute p" "ap_sub p"]
  by (simp add: path_ok_def)

lemma startswith_prefix: "startswith (a @ b) p \<Longrightarrow> length p \<le> length a \<Longrightarrow> startswith a p"
  by (induction a p rule: startswith.induct) auto

lemma parse_plain:
  assumes "\<not> startswith (lower s) ''urn:''" and "partition_at (CHR ''.'') s = (a, b)" and "attr_name a"
    and "b = [] \<or> attr_name b"
  shows "parse_attr_path s = Some \<lparr>ap_urn = [], ap_attribute = a, ap_sub = b\<rparr>"
proof -
  have "(\<not> attr_name a \<or> b \<noteq> [] \<and> \<not> attr_name b) = False" using assms(3,4) by blast
  then show ?thesis by (simp only: parse_attr_path_def Let_def assms(1,2) if_False prod.case)
qed

lemma parse_urn:
  assumes "startswith (lower s) ''urn:''" and "rpartition_at (CHR '':'') s = (u, r)" and "u \<noteq> []" and "r \<noteq> []"
    and "partition_at (CHR ''.'') r = (a, b)" and "attr_name a" and "b = [] \<or> attr_name b"
  shows "parse_attr_path s = Some \<lparr>ap_urn = u, ap_attribute = a, ap_sub = b\<rparr>"
proof -
  have "(\<not> attr_name a \<or> b \<noteq> [] \<and> \<not> attr_name b) = False" "(u = [] \<or> r = []) = False" using assms by blast+
  then show ?thesis by (simp only: parse_attr_path_def Let_def assms(1,2,5) if_True if_False prod.case)
qed

lemma attr_path_round_trip:
  assumes "path_ok p"
  shows "parse_attr_path (attr_path_str p) = Some p"
proof -
  let ?d = "if ap_sub p \<noteq> [] then ap_attribute p @ ''.'' @ ap_sub p else ap_attribute p"
  have names: "attr_name (ap_attribute p)" "ap_sub p = [] \<or> attr_name (ap_sub p)"
    using assms by (simp_all add: path_ok_def)
  note dotted = dotted_partition [OF assms]
  have d_nonempty: "?d \<noteq> []" using name_chars [OF names(1)] by auto
  show ?thesis
  proof (cases "ap_urn p = []")
    case True
    have "attr_path_str p = ?d" unfolding attr_path_str_def Let_def True by (simp only: simp_thms if_False)
    moreover have "\<not> startswith (lower ?d) ''urn:''"
      by (rule no_colon_no_urn [OF lower_no_colon [OF dotted_no_colon [OF assms]]])
    ultimately show ?thesis using parse_plain [OF _ dotted names] True by simp
  next
    case False
    then have urn: "startswith (lower (ap_urn p) @ '':'') ''urn:''" using assms by (simp add: path_ok_def)
    have str: "attr_path_str p = ap_urn p @ CHR '':'' # ?d"
      using False by (simp add: attr_path_str_def Let_def)
    have colon: "lower_char (CHR '':'') = CHR '':''" by (simp only: lower_colon)
    obtain rest where "lower (ap_urn p) @ '':'' = ''urn:'' @ rest" using urn unfolding startswith_iff by blast
    then have "lower (attr_path_str p) = ''urn:'' @ rest @ lower ?d"
      unfolding str map_append list.map colon by (metis append.assoc append_Cons append_Nil)
    then have low: "startswith (lower (attr_path_str p)) ''urn:''" by (simp only: startswith_append)
    have "rpartition_at (CHR '':'') (attr_path_str p) = (ap_urn p, ?d)"
      unfolding str by (rule rpartition_some [OF dotted_no_colon [OF assms]])
    from parse_urn [OF low this False d_nonempty dotted names] show ?thesis by simp
  qed
qed

section \<open>Values read back\<close>

lemma code_less_256: "code (c :: char) < 256"
  by (cases c) (simp add: of_char_def horner_sum_bit_eq_take_bit take_bit_nat_def)

lemma code_char_of: "n < 256 \<Longrightarrow> code (char_of n :: char) = (n :: nat)"
  by (simp add: of_char_of)

lemma hex_digit_low: "n < 10 \<Longrightarrow> hex_digit (char_of (48 + n)) = Some n"
  by (simp add: hex_digit_def is_digit_def code_char_of)

lemma hex_digit_high: "10 \<le> n \<Longrightarrow> n < 16 \<Longrightarrow> hex_digit (char_of (87 + n)) = Some n"
  by (simp add: hex_digit_def is_digit_def code_char_of)

lemma hex_zero: "hex_digit (CHR ''0'') = Some 0"
  by (simp add: hex_digit_def is_digit_def)

lemma hex_low_digit: "n < 16 \<Longrightarrow> hex_digit (low_digit n) = Some n"
  using hex_digit_low [of n] hex_digit_high [of n] by (simp add: low_digit_def)

lemma escape_cases:
  obtains (short) e where "escape_char c = [backslash, e]" "simple_escape e = Some c" "e \<noteq> newline" "e \<noteq> CHR ''u''"
  | (control) "code c < 32"
      "escape_char c = [backslash, CHR ''u'', CHR ''0'', CHR ''0'', low_digit (code c div 16), low_digit (code c mod 16)]"
  | (same) "c \<noteq> dquote" "c \<noteq> backslash" "\<not> code c < 32" "escape_char c = [c]"
proof (cases "map_of short_escapes c")
  case (Some e)
  then have "(c, e) \<in> set short_escapes" by (rule map_of_SomeD)
  then have "simple_escape e = Some c \<and> e \<noteq> newline \<and> e \<noteq> CHR ''u''"
    by (auto simp: short_escapes_def simple_escape_def)
  then show thesis using short [of e] Some by (simp add: escape_char_def)
next
  case None
  then have "c \<noteq> dquote" "c \<noteq> backslash" by (auto simp: short_escapes_def split: if_splits)
  then show thesis using control same None by (cases "code c < 32") (simp_all add: escape_char_def)
qed

lemma hex4_control: "n < 32 \<Longrightarrow> hex4 (CHR ''0'') (CHR ''0'') (low_digit (n div 16)) (low_digit (n mod 16)) = Some n"
  using hex_low_digit [of "n div 16"] hex_low_digit [of "n mod 16"]
  by (simp add: hex4_def hex_zero)

lemma read_escape:
  "\<exists>c0 cs0. escape_char c @ rest = c0 # cs0 \<and> json_char c0 cs0 = Some (code c, rest)"
proof (cases c rule: escape_cases)
  case (short e)
  then show ?thesis by (simp add: json_char_def json_escape_char_def)
next
  case control
  then show ?thesis using hex4_control [OF control(1)] by (simp add: json_char_def json_escape_char_def)
next
  case same
  then show ?thesis by (simp add: json_char_def)
qed

lemma json_round_trip: "json_string (json_escape s) = Inr s"
proof (induction s)
  case Nil
  then show ?case by (simp add: json_escape_def)
next
  case (Cons c s)
  obtain c0 cs0 where e: "escape_char c @ json_escape s = c0 # cs0" "json_char c0 cs0 = Some (code c, json_escape s)"
    using read_escape by blast
  have "json_string (json_escape (c # s)) = json_string (c0 # cs0)"
    using e(1) by (simp add: json_escape_def)
  also have "\<dots> = Inr (char_of (code c) # s)"
    using e(2) Cons code_less_256 [of c] by simp
  finally show ?case by simp
qed

lemma scan_plain:
  "c \<noteq> dquote \<Longrightarrow> c \<noteq> backslash \<Longrightarrow> x \<noteq> [] \<Longrightarrow>
     scan_string (c # x) = map_option (\<lambda>(a, r). (c # a, r)) (scan_string x)"
  by (cases x) auto

lemma scan_escaped:
  "d \<noteq> newline \<Longrightarrow> scan_string (backslash # d # x) = map_option (\<lambda>(a, r). (backslash # d # a, r)) (scan_string x)"
  by simp

lemma low_digit_plain: "n < 16 \<Longrightarrow> low_digit n \<noteq> dquote \<and> low_digit n \<noteq> backslash"
  using hex_low_digit [of n] by (auto simp: hex_digit_def is_digit_def)

lemma scan_round_trip: "scan_string (json_escape s @ dquote # r) = Some (json_escape s, r)"
proof (induction s)
  case Nil
  then show ?case by (cases r) (simp_all add: json_escape_def)
next
  case (Cons c s)
  let ?rest = "json_escape s @ dquote # r"
  have split: "json_escape (c # s) = escape_char c @ json_escape s" by (simp add: json_escape_def)
  show ?case
  proof (cases c rule: escape_cases)
    case (short e)
    then show ?thesis using Cons scan_escaped [of e ?rest] by (simp add: split)
  next
    case control
    have d: "low_digit (code c div 16) \<noteq> dquote" "low_digit (code c div 16) \<noteq> backslash"
      "low_digit (code c mod 16) \<noteq> dquote" "low_digit (code c mod 16) \<noteq> backslash"
      using low_digit_plain [of "code c div 16"] low_digit_plain [of "code c mod 16"] control(1) by simp_all
    show ?thesis
      using Cons d by (simp add: split control(2) scan_escaped scan_plain del: scan_string.simps)
  next
    case same
    then show ?thesis
      using Cons by (simp add: split scan_plain del: scan_string.simps)
  qed
qed

lemma digit_char: "d < 10 \<Longrightarrow> is_digit (char_of (48 + d)) \<and> code (char_of (48 + d) :: char) - 48 = d"
  by (simp add: is_digit_def code_char_of)

lemma digits_value_snoc: "digits_value (ds @ [d]) = digits_value ds * 10 + (code d - 48)"
  by (simp add: digits_value_def)

lemma nat_str_digits: "list_all is_digit (nat_str n) \<and> nat_str n \<noteq> [] \<and> digits_value (nat_str n) = n"
proof (induction n rule: nat_str.induct)
  case (1 n)
  show ?case
  proof (cases "n < 10")
    case True
    then show ?thesis using digit_char [of n] by (subst (1 2 3) nat_str.simps) (simp add: digits_value_def)
  next
    case False
    then have "nat_str n = nat_str (n div 10) @ [char_of (48 + n mod 10)]" by (subst nat_str.simps) simp
    then show ?thesis using 1 False digit_char [of "n mod 10"] by (simp add: digits_value_snoc)
  qed
qed

lemma all_digits_take: "list_all is_digit s \<Longrightarrow> takeWhile is_digit s = s \<and> dropWhile is_digit s = []"
  by (induction s) auto

lemma digits_no_minus: "list_all is_digit s \<Longrightarrow> s = c # cs \<Longrightarrow> c \<noteq> CHR ''-''"
  by (auto simp: is_digit_def)

lemma number_round_trip: "number (int_str i) = Some (of_int i)"
proof (cases "i < 0")
  case True
  note d = nat_str_digits [of "nat (- i)"]
  have takes: "takeWhile is_digit (nat_str (nat (- i))) = nat_str (nat (- i))" "dropWhile is_digit (nat_str (nat (- i))) = []"
    using all_digits_take [OF conjunct1 [OF d]] by simp_all
  have "int_str i = CHR ''-'' # nat_str (nat (- i))" using True by (simp add: int_str_def)
  then show ?thesis
    using True d by (simp add: number_def Let_def takes)
next
  case False
  note d = nat_str_digits [of "nat i"]
  obtain c cs where c: "nat_str (nat i) = c # cs" using d by (cases "nat_str (nat i)") auto
  then have "c \<noteq> CHR ''-''" using digits_no_minus d by blast
  moreover have takes: "takeWhile is_digit (c # cs) = c # cs" "dropWhile is_digit (c # cs) = []"
    using all_digits_take [OF conjunct1 [OF d]] unfolding c by blast+
  moreover have v: "digits_value (c # cs) = nat i" using d unfolding c by blast
  ultimately show ?thesis
    using False by (simp add: number_def int_str_def Let_def c v takes del: takeWhile.simps dropWhile.simps)
qed

lemma int_str_head: "\<exists>c cs. int_str i = c # cs \<and> (c = CHR ''-'' \<or> is_digit c)"
  using nat_str_digits [of "nat i"] by (cases "nat_str (nat i)") (auto simp: int_str_def)

lemma int_str_not_word: "lower (int_str i) \<notin> {''true'', ''false'', ''null''}"
proof -
  obtain c cs where c: "int_str i = c # cs" "c = CHR ''-'' \<or> is_digit c" using int_str_head by blast
  then have "lower_char c = c" by (auto simp: lower_char_def is_digit_def is_upper_def)
  moreover have "c \<noteq> CHR ''t''" "c \<noteq> CHR ''f''" "c \<noteq> CHR ''n''" using c(2) by (auto simp: is_digit_def)
  ultimately show ?thesis by (simp add: c(1))
qed

lemma lower_words: "lower ''true'' = ''true''" "lower ''false'' = ''false''" "lower ''null'' = ''null''"
  "lower ''not'' = ''not''" "lower ''and'' = ''and''" "lower ''or'' = ''or''"
  by (simp_all add: lower_char_def is_upper_def)

lemma parse_number_word:
  assumes "lower w \<notin> {''true'', ''false'', ''null''}" and "number w = Some n"
  shows "parse_value (Word w # ts) = Inr (JNum n, ts)"
proof -
  have "(lower w = ''true'') = False" "(lower w = ''false'') = False" "(lower w = ''null'') = False"
    using assms(1) unfolding insert_iff by argo+
  then show ?thesis by (simp only: parse_value.simps Let_def assms(2) if_False option.case)
qed

lemma value_round_trip: "value_ok v \<Longrightarrow> parse_value (value_token v # ts) = Inr (v, ts)"
proof (cases v)
  case JNull
  show ?thesis unfolding JNull value_token.simps parse_value.simps Let_def lower_words by simp
next
  case (JBool b)
  show ?thesis unfolding JBool value_token.simps by (cases b; simp only: if_True if_False parse_value.simps Let_def lower_words; simp)
next
  case (JNum n)
  assume "value_ok v"
  then have "n = of_int \<lfloor>n\<rfloor>" by (simp add: JNum value_ok_def)
  then show ?thesis
    unfolding JNum value_token.simps using parse_number_word [OF int_str_not_word number_round_trip] by metis
next
  case (JStr s)
  show ?thesis by (simp add: JStr json_round_trip)
qed (simp_all add: value_ok_def)

section \<open>Filters read back\<close>

lemma op_lookup: "map_of op_names (lower (op_name op)) = Some op"
  by (cases op) (simp_all add: op_names_def lower_char_def is_upper_def)

lemma operator_round_trip:
  assumes "if op = OpPr then v = JNull else value_ok v \<and> (ordering_op op \<longrightarrow> orderable v)"
  shows "parse_operator p (Word (op_name op) # (if op = OpPr then [] else [value_token v]) @ ts) =
     Inr (Compare p op v, ts)"
  using assms by (cases "op = OpPr") (simp_all add: op_lookup value_round_trip del: op_name.simps)

lemma chain_stop: "keyword w ts = None \<Longrightarrow> chain w mk p n node ts = Inr (node, ts)"
  by (subst chain.simps) simp

lemma chain_one:
  "keyword w ts = Some rest \<Longrightarrow> p rest = Inr (right, ts') \<Longrightarrow> keyword w ts' = None \<Longrightarrow>
     chain w mk p (Suc n) node ts = Inr (mk node right, ts')"
  by (subst chain.simps) (simp add: chain_stop)

lemma joined_stop: "p ts = Inr (node, ts') \<Longrightarrow> keyword w ts' = None \<Longrightarrow> joined_by w mk p ts = Inr (node, ts')"
  by (simp add: joined_by_def chain_stop)

lemma joined_one:
  "p ts = Inr (l, t # rest) \<Longrightarrow> keyword w (t # rest) = Some rest \<Longrightarrow> p rest = Inr (r, ts') \<Longrightarrow>
     keyword w ts' = None \<Longrightarrow> joined_by w mk p ts = Inr (mk l r, ts')"
  using chain_one [of w "t # rest" rest p r ts'] by (simp add: joined_by_def)

definition ends_operand :: "token list \<Rightarrow> bool" where
  "ends_operand ts = (keyword ''and'' ts = None \<and> keyword ''or'' ts = None)"

lemma ends_bracket [simp]: "ends_operand (Bracket c # ts)" "ends_operand []"
  by (simp_all add: ends_operand_def)

lemma keyword_hit: "lower w = w \<Longrightarrow> keyword w (Word w # ts) = Some ts"
  by simp

lemma keyword_or_and: "keyword ''and'' (Word ''or'' # ts) = None"
  unfolding keyword.simps lower_words by simp

lemma parse_or_single: "u ts = Inr (n, ts') \<Longrightarrow> ends_operand ts' \<Longrightarrow> parse_or u ts = Inr (n, ts')"
  unfolding parse_or_def parse_and_def ends_operand_def by (intro joined_stop) simp_all

lemma parse_or_and:
  assumes "u ts = Inr (l, Word ''and'' # rest)" and "u rest = Inr (r, ts')" and "ends_operand ts'"
  shows "parse_or u ts = Inr (FAnd l r, ts')"
  unfolding parse_or_def parse_and_def
  by (rule joined_stop, rule joined_one [OF assms(1) keyword_hit [OF lower_words(5)] assms(2)])
    (use assms(3) in \<open>simp_all add: ends_operand_def\<close>)

lemma parse_or_or:
  assumes "u ts = Inr (l, Word ''or'' # rest)" and "u rest = Inr (r, ts')" and "ends_operand ts'"
  shows "parse_or u ts = Inr (FOr l r, ts')"
  unfolding parse_or_def parse_and_def
  by (rule joined_one, rule joined_stop [where p = u, OF assms(1) keyword_or_and], rule keyword_hit [OF lower_words(6)],
      rule joined_stop [where p = u, OF assms(2)])
    (use assms(3) in \<open>simp_all add: ends_operand_def\<close>)

lemma parse_closed_hit:
  "inner ts = Inr (n, Bracket (CHR '')'') # ts') \<Longrightarrow> parse_closed inner ts = Inr (n, ts')"
  by (simp add: parse_closed_def)

lemma unary_bracket:
  "parse_or (parse_unary k) ts = Inr (n, Bracket (CHR '')'') # ts') \<Longrightarrow>
     parse_unary (Suc k) (Bracket (CHR ''('') # ts) = Inr (n, ts')"
  by (simp add: parse_closed_hit)

lemma unary_not:
  "parse_or (parse_unary k) ts = Inr (n, Bracket (CHR '')'') # ts') \<Longrightarrow>
     parse_unary (Suc k) (Word ''not'' # Bracket (CHR ''('') # ts) = Inr (FNot n, ts')"
  by (simp add: parse_closed_hit keyword_hit [OF lower_words(4)] del: keyword.simps)

lemma unary_attribute:
  "path_ok p \<Longrightarrow> parse_unary (Suc k) (Word (attr_path_str p) # ts) =
     parse_attribute (parse_or (parse_unary k)) (Word (attr_path_str p) # ts)"
  by (simp add: path_ok_def)

lemma unary_round_trip:
  "node_ok n \<Longrightarrow> node_depth n \<le> levels \<Longrightarrow> parse_unary levels (node_tokens n @ ts) = Inr (n, ts)"
proof (induction n arbitrary: levels ts)
  case (Compare p op v)
  then obtain k where k: "levels = Suc k" by (cases levels) auto
  have ok: "path_ok p" "if op = OpPr then v = JNull else value_ok v \<and> (ordering_op op \<longrightarrow> orderable v)"
    using Compare.prems by auto
  show ?case
    using operator_round_trip [OF ok(2), of p ts] attr_path_round_trip [OF ok(1)]
    by (simp add: k unary_attribute [OF ok(1)] del: parse_unary.simps op_name.simps parse_operator.simps)
next
  case (FAnd l r)
  then obtain k where k: "levels = Suc k" "node_depth l \<le> k" "node_depth r \<le> k" by (cases levels) auto
  have "parse_or (parse_unary k) (node_tokens l @ Word ''and'' # node_tokens r @ Bracket (CHR '')'') # ts) =
      Inr (FAnd l r, Bracket (CHR '')'') # ts)"
    using FAnd.prems k by (intro parse_or_and [where u = "parse_unary k", OF FAnd.IH(1) FAnd.IH(2)]) simp_all
  then show ?case using k(1) by (simp add: unary_bracket del: parse_unary.simps)
next
  case (FOr l r)
  then obtain k where k: "levels = Suc k" "node_depth l \<le> k" "node_depth r \<le> k" by (cases levels) auto
  have "parse_or (parse_unary k) (node_tokens l @ Word ''or'' # node_tokens r @ Bracket (CHR '')'') # ts) =
      Inr (FOr l r, Bracket (CHR '')'') # ts)"
    using FOr.prems k by (intro parse_or_or [where u = "parse_unary k", OF FOr.IH(1) FOr.IH(2)]) simp_all
  then show ?case using k(1) by (simp add: unary_bracket del: parse_unary.simps)
next
  case (FNot n)
  then obtain k where k: "levels = Suc k" "node_depth n \<le> k" by (cases levels) auto
  have "parse_or (parse_unary k) (node_tokens n @ Bracket (CHR '')'') # ts) = Inr (n, Bracket (CHR '')'') # ts)"
    using FNot.prems k by (intro parse_or_single [where u = "parse_unary k", OF FNot.IH]) simp_all
  then show ?case using k(1) by (simp add: unary_not del: parse_unary.simps)
next
  case (ValuePath p n)
  then obtain k where k: "levels = Suc k" "node_depth n \<le> k" by (cases levels) auto
  have ok: "path_ok p" using ValuePath.prems by simp
  have "parse_or (parse_unary k) (node_tokens n @ Bracket (CHR '']'') # ts) = Inr (n, Bracket (CHR '']'') # ts)"
    using ValuePath.prems k by (intro parse_or_single [where u = "parse_unary k", OF ValuePath.IH]) simp_all
  then show ?case
    using attr_path_round_trip [OF ok] by (simp add: k(1) unary_attribute [OF ok] del: parse_unary.simps)
qed

lemma tokens_round_trip:
  "node_ok n \<Longrightarrow> node_depth n \<le> max_filter_depth \<Longrightarrow> parse_tokens (node_tokens n) = Inr n"
  using parse_or_single [where u = "parse_unary max_filter_depth", OF unary_round_trip [of n max_filter_depth "[]"]] by (simp add: parse_tokens_def)

section \<open>Tokens read back\<close>

fun token_ok :: "token \<Rightarrow> bool" where
  "token_ok (Bracket c) = is_bracket c"
| "token_ok (StringTok raw) = (\<forall>r. scan_string (raw @ dquote # r) = Some (raw, r))"
| "token_ok (Word w) = (w \<noteq> [] \<and> list_all is_word_char w)"

lemma space_facts: "is_space (CHR '' '')" "\<not> is_word_char (CHR '' '')" "\<not> is_space dquote" "\<not> is_bracket dquote"
  by (simp_all add: is_space_def is_word_char_def is_bracket_def is_alnum_def is_alpha_def is_upper_def
      is_lower_def is_digit_def)

lemma bracket_not_space: "is_bracket c \<Longrightarrow> \<not> is_space c"
  by (auto simp: is_bracket_def is_space_def)

lemma word_char_facts: "is_word_char c \<Longrightarrow> \<not> is_space c \<and> \<not> is_bracket c \<and> c \<noteq> dquote"
  by (auto simp: is_word_char_def is_space_def is_bracket_def is_alnum_def is_alpha_def is_upper_def
      is_lower_def is_digit_def)

lemma render_cons: "render (t # ts) = CHR '' '' # token_text t @ render ts"
  by (simp add: render_def)

lemma render_stops_word: "takeWhile is_word_char (render ts) = [] \<and> dropWhile is_word_char (render ts) = render ts"
  by (cases ts) (simp_all add: render_cons space_facts, simp add: render_def)

lemma word_stops: "list_all is_word_char w \<Longrightarrow>
   takeWhile is_word_char (w @ render ts) = w \<and> dropWhile is_word_char (w @ render ts) = render ts"
  using render_stops_word by (induction w) auto

lemma tokenize_space: "tokenize (CHR '' '' # s) = tokenize s"
  by (subst (1 2) tokenize.simps) (simp add: space_facts)

lemma tokenize_bracket: "is_bracket c \<Longrightarrow> tokenize (c # s) = map_option ((#) (Bracket c)) (tokenize s)"
  by (subst tokenize.simps) (simp add: bracket_not_space)

lemma tokenize_string:
  "scan_string s = Some (raw, rest) \<Longrightarrow> tokenize (dquote # s) = map_option ((#) (StringTok raw)) (tokenize rest)"
  by (subst tokenize.simps) (simp add: space_facts)

lemma tokenize_word:
  "is_word_char c \<Longrightarrow> tokenize (c # s) =
     map_option ((#) (Word (c # takeWhile is_word_char s))) (tokenize (dropWhile is_word_char s))"
  using word_char_facts [of c] by (subst tokenize.simps) simp

lemma tokenize_render: "list_all token_ok ts \<Longrightarrow> tokenize (render ts) = Some ts"
proof (induction ts)
  case Nil
  then show ?case by (simp add: render_def tokenize.simps)
next
  case (Cons t ts)
  then have rest: "tokenize (render ts) = Some ts" by simp
  show ?case
  proof (cases t)
    case (Bracket c)
    then show ?thesis using Cons.prems rest by (simp add: render_cons tokenize_space tokenize_bracket)
  next
    case (StringTok raw)
    then have "scan_string (raw @ dquote # render ts) = Some (raw, render ts)" using Cons.prems by simp
    from tokenize_string [OF this] show ?thesis using rest StringTok by (simp add: render_cons tokenize_space)
  next
    case (Word w)
    then obtain c cs where w: "w = c # cs" "is_word_char c" "list_all is_word_char cs"
      using Cons.prems by (cases w) auto
    show ?thesis
      using word_stops [OF w(3), of ts] rest by (simp add: Word w(1) render_cons tokenize_space tokenize_word [OF w(2)])
  qed
qed

lemma word_literals: "is_word_char (CHR ''.'')" "is_word_char (CHR '':'')" "is_word_char (CHR ''-'')"
  by (simp_all add: is_word_char_def)

lemma path_token_ok: "path_ok p \<Longrightarrow> token_ok (Word (attr_path_str p))"
  using name_no_sep [of "ap_attribute p"] name_no_sep [of "ap_sub p"] name_chars [of "ap_attribute p"]
  by (cases "ap_sub p = []"; cases "ap_urn p = []")
    (simp_all add: path_ok_def attr_path_str_def Let_def word_literals)

lemma digit_word: "list_all is_digit s \<Longrightarrow> list_all is_word_char s"
  by (auto simp: list_all_iff is_word_char_def is_alnum_def)

lemma int_str_token_ok: "token_ok (Word (int_str i))"
  using nat_str_digits [of "nat i"] nat_str_digits [of "nat (- i)"] digit_word
  by (simp add: int_str_def word_literals)

lemma letter_words: "is_word_char c" if "is_lower c"
  using that by (simp add: is_word_char_def is_alnum_def is_alpha_def)

lemma value_token_ok: "token_ok (value_token v)"
  by (cases v) (simp_all add: int_str_token_ok scan_round_trip letter_words is_lower_def del: token_ok.simps(3)
      , simp_all add: letter_words is_lower_def)

lemma op_token_ok: "token_ok (Word (op_name op))"
  by (cases op) (simp_all add: letter_words is_lower_def)

lemma keyword_tokens_ok: "token_ok (Word ''and'')" "token_ok (Word ''or'')" "token_ok (Word ''not'')"
  by (simp_all add: letter_words is_lower_def)

lemma node_tokens_ok: "node_ok n \<Longrightarrow> list_all token_ok (node_tokens n)"
  by (induction n) (simp_all add: path_token_ok op_token_ok value_token_ok keyword_tokens_ok is_bracket_def
      del: op_name.simps token_ok.simps(3))

lemma blank_strip: "strip s = [] \<Longrightarrow> c \<in> set s \<Longrightarrow> is_space c"
proof -
  assume "strip s = []" and c: "c \<in> set s"
  then have "\<forall>x \<in> set (dropWhile is_space s). is_space x" by (simp add: strip_def)
  then have "dropWhile is_space s = []" using hd_dropWhile [of is_space s] by (metis hd_in_set)
  then show "is_space c" using c by simp
qed

lemma render_not_blank: "t # ts = us \<Longrightarrow> list_all token_ok us \<Longrightarrow> strip (render us) \<noteq> []"
proof
  assume us: "t # ts = us" "list_all token_ok us" and blank: "strip (render us) = []"
  have "\<forall>c \<in> set (render us). is_space c" using blank_strip [OF blank] by blast
  then have "\<forall>c \<in> set (token_text t). is_space c" using us(1) by (auto simp: render_cons)
  moreover have "token_text t \<noteq> []" "\<not> is_space (hd (token_text t))"
    using us by (cases t; auto simp: space_facts bracket_not_space word_char_facts neq_Nil_conv)+
  ultimately show False by (simp add: hd_in_set)
qed

end
