(* ===== verification/ScimProperties.thy ===== *)
theory ScimProperties
  imports ScimPrinter
begin

text \<open>
  The filter parser always answers within its fuel, keeps what it accepts within the two bounds
  of filters.py, and reads back what ScimPrinter prints.
\<close>

section \<open>The fuel is enough\<close>

definition shrinks :: "(token list \<Rightarrow> filter_node parsed) \<Rightarrow> bool" where
  "shrinks p = (\<forall>ts node ts'. p ts = Inr (node, ts') \<longrightarrow> length ts' < length ts)"

definition answers :: "(token list \<Rightarrow> filter_node parsed) \<Rightarrow> bool" where
  "answers p = (\<forall>ts. p ts \<noteq> Inl OutOfFuel)"

lemma shrinksD: "shrinks p \<Longrightarrow> p ts = Inr (node, ts') \<Longrightarrow> length ts' < length ts"
  by (simp add: shrinks_def)

lemma keyword_shorter: "keyword w ts = Some rest \<Longrightarrow> length ts = Suc (length rest)"
  by (cases "(w, ts)" rule: keyword.cases) (auto split: if_splits)

lemma expect_shorter: "expect v ts = Inr rest \<Longrightarrow> length ts = Suc (length rest)"
  by (cases "(v, ts)" rule: expect.cases) (auto split: if_splits)

lemma expect_error: "expect v ts = Inl e \<Longrightarrow> e = InvalidFilter"
  by (cases "(v, ts)" rule: expect.cases) (auto split: if_splits)

lemma chain_shorter: "shrinks p \<Longrightarrow> chain w mk p n node ts = Inr (node', ts') \<Longrightarrow> length ts' \<le> length ts"
proof (induction n arbitrary: node ts)
  case 0
  then show ?case by (subst (asm) chain.simps) (auto split: option.splits)
next
  case (Suc n)
  show ?case
  proof (cases "keyword w ts")
    case None
    then show ?thesis using Suc.prems(2) by (subst (asm) chain.simps) simp
  next
    case (Some rest)
    then obtain right ts1 where p: "p rest = Inr (right, ts1)" "chain w mk p n (mk node right) ts1 = Inr (node', ts')"
      using Suc.prems(2) by (subst (asm) chain.simps) (auto split: sum.splits)
    show ?thesis
      using Suc.IH [OF Suc.prems(1) p(2)] shrinksD [OF Suc.prems(1) p(1)] keyword_shorter [OF Some] by simp
  qed
qed

lemma chain_answers:
  "shrinks p \<Longrightarrow> answers p \<Longrightarrow> length ts \<le> n \<Longrightarrow> chain w mk p n node ts \<noteq> Inl OutOfFuel"
proof (induction n arbitrary: node ts)
  case 0
  then show ?case by (subst chain.simps) (auto dest: keyword_shorter split: option.split)
next
  case (Suc n)
  show ?case
  proof (cases "keyword w ts")
    case None
    then show ?thesis by (subst chain.simps) simp
  next
    case (Some rest)
    show ?thesis
    proof (cases "p rest")
      case (Inl e)
      then show ?thesis using Some Suc.prems(2) by (subst chain.simps) (auto simp: answers_def)
    next
      case (Inr r)
      obtain right ts1 where r: "r = (right, ts1)" by (cases r)
      have "length ts1 \<le> n"
        using shrinksD [OF Suc.prems(1) Inr [unfolded r]] keyword_shorter [OF Some] Suc.prems(3) by simp
      from Suc.IH [OF Suc.prems(1,2) this] show ?thesis
        using Some Inr r by (subst chain.simps) simp
    qed
  qed
qed

lemma joined_by_ok: "shrinks p \<Longrightarrow> answers p \<Longrightarrow> shrinks (joined_by w mk p) \<and> answers (joined_by w mk p)"
proof
  assume p: "shrinks p" "answers p"
  show "shrinks (joined_by w mk p)"
    unfolding shrinks_def
  proof (intro allI impI)
    fix ts node ts' assume j: "joined_by w mk p ts = Inr (node, ts')"
    then obtain n ts1 where "p ts = Inr (n, ts1)" "chain w mk p (length ts1) n ts1 = Inr (node, ts')"
      by (auto simp: joined_by_def split: sum.splits)
    then show "length ts' < length ts" using chain_shorter [OF p(1)] shrinksD [OF p(1)] by fastforce
  qed
  show "answers (joined_by w mk p)"
    using p chain_answers [OF p] by (auto simp: answers_def joined_by_def split: sum.split)
qed

lemma parse_or_ok: "shrinks u \<Longrightarrow> answers u \<Longrightarrow> shrinks (parse_or u) \<and> answers (parse_or u)"
  using joined_by_ok [of u "''and''" FAnd] joined_by_ok [of "parse_and u" "''or''" FOr]
  by (simp add: parse_or_def parse_and_def)

lemma json_string_answers: "json_string s \<noteq> Inl OutOfFuel"
  by (induction s rule: json_string.induct) (auto split: option.split sum.split)

lemma parse_value_answers: "parse_value ts \<noteq> Inl OutOfFuel"
  by (cases ts rule: parse_value.cases) (simp_all add: json_string_answers Let_def split: option.split)

lemma parse_value_shorter: "parse_value ts = Inr (v, ts') \<Longrightarrow> length ts' < length ts"
  by (cases ts rule: parse_value.cases) (auto simp: Let_def split: option.splits if_splits)

lemma parse_operator_ok: "parse_operator path ts \<noteq> Inl OutOfFuel"
  "parse_operator path ts = Inr (node, ts') \<Longrightarrow> length ts' < length ts"
  using parse_value_answers
  by (cases "(path, ts)" rule: parse_operator.cases;
      auto split: option.splits sum.splits if_splits dest!: parse_value_shorter)+

lemma parse_attribute_ok:
  assumes "shrinks inner" and "answers inner"
  shows "parse_attribute inner ts \<noteq> Inl OutOfFuel"
    and "parse_attribute inner ts = Inr (node, ts') \<Longrightarrow> length ts' < length ts"
proof -
  show "parse_attribute inner ts \<noteq> Inl OutOfFuel"
    using assms(2) parse_operator_ok(1) expect_error
    by (cases "(inner, ts)" rule: parse_attribute.cases)
      (fastforce simp: answers_def split: option.splits sum.splits)+
  show "parse_attribute inner ts = Inr (node, ts') \<Longrightarrow> length ts' < length ts"
    using shrinksD [OF assms(1)]
    by (cases "(inner, ts)" rule: parse_attribute.cases)
      (fastforce split: option.splits sum.splits dest: parse_operator_ok(2) expect_shorter)+
qed

lemma parse_closed_ok:
  assumes "shrinks inner" and "answers inner"
  shows "parse_closed inner ts \<noteq> Inl OutOfFuel"
    and "parse_closed inner ts = Inr (node, ts') \<Longrightarrow> length ts' < length ts"
  using assms(2) expect_error shrinksD [OF assms(1)]
  by (fastforce simp: parse_closed_def answers_def split: sum.splits dest: expect_shorter)+

lemma parse_unary_ok: "shrinks (parse_unary levels) \<and> answers (parse_unary levels)"
proof (induction levels)
  case 0
  then show ?case by (simp add: shrinks_def answers_def)
next
  case (Suc levels)
  then have inner: "shrinks (parse_or (parse_unary levels))" "answers (parse_or (parse_unary levels))"
    using parse_or_ok by blast+
  note sub = parse_closed_ok [OF inner] parse_attribute_ok [OF inner]
  have "shrinks (parse_unary (Suc levels))"
    using sub(2,4) unfolding shrinks_def
    by (fastforce split: option.splits sum.splits dest: keyword_shorter expect_shorter)
  moreover have "answers (parse_unary (Suc levels))"
    using sub(1,3) expect_error unfolding answers_def
    by (fastforce split: option.splits sum.splits)
  ultimately show ?case ..
qed

lemma parse_tokens_answers: "parse_tokens ts \<noteq> Inl OutOfFuel"
  using parse_or_ok [of "parse_unary max_filter_depth"] parse_unary_ok [of max_filter_depth]
  by (auto simp: parse_tokens_def answers_def split: sum.split)

section \<open>The bounds\<close>

fun node_nesting :: "filter_node \<Rightarrow> nat" where
  "node_nesting (Compare p op v) = 1"
| "node_nesting (FAnd l r) = max (node_nesting l) (node_nesting r)"
| "node_nesting (FOr l r) = max (node_nesting l) (node_nesting r)"
| "node_nesting (FNot n) = Suc (node_nesting n)"
| "node_nesting (ValuePath p n) = Suc (node_nesting n)"

definition nests :: "nat \<Rightarrow> (token list \<Rightarrow> filter_node parsed) \<Rightarrow> bool" where
  "nests k p = (\<forall>ts node ts'. p ts = Inr (node, ts') \<longrightarrow> node_nesting node \<le> k)"

lemma nestsD: "nests k p \<Longrightarrow> p ts = Inr (node, ts') \<Longrightarrow> node_nesting node \<le> k"
  unfolding nests_def by blast

lemma chain_nests:
  assumes "nests k p" and mk: "\<And>a b. node_nesting (mk a b) = max (node_nesting a) (node_nesting b)"
  shows "chain w mk p n node ts = Inr (node', ts') \<Longrightarrow> node_nesting node \<le> k \<Longrightarrow> node_nesting node' \<le> k"
proof (induction n arbitrary: node ts)
  case 0
  then show ?case by (subst (asm) chain.simps) (auto split: option.splits)
next
  case (Suc n)
  show ?case
  proof (cases "keyword w ts")
    case None
    then show ?thesis using Suc.prems by (subst (asm) chain.simps) simp
  next
    case (Some rest)
    then obtain right ts1 where p: "p rest = Inr (right, ts1)" "chain w mk p n (mk node right) ts1 = Inr (node', ts')"
      using Suc.prems(1) by (subst (asm) chain.simps) (auto split: sum.splits)
    show ?thesis
      using Suc.IH [OF p(2)] Suc.prems(2) nestsD [OF assms(1) p(1)] mk by simp
  qed
qed

lemma joined_by_nests:
  assumes "nests k p" and "\<And>a b. node_nesting (mk a b) = max (node_nesting a) (node_nesting b)"
  shows "nests k (joined_by w mk p)"
  using nestsD [OF assms(1)] chain_nests [OF assms]
  unfolding nests_def joined_by_def by (fastforce split: sum.splits)

lemma parse_or_nests: "nests k u \<Longrightarrow> nests k (parse_or u)"
  unfolding parse_or_def parse_and_def by (simp add: joined_by_nests)

lemma parse_closed_nests: "nests k inner \<Longrightarrow> nests k (parse_closed inner)"
  by (fastforce simp: nests_def parse_closed_def split: sum.splits)

lemma parse_operator_nests: "parse_operator path ts = Inr (node, ts') \<Longrightarrow> node_nesting node = 1"
  by (cases "(path, ts)" rule: parse_operator.cases) (auto split: option.splits sum.splits if_splits)

lemma parse_attribute_nests: "nests k inner \<Longrightarrow> nests (Suc k) (parse_attribute inner)"
  unfolding nests_def
proof (intro allI impI)
  fix ts node ts' assume n: "\<forall>ts node ts'. inner ts = Inr (node, ts') \<longrightarrow> node_nesting node \<le> k"
    and p: "parse_attribute inner ts = Inr (node, ts')"
  show "node_nesting node \<le> Suc k"
    using n p by (cases "(inner, ts)" rule: parse_attribute.cases)
      (fastforce split: option.splits sum.splits dest: parse_operator_nests)+
qed

lemma parse_unary_nests: "nests levels (parse_unary levels)"
proof (induction levels)
  case 0
  then show ?case by (simp add: nests_def)
next
  case (Suc levels)
  note inner = parse_or_nests [OF Suc]
  note closed = nestsD [OF parse_closed_nests [OF inner]] and attribute = nestsD [OF parse_attribute_nests [OF inner]]
  show ?case
    unfolding nests_def
    by (auto split: option.splits sum.splits dest: closed attribute intro: le_SucI)
qed

lemma parse_tokens_nests: "parse_tokens ts = Inr node \<Longrightarrow> node_nesting node \<le> max_filter_depth"
  using nestsD [OF parse_or_nests [OF parse_unary_nests]]
  by (fastforce simp: parse_tokens_def split: sum.splits if_splits)

section \<open>The claims\<close>

text \<open>
  C35. Parsing a filter always ends with an answer, whatever the text: the loops of the parser
  never use up their fuel, so the result is a filter or an error. An accepted filter keeps its
  text, which is not blank and within \<^verbatim>\<open>MAX_FILTER_LENGTH\<close>, and its \<^verbatim>\<open>not\<close>s and value paths nest
  at most \<^verbatim>\<open>MAX_FILTER_DEPTH\<close> deep, however its \<^verbatim>\<open>and\<close>s and \<^verbatim>\<open>or\<close>s are bracketed.
\<close>

theorem parse_filter_answers:
  "case parse_filter s of
     Inl e \<Rightarrow> e \<in> {InvalidFilter, OutsideText}
   | Inr f \<Rightarrow> sf_text f = s \<and> strip s \<noteq> [] \<and> length s \<le> max_filter_length \<and>
       node_nesting (sf_root f) \<le> max_filter_depth"
proof (cases "parse_filter s")
  case (Inl e)
  have "e \<noteq> OutOfFuel"
    using Inl parse_tokens_answers by (auto simp: parse_filter_def split: if_splits option.splits)
  then show ?thesis using Inl by (cases e) simp_all
next
  case (Inr f)
  then obtain ts where "strip s \<noteq> []" "length s \<le> max_filter_length" "parse_tokens ts = Inr (sf_root f)" "sf_text f = s"
    by (auto simp: parse_filter_def split: if_splits option.splits)
  then show ?thesis using Inr parse_tokens_nests by simp
qed

text \<open>
  C36. Printing a filter and parsing the text gives the filter back: every attribute path with
  its URN and sub-attribute, every operator, string values with their JSON escapes (quotes,
  backslashes and control characters included), integers, booleans and null, and the whole
  tree of \<^verbatim>\<open>and\<close>, \<^verbatim>\<open>or\<close>, \<^verbatim>\<open>not\<close> and value paths, when the text and the brackets fit the bounds.
\<close>

theorem filter_round_trip:
  assumes "node_ok n" and "node_depth n \<le> max_filter_depth"
    and "length (render (node_tokens n)) \<le> max_filter_length"
  shows "parse_filter (render (node_tokens n)) = Inr \<lparr>sf_text = render (node_tokens n), sf_root = n\<rparr>"
proof -
  have ok: "list_all token_ok (node_tokens n)" by (rule node_tokens_ok [OF assms(1)])
  obtain t ts where "t # ts = node_tokens n" by (cases n) auto
  then have "strip (render (node_tokens n)) \<noteq> []" using render_not_blank ok by blast
  then show ?thesis
    using assms(3) tokenize_render [OF ok] tokens_round_trip [OF assms(1,2)] by (simp add: parse_filter_def)
qed

definition demo_filter :: filter_node where
  "demo_filter =
     FOr (FAnd (Compare \<lparr>ap_urn = ''urn:s:User'', ap_attribute = ''name'', ap_sub = ''first''\<rparr> OpSw
                  (JStr [CHR ''J'', dquote, newline]))
               (FNot (ValuePath \<lparr>ap_urn = [], ap_attribute = ''emails'', ap_sub = []\<rparr>
                  (Compare \<lparr>ap_urn = [], ap_attribute = ''type'', ap_sub = []\<rparr> OpPr JNull))))
         (Compare \<lparr>ap_urn = [], ap_attribute = ''age'', ap_sub = []\<rparr> OpGe (JNum (-20)))"

theorem filter_round_trip_witness:
  "parse_filter (render (node_tokens demo_filter)) =
     Inr \<lparr>sf_text = render (node_tokens demo_filter), sf_root = demo_filter\<rparr>"
proof (rule filter_round_trip)
  show "node_ok demo_filter" by code_simp
  show "node_depth demo_filter \<le> max_filter_depth" by code_simp
  show "length (render (node_tokens demo_filter)) \<le> max_filter_length" by code_simp
qed

end
