(* ===== verification/ScimMatch.thy ===== *)
theory ScimMatch
  imports ScimFilter "HOL-Library.List_Lexorder"
begin

text \<open>
  identity/scim/filters.py: evaluating a parsed filter over a rendered resource, and the paths of
  PATCH. A mapping is an association list with distinct keys. Python's \<^verbatim>\<open>None\<close> is \<^const>\<open>JNull\<close>,
  also where a key is missing. A string ready to compare is its list of code points, because
  case folding leaves Latin-1 at two characters.
\<close>

section \<open>Attributes of a resource\<close>

definition child :: "json_object \<Rightarrow> string \<Rightarrow> json" where
  "child container name =
     (case map_of container name of
        Some v \<Rightarrow> v
      | None \<Rightarrow> (case find (\<lambda>(k, v). lower k = lower name) container of Some (k, v) \<Rightarrow> v | None \<Rightarrow> JNull))"

definition path_definition :: "scim_resource_type option \<Rightarrow> attr_path \<Rightarrow> scim_attribute option" where
  "path_definition kind path =
     (case kind of
        None \<Rightarrow> None
      | Some rt \<Rightarrow>
          (let known = (if ap_urn path \<noteq> [] then schema_for rt (ap_urn path) else Some (rt_schema rt));
               found = (case known of Some s \<Rightarrow> schema_attribute s (ap_attribute path) | None \<Rightarrow> None);
               found = (if found = None \<and> ap_urn path = []
                        then foldl (\<lambda>f common. if lower (at_name common) = lower (ap_attribute path) then Some common else f)
                               found common_attributes
                        else found)
           in case found of
                None \<Rightarrow> None
              | Some a \<Rightarrow> if ap_sub path \<noteq> [] then sub_attribute a (ap_sub path) else Some a))"

definition element_definition :: "scim_resource_type option \<Rightarrow> attr_path \<Rightarrow> string \<Rightarrow> scim_attribute option" where
  "element_definition kind path parent =
     (if kind = None then None
      else if parent \<noteq> []
      then (case path_definition kind \<lparr>ap_urn = ap_urn path, ap_attribute = parent, ap_sub = []\<rparr> of
              None \<Rightarrow> None
            | Some outer \<Rightarrow> sub_attribute outer (ap_attribute path))
      else path_definition kind path)"

definition item_values :: "string \<Rightarrow> json \<Rightarrow> json list" where
  "item_values sub item =
     (case item of
        JNull \<Rightarrow> []
      | JObj o' \<Rightarrow> (let inner = child o' (if sub \<noteq> [] then sub else ''value'') in if inner \<noteq> JNull then [inner] else [])
      | _ \<Rightarrow> if sub = [] then [item] else [])"

definition resolve :: "json_object \<Rightarrow> attr_path \<Rightarrow> scim_resource_type option \<Rightarrow> json list" where
  "resolve resource path kind =
     (let extended = (case kind of None \<Rightarrow> False | Some rt \<Rightarrow> ap_urn path \<noteq> [] \<and> rt_extension rt (ap_urn path) \<noteq> None)
      in case (if extended then child resource (ap_urn path) else JObj resource) of
           JObj container \<Rightarrow>
             (let v = child container (ap_attribute path);
                  items = (case v of JArr xs \<Rightarrow> xs | _ \<Rightarrow> [v])
              in concat (map (item_values (ap_sub path)) items))
         | _ \<Rightarrow> [])"

section \<open>Comparisons\<close>

text \<open>\<^verbatim>\<open>casefold\<close> on Latin-1: sharp s is two letters and the micro sign is the Greek mu.\<close>

definition fold_char :: "char \<Rightarrow> nat list" where
  "fold_char c = (if code c = 223 then [115, 115] else if code c = 181 then [956] else [code (lower_char c)])"

definition comparable :: "bool \<Rightarrow> string \<Rightarrow> nat list" where
  "comparable case_exact s = (if case_exact then map code s else concat (map fold_char s))"

definition ordered :: "scim_op \<Rightarrow> 'a::linorder \<Rightarrow> 'a \<Rightarrow> bool" where
  "ordered op left right =
     (if op = OpGt then left > right
      else if op = OpGe then left \<ge> right
      else if op = OpLt then left < right
      else left \<le> right)"

definition sublist_at :: "nat list \<Rightarrow> nat list \<Rightarrow> bool" where
  "sublist_at right left = (\<exists>n \<in> set [0..<Suc (length left)]. take (length right) (drop n left) = right)"

text \<open>Python's \<^verbatim>\<open>==\<close> on a stored value and a literal, where a boolean equals 0 or 1.\<close>

fun literal_equal :: "bool \<Rightarrow> json \<Rightarrow> json \<Rightarrow> bool" where
  "literal_equal exact (JStr s) (JStr t) = (comparable exact s = comparable exact t)"
| "literal_equal exact (JBool b) (JNum n) = (n = (if b then 1 else 0))"
| "literal_equal exact (JNum n) (JBool b) = (n = (if b then 1 else 0))"
| "literal_equal exact v w = (v = w)"

definition string_boolean :: "json \<Rightarrow> json \<Rightarrow> json" where
  "string_boolean actual expected =
     (case (actual, expected) of
        (JStr s, JBool b) \<Rightarrow> if lower s \<in> {''true'', ''false''} then JBool (lower s = ''true'') else actual
      | _ \<Rightarrow> actual)"

definition is_boolean :: "json \<Rightarrow> bool" where
  "is_boolean v = (case v of JBool _ \<Rightarrow> True | _ \<Rightarrow> False)"

definition scim_compare :: "json \<Rightarrow> scim_op \<Rightarrow> json \<Rightarrow> bool \<Rightarrow> bool" where
  "scim_compare actual op expected case_exact =
     (let actual = string_boolean actual expected in
      if op = OpEq then literal_equal case_exact actual expected
      else if op = OpNe then \<not> literal_equal case_exact actual expected
      else if is_boolean actual \<or> is_boolean expected then False
      else
        (case (actual, expected) of
           (JStr s, JStr t) \<Rightarrow>
             (let left = comparable case_exact s; right = comparable case_exact t in
              if op = OpCo then sublist_at right left
              else if op = OpSw then take (length right) left = right
              else if op = OpEw then length right \<le> length left \<and> drop (length left - length right) left = right
              else ordered op left right)
         | (JNum x, JNum y) \<Rightarrow> if op \<in> set [OpCo, OpSw, OpEw] then False else ordered op x y
         | _ \<Rightarrow> False))"

section \<open>Evaluation\<close>

definition present :: "json \<Rightarrow> bool" where
  "present v = (v \<notin> set [JStr [], JArr [], JObj []])"

definition compare_matches :: "scim_resource_type option \<Rightarrow> attr_path \<Rightarrow> scim_op \<Rightarrow> json \<Rightarrow> json_object \<Rightarrow> string \<Rightarrow> bool" where
  "compare_matches kind path op expected resource parent =
     (let vals = resolve resource path kind in
      if op = OpPr then list_ex present vals
      else
        (let case_exact = (case element_definition kind path parent of Some a \<Rightarrow> ai_case_exact (at_info a) | None \<Rightarrow> False)
         in if op = OpNe then \<not> list_ex (\<lambda>v. scim_compare v OpEq expected case_exact) vals
            else list_ex (\<lambda>v. scim_compare v op expected case_exact) vals))"

fun evaluate :: "scim_resource_type option \<Rightarrow> filter_node \<Rightarrow> json_object \<Rightarrow> string \<Rightarrow> bool" where
  "evaluate kind (FAnd l r) resource parent = (evaluate kind l resource parent \<and> evaluate kind r resource parent)"
| "evaluate kind (FOr l r) resource parent = (evaluate kind l resource parent \<or> evaluate kind r resource parent)"
| "evaluate kind (FNot n) resource parent = (\<not> evaluate kind n resource parent)"
| "evaluate kind (ValuePath path n) resource parent =
     (let elements = (case child resource (ap_attribute path) of JObj e \<Rightarrow> [JObj e] | JArr xs \<Rightarrow> xs | _ \<Rightarrow> [])
      in list_ex (\<lambda>e. case e of JObj o' \<Rightarrow> evaluate kind n o' (ap_attribute path) | _ \<Rightarrow> False) elements)"
| "evaluate kind (Compare path op v) resource parent = compare_matches kind path op v resource parent"

definition filter_matches :: "scim_filter \<Rightarrow> json_object \<Rightarrow> scim_resource_type option \<Rightarrow> bool" where
  "filter_matches f resource kind = evaluate kind (sf_root f) resource []"

definition matches_element :: "scim_filter \<Rightarrow> json_object \<Rightarrow> scim_resource_type option \<Rightarrow> string \<Rightarrow> bool" where
  "matches_element f element kind attribute_name = evaluate kind (sf_root f) element attribute_name"

section \<open>PATCH paths\<close>

record patch_path =
  pp_urn :: string
  pp_attribute :: string
  pp_value_filter :: "scim_filter option"
  pp_sub :: string

datatype path_error = InvalidPath | PathOutsideText | PathOutOfFuel

text \<open>The loop over the known schemas, longest URN first: the whole extension, or its URN and the rest.\<close>

fun split_urn :: "scim_schema list \<Rightarrow> string \<Rightarrow> (string + string \<times> string) option" where
  "split_urn [] raw = None"
| "split_urn (s # rest) raw =
     (if lower raw = lower (sc_id s) then Some (Inl (sc_id s))
      else if startswith (lower raw) (lower (sc_id s) @ '':'')
      then Some (Inr (sc_id s, drop (length (sc_id s) + 1) raw))
      else split_urn rest raw)"

definition known_schemas :: "scim_resource_type \<Rightarrow> scim_schema list" where
  "known_schemas rt = sort_key (\<lambda>s. - int (length (sc_id s))) (rt_schema rt # rt_extensions rt)"

definition filter_part :: "string \<Rightarrow> path_error + string \<times> scim_filter option \<times> string" where
  "filter_part rest =
     (if CHR ''['' \<in> set rest
      then
        (let (attribute_name, remainder) = partition_at (CHR ''['') rest;
             (inner, after) = rpartition_at (CHR '']'') remainder
         in if CHR '']'' \<notin> set remainder then Inl InvalidPath
            else
              (case parse_filter inner of
                 Inl InvalidFilter \<Rightarrow> Inl InvalidPath
               | Inl OutsideText \<Rightarrow> Inl PathOutsideText
               | Inl OutOfFuel \<Rightarrow> Inl PathOutOfFuel
               | Inr f \<Rightarrow>
                   if after = [] then Inr (attribute_name, Some f, [])
                   else if \<not> startswith after ''.'' then Inl InvalidPath
                   else Inr (attribute_name, Some f, drop 1 after)))
      else (let (attribute_name, sub) = partition_at (CHR ''.'') rest in Inr (attribute_name, None, sub)))"

definition parse_patch_path :: "string \<Rightarrow> scim_resource_type \<Rightarrow> path_error + patch_path" where
  "parse_patch_path path_text rt =
     (let raw = strip path_text;
          finish = (\<lambda>urn rest.
            (case filter_part rest of
               Inl e \<Rightarrow> Inl e
             | Inr (attribute_name, value_filter, sub) \<Rightarrow>
                 if \<not> attr_name attribute_name \<or> (sub \<noteq> [] \<and> \<not> attr_name sub) then Inl InvalidPath
                 else Inr \<lparr>pp_urn = (if lower urn = lower (sc_id (rt_schema rt)) then [] else urn),
                        pp_attribute = attribute_name, pp_value_filter = value_filter, pp_sub = sub\<rparr>))
      in if raw = [] then Inl InvalidPath
         else if startswith (lower raw) ''urn:''
         then (case split_urn (known_schemas rt) raw of
                 None \<Rightarrow> Inl InvalidPath
               | Some (Inl urn) \<Rightarrow> Inr \<lparr>pp_urn = urn, pp_attribute = [], pp_value_filter = None, pp_sub = []\<rparr>
               | Some (Inr (urn, rest)) \<Rightarrow> finish urn rest)
         else finish [] raw)"

end
