(* ===== verification/ScimResources.thy ===== *)
theory ScimResources
  imports ScimMatch
begin

text \<open>
  identity/scim/resources.py: the users and groups a product stores, their JSON form, and a
  request body folded onto the schema. A body under construction is a dictionary of the Prelude,
  so a written key keeps its place. \<open>st\<close> is \<^verbatim>\<open>str\<close> of a value that is not a string, and
  \<open>digest\<close> the SHA-256 of the sorted JSON of a resource without its \<^verbatim>\<open>meta\<close>, cut to 32 digits.
  A refusal is its status and \<^verbatim>\<open>scimType\<close> (identity/scim/errors.py), without the message.
\<close>

datatype scim_refusal = Refusal nat string

definition invalid_value :: scim_refusal where "invalid_value = Refusal 400 ''invalidValue''"
definition precondition_failed :: scim_refusal where "precondition_failed = Refusal 412 []"

section \<open>Values folded onto the schema\<close>

definition coerce_boolean :: "json \<Rightarrow> scim_refusal + bool" where
  "coerce_boolean v =
     (case v of
        JBool b \<Rightarrow> Inr b
      | JStr s \<Rightarrow>
          (let lowered = lower (strip s) in
           if lowered \<in> set [''true'', ''1'', ''yes''] then Inr True
           else if lowered \<in> set [''false'', ''0'', ''no'', []] then Inr False
           else Inl invalid_value)
      | _ \<Rightarrow> Inl invalid_value)"

text \<open>
  \<open>normalise_items\<close> is the list of \<^verbatim>\<open>normalise_value\<close> and \<open>normalise_members\<close> the loop of
  \<^verbatim>\<open>_normalise_single\<close> over the members of an object, with the result so far.
\<close>

function (sequential)
  normalise_value :: "scim_attribute \<Rightarrow> json \<Rightarrow> scim_refusal + json" and
  normalise_items :: "scim_attribute \<Rightarrow> json list \<Rightarrow> scim_refusal + json list" and
  normalise_single :: "scim_attribute \<Rightarrow> json \<Rightarrow> scim_refusal + json" and
  normalise_members :: "scim_attribute \<Rightarrow> json_object \<Rightarrow> json_object \<Rightarrow> scim_refusal + json_object" where
  "normalise_value d v =
     (if v = JNull then Inr JNull
      else if ai_multi_valued (at_info d)
      then (case v of
              JArr xs \<Rightarrow> map_sum id JArr (normalise_items d xs)
            | _ \<Rightarrow> map_sum id (\<lambda>x. JArr [x]) (normalise_single d v))
      else normalise_single d v)"
| "normalise_items d [] = Inr []"
| "normalise_items d (x # xs) =
     (if x = JNull then normalise_items d xs
      else
        (case normalise_single d x of
           Inl e \<Rightarrow> Inl e
         | Inr y \<Rightarrow> map_sum id ((#) y) (normalise_items d xs)))"
| "normalise_single d v =
     (if ai_type (at_info d) = ''boolean'' then map_sum id JBool (coerce_boolean v)
      else if ai_type (at_info d) \<noteq> ''complex''
      then (case v of JObj _ \<Rightarrow> Inl invalid_value | JArr _ \<Rightarrow> Inl invalid_value | _ \<Rightarrow> Inr v)
      else
        (case v of
           JObj kvs \<Rightarrow> map_sum id JObj (normalise_members d kvs [])
         | JNull \<Rightarrow> Inl invalid_value
         | JArr _ \<Rightarrow> Inl invalid_value
         | _ \<Rightarrow> if sub_attribute d ''value'' \<noteq> None then Inr (JObj [(''value'', v)]) else Inl invalid_value))"
| "normalise_members d [] result = Inr result"
| "normalise_members d ((key, inner) # rest) result =
     (case sub_attribute d key of
        None \<Rightarrow> normalise_members d rest result
      | Some sub \<Rightarrow>
          (case normalise_value sub inner of
             Inl e \<Rightarrow> Inl e
           | Inr y \<Rightarrow> normalise_members d rest (if y \<noteq> JNull then dset (at_name sub) y result else result)))"
  by pat_completeness auto

termination
  by (relation "measures [\<lambda>x. (case x of Inl (Inl (d, v)) \<Rightarrow> size v | Inl (Inr (d, xs)) \<Rightarrow> size_list size xs
       | Inr (Inl (d, v)) \<Rightarrow> size v | Inr (Inr (d, kvs, r)) \<Rightarrow> size_list (size_prod (\<lambda>_. 0) size) kvs),
     \<lambda>x. (case x of Inl (Inl _) \<Rightarrow> 1 | _ \<Rightarrow> 0)]") auto

declare normalise_value.simps [simp del] normalise_single.simps [simp del]

text \<open>One member of a request body: a refusal, or the body with what it contributes.\<close>

definition normalise_extension :: "scim_schema \<Rightarrow> json_object \<Rightarrow> scim_refusal + json_object" where
  "normalise_extension ext kvs =
     foldl (\<lambda>r (inner_key, inner_value).
        (case r of
           Inl e \<Rightarrow> Inl e
         | Inr inner \<Rightarrow>
             (case schema_attribute ext inner_key of
                None \<Rightarrow> Inr inner
              | Some d \<Rightarrow>
                  if ai_mutability (at_info d) = ''readOnly'' then Inr inner
                  else map_sum id (\<lambda>y. if y \<noteq> JNull then dset (at_name d) y inner else inner) (normalise_value d inner_value))))
       (Inr []) kvs"

definition normalise_entry :: "scim_resource_type \<Rightarrow> string \<Rightarrow> json \<Rightarrow> json_object \<Rightarrow> scim_refusal + json_object" where
  "normalise_entry rt key v result =
     (let lowered = lower key in
      if lowered = ''schemas'' then Inr result
      else if lowered = ''externalid''
      then (case v of JNull \<Rightarrow> Inr result | JStr s \<Rightarrow> Inr (dset ''externalId'' (JStr s) result) | _ \<Rightarrow> Inl invalid_value)
      else if lowered \<in> set [''id'', ''meta''] then Inr result
      else
        (case rt_extension rt key of
           Some ext \<Rightarrow>
             (case v of
                JObj kvs \<Rightarrow> map_sum id (\<lambda>inner. dset (sc_id ext) (JObj inner) result) (normalise_extension ext kvs)
              | _ \<Rightarrow> Inl invalid_value)
         | None \<Rightarrow>
             (case schema_attribute (rt_schema rt) key of
                None \<Rightarrow> Inr result
              | Some d \<Rightarrow>
                  if ai_mutability (at_info d) \<in> set [''readOnly'', ''writeOnly''] then Inr result
                  else map_sum id (\<lambda>y. if y \<noteq> JNull then dset (at_name d) y result else result) (normalise_value d v))))"

fun normalise_entries :: "scim_resource_type \<Rightarrow> json_object \<Rightarrow> json_object \<Rightarrow> scim_refusal + json_object" where
  "normalise_entries rt [] result = Inr result"
| "normalise_entries rt ((key, v) # rest) result =
     (case normalise_entry rt key v result of Inl e \<Rightarrow> Inl e | Inr r \<Rightarrow> normalise_entries rt rest r)"

definition normalise_resource :: "json_object \<Rightarrow> scim_resource_type \<Rightarrow> scim_refusal + json_object" where
  "normalise_resource body rt = normalise_entries rt body []"

section \<open>Users, groups and their members\<close>

definition resource_version :: "(json_object \<Rightarrow> string) \<Rightarrow> json_object \<Rightarrow> string" where
  "resource_version digest resource = digest (filter (\<lambda>(k, v). k \<noteq> ''meta'') resource)"

definition scim_meta :: "string \<Rightarrow> string \<Rightarrow> string \<Rightarrow> string \<Rightarrow> string \<Rightarrow> json" where
  "scim_meta kind location created last_modified version =
     JObj ([(''resourceType'', JStr kind), (''location'', JStr location)] @
       (if created \<noteq> [] then [(''created'', JStr created)] else []) @
       (if last_modified \<noteq> [] \<or> created \<noteq> [] then [(''lastModified'', JStr (str_or last_modified created))] else []) @
       (if version \<noteq> [] then [(''version'', JStr (''W/'' @ [dquote] @ version @ [dquote]))] else []))"

definition text_of :: "(json \<Rightarrow> string) \<Rightarrow> json \<Rightarrow> string" where
  "text_of st v = (case v of JStr s \<Rightarrow> s | JNull \<Rightarrow> [] | _ \<Rightarrow> st v)"

record scim_name =
  sn_formatted :: string
  sn_family_name :: string
  sn_given_name :: string
  sn_middle_name :: string
  sn_honorific_prefix :: string
  sn_honorific_suffix :: string

definition no_name :: scim_name where
  "no_name = \<lparr>sn_formatted = [], sn_family_name = [], sn_given_name = [], sn_middle_name = [],
     sn_honorific_prefix = [], sn_honorific_suffix = []\<rparr>"

definition name_dict :: "scim_name \<Rightarrow> json_object" where
  "name_dict n =
     map (\<lambda>(k, v). (k, JStr v))
       (filter (\<lambda>(k, v). v \<noteq> [])
          [(''formatted'', sn_formatted n), (''familyName'', sn_family_name n), (''givenName'', sn_given_name n),
           (''middleName'', sn_middle_name n), (''honorificPrefix'', sn_honorific_prefix n),
           (''honorificSuffix'', sn_honorific_suffix n)])"

definition name_from_dict :: "(json \<Rightarrow> string) \<Rightarrow> json_object \<Rightarrow> scim_name" where
  "name_from_dict st d =
     \<lparr>sn_formatted = text_of st (jget d ''formatted''), sn_family_name = text_of st (jget d ''familyName''),
      sn_given_name = text_of st (jget d ''givenName''), sn_middle_name = text_of st (jget d ''middleName''),
      sn_honorific_prefix = text_of st (jget d ''honorificPrefix''),
      sn_honorific_suffix = text_of st (jget d ''honorificSuffix'')\<rparr>"

record scim_email =
  em_value :: string
  em_type :: string
  em_primary :: bool
  em_display :: string

definition email_dict :: "scim_email \<Rightarrow> json_object" where
  "email_dict e =
     [(''value'', JStr (em_value e))] @
     (if em_type e \<noteq> [] then [(''type'', JStr (em_type e))] else []) @
     (if em_primary e then [(''primary'', JBool True)] else []) @
     (if em_display e \<noteq> [] then [(''display'', JStr (em_display e))] else [])"

record scim_member =
  sm_value :: string
  sm_display :: string
  sm_type :: string

definition member_dict :: "scim_member \<Rightarrow> string \<Rightarrow> string \<Rightarrow> json_object" where
  "member_dict m base_url resource =
     (let endpoint = (if resource \<noteq> [] then resource else if sm_type m = ''Group'' then ''Groups'' else ''Users'') in
      [(''value'', JStr (sm_value m)), (''$ref'', JStr (base_url @ ''/'' @ endpoint @ ''/'' @ sm_value m))] @
      (if sm_display m \<noteq> [] then [(''display'', JStr (sm_display m))] else []) @
      (if resource = [] then [(''type'', JStr (sm_type m))] else []))"

definition member_from_value :: "(json \<Rightarrow> string) \<Rightarrow> json \<Rightarrow> scim_refusal + scim_member" where
  "member_from_value st v =
     (case (case v of JStr s \<Rightarrow> Some [(''value'', JStr s)] | JObj raw \<Rightarrow> Some raw | _ \<Rightarrow> None) of
        None \<Rightarrow> Inl invalid_value
      | Some raw \<Rightarrow>
          (let member_id = strip (text_of st (jget raw ''value''));
               kind = str_or (text_of st (jget raw ''type'')) ''User''
           in if member_id = [] then Inl invalid_value
              else if lower kind \<notin> {lower ''User'', lower ''Group''} then Inl invalid_value
              else Inr \<lparr>sm_value = member_id, sm_display = text_of st (jget raw ''display''),
                     sm_type = (if lower kind = lower ''Group'' then ''Group'' else ''User'')\<rparr>))"

fun members_from :: "(json \<Rightarrow> string) \<Rightarrow> json list \<Rightarrow> scim_refusal + scim_member list" where
  "members_from st [] = Inr []"
| "members_from st (v # vs) =
     (case member_from_value st v of Inl e \<Rightarrow> Inl e | Inr m \<Rightarrow> map_sum id ((#) m) (members_from st vs))"

fun unique_from :: "string set \<Rightarrow> scim_member list \<Rightarrow> scim_member list" where
  "unique_from seen [] = []"
| "unique_from seen (m # ms) =
     (if sm_value m \<notin> seen then m # unique_from (insert (sm_value m) seen) ms else unique_from seen ms)"

definition unique_members :: "scim_member list \<Rightarrow> scim_member list" where
  "unique_members ms = unique_from {} ms"

record scim_user =
  su_user_name :: string
  su_id :: string
  su_external_id :: string
  su_active :: bool
  su_display_name :: string
  su_name :: scim_name
  su_emails :: "scim_email list"
  su_attributes :: json_object
  su_groups :: "scim_member list"
  su_created :: string
  su_last_modified :: string
  su_version :: string

definition user_email :: "scim_user \<Rightarrow> string" where
  "user_email u =
     (case find (\<lambda>e. em_primary e \<and> em_value e \<noteq> []) (su_emails u) of
        Some e \<Rightarrow> em_value e
      | None \<Rightarrow>
          (case find (\<lambda>e. em_value e \<noteq> []) (su_emails u) of
             Some e \<Rightarrow> em_value e
           | None \<Rightarrow> if CHR ''@'' \<in> set (su_user_name u) then su_user_name u else []))"

definition user_enterprise :: "scim_user \<Rightarrow> json_object" where
  "user_enterprise u = (case dget (su_attributes u) enterprise_user_schema of Some (JObj kvs) \<Rightarrow> kvs | _ \<Rightarrow> [])"

text \<open>The loop over a user's other attributes: the list of schemas and the body so far.\<close>

definition never_copied :: "string list" where
  "never_copied = [''schemas'', ''id'', ''meta'', ''password'', ''groups'']"

fun copy_attributes :: "json_object \<Rightarrow> string list \<Rightarrow> json_object \<Rightarrow> string list \<times> json_object" where
  "copy_attributes [] schemas body = (schemas, body)"
| "copy_attributes ((key, v) # rest) schemas body =
     (if key \<in> fst ` set body \<or> key \<in> set never_copied
      then copy_attributes rest schemas body
      else if key = enterprise_user_schema
      then (case v of
              JObj kvs \<Rightarrow>
                if kvs \<noteq> [] then copy_attributes rest (schemas @ [enterprise_user_schema]) (dset key v body)
                else copy_attributes rest schemas body
            | _ \<Rightarrow> copy_attributes rest schemas body)
      else copy_attributes rest schemas (dset key v body))"

definition user_to_resource :: "(json_object \<Rightarrow> string) \<Rightarrow> scim_user \<Rightarrow> string \<Rightarrow> json_object" where
  "user_to_resource digest u base_url =
     (let name = name_dict (su_name u);
          body = [(''schemas'', JNull), (''id'', JStr (su_id u))] @
            (if su_external_id u \<noteq> [] then [(''externalId'', JStr (su_external_id u))] else []) @
            [(''userName'', JStr (su_user_name u))] @
            (if name \<noteq> [] then [(''name'', JObj name)] else []) @
            (if su_display_name u \<noteq> [] then [(''displayName'', JStr (su_display_name u))] else []) @
            [(''active'', JBool (su_active u))] @
            (if su_emails u \<noteq> [] then [(''emails'', JArr (map (\<lambda>e. JObj (email_dict e)) (su_emails u)))] else []);
          (schemas, copied) = copy_attributes (su_attributes u) [user_schema] body;
          full = dset ''schemas'' (JArr (map JStr schemas)) copied;
          grouped = (if su_groups u \<noteq> []
            then dset ''groups'' (JArr (map (\<lambda>m. JObj (dset ''type'' (JStr ''direct'') (member_dict m base_url ''Groups''))) (su_groups u))) full
            else full)
      in dset ''meta''
           (scim_meta ''User'' (base_url @ ''/Users/'' @ su_id u) (su_created u) (su_last_modified u)
              (str_or (su_version u) (resource_version digest grouped)))
           grouped)"

definition email_from :: "(json \<Rightarrow> string) \<Rightarrow> json \<Rightarrow> scim_email list" where
  "email_from st item =
     (case item of
        JObj d \<Rightarrow>
          if truthy (jget d ''value'')
          then [\<lparr>em_value = text_of st (jget d ''value''), em_type = text_of st (jget d ''type''),
                 em_primary = truthy (jget d ''primary''), em_display = text_of st (jget d ''display'')\<rparr>]
          else []
      | _ \<Rightarrow> [])"

text \<open>
  \<^verbatim>\<open>from_resource\<close> on the normalised body \<open>data\<close>, which is the body itself when \<^verbatim>\<open>normalised\<close>.
  The elements of \<^verbatim>\<open>emails\<close> and \<^verbatim>\<open>members\<close> are those of a list; normalising makes them one.
\<close>

definition elements :: "json option \<Rightarrow> json list" where
  "elements v = (case v of Some (JArr xs) \<Rightarrow> xs | _ \<Rightarrow> [])"

definition user_from_normalised :: "(json \<Rightarrow> string) \<Rightarrow> json_object \<Rightarrow> scim_refusal + scim_user" where
  "user_from_normalised st body =
     (case dget body ''userName'' of
        Some (JStr user_name) \<Rightarrow>
          if strip user_name = [] then Inl invalid_value
          else
            (case coerce_boolean (case dget body ''active'' of Some v \<Rightarrow> v | None \<Rightarrow> JBool True) of
               Inl e \<Rightarrow> Inl e
             | Inr active \<Rightarrow>
                 Inr \<lparr>su_user_name = strip user_name, su_id = [],
                   su_external_id = text_of st (case dget body ''externalId'' of Some v \<Rightarrow> v | None \<Rightarrow> JStr []),
                   su_active = active,
                   su_display_name = text_of st (case dget body ''displayName'' of Some v \<Rightarrow> v | None \<Rightarrow> JStr []),
                   su_name = (case dget body ''name'' of Some (JObj d) \<Rightarrow> name_from_dict st d | _ \<Rightarrow> no_name),
                   su_emails = concat (map (email_from st) (elements (dget body ''emails''))),
                   su_attributes = foldl (\<lambda>d k. ddel k d) body
                     [''userName'', ''externalId'', ''active'', ''displayName'', ''name'', ''emails'',
                      ''id'', ''meta'', ''groups'', ''password'', ''schemas''],
                   su_groups = [], su_created = [], su_last_modified = [], su_version = []\<rparr>)
      | _ \<Rightarrow> Inl invalid_value)"

definition user_from_resource :: "(json \<Rightarrow> string) \<Rightarrow> json_object \<Rightarrow> scim_refusal + scim_user" where
  "user_from_resource st body =
     (case normalise_resource body user_resource_type of Inl e \<Rightarrow> Inl e | Inr d \<Rightarrow> user_from_normalised st d)"

record scim_group =
  sg_display_name :: string
  sg_id :: string
  sg_external_id :: string
  sg_members :: "scim_member list"
  sg_attributes :: json_object
  sg_created :: string
  sg_last_modified :: string
  sg_version :: string

definition group_body :: "scim_group \<Rightarrow> string \<Rightarrow> bool \<Rightarrow> json_object" where
  "group_body g base_url include_members =
     foldl (\<lambda>body (key, v).
         if key \<notin> fst ` set body \<and> key \<notin> set [''schemas'', ''id'', ''meta'', ''members''] then dset key v body else body)
       ([(''schemas'', JArr [JStr group_schema]), (''id'', JStr (sg_id g))] @
        (if sg_external_id g \<noteq> [] then [(''externalId'', JStr (sg_external_id g))] else []) @
        [(''displayName'', JStr (sg_display_name g))] @
        (if include_members then [(''members'', JArr (map (\<lambda>m. JObj (member_dict m base_url [])) (sg_members g)))] else []))
       (sg_attributes g)"

definition group_to_resource :: "(json_object \<Rightarrow> string) \<Rightarrow> scim_group \<Rightarrow> string \<Rightarrow> bool \<Rightarrow> json_object" where
  "group_to_resource digest g base_url include_members =
     (let body = group_body g base_url include_members in
      dset ''meta''
        (scim_meta ''Group'' (base_url @ ''/Groups/'' @ sg_id g) (sg_created g) (sg_last_modified g)
           (str_or (sg_version g)
              (resource_version digest (dset ''members'' (JArr (map (\<lambda>m. JStr (sm_value m)) (sg_members g))) body))))
        body)"

definition group_from_normalised :: "(json \<Rightarrow> string) \<Rightarrow> json_object \<Rightarrow> scim_refusal + scim_group" where
  "group_from_normalised st body =
     (case dget body ''displayName'' of
        Some (JStr display_name) \<Rightarrow>
          if strip display_name = [] then Inl invalid_value
          else
            (case members_from st (elements (dget body ''members'')) of
               Inl e \<Rightarrow> Inl e
             | Inr members \<Rightarrow>
                 Inr \<lparr>sg_display_name = strip display_name, sg_id = [],
                   sg_external_id = text_of st (case dget body ''externalId'' of Some v \<Rightarrow> v | None \<Rightarrow> JStr []),
                   sg_members = unique_members members,
                   sg_attributes = foldl (\<lambda>d k. ddel k d) body
                     [''displayName'', ''externalId'', ''members'', ''id'', ''meta'', ''schemas''],
                   sg_created = [], sg_last_modified = [], sg_version = []\<rparr>)
      | _ \<Rightarrow> Inl invalid_value)"

definition group_from_resource :: "(json \<Rightarrow> string) \<Rightarrow> json_object \<Rightarrow> scim_refusal + scim_group" where
  "group_from_resource st body =
     (case normalise_resource body group_resource_type of Inl e \<Rightarrow> Inl e | Inr d \<Rightarrow> group_from_normalised st d)"

end
