(* ===== verification/ScimLists.thy ===== *)
theory ScimLists
  imports ScimResources ScimPrinter
begin

text \<open>
  The list requests of identity/scim/routes.py and service.py: the parameters of a list or search
  request, the query handed to the product, its pages in memory, entity tags, and the lookup
  that keeps \<^verbatim>\<open>userName\<close> unique.
\<close>

section \<open>The parameters of a list\<close>

definition split_list :: "string option \<Rightarrow> string list" where
  "split_list v =
     filter (\<lambda>item. item \<noteq> []) (map strip (split_char (CHR '','') (case v of Some s \<Rightarrow> s | None \<Rightarrow> [])))"

definition as_list :: "json \<Rightarrow> scim_refusal + string list" where
  "as_list v =
     (case v of
        JNull \<Rightarrow> Inr []
      | JStr s \<Rightarrow> Inr (split_list (Some s))
      | JArr xs \<Rightarrow>
          if list_all (\<lambda>x. case x of JStr _ \<Rightarrow> True | _ \<Rightarrow> False) xs
          then Inr (filter (\<lambda>item. item \<noteq> []) (map (\<lambda>x. case x of JStr s \<Rightarrow> strip s | _ \<Rightarrow> []) xs))
          else Inl invalid_value
      | _ \<Rightarrow> Inl invalid_value)"

definition truncate :: "rat \<Rightarrow> int" where
  "truncate n = (if n < 0 then - \<lfloor>- n\<rfloor> else \<lfloor>n\<rfloor>)"

definition integer_parameter :: "json \<Rightarrow> int \<Rightarrow> scim_refusal + int" where
  "integer_parameter v default_value =
     (case v of
        JNull \<Rightarrow> Inr default_value
      | JStr s \<Rightarrow>
          if s = [] then Inr default_value
          else (case int_of_string s of Some n \<Rightarrow> Inr n | None \<Rightarrow> Inl invalid_value)
      | JNum n \<Rightarrow> Inr (truncate n)
      | _ \<Rightarrow> Inl invalid_value)"

definition names :: "string list \<Rightarrow> string \<Rightarrow> bool" where
  "names attributes name =
     list_ex (\<lambda>item. fst (partition_at (CHR ''.'') (lower (snd (rpartition_at (CHR '':'') item)))) = lower name) attributes"

record list_request =
  lr_filter :: "scim_filter option"
  lr_start_index :: int
  lr_count :: int
  lr_attributes :: "string list"
  lr_excluded :: "string list"

datatype list_error = BadFilter scim_error | BadParameter scim_refusal

definition new_list_request ::
  "string \<Rightarrow> json \<Rightarrow> json \<Rightarrow> string list \<Rightarrow> string list \<Rightarrow> int \<Rightarrow> int \<Rightarrow> list_error + list_request" where
  "new_list_request filter_text start_index count attributes excluded default_count max_count =
     (case (if strip filter_text \<noteq> [] then map_sum id Some (parse_filter filter_text) else Inr None) of
        Inl e \<Rightarrow> Inl (BadFilter e)
      | Inr f \<Rightarrow>
          (case integer_parameter start_index 1 of
             Inl e \<Rightarrow> Inl (BadParameter e)
           | Inr first \<Rightarrow>
               (case integer_parameter count default_count of
                  Inl e \<Rightarrow> Inl (BadParameter e)
                | Inr n \<Rightarrow>
                    Inr \<lparr>lr_filter = f, lr_start_index = max first 1, lr_count = min (max n 0) max_count,
                      lr_attributes = attributes, lr_excluded = excluded\<rparr>)))"

record scim_query =
  sq_filter :: "scim_filter option"
  sq_start_index :: int
  sq_count :: int
  sq_include_members :: bool

definition list_query :: "list_request \<Rightarrow> scim_resource_type \<Rightarrow> scim_query" where
  "list_query req rt =
     (let included =
        (if rt = group_resource_type
         then
           (let asked =
              (if lr_attributes req \<noteq> [] then names (lr_attributes req) ''members''
               else \<not> names (lr_excluded req) ''members'')
            in (case lr_filter req of
                  Some f \<Rightarrow> if filter_references f ''members'' then True else asked
                | None \<Rightarrow> asked))
         else True)
      in \<lparr>sq_filter = lr_filter req, sq_start_index = lr_start_index req, sq_count = lr_count req,
          sq_include_members = included\<rparr>)"

definition query_equality :: "scim_query \<Rightarrow> string \<Rightarrow> string option" where
  "query_equality q attribute_name =
     (case sq_filter q of Some f \<Rightarrow> filter_equality f attribute_name | None \<Rightarrow> None)"

record 'a scim_page =
  pg_resources :: "'a list"
  pg_total_results :: nat

definition apply_query :: "scim_query \<Rightarrow> 'a list \<Rightarrow> ('a \<Rightarrow> json_object) \<Rightarrow> scim_resource_type \<Rightarrow> 'a scim_page" where
  "apply_query q items render_item rt =
     (let matched = filter (\<lambda>item. case sq_filter q of None \<Rightarrow> True | Some f \<Rightarrow> filter_matches f (render_item item) (Some rt)) items;
          start = nat (max (sq_start_index q) 1 - 1)
      in \<lparr>pg_resources = take (nat (max (sq_count q) 0)) (drop start matched), pg_total_results = length matched\<rparr>)"

definition apply_users :: "(json_object \<Rightarrow> string) \<Rightarrow> scim_query \<Rightarrow> scim_user list \<Rightarrow> scim_user scim_page" where
  "apply_users digest q users = apply_query q users (\<lambda>u. user_to_resource digest u []) user_resource_type"

definition apply_groups :: "(json_object \<Rightarrow> string) \<Rightarrow> scim_query \<Rightarrow> scim_group list \<Rightarrow> scim_group scim_page" where
  "apply_groups digest q groups = apply_query q groups (\<lambda>g. group_to_resource digest g [] True) group_resource_type"

section \<open>Entity tags\<close>

definition strip_quotes :: "string \<Rightarrow> string" where
  "strip_quotes s = rstrip_char dquote (dropWhile (\<lambda>c. c = dquote) s)"

definition bare_version :: "string \<Rightarrow> string" where
  "bare_version tag =
     (let v = strip tag;
          v = (if upper (take 2 v) = ''W/'' then drop 2 v else v)
      in strip_quotes (strip v))"

definition etag_matches :: "string \<Rightarrow> string \<Rightarrow> bool" where
  "etag_matches header version =
     list_ex (\<lambda>candidate.
         let stripped = strip candidate in
         stripped = ''*'' \<or> (stripped \<noteq> [] \<and> bare_version stripped = bare_version version))
       (split_char (CHR '','') header)"

definition version_of :: "(json \<Rightarrow> string) \<Rightarrow> json_object \<Rightarrow> string" where
  "version_of st resource =
     (case dget resource ''meta'' of
        Some (JObj m) \<Rightarrow> (case dget m ''version'' of Some (JStr s) \<Rightarrow> s | Some v \<Rightarrow> st v | None \<Rightarrow> [])
      | _ \<Rightarrow> [])"

definition check_version :: "(json \<Rightarrow> string) \<Rightarrow> json_object \<Rightarrow> string \<Rightarrow> scim_refusal + unit" where
  "check_version st resource if_match =
     (if if_match \<noteq> [] \<and> \<not> etag_matches if_match (version_of st resource) then Inl precondition_failed else Inr ())"

section \<open>Unique user names\<close>

definition unique_filter_text :: "string \<Rightarrow> string" where
  "unique_filter_text user_name = ''userName eq '' @ [dquote] @ json_escape user_name @ [dquote]"

definition name_query :: "scim_filter \<Rightarrow> scim_query" where
  "name_query f = \<lparr>sq_filter = Some f, sq_start_index = 1, sq_count = 2, sq_include_members = True\<rparr>"

datatype unique_refusal = UniqueFilter scim_error | Taken string

text \<open>\<open>list_users\<close> is the product's hook: the users of the page a query of this tenant gets.\<close>

definition ensure_unique :: "(scim_query \<Rightarrow> scim_user list) \<Rightarrow> string \<Rightarrow> string \<Rightarrow> unique_refusal + unit" where
  "ensure_unique list_users user_name own_id =
     (case parse_filter (unique_filter_text user_name) of
        Inl e \<Rightarrow> Inl (UniqueFilter e)
      | Inr f \<Rightarrow>
          (case find (\<lambda>u. su_id u \<noteq> own_id \<and> lower (su_user_name u) = lower user_name)
                  (list_users (name_query f)) of
             Some u \<Rightarrow> Inl (Taken (su_id u))
           | None \<Rightarrow> Inr ()))"

end
