(* ===== verification/ScimListProperties.thy ===== *)
theory ScimListProperties
  imports ScimLists
begin

text \<open>
  A filter reads only the attributes it names, so a group listing that skips the members answers
  the same page; and the lookup for a taken user name finds one, whatever the name holds.
\<close>

section \<open>What a filter reads\<close>

definition extensions_avoid :: "scim_resource_type option \<Rightarrow> string \<Rightarrow> bool" where
  "extensions_avoid kind a =
     (case kind of None \<Rightarrow> True | Some rt \<Rightarrow> list_all (\<lambda>s. lower (sc_id s) \<noteq> lower a) (rt_extensions rt))"

lemma extension_avoids:
  assumes "extensions_avoid (Some rt) a" and "rt_extension rt urn \<noteq> None"
  shows "lower urn \<noteq> lower a"
proof -
  obtain s where s: "find (\<lambda>item. lower (sc_id item) = lower urn) (rt_extensions rt) = Some s"
    using assms(2) unfolding rt_extension_def by blast
  then have "s \<in> set (rt_extensions rt)" "lower (sc_id s) = lower urn"
    unfolding find_Some_iff by auto
  moreover have "\<forall>s \<in> set (rt_extensions rt). lower (sc_id s) \<noteq> lower a"
    using assms(1) unfolding extensions_avoid_def option.case list_all_iff .
  ultimately show ?thesis by metis
qed

lemma resolve_same:
  assumes "extensions_avoid kind a" and "lower (ap_attribute p) \<noteq> lower a"
    and same: "\<And>b. lower b \<noteq> lower a \<Longrightarrow> child r b = child r' b"
  shows "resolve r p kind = resolve r' p kind"
proof (cases "case kind of None \<Rightarrow> False | Some rt \<Rightarrow> ap_urn p \<noteq> [] \<and> rt_extension rt (ap_urn p) \<noteq> None")
  case True
  then obtain rt where "kind = Some rt" "rt_extension rt (ap_urn p) \<noteq> None" by (cases kind) auto
  then have urn: "lower (ap_urn p) \<noteq> lower a" using extension_avoids assms(1) by blast
  show ?thesis unfolding resolve_def Let_def by (simp only: True if_True same [OF urn])
next
  case False
  then show ?thesis unfolding resolve_def Let_def by (simp only: False if_False json.case same [OF assms(2)])
qed

lemma evaluate_same:
  assumes "extensions_avoid kind a" and "\<And>b. lower b \<noteq> lower a \<Longrightarrow> child r b = child r' b"
  shows "\<not> node_references n a \<Longrightarrow> evaluate kind n r parent = evaluate kind n r' parent"
proof (induction n)
  case (Compare p op v)
  then have "resolve r p kind = resolve r' p kind" using resolve_same [OF assms(1) _ assms(2)] by simp
  then show ?case by (simp only: evaluate.simps compare_matches_def)
next
  case (ValuePath p n)
  then have "child r (ap_attribute p) = child r' (ap_attribute p)" using assms(2) by simp
  then show ?case by (simp only: evaluate.simps)
qed simp_all

text \<open>Two objects with the same keys that differ at one of them at most.\<close>

definition agree :: "string \<Rightarrow> json_object \<Rightarrow> json_object \<Rightarrow> bool" where
  "agree k = list_all2 (\<lambda>x y. fst x = fst y \<and> (fst x = k \<or> snd x = snd y))"

lemma agree_refl: "agree k r r"
  unfolding agree_def by (rule list_all2_refl) simp

lemma agree_keys: "agree k r r' \<Longrightarrow> fst ` set r = fst ` set r'"
  unfolding agree_def by (induction rule: list_all2_induct) auto

lemma agree_dset: "agree k r r' \<Longrightarrow> agree k (dset q v r) (dset q v r')"
  unfolding agree_def by (induction rule: list_all2_induct) (auto simp: split_beta)

lemma agree_dset_at: "agree k r r' \<Longrightarrow> agree k (dset k v r) (dset k v' r')"
  unfolding agree_def by (induction rule: list_all2_induct) (auto simp: split_beta)

lemma agree_get: "agree k r r' \<Longrightarrow> b \<noteq> k \<Longrightarrow> dget r b = dget r' b"
  unfolding agree_def by (induction rule: list_all2_induct) (auto simp: split_beta)

lemma agree_find:
  "agree k r r' \<Longrightarrow> lower b \<noteq> lower k \<Longrightarrow>
     find (\<lambda>(k, v). lower k = lower b) r = find (\<lambda>(k, v). lower k = lower b) r'"
  unfolding agree_def by (induction rule: list_all2_induct) (auto simp: split_beta prod_eq_iff)

lemma agree_child: "agree k r r' \<Longrightarrow> lower b \<noteq> lower k \<Longrightarrow> child r b = child r' b"
proof -
  assume h: "agree k r r'" "lower b \<noteq> lower k"
  then have "b \<noteq> k" by blast
  show ?thesis unfolding child_def agree_get [OF h(1) \<open>b \<noteq> k\<close>] agree_find [OF h] ..
qed

section \<open>Groups listed without their members\<close>

definition unload :: "scim_group \<Rightarrow> scim_group" where
  "unload g = g\<lparr>sg_members := []\<rparr>"

definition map_page :: "('a \<Rightarrow> 'b) \<Rightarrow> 'a scim_page \<Rightarrow> 'b scim_page" where
  "map_page f p = \<lparr>pg_resources = map f (pg_resources p), pg_total_results = pg_total_results p\<rparr>"

lemma apply_query_map:
  assumes "\<And>x f. x \<in> set xs \<Longrightarrow> sq_filter q = Some f \<Longrightarrow>
      filter_matches f (render_item (h x)) (Some rt) = filter_matches f (render_item x) (Some rt)"
  shows "apply_query q (map h xs) render_item rt = map_page h (apply_query q xs render_item rt)"
proof -
  let ?p = "\<lambda>item. case sq_filter q of None \<Rightarrow> True | Some f \<Rightarrow> filter_matches f (render_item item) (Some rt)"
  have "filter ?p (map h xs) = map h (filter ?p xs)"
    using assms by (induction xs) (auto split: option.splits)
  then show ?thesis by (simp add: apply_query_def map_page_def Let_def take_map drop_map)
qed

lemma copied_agree:
  "agree k r r' \<Longrightarrow> agree k
     (foldl (\<lambda>body (key, v). if key \<notin> fst ` set body \<and> key \<notin> K then dset key v body else body) r kvs)
     (foldl (\<lambda>body (key, v). if key \<notin> fst ` set body \<and> key \<notin> K then dset key v body else body) r' kvs)"
  by (induction kvs arbitrary: r r') (auto simp: agree_dset agree_keys split: prod.split)

lemma body_agree: "agree ''members'' (group_body (unload g) url b) (group_body g url b)"
proof -
  have "sg_attributes (unload g) = sg_attributes g" by (simp add: unload_def)
  then show ?thesis
    unfolding group_body_def
    by (simp only:) (rule copied_agree [where K = "set [''schemas'', ''id'', ''meta'', ''members'']"],
      simp add: unload_def agree_def)
qed

lemma resource_agree:
  "sg_version g \<noteq> [] \<Longrightarrow>
     agree ''members'' (group_to_resource digest (unload g) url b) (group_to_resource digest g url b)"
  using agree_dset [OF body_agree] by (simp add: group_to_resource_def Let_def unload_def)

lemma group_extensions: "extensions_avoid (Some group_resource_type) a"
  by (simp add: extensions_avoid_def group_resource_type_def)

lemma excluded_not_named:
  "\<not> sq_include_members (list_query req group_resource_type) \<Longrightarrow>
     sq_filter (list_query req group_resource_type) = Some f \<Longrightarrow> \<not> filter_references f ''members''"
  by (auto simp: list_query_def Let_def split: option.splits if_splits)

text \<open>
  C37. A group listing that excludes \<^verbatim>\<open>members\<close> may skip loading them: when \<^verbatim>\<open>query\<close> says the
  members are not wanted, the page a product computes with \<^verbatim>\<open>apply_groups\<close> over groups loaded
  without members is the page over the full groups, with the same total, and each group is
  rendered the same, as long as the product keeps a version of each group.
\<close>

theorem members_need_not_be_loaded:
  assumes "\<not> sq_include_members (list_query req group_resource_type)"
    and "\<forall>g \<in> set groups. sg_version g \<noteq> []"
  shows "apply_groups digest (list_query req group_resource_type) (map unload groups) =
      map_page unload (apply_groups digest (list_query req group_resource_type) groups) \<and>
    map (\<lambda>g. group_to_resource digest (unload g) url False) groups =
      map (\<lambda>g. group_to_resource digest g url False) groups"
proof
  show "apply_groups digest (list_query req group_resource_type) (map unload groups) =
      map_page unload (apply_groups digest (list_query req group_resource_type) groups)"
    unfolding apply_groups_def
  proof (rule apply_query_map)
    fix g f assume g: "g \<in> set groups" and f: "sq_filter (list_query req group_resource_type) = Some f"
    have same: "agree ''members'' (group_to_resource digest (unload g) [] True) (group_to_resource digest g [] True)"
      using assms(2) g resource_agree by blast
    show "filter_matches f (group_to_resource digest (unload g) [] True) (Some group_resource_type) =
        filter_matches f (group_to_resource digest g [] True) (Some group_resource_type)"
      unfolding filter_matches_def
    proof (rule evaluate_same [where a = "''members''"])
      show "\<not> node_references (sf_root f) ''members''"
        using excluded_not_named [OF assms(1) f] unfolding filter_references_def .
    qed (rule group_extensions, rule agree_child [OF same])
  qed
  show "map (\<lambda>g. group_to_resource digest (unload g) url False) groups =
      map (\<lambda>g. group_to_resource digest g url False) groups"
    using assms(2) by (simp add: group_to_resource_def group_body_def unload_def Let_def)
qed

definition demo_group :: scim_group where
  "demo_group = \<lparr>sg_display_name = ''Team'', sg_id = ''g1'', sg_external_id = [],
     sg_members = [\<lparr>sm_value = ''u1'', sm_display = [], sm_type = ''User''\<rparr>],
     sg_attributes = [], sg_created = [], sg_last_modified = [], sg_version = ''1''\<rparr>"

definition demo_digest :: "json_object \<Rightarrow> string" where
  "demo_digest body = (case dget body ''members'' of Some (JArr []) \<Rightarrow> ''none'' | _ \<Rightarrow> ''some'')"

definition demo_request :: list_request where
  "demo_request = \<lparr>lr_filter = Some \<lparr>sf_text = [], sf_root =
       Compare \<lparr>ap_urn = [], ap_attribute = ''displayName'', ap_sub = []\<rparr> OpCo (JStr ''EA'')\<rparr>,
     lr_start_index = 1, lr_count = 10, lr_attributes = [], lr_excluded = [''members'']\<rparr>"

theorem members_need_not_be_loaded_witness:
  "apply_groups demo_digest (list_query demo_request group_resource_type) (map unload [demo_group]) =
     map_page unload (apply_groups demo_digest (list_query demo_request group_resource_type) [demo_group]) \<and>
   map (\<lambda>g. group_to_resource demo_digest (unload g) ''x'' False) [demo_group] =
     map (\<lambda>g. group_to_resource demo_digest g ''x'' False) [demo_group]"
proof (rule members_need_not_be_loaded)
  show "\<not> sq_include_members (list_query demo_request group_resource_type)" by code_simp
  show "\<forall>g \<in> set [demo_group]. sg_version g \<noteq> []" by (simp add: demo_group_def)
qed

text \<open>
  Without a stored version the derived one depends on the members: the version answered for a
  group read without them is refused when it comes back in \<^verbatim>\<open>If-Match\<close>, though nothing changed.
\<close>

lemma unloaded_version_is_refused:
  "check_version (\<lambda>_. [])
     (group_to_resource demo_digest (demo_group\<lparr>sg_version := []\<rparr>) ''x'' True)
     (version_of (\<lambda>_. []) (group_to_resource demo_digest (unload (demo_group\<lparr>sg_version := []\<rparr>)) ''x'' False)) =
   Inl precondition_failed"
  by code_simp

section \<open>Unique user names\<close>

abbreviation sharp_s :: char where "sharp_s \<equiv> CHR 0xDF"

definition fold_code :: "char \<Rightarrow> nat" where
  "fold_code c = (if code c = 181 then 956 else code (lower_char c))"

lemma fold_char_code: "c \<noteq> sharp_s \<Longrightarrow> fold_char c = [fold_code c]"
proof -
  assume "c \<noteq> sharp_s"
  then have "code c \<noteq> code sharp_s" using of_char_eq_iff by blast
  then have "code c \<noteq> 223" by simp
  then show ?thesis by (simp add: fold_char_def fold_code_def)
qed

lemma comparable_codes: "sharp_s \<notin> set s \<Longrightarrow> comparable False s = map fold_code s"
  by (induction s) (auto simp: comparable_def fold_char_code)

lemma code_lower: "code (lower_char c) = (if is_upper c \<or> (192 \<le> code c \<and> code c \<le> 222 \<and> code c \<noteq> 215) then code c + 32 else code c)"
  by (auto simp: lower_char_def is_upper_def code_char_of)

lemma fold_code_lower: "fold_code c = fold_code d \<longleftrightarrow> lower_char c = lower_char d"
proof -
  have same: "lower_char c = lower_char d \<longleftrightarrow> code (lower_char c) = code (lower_char d)"
    using of_char_eq_iff by blast
  have small: "code (lower_char c) \<noteq> 956" "code (lower_char d) \<noteq> 956"
    using code_less_256 [of "lower_char c"] code_less_256 [of "lower_char d"] by linarith+
  have micro: "code (lower_char x) = 181 \<longleftrightarrow> code x = 181" for x by (auto simp: code_lower is_upper_def)
  show ?thesis
    using micro [of c] micro [of d] small unfolding same fold_code_def by (metis (full_types))
qed

lemma fold_codes_lower: "map fold_code s = map fold_code t \<longleftrightarrow> lower s = lower t"
proof (induction s arbitrary: t)
  case Nil
  then show ?case by auto
next
  case (Cons c s)
  then show ?case by (cases t) (simp_all add: fold_code_lower)
qed

lemma comparable_lower:
  "sharp_s \<notin> set s \<Longrightarrow> sharp_s \<notin> set t \<Longrightarrow> comparable False s = comparable False t \<longleftrightarrow> lower s = lower t"
  using comparable_codes [of s] comparable_codes [of t] fold_codes_lower [of s t] by metis

abbreviation user_name_path :: attr_path where
  "user_name_path \<equiv> \<lparr>ap_urn = [], ap_attribute = ''userName'', ap_sub = []\<rparr>"

lemma unique_filter_parses:
  assumes "length (unique_filter_text name) \<le> max_filter_length"
  shows "parse_filter (unique_filter_text name) =
     Inr \<lparr>sf_text = unique_filter_text name, sf_root = Compare user_name_path OpEq (JStr name)\<rparr>"
proof -
  let ?n = "Compare user_name_path OpEq (JStr name)"
  have ok: "node_ok ?n" by (simp add: path_ok_def value_ok_def ordering_op_def) code_simp
  have text_eq: "CHR '' '' # unique_filter_text name = render (node_tokens ?n)"
    by (simp add: unique_filter_text_def render_def attr_path_str_def)
  have "tokenize (unique_filter_text name) = Some (node_tokens ?n)"
    using tokenize_render [OF node_tokens_ok [OF ok]] text_eq tokenize_space by metis
  moreover have "parse_tokens (node_tokens ?n) = Inr ?n"
    by (rule tokens_round_trip [OF ok]) (simp add: max_filter_depth_def)
  moreover have "strip (unique_filter_text name) \<noteq> []"
  proof
    assume "strip (unique_filter_text name) = []"
    then have "is_space (CHR ''u'')" by (rule blank_strip) (simp add: unique_filter_text_def)
    then show False by (simp add: is_space_def)
  qed
  ultimately show ?thesis using assms by (simp add: parse_filter_def)
qed

lemma copy_step:
  "\<exists>sch body'. copy_attributes ((k, v) # rest) schemas body = copy_attributes rest sch body' \<and>
     (body' = body \<or> k \<notin> fst ` set body \<and> body' = dset k v body)"
proof (cases "k \<in> fst ` set body \<or> k \<in> set never_copied")
  case True
  then show ?thesis by (simp only: copy_attributes.simps if_True) blast
next
  case False
  then show ?thesis
    by (cases v; cases "k = enterprise_user_schema")
      (simp_all only: copy_attributes.simps if_False if_True json.case split: if_split, blast+)
qed

lemma copy_keeps: "dget body key = Some x \<Longrightarrow> dget (snd (copy_attributes kvs schemas body)) key = Some x"
proof (induction kvs arbitrary: schemas body)
  case Nil
  then show ?case by simp
next
  case (Cons kv rest)
  obtain k v where kv: "kv = (k, v)" by (cases kv)
  obtain sch body' where step: "copy_attributes (kv # rest) schemas body = copy_attributes rest sch body'"
    "body' = body \<or> k \<notin> fst ` set body \<and> body' = dset k v body" using copy_step unfolding kv by blast
  have "k \<notin> fst ` set body \<Longrightarrow> key \<noteq> k" using Cons.prems by (metis fst_conv image_eqI map_of_SomeD)
  then have "dget body' key = Some x" using step(2) Cons.prems by auto
  then show ?case unfolding step(1) by (rule Cons.IH)
qed

lemma written_last:
  "k \<noteq> ''meta'' \<Longrightarrow> k \<noteq> ''groups'' \<Longrightarrow> k \<noteq> ''schemas'' \<Longrightarrow>
     dget (dset ''meta'' m (if b then dset ''groups'' g (dset ''schemas'' s d) else dset ''schemas'' s d)) k = dget d k"
  by (cases b) simp_all

lemma resource_user_name: "dget (user_to_resource digest u url) ''userName'' = Some (JStr (su_user_name u))"
proof -
  have skip: "dget (if b then [(k, v)] else []) q = None" if "k \<noteq> q" for b k v and q :: string
    using that by simp
  let ?body = "[(''schemas'', JNull), (''id'', JStr (su_id u))] @
    (if su_external_id u \<noteq> [] then [(''externalId'', JStr (su_external_id u))] else []) @
    [(''userName'', JStr (su_user_name u))] @
    (if name_dict (su_name u) \<noteq> [] then [(''name'', JObj (name_dict (su_name u)))] else []) @
    (if su_display_name u \<noteq> [] then [(''displayName'', JStr (su_display_name u))] else []) @
    [(''active'', JBool (su_active u))] @
    (if su_emails u \<noteq> [] then [(''emails'', JArr (map (\<lambda>e. JObj (email_dict e)) (su_emails u)))] else [])"
  have body: "dget ?body ''userName'' = Some (JStr (su_user_name u))"
    by (cases "su_external_id u = []") simp_all
  obtain schemas copied where c: "copy_attributes (su_attributes u) [user_schema] ?body = (schemas, copied)"
    by (rule prod.exhaust)
  have "dget copied ''userName'' = Some (JStr (su_user_name u))"
    using copy_keeps [OF body, of "su_attributes u" "[user_schema]"] unfolding c by simp
  then show ?thesis
    unfolding user_to_resource_def Let_def c prod.case by (subst written_last) simp_all
qed

lemma user_name_definition: "element_definition (Some user_resource_type) user_name_path [] \<noteq> None \<and>
    map_option (\<lambda>a. ai_case_exact (at_info a)) (element_definition (Some user_resource_type) user_name_path []) = Some False"
  by code_simp

lemma user_name_matches:
  "filter_matches \<lparr>sf_text = tx, sf_root = Compare user_name_path OpEq (JStr name)\<rparr>
     (user_to_resource digest u url) (Some user_resource_type) \<longleftrightarrow>
   comparable False (su_user_name u) = comparable False name"
proof -
  have "resolve (user_to_resource digest u url) user_name_path (Some user_resource_type) = [JStr (su_user_name u)]"
    by (simp add: resolve_def child_def resource_user_name item_values_def Let_def)
  moreover obtain a where "element_definition (Some user_resource_type) user_name_path [] = Some a"
    "\<not> ai_case_exact (at_info a)" using user_name_definition by auto
  ultimately show ?thesis
    by (simp add: filter_matches_def compare_matches_def scim_compare_def string_boolean_def)
qed

lemma find_filter: "find (\<lambda>x. p x \<and> q x) xs = find p (filter q xs)"
  by (induction xs) auto

lemma find_take_two: "distinct (map f xs) \<Longrightarrow> find (\<lambda>x. f x \<noteq> a) (take 2 xs) = find (\<lambda>x. f x \<noteq> a) xs"
  by (cases xs; cases "tl xs") (auto simp: numeral_2_eq_2)

lemma distinct_map_filter: "distinct (map f xs) \<Longrightarrow> distinct (map f (filter p xs))"
  by (induction xs) auto

text \<open>
  In a directory answered in memory, a user name is refused exactly when another user of
  the tenant holds it in some case, whatever characters the name holds: quotes, backslashes and
  control characters stay inside the literal of the lookup. A sharp s, which folds to two
  letters, is left out; so is a name whose lookup exceeds the length of a filter.
\<close>

theorem user_names_stay_unique:
  assumes "distinct (map su_id users)" and "\<forall>u \<in> set users. sharp_s \<notin> set (su_user_name u)"
    and "sharp_s \<notin> set name" and "length (unique_filter_text name) \<le> max_filter_length"
  shows "ensure_unique (\<lambda>q. pg_resources (apply_users digest q users)) name own =
     (case find (\<lambda>u. su_id u \<noteq> own \<and> lower (su_user_name u) = lower name) users of
        Some u \<Rightarrow> Inl (Taken (su_id u))
      | None \<Rightarrow> Inr ())"
proof -
  let ?hit = "\<lambda>u. lower (su_user_name u) = lower name"
  let ?page = "take 2 (filter ?hit users)"
  let ?other = "\<lambda>u. su_id u \<noteq> own \<and> ?hit u"
  have matched: "filter (\<lambda>u. comparable False (su_user_name u) = comparable False name) users = filter ?hit users"
    using assms(2,3) comparable_lower by (intro filter_cong) auto
  have "pg_resources (apply_users digest \<lparr>sq_filter = Some \<lparr>sf_text = unique_filter_text name,
      sf_root = Compare user_name_path OpEq (JStr name)\<rparr>, sq_start_index = 1, sq_count = 2, sq_include_members = True\<rparr> users) = ?page"
    by (simp add: apply_users_def apply_query_def user_name_matches matched Let_def)
  moreover have "find ?other ?page = find ?other users"
  proof -
    have "find ?other ?page = find (\<lambda>u. su_id u \<noteq> own) ?page"
      by (rule find_cong) (auto dest: in_set_takeD)
    also have "\<dots> = find (\<lambda>u. su_id u \<noteq> own) (filter ?hit users)"
      by (rule find_take_two [OF distinct_map_filter [OF assms(1)]])
    finally show ?thesis unfolding find_filter .
  qed
  ultimately show ?thesis
    unfolding ensure_unique_def unique_filter_parses [OF assms(4)] name_query_def by simp
qed

definition demo_user :: "string \<Rightarrow> string \<Rightarrow> scim_user" where
  "demo_user i name = \<lparr>su_user_name = name, su_id = i, su_external_id = [], su_active = True, su_display_name = [],
     su_name = no_name, su_emails = [], su_attributes = [], su_groups = [], su_created = [],
     su_last_modified = [], su_version = ''1''\<rparr>"

theorem user_names_stay_unique_witness:
  "ensure_unique (\<lambda>q. pg_resources (apply_users demo_digest q [demo_user ''u1'' ''ann'', demo_user ''u2'' [CHR ''B'', dquote]]))
     [CHR ''b'', dquote] ''u1'' = Inl (Taken ''u2'')"
proof -
  let ?users = "[demo_user ''u1'' ''ann'', demo_user ''u2'' [CHR ''B'', dquote]]"
  have "distinct (map su_id ?users)" "\<forall>u \<in> set ?users. sharp_s \<notin> set (su_user_name u)"
    "sharp_s \<notin> set [CHR ''b'', dquote]" "length (unique_filter_text [CHR ''b'', dquote]) \<le> max_filter_length"
    by code_simp+
  from user_names_stay_unique [OF this, of demo_digest "''u1''"]
  have run: "ensure_unique (\<lambda>q. pg_resources (apply_users demo_digest q ?users)) [CHR ''b'', dquote] ''u1'' =
     (case find (\<lambda>u. su_id u \<noteq> ''u1'' \<and> lower (su_user_name u) = lower [CHR ''b'', dquote]) ?users of
        Some u \<Rightarrow> Inl (Taken (su_id u)) | None \<Rightarrow> Inr ())" .
  show ?thesis unfolding run by code_simp
qed

text \<open>
  With a sharp s the lookup folds wider than the comparison after it, and its page holds two
  users: a third that has the name is missed.
\<close>

lemma sharp_s_hides_a_taken_name:
  "ensure_unique (\<lambda>q. pg_resources (apply_users demo_digest q
       [demo_user ''u1'' [sharp_s, sharp_s], demo_user ''u2'' [sharp_s, CHR ''s'', CHR ''s''], demo_user ''u3'' ''ssss'']))
     ''SSSS'' ''u4'' = Inr ()"
  by code_simp

end
