(* ===== verification/ApiKeyProperties.thy ===== *)
theory ApiKeyProperties
  imports Access
begin

text \<open>
  What an API key can do: the contract of a key store as a locale, the requests on the table as
  events, and the bound on the claims a key earns after any history of them.
\<close>

section \<open>The contract of a key store\<close>

definition same_grant :: "api_key \<Rightarrow> api_key \<Rightarrow> bool" where
  "same_grant r r' = (r' = r\<lparr>ak_last_used_at := ak_last_used_at r', ak_revoked_at := ak_revoked_at r'\<rparr>)"

lemma same_grant_refl [simp]: "same_grant r r"
  by (simp add: same_grant_def)

lemma same_grant_trans: "same_grant a b \<Longrightarrow> same_grant b c \<Longrightarrow> same_grant a c"
  by (cases a; cases b; cases c) (auto simp: same_grant_def)

lemma same_grantD:
  assumes "same_grant r r'"
  shows "ak_user_id r' = ak_user_id r" "ak_tenant_id r' = ak_tenant_id r" "ak_scopes r' = ak_scopes r"
    "ak_expires_at r' = ak_expires_at r" "ak_key_hash r' = ak_key_hash r" "revoke_handle r' = revoke_handle r"
  using assms by (cases r; cases r'; simp add: same_grant_def revoke_handle_def)+

locale api_key_store =
  fixes K :: "'s key_ops"
    and rows :: "'s \<Rightarrow> string \<Rightarrow> api_key option"
    and ok :: "'s \<Rightarrow> bool"
  assumes row_hash: "ok s \<Longrightarrow> rows s h = Some r \<Longrightarrow> ak_key_hash r = h"
    and key_get: "ok s \<Longrightarrow> ko_get K s h = rows s h"
    and key_put: "ok s \<Longrightarrow> ok (ko_put K s r) \<and> rows (ko_put K s r) = (rows s)(ak_key_hash r \<mapsto> r)"
    and key_revoke_ok: "ok s \<Longrightarrow> ok (snd (ko_revoke K s h c))"
    and key_revoke_live: "ok s \<Longrightarrow> rows s h = Some r \<Longrightarrow> \<not> ak_is_revoked r \<Longrightarrow>
      fst (ko_revoke K s h c) = Some r \<and>
      (\<exists>c'. c' \<noteq> [] \<and> rows (snd (ko_revoke K s h c)) = (rows s)(h \<mapsto> r\<lparr>ak_revoked_at := c'\<rparr>))"
    and key_revoke_dead: "ok s \<Longrightarrow> (\<And>r. rows s h = Some r \<Longrightarrow> ak_is_revoked r) \<Longrightarrow>
      fst (ko_revoke K s h c) = None \<and> rows (snd (ko_revoke K s h c)) = rows s"
    and key_touch: "ok s \<Longrightarrow> ok (ko_touch K s h c) \<and>
      (\<exists>c'. rows (ko_touch K s h c) k = map_option (\<lambda>r. r\<lparr>ak_last_used_at := c'\<rparr>) (rows s k))"
    and key_delete: "ok s \<Longrightarrow> ok (fst (ko_delete_all_for_user K s u)) \<and>
      rows (fst (ko_delete_all_for_user K s u)) k =
        (case rows s k of None \<Rightarrow> None | Some r \<Rightarrow> if ak_user_id r = u then None else Some r)"
    and key_list: "ok s \<Longrightarrow> r \<in> set (ko_list_for_tenant K s t) \<longleftrightarrow> rows s (ak_key_hash r) = Some r \<and> ak_tenant_id r = t"
begin

lemma revoke_row:
  assumes "ok s" and "rows (snd (ko_revoke K s h c)) k = Some r'"
  shows "\<exists>r. rows s k = Some r \<and> same_grant r r' \<and> (\<not> ak_is_revoked r' \<longrightarrow> \<not> ak_is_revoked r \<and> k \<noteq> h)"
proof (cases "\<exists>r. rows s h = Some r \<and> \<not> ak_is_revoked r")
  case True
  then obtain r c' where r: "rows s h = Some r" "\<not> ak_is_revoked r" "c' \<noteq> []"
    "rows (snd (ko_revoke K s h c)) = (rows s)(h \<mapsto> r\<lparr>ak_revoked_at := c'\<rparr>)"
    using key_revoke_live [OF assms(1)] by blast
  then show ?thesis
    using assms(2) by (cases "k = h") (auto simp: same_grant_def ak_is_revoked_def)
next
  case False
  then have "rows (snd (ko_revoke K s h c)) = rows s" using key_revoke_dead [OF assms(1)] by blast
  then show ?thesis using assms(2) False by auto
qed

lemma revoke_listed_row:
  assumes "ok s" and "rows (fst (revoke_listed_keys K c rs s n)) k = Some r'"
    and "\<And>r. r \<in> set rs \<Longrightarrow> rows s (ak_key_hash r) \<noteq> None"
  shows "ok (fst (revoke_listed_keys K c rs s n)) \<and> (\<exists>r. rows s k = Some r \<and> same_grant r r' \<and>
    (\<not> ak_is_revoked r' \<longrightarrow> \<not> ak_is_revoked r \<and> (\<forall>q \<in> set rs. ak_key_hash q = k \<longrightarrow> ak_is_revoked q)))"
  using assms
proof (induction rs arbitrary: s n)
  case Nil
  then show ?case by simp
next
  case (Cons q rs)
  show ?case
  proof (cases "ak_is_revoked q")
    case True
    then show ?thesis using Cons.IH [OF Cons.prems(1), of n] Cons.prems by auto
  next
    case False
    let ?s = "snd (ko_revoke K s (ak_key_hash q) c)"
    obtain n' where step: "revoke_listed_keys K c (q # rs) s n = revoke_listed_keys K c rs ?s n'"
      using False by (cases "ko_revoke K s (ak_key_hash q) c") auto
    have ok: "ok ?s" by (rule key_revoke_ok [OF Cons.prems(1)])
    have present: "rows ?s j \<noteq> None" if "rows s j \<noteq> None" for j
    proof (cases "\<exists>r. rows s (ak_key_hash q) = Some r \<and> \<not> ak_is_revoked r")
      case True
      then show ?thesis using key_revoke_live [OF Cons.prems(1)] that by (metis fun_upd_apply option.distinct(1))
    next
      case False
      then show ?thesis using key_revoke_dead [OF Cons.prems(1)] that by metis
    qed
    have IH: "ok (fst (revoke_listed_keys K c rs ?s n')) \<and> (\<exists>r. rows ?s k = Some r \<and> same_grant r r' \<and>
      (\<not> ak_is_revoked r' \<longrightarrow> \<not> ak_is_revoked r \<and> (\<forall>q \<in> set rs. ak_key_hash q = k \<longrightarrow> ak_is_revoked q)))"
      using Cons.IH [OF ok] Cons.prems(2,3) present unfolding step by (metis list.set_intros(2))
    then obtain r where r: "rows ?s k = Some r" "same_grant r r'"
      "\<not> ak_is_revoked r' \<longrightarrow> \<not> ak_is_revoked r \<and> (\<forall>q \<in> set rs. ak_key_hash q = k \<longrightarrow> ak_is_revoked q)" by blast
    obtain r0 where "rows s k = Some r0" "same_grant r0 r" "\<not> ak_is_revoked r \<longrightarrow> \<not> ak_is_revoked r0 \<and> k \<noteq> ak_key_hash q"
      using revoke_row [OF Cons.prems(1) r(1)] by blast
    then show ?thesis using IH r same_grant_trans unfolding step by fastforce
  qed
qed

lemma revoke_tenant_row:
  assumes "ok s" and "rows (fst (ko_revoke_all_for_tenant K s t c)) k = Some r'"
  shows "\<exists>r. rows s k = Some r \<and> same_grant r r' \<and> (\<not> ak_is_revoked r' \<longrightarrow> \<not> ak_is_revoked r \<and> ak_tenant_id r \<noteq> t)"
proof -
  let ?rs = "ko_list_for_tenant K s t"
  have listed: "rows s (ak_key_hash r) \<noteq> None" if "r \<in> set ?rs" for r using that key_list [OF assms(1)] by simp
  obtain r where r: "rows s k = Some r" "same_grant r r'"
    "\<not> ak_is_revoked r' \<longrightarrow> \<not> ak_is_revoked r \<and> (\<forall>q \<in> set ?rs. ak_key_hash q = k \<longrightarrow> ak_is_revoked q)"
    using revoke_listed_row [OF assms(1) _ listed] assms(2) unfolding ko_revoke_all_for_tenant_def by blast
  have "r \<in> set ?rs \<and> ak_key_hash r = k" if "ak_tenant_id r = t"
    using that r(1) row_hash [OF assms(1) r(1)] key_list [OF assms(1)] by simp
  then show ?thesis using r by blast
qed

lemma revoke_tenant_ok: "ok s \<Longrightarrow> ok (fst (ko_revoke_all_for_tenant K s t c))"
proof -
  have "ok s \<Longrightarrow> ok (fst (revoke_listed_keys K c rs s n))" for rs n
  proof (induction rs arbitrary: s n)
    case Nil
    then show ?case by simp
  next
    case (Cons q rs)
    then show ?case
      using key_revoke_ok [OF Cons.prems, of "ak_key_hash q" c]
      by (cases "ko_revoke K s (ak_key_hash q) c") auto
  qed
  then show "ok s \<Longrightarrow> ok (fst (ko_revoke_all_for_tenant K s t c))" by (simp add: ko_revoke_all_for_tenant_def)
qed

lemma find_handle_ascii:
  assumes "\<forall>r \<in> set rs. list_all is_ascii (revoke_handle r)" and "list_all is_ascii i"
  shows "find_handle i rs = Inr (find (\<lambda>r. revoke_handle r = i) rs)"
  using assms by (induction rs) (auto simp: compare_digest_def)

text \<open>
  Revoking by id revokes the row the id names, when the ids of its tenant can be compared and no
  other row has the same one.
\<close>

lemma revoke_by_id_named:
  assumes ok: "ok s" and row: "rows s h = Some r" "ak_tenant_id r = t" "revoke_handle r = i" and nonempty: "t \<noteq> []" "i \<noteq> []"
    and others: "\<And>k q. rows s k = Some q \<Longrightarrow> ak_tenant_id q = t \<Longrightarrow>
      list_all is_ascii (revoke_handle q) \<and> (revoke_handle q = i \<longrightarrow> k = h)"
  shows "snd (ko_revoke_by_id K s t i c) = snd (ko_revoke K s h c)"
proof -
  let ?rs = "ko_list_for_tenant K s t"
  have h: "ak_key_hash r = h" by (rule row_hash [OF ok row(1)])
  have "r \<in> set ?rs" using key_list [OF ok] h row by simp
  then have "find (\<lambda>r. revoke_handle r = i) ?rs \<noteq> None" using row(3) by (auto simp: find_None_iff)
  then obtain q where q: "find (\<lambda>r. revoke_handle r = i) ?rs = Some q" by blast
  then have "q \<in> set ?rs" "revoke_handle q = i" by (auto simp: find_Some_iff)
  then have "ak_key_hash q = h" using key_list [OF ok, of q t] others by blast
  moreover have "find_handle i ?rs = Inr (Some q)"
    using find_handle_ascii [of ?rs i] q others key_list [OF ok] row by metis
  ultimately show ?thesis
    using nonempty by (simp add: ko_revoke_by_id_def ko_get_by_id_def split: prod.split)
qed

lemma touch_row:
  assumes "ok s" and "rows (ko_touch K s h c) k = Some r'"
  shows "\<exists>r. rows s k = Some r \<and> same_grant r r' \<and> (\<not> ak_is_revoked r' \<longrightarrow> \<not> ak_is_revoked r)"
proof -
  obtain c' where "rows (ko_touch K s h c) k = map_option (\<lambda>r. r\<lparr>ak_last_used_at := c'\<rparr>) (rows s k)"
    using key_touch [OF assms(1), of h c k] by blast
  then obtain r where "rows s k = Some r" "r' = r\<lparr>ak_last_used_at := c'\<rparr>"
    using assms(2) by (cases "rows s k") auto
  then show ?thesis by (intro exI [of _ r]) (simp add: same_grant_def ak_is_revoked_def)
qed

lemma verify_row:
  assumes "ok s"
  shows "ok (snd (verify_key K hash_key now touch s p)) \<and>
    (rows (snd (verify_key K hash_key now touch s p)) k = Some r' \<longrightarrow>
      (\<exists>r. rows s k = Some r \<and> same_grant r r' \<and> (\<not> ak_is_revoked r' \<longrightarrow> \<not> ak_is_revoked r)))"
proof -
  have "snd (verify_key K hash_key now touch s p) = s \<or>
      snd (verify_key K hash_key now touch s p) = ko_touch K s (hash_key p) None"
    by (auto simp: verify_key_def Let_def split: option.split)
  then show ?thesis using assms touch_row [OF assms] key_touch [OF assms] by auto
qed

lemma verify_result:
  assumes "ok s" and "fst (verify_key K hash_key now touch s p) = Inr (Some r)"
  shows "is_api_key p" "rows s (hash_key p) = Some r" "ak_is_usable now r"
  using assms key_get [OF assms(1)]
  by (auto simp: verify_key_def Let_def split: if_splits option.splits)

end

definition key_memory_ok :: "key_memory \<Rightarrow> bool" where
  "key_memory_ok s = (dict_ok s \<and> (\<forall>h r. dget s h = Some r \<longrightarrow> ak_key_hash r = h))"

lemma key_memory_set:
  assumes "key_memory_ok s"
  shows "r \<in> set (dvalues s) \<longleftrightarrow> dget s (ak_key_hash r) = Some r"
  using assms mem_dvalues [of s r] unfolding key_memory_ok_def by metis

interpretation mem_keys: api_key_store "memory_key_ops wall" map_of key_memory_ok for wall
proof
  fix s :: key_memory and h k u t :: string and c :: "string option" and r :: api_key
  assume ok: "key_memory_ok s"
  note ops = memory_key_ops_def mem_key_get_def mem_key_put_def mem_key_revoke_def mem_key_touch_def
    mem_key_delete_all_for_user_def mem_key_list_for_tenant_def
  show "map_of s h = Some r \<Longrightarrow> ak_key_hash r = h" using ok by (simp add: key_memory_ok_def)
  show "ko_get (memory_key_ops wall) s h = map_of s h" by (simp add: ops)
  show "key_memory_ok (ko_put (memory_key_ops wall) s r) \<and>
      map_of (ko_put (memory_key_ops wall) s r) = (map_of s)(ak_key_hash r \<mapsto> r)"
    using ok by (simp add: ops key_memory_ok_def)
  show "key_memory_ok (snd (ko_revoke (memory_key_ops wall) s h c))"
    using ok by (auto simp: ops key_memory_ok_def split: option.split)
  show "map_of s h = Some r \<Longrightarrow> \<not> ak_is_revoked r \<Longrightarrow> fst (ko_revoke (memory_key_ops wall) s h c) = Some r \<and>
      (\<exists>c'. c' \<noteq> [] \<and> map_of (snd (ko_revoke (memory_key_ops wall) s h c)) = (map_of s)(h \<mapsto> r\<lparr>ak_revoked_at := c'\<rparr>))"
    by (rule conjI, simp add: ops, rule exI [of _ "stamp_or c wall"]) (simp add: ops stamp_or_def str_or_nonempty now_iso_def)
  show "(\<And>r. map_of s h = Some r \<Longrightarrow> ak_is_revoked r) \<Longrightarrow>
      fst (ko_revoke (memory_key_ops wall) s h c) = None \<and> map_of (snd (ko_revoke (memory_key_ops wall) s h c)) = map_of s"
    by (auto simp: ops split: option.split)
  show "key_memory_ok (ko_touch (memory_key_ops wall) s h c) \<and> (\<exists>c'. map_of (ko_touch (memory_key_ops wall) s h c) k =
      map_option (\<lambda>r. r\<lparr>ak_last_used_at := c'\<rparr>) (map_of s k))"
  proof
    show "key_memory_ok (ko_touch (memory_key_ops wall) s h c)"
      using ok by (auto simp: ops key_memory_ok_def split: option.split)
    show "\<exists>c'. map_of (ko_touch (memory_key_ops wall) s h c) k =
        map_option (\<lambda>r. r\<lparr>ak_last_used_at := c'\<rparr>) (map_of s k)"
    proof (cases "k = h")
      case True
      then show ?thesis
        by (intro exI [of _ "stamp_or c wall"]) (simp add: ops split: option.split)
    next
      case False
      then have same: "map_of (ko_touch (memory_key_ops wall) s h c) k = map_of s k"
        by (simp add: ops split: option.split)
      show ?thesis
      proof (cases "map_of s k")
        case None
        then show ?thesis using same by simp
      next
        case (Some q)
        then show ?thesis using same by (intro exI [of _ "ak_last_used_at q"]) simp
      qed
    qed
  qed
  show "key_memory_ok (fst (ko_delete_all_for_user (memory_key_ops wall) s u)) \<and>
      map_of (fst (ko_delete_all_for_user (memory_key_ops wall) s u)) k =
        (case map_of s k of None \<Rightarrow> None | Some r \<Rightarrow> if ak_user_id r = u then None else Some r)"
    using ok by (auto simp: ops key_memory_ok_def dget_delete_where split: option.splits if_splits)
  show "r \<in> set (ko_list_for_tenant (memory_key_ops wall) s t) \<longleftrightarrow>
      map_of s (ak_key_hash r) = Some r \<and> ak_tenant_id r = t"
    using key_memory_set [OF ok, of r] by (simp add: ops)
qed

section \<open>Requests on the table\<close>

datatype key_event =
  MintKey key_request string string
| UseKey string
| UseKeyFor string string
| RevokeKey string "string option"
| RevokeKeyId string string "string option"
| RevokeTenant string "string option"
| DeleteUser string

definition key_step :: "(string \<Rightarrow> string) \<Rightarrow> datetime \<times> key_event \<Rightarrow> key_memory \<Rightarrow> key_memory" where
  "key_step hash_key we s =
     (let K = memory_key_ops (fst we) in
      case snd we of
        MintKey q secret fresh_id \<Rightarrow> snd (mint_key (Some K) hash_key (fst we) s q secret fresh_id)
      | UseKey p \<Rightarrow> snd (verify_key K hash_key (fst we) True s p)
      | UseKeyFor p t \<Rightarrow> snd (verify_for_tenant K hash_key (fst we) True s p t)
      | RevokeKey p c \<Rightarrow> snd (revoke_key K hash_key s p c)
      | RevokeKeyId t i c \<Rightarrow> snd (ko_revoke_by_id K s t i c)
      | RevokeTenant t c \<Rightarrow> fst (ko_revoke_all_for_tenant K s t c)
      | DeleteUser u \<Rightarrow> fst (ko_delete_all_for_user K s u))"

definition key_run :: "(string \<Rightarrow> string) \<Rightarrow> (datetime \<times> key_event) list \<Rightarrow> key_memory" where
  "key_run hash_key es = foldl (\<lambda>s we. key_step hash_key we s) [] es"

text \<open>
  An id names one key: of the keys that the requests \<open>es\<close> mint for the tenant, all have ids that
  can be compared, and only the one with this plaintext has this id.
\<close>

definition id_names_only ::
  "(string \<Rightarrow> string) \<Rightarrow> (datetime \<times> key_event) list \<Rightarrow> string \<Rightarrow> string \<Rightarrow> string \<Rightarrow> bool" where
  "id_names_only hash_key es t i plaintext =
     (t \<noteq> [] \<and> i \<noteq> [] \<and>
      list_all (\<lambda>(wall, e). case e of
        MintKey q secret fresh_id \<Rightarrow> kr_tenant_id q = t \<longrightarrow>
          (let handle = revoke_handle (snd (minted_key hash_key wall q secret fresh_id)) in
           list_all is_ascii handle \<and> (handle = i \<longrightarrow> api_key_prefix @ secret = plaintext))
      | _ \<Rightarrow> True) es)"

text \<open>
  An event that ends the key with this plaintext and id, minted by this request: its revocation by
  plaintext or hash, by the id that names it, with its tenant, or the deletion of its user.
\<close>

fun ends_key ::
  "(string \<Rightarrow> string) \<Rightarrow> (datetime \<times> key_event) list \<Rightarrow> string \<Rightarrow> string \<Rightarrow> key_request \<Rightarrow> key_event \<Rightarrow> bool" where
  "ends_key hash_key es plaintext handle q (RevokeKey p c) =
     ((if is_api_key p then hash_key p else p) = hash_key plaintext)"
| "ends_key hash_key es plaintext handle q (RevokeKeyId t i c) =
     (t = kr_tenant_id q \<and> i = handle \<and> id_names_only hash_key es t i plaintext)"
| "ends_key hash_key es plaintext handle q (RevokeTenant t c) = (t = kr_tenant_id q)"
| "ends_key hash_key es plaintext handle q (DeleteUser u) = (u = kr_user_id q)"
| "ends_key hash_key es plaintext handle q e = False"

fun mints :: "string \<Rightarrow> key_event \<Rightarrow> bool" where
  "mints plaintext (MintKey q secret i) = (api_key_prefix @ secret = plaintext)"
| "mints plaintext e = False"

lemma verify_for_tenant_row:
  assumes "key_memory_ok s"
  shows "key_memory_ok (snd (verify_for_tenant (memory_key_ops w) hash_key now touch s p t)) \<and>
    (map_of (snd (verify_for_tenant (memory_key_ops w) hash_key now touch s p t)) k = Some r' \<longrightarrow>
      (\<exists>r. map_of s k = Some r \<and> same_grant r r' \<and> (\<not> ak_is_revoked r' \<longrightarrow> \<not> ak_is_revoked r)))"
proof -
  have "snd (verify_for_tenant (memory_key_ops w) hash_key now touch s p t) = s \<or>
      (\<exists>h. snd (verify_for_tenant (memory_key_ops w) hash_key now touch s p t) = ko_touch (memory_key_ops w) s h None)"
    by (auto simp: verify_for_tenant_def split: option.split sum.split)
  then show ?thesis using assms mem_keys.touch_row [OF assms] mem_keys.key_touch [OF assms] by auto
qed

lemma revoke_by_id_row:
  assumes "key_memory_ok s"
  shows "key_memory_ok (snd (ko_revoke_by_id (memory_key_ops w) s t i c)) \<and>
    (map_of (snd (ko_revoke_by_id (memory_key_ops w) s t i c)) k = Some r' \<longrightarrow>
      (\<exists>r. map_of s k = Some r \<and> same_grant r r' \<and> (\<not> ak_is_revoked r' \<longrightarrow> \<not> ak_is_revoked r)))"
proof -
  have "snd (ko_revoke_by_id (memory_key_ops w) s t i c) = s \<or>
      (\<exists>h. snd (ko_revoke_by_id (memory_key_ops w) s t i c) = snd (ko_revoke (memory_key_ops w) s h c))"
    by (auto simp: ko_revoke_by_id_def case_prod_beta split: option.split sum.split)
  then show ?thesis using assms mem_keys.revoke_row [OF assms] mem_keys.key_revoke_ok [OF assms] by auto blast
qed

text \<open>The rows of a table that came from the mints of a history.\<close>

definition minted_rows :: "(string \<Rightarrow> string) \<Rightarrow> (datetime \<times> key_event) list \<Rightarrow> key_memory \<Rightarrow> bool" where
  "minted_rows hash_key es s = (\<forall>k r. map_of s k = Some r \<longrightarrow>
     (\<exists>wall q secret i. (wall, MintKey q secret i) \<in> set es \<and> same_grant (snd (minted_key hash_key wall q secret i)) r))"

lemma minted_fields:
  "ak_key_hash (snd (minted_key hash_key wall q secret i)) = hash_key (api_key_prefix @ secret)"
  "ak_tenant_id (snd (minted_key hash_key wall q secret i)) = kr_tenant_id q"
  by (simp_all add: minted_key_def Let_def)

lemma named_by_id:
  assumes "key_memory_ok s" and "minted_rows hash_key es s" and "id_names_only hash_key es t i plaintext"
    and "map_of s k = Some r" and "ak_tenant_id r = t"
  shows "list_all is_ascii (revoke_handle r) \<and> (revoke_handle r = i \<longrightarrow> k = hash_key plaintext)"
proof -
  obtain wall q secret f where m: "(wall, MintKey q secret f) \<in> set es"
    "same_grant (snd (minted_key hash_key wall q secret f)) r"
    using assms(2,4) unfolding minted_rows_def by blast
  have "ak_key_hash r = k" using assms(1,4) by (simp add: key_memory_ok_def)
  moreover have "list_all is_ascii (revoke_handle r) \<and> (revoke_handle r = i \<longrightarrow> api_key_prefix @ secret = plaintext)"
    using assms(3,5) m(1) same_grantD(2,6) [OF m(2)]
    by (auto simp: id_names_only_def list_all_iff minted_fields Let_def dest!: bspec)
  ultimately show ?thesis using same_grantD(5) [OF m(2)] by (auto simp: minted_fields)
qed

lemma key_step_from:
  assumes "key_memory_ok s" and "map_of (key_step hash_key we s) k = Some r'"
  shows "(\<exists>q secret i. snd we = MintKey q secret i \<and> r' = snd (minted_key hash_key (fst we) q secret i)) \<or>
    (\<exists>r. map_of s k = Some r \<and> same_grant r r')"
proof (cases "snd we")
  case (MintKey q secret i)
  then show ?thesis
    using assms(2) mem_keys.key_put [OF assms(1)]
    by (auto simp: key_step_def mint_key_def Let_def split: if_splits)
next
  case (UseKey p)
  then show ?thesis
    using assms(2) mem_keys.verify_row [OF assms(1), of "fst we" hash_key "fst we" True p k r']
    by (auto simp: key_step_def Let_def)
next
  case (UseKeyFor p t)
  then show ?thesis
    using assms(2) verify_for_tenant_row [OF assms(1), of "fst we" hash_key "fst we" True p t k r']
    by (auto simp: key_step_def Let_def)
next
  case (RevokeKey p c)
  then show ?thesis
    using assms(2) mem_keys.revoke_row [OF assms(1), of "fst we" _ c k r']
    by (fastforce simp: key_step_def Let_def revoke_key_def)
next
  case (RevokeKeyId t i c)
  then show ?thesis
    using assms(2) revoke_by_id_row [OF assms(1), of "fst we" t i c k r']
    by (auto simp: key_step_def Let_def)
next
  case (RevokeTenant t c)
  then show ?thesis
    using assms(2) mem_keys.revoke_tenant_row [OF assms(1), of "fst we" t c k r']
    by (fastforce simp: key_step_def Let_def)
next
  case (DeleteUser u)
  then show ?thesis
    using assms(2) mem_keys.key_delete [OF assms(1), of "fst we" u k]
    by (auto simp: key_step_def Let_def split: option.splits if_splits)
qed

text \<open>What one event does to the row of a key it does not mint.\<close>

lemma key_step_row:
  assumes ok: "key_memory_ok s" and "inj hash_key" and "\<not> mints plaintext (snd we)" and minted: "minted_rows hash_key es s"
    and row: "map_of (key_step hash_key we s) (hash_key plaintext) = Some r'"
  shows "\<exists>r. map_of s (hash_key plaintext) = Some r \<and> same_grant r r' \<and>
    (\<not> ak_is_revoked r' \<longrightarrow> \<not> ak_is_revoked r \<and>
      (\<forall>q. ak_tenant_id r = kr_tenant_id q \<longrightarrow> ak_user_id r = kr_user_id q \<longrightarrow>
        \<not> ends_key hash_key es plaintext (revoke_handle r) q (snd we)))"
proof (cases "snd we")
  case (MintKey q secret i)
  then have "hash_key (api_key_prefix @ secret) \<noteq> hash_key plaintext" using assms(2,3) by (simp add: inj_eq)
  then show ?thesis
    using row MintKey ok mem_keys.key_put [OF ok]
    by (auto simp: key_step_def mint_key_def minted_key_def Let_def)
next
  case (UseKey p)
  then show ?thesis
    using row mem_keys.verify_row [OF ok, of "fst we" hash_key "fst we" True p "hash_key plaintext" r']
    by (auto simp: key_step_def Let_def)
next
  case (UseKeyFor p t)
  then show ?thesis
    using row verify_for_tenant_row [OF ok, of "fst we" hash_key "fst we" True p t "hash_key plaintext" r']
    by (auto simp: key_step_def Let_def)
next
  case (RevokeKey p c)
  then show ?thesis
    using row mem_keys.revoke_row [OF ok, of "fst we" _ c "hash_key plaintext" r']
    by (fastforce simp: key_step_def Let_def revoke_key_def)
next
  case (RevokeKeyId t i c)
  let ?K = "memory_key_ops (fst we)"
  have after: "map_of (snd (ko_revoke_by_id ?K s t i c)) (hash_key plaintext) = Some r'"
    using row RevokeKeyId by (simp add: key_step_def Let_def)
  obtain r where r: "map_of s (hash_key plaintext) = Some r" "same_grant r r'"
    "\<not> ak_is_revoked r' \<longrightarrow> \<not> ak_is_revoked r"
    using revoke_by_id_row [OF ok, of "fst we" t i c "hash_key plaintext" r'] after by blast
  have "ak_is_revoked r'" if named: "ak_tenant_id r = t" "revoke_handle r = i" "id_names_only hash_key es t i plaintext"
  proof -
    have "snd (ko_revoke_by_id ?K s t i c) = snd (ko_revoke ?K s (hash_key plaintext) c)"
      using named(3) named_by_id [OF ok minted named(3)]
      by (intro mem_keys.revoke_by_id_named [OF ok r(1) named(1,2)]) (auto simp: id_names_only_def)
    then show ?thesis using mem_keys.revoke_row [OF ok, of "fst we" "hash_key plaintext" c "hash_key plaintext" r'] after by auto
  qed
  then show ?thesis using r RevokeKeyId by auto
next
  case (RevokeTenant t c)
  then show ?thesis
    using row mem_keys.revoke_tenant_row [OF ok, of "fst we" t c "hash_key plaintext" r']
    by (fastforce simp: key_step_def Let_def)
next
  case (DeleteUser u)
  then show ?thesis
    using row mem_keys.key_delete [OF ok, of "fst we" u "hash_key plaintext"]
    by (auto simp: key_step_def Let_def split: option.splits if_splits)
qed

lemma key_step_ok: "key_memory_ok s \<Longrightarrow> key_memory_ok (key_step hash_key we s)"
  using mem_keys.key_put [of s "fst we"] mem_keys.verify_row [of s "fst we"] verify_for_tenant_row [of s "fst we"]
    mem_keys.key_revoke_ok [of s "fst we"] revoke_by_id_row [of s "fst we"] mem_keys.revoke_tenant_ok [of s "fst we"]
    mem_keys.key_delete [of s "fst we"]
  by (cases "snd we") (auto simp: key_step_def Let_def mint_key_def revoke_key_def)

lemma key_run_ok: "key_memory_ok (key_run hash_key es)"
proof (induction es rule: rev_induct)
  case Nil
  then show ?case by (simp add: key_run_def key_memory_ok_def)
next
  case (snoc we es)
  then show ?case using key_step_ok by (simp add: key_run_def)
qed

lemma key_run_snoc: "key_run hash_key (es @ [we]) = key_step hash_key we (key_run hash_key es)"
  by (simp add: key_run_def)

lemma key_run_minted: "minted_rows hash_key es (key_run hash_key es)"
proof (induction es rule: rev_induct)
  case Nil
  then show ?case by (simp add: key_run_def minted_rows_def)
next
  case (snoc we es)
  show ?case unfolding minted_rows_def
  proof (intro allI impI)
    fix k r
    assume "map_of (key_run hash_key (es @ [we])) k = Some r"
    then consider (now) q secret i where "snd we = MintKey q secret i" "r = snd (minted_key hash_key (fst we) q secret i)"
      | (earlier) r0 where "map_of (key_run hash_key es) k = Some r0" "same_grant r0 r"
      using key_step_from [OF key_run_ok] unfolding key_run_snoc by blast
    then show "\<exists>wall q secret i. (wall, MintKey q secret i) \<in> set (es @ [we]) \<and>
        same_grant (snd (minted_key hash_key wall q secret i)) r"
    proof cases
      case now
      then have "(fst we, MintKey q secret i) \<in> set (es @ [we])" by (cases we) simp
      then show ?thesis using now(2) same_grant_refl by metis
    next
      case earlier
      then obtain wall q secret i where "(wall, MintKey q secret i) \<in> set es"
        "same_grant (snd (minted_key hash_key wall q secret i)) r0"
        using snoc.IH unfolding minted_rows_def by blast
      then have "(wall, MintKey q secret i) \<in> set (es @ [we])" "same_grant (snd (minted_key hash_key wall q secret i)) r"
        using same_grant_trans [OF _ earlier(2)] by auto
      then show ?thesis by blast
    qed
  qed
qed

lemma minted_rows_mono: "minted_rows hash_key es s \<Longrightarrow> set es \<subseteq> set es' \<Longrightarrow> minted_rows hash_key es' s"
  unfolding minted_rows_def by blast

text \<open>
  Every row comes from the last request that minted its plaintext; \<open>every\<close> is the whole history,
  whose mints decide what an id names.
\<close>

lemma key_run_origin:
  assumes "inj hash_key" and "set es \<subseteq> set every"
    and "map_of (key_run hash_key es) (hash_key plaintext) = Some r"
  shows "\<exists>pre wall q secret i post. es = pre @ (wall, MintKey q secret i) # post \<and> plaintext = api_key_prefix @ secret \<and>
      same_grant (snd (minted_key hash_key wall q secret i)) r \<and>
      (\<forall>e \<in> set post. \<not> mints plaintext (snd e) \<and>
        (\<not> ak_is_revoked r \<longrightarrow> \<not> ends_key hash_key every plaintext (revoke_handle r) q (snd e)))"
  using assms(2,3)
proof (induction es arbitrary: r rule: rev_induct)
  case Nil
  then show ?case by (simp add: key_run_def)
next
  case (snoc we es)
  note run = key_run_snoc
  show ?case
  proof (cases "mints plaintext (snd we)")
    case True
    then obtain q secret i where e: "snd we = MintKey q secret i" "plaintext = api_key_prefix @ secret"
      by (cases "snd we") auto
    have "map_of (key_step hash_key we (key_run hash_key es)) (hash_key plaintext) =
        Some (snd (minted_key hash_key (fst we) q secret i))"
      using e mem_keys.key_put [OF key_run_ok]
      by (simp add: key_step_def mint_key_def minted_key_def Let_def)
    then have "r = snd (minted_key hash_key (fst we) q secret i)" using snoc.prems unfolding run by simp
    moreover have "es @ [we] = es @ (fst we, MintKey q secret i) # []" using e by (cases we) simp
    ultimately show ?thesis using e(2) same_grant_refl by (metis empty_iff empty_set)
  next
    case False
    have minted: "minted_rows hash_key every (key_run hash_key es)"
      using minted_rows_mono [OF key_run_minted] snoc.prems(1) by simp
    obtain r0 where r0: "map_of (key_run hash_key es) (hash_key plaintext) = Some r0" "same_grant r0 r"
      "\<not> ak_is_revoked r \<longrightarrow> \<not> ak_is_revoked r0 \<and> (\<forall>q. ak_tenant_id r0 = kr_tenant_id q \<longrightarrow>
          ak_user_id r0 = kr_user_id q \<longrightarrow> \<not> ends_key hash_key every plaintext (revoke_handle r0) q (snd we))"
      using key_step_row [OF key_run_ok assms(1) False minted] snoc.prems(2) unfolding run by blast
    obtain pre wall q secret i post where o: "es = pre @ (wall, MintKey q secret i) # post"
      "plaintext = api_key_prefix @ secret" "same_grant (snd (minted_key hash_key wall q secret i)) r0"
      "\<forall>e \<in> set post. \<not> mints plaintext (snd e) \<and>
        (\<not> ak_is_revoked r0 \<longrightarrow> \<not> ends_key hash_key every plaintext (revoke_handle r0) q (snd e))"
      using snoc.IH [OF _ r0(1)] snoc.prems(1) by auto
    have "ak_tenant_id r0 = kr_tenant_id q" "ak_user_id r0 = kr_user_id q" "revoke_handle r = revoke_handle r0"
      using same_grantD [OF o(3)] same_grantD(6) [OF r0(2)] by (simp_all add: minted_key_def Let_def)
    then have "\<forall>e \<in> set (post @ [we]). \<not> mints plaintext (snd e) \<and>
        (\<not> ak_is_revoked r \<longrightarrow> \<not> ends_key hash_key every plaintext (revoke_handle r) q (snd e))"
      using o(4) r0(3) False by auto
    moreover have "es @ [we] = pre @ (wall, MintKey q secret i) # (post @ [we])" using o(1) by simp
    ultimately show ?thesis using o(2) same_grant_trans [OF o(3) r0(2)] by blast
  qed
qed

section \<open>The claims of a key\<close>

lemma words_append: "is_space c \<Longrightarrow> words_from w (a @ c # b) = words_from w a @ words b"
  by (induction w a rule: words_from.induct) auto

lemma words_join: "words (join_words gs) = concat (map words gs)"
proof (cases gs)
  case Nil
  then show ?thesis by (simp add: join_words_def)
next
  case (Cons g rest)
  have space: "is_space (CHR '' '')" by (simp add: is_space_def)
  have "words (w @ concat (map (\<lambda>x. CHR '' '' # x) rest)) = words w @ concat (map words rest)" for w
  proof (induction rest arbitrary: w)
    case Nil
    then show ?case by simp
  next
    case (Cons x rest)
    then show ?case using words_append [OF space, of "[]" w "x @ concat (map (\<lambda>x. CHR '' '' # x) rest)"] by simp
  qed
  then show ?thesis by (simp add: Cons join_words_def)
qed

lemma coerce_named_get: "dget (coerce_named f ks d) k = map_option (if k \<in> set ks then f else id) (dget d k)"
  unfolding coerce_named_def by (induction d) auto

lemma coerced_get:
  "k \<notin> set integer_claims \<Longrightarrow> k \<notin> set boolean_claims \<Longrightarrow> k \<notin> set array_claims \<Longrightarrow> k \<noteq> ''scopes'' \<Longrightarrow>
     dget (coerce_claims loads st d) k = dget d k"
proof -
  assume k: "k \<notin> set integer_claims" "k \<notin> set boolean_claims" "k \<notin> set array_claims" "k \<noteq> ''scopes''"
  define c where "c = coerce_named (coerce_array loads st) array_claims
      (coerce_named coerce_bool boolean_claims (coerce_named coerce_int integer_claims d))"
  have c: "dget c k = dget d k" by (simp add: c_def coerce_named_get k option.map_id)
  have "coerce_claims loads st d = (case dget c ''scope'' of
      Some (JStr s) \<Rightarrow> dset ''scopes'' (JArr (map JStr (words s))) c | _ \<Rightarrow> c)"
    by (simp only: coerce_claims_def Let_def c_def)
  moreover have "dget (dset ''scopes'' v c) k = dget d k" for v using c k(4) by simp
  ultimately show ?thesis
    using c by (cases "dget c ''scope''") (simp_all del: dget_dset split: json.split)
qed

lemma coerced_scopes:
  "dget d ''scope'' = Some (JStr s) \<Longrightarrow> dget (coerce_claims loads st d) ''scopes'' = Some (JArr (map JStr (words s)))"
  by (simp add: coerce_claims_def Let_def coerce_named_get integer_claims_def boolean_claims_def array_claims_def
      email_verified_claim_def)

lemma key_claims:
  "text_claim st (ac_coerced (claims_for_key loads st r sc)) ''sub'' = ak_user_id r"
  "claims_tenant st (ac_coerced (claims_for_key loads st r sc)) = strip (ak_tenant_id r)"
  "scopes_of_claims st (ac_coerced (claims_for_key loads st r sc)) =
     concat (map words (normalise_scopes (case sc of Some s \<Rightarrow> s | None \<Rightarrow> ak_scopes r)))"
proof -
  let ?raw = "[(''sub'', JStr (ak_user_id r)), (tenant_claim, JStr (ak_tenant_id r)),
    (''scope'', JStr (join_words (normalise_scopes (case sc of Some s \<Rightarrow> s | None \<Rightarrow> ak_scopes r)))),
    (actor_claim, JStr actor_api_key)]"
  have c: "ac_coerced (claims_for_key loads st r sc) = coerce_claims loads st ?raw"
    by (simp add: claims_for_key_def new_claims_def Let_def)
  note lists = integer_claims_def boolean_claims_def array_claims_def email_verified_claim_def tenant_claim_def
  have "dget (coerce_claims loads st ?raw) ''sub'' = Some (JStr (ak_user_id r))"
    by (subst coerced_get) (simp_all add: lists)
  then show "text_claim st (ac_coerced (claims_for_key loads st r sc)) ''sub'' = ak_user_id r"
    by (simp add: c text_claim_def truthy_def py_str_def)
  have "dget (coerce_claims loads st ?raw) tenant_claim = Some (JStr (ak_tenant_id r))"
    by (subst coerced_get) (simp_all add: lists)
  then show "claims_tenant st (ac_coerced (claims_for_key loads st r sc)) = strip (ak_tenant_id r)"
    by (simp add: c claims_tenant_def text_claim_def truthy_def py_str_def)
  have "dget (coerce_claims loads st ?raw) ''scopes'' = Some (JArr (map JStr (words
      (join_words (normalise_scopes (case sc of Some s \<Rightarrow> s | None \<Rightarrow> ak_scopes r))))))"
    by (rule coerced_scopes) (simp add: tenant_claim_def)
  then show "scopes_of_claims st (ac_coerced (claims_for_key loads st r sc)) =
      concat (map words (normalise_scopes (case sc of Some s \<Rightarrow> s | None \<Rightarrow> ak_scopes r)))"
    by (simp add: c scopes_of_claims_def py_str_def comp_def words_join)
qed

lemma strip_strip: "strip (strip s) = strip s"
proof -
  have ends: "dropWhile is_space (rev (strip s)) = rev (strip s)"
    by (simp add: strip_def dropWhile_idem)
  have starts: "dropWhile is_space (strip s) = strip s"
  proof (cases "strip s")
    case (Cons c cs)
    have "\<exists>t. dropWhile is_space s = strip s @ t"
      by (metis rev_append rev_rev_ident strip_def takeWhile_dropWhile_id)
    then have "\<not> is_space c" using Cons hd_dropWhile [of is_space s] by fastforce
    then show ?thesis by (simp add: Cons)
  qed simp
  then show ?thesis by (metis ends rev_rev_ident strip_def)
qed

lemma set_normalise: "x \<in> set (normalise_scopes xs) \<longleftrightarrow> x \<noteq> [] \<and> x \<in> strip ` set xs"
  by (auto simp: normalise_scopes_def)

lemma stripped_fixed: "g \<in> strip ` A \<Longrightarrow> strip g = g"
  using strip_strip by blast

lemma strip_fixes: "A \<subseteq> strip ` B \<Longrightarrow> strip ` A = A"
proof -
  assume "A \<subseteq> strip ` B"
  then have "strip x = (\<lambda>x. x) x" if "x \<in> A" for x using that stripped_fixed by blast
  then have "strip ` A = (\<lambda>x. x) ` A" by (rule image_cong [OF refl])
  then show ?thesis by simp
qed

lemma set_normalise_sub: "set (normalise_scopes xs) \<subseteq> strip ` set xs"
  using set_normalise [of _ xs] by blast

lemma set_effective: "set (effective_scopes held live) = set (normalise_scopes held) \<inter> set (normalise_scopes live)"
  by (auto simp: effective_scopes_def Let_def normalise_scopes_def)

lemma normalise_fixed: "set xs \<subseteq> set (normalise_scopes ys) \<Longrightarrow> set (normalise_scopes xs) = set xs"
proof -
  assume xs: "set xs \<subseteq> set (normalise_scopes ys)"
  have same: "strip ` set xs = set xs" by (rule strip_fixes [OF order_trans [OF xs set_normalise_sub]])
  have "[] \<notin> set xs" using xs set_normalise [of "[]" ys] by blast
  then show ?thesis unfolding set_eq_iff set_normalise same by blast
qed

lemma normalise_effective:
  "set (normalise_scopes (effective_scopes held live)) = set (normalise_scopes held) \<inter> set (normalise_scopes live)"
  using normalise_fixed [of "effective_scopes held live" held] by (simp add: set_effective)

lemma normalise_normalised: "set (normalise_scopes (normalise_scopes xs)) = set (normalise_scopes xs)"
  using normalise_fixed [of "normalise_scopes xs" xs] by simp

lemma tenant_checkedD:
  "tenant_checked st cf claims request = Inr c \<Longrightarrow> c = claims \<and>
    (case cf_tenant cf of None \<Rightarrow> True
     | Some tenant \<Rightarrow> (case tenant request of None \<Rightarrow> False | Some w \<Rightarrow> claims_tenant st (ac_coerced claims) \<in> {[], w}))"
  by (auto simp: tenant_checked_def tenant_matches_def Let_def split: option.splits if_splits)

text \<open>
  C27. After any history of the key table, a request answered through the API key path presents a
  key some request minted, whose row the table still holds unrevoked. No later request revoked
  it by its plaintext or hash, by its tenant and the id that names it, revoked its tenant or
  deleted its user; the claims are for the minting user and tenant, the key has not expired,
  every scope of the claims is a word of a scope it was minted with and, where live membership
  is loaded, of one still held, and the tenant the request names is the key's.
\<close>

theorem api_key_within_its_mint:
  assumes "inj hash_key" and "identity_claims loads st request = None"
    and "cf_store cf = Some (memory_key_ops now)"
    and "claims_or_api_key loads st hash_key cf now (key_run hash_key es) request = (Inr claims, s')"
  shows "\<exists>pre wall q secret i post r. es = pre @ (wall, MintKey q secret i) # post \<and>
    bearer_credential request = api_key_prefix @ secret \<and>
    dget (key_run hash_key es) (hash_key (bearer_credential request)) = Some r \<and>
    (\<forall>e \<in> set post. \<not> ends_key hash_key es (api_key_prefix @ secret) (revoke_handle r) q (snd e)) \<and>
    same_grant (snd (minted_key hash_key wall q secret i)) r \<and> ak_is_usable now r \<and>
    text_claim st (ac_coerced claims) ''sub'' = kr_user_id q \<and>
    claims_tenant st (ac_coerced claims) = strip (kr_tenant_id q) \<and>
    (\<forall>x \<in> set (scopes_of_claims st (ac_coerced claims)). \<exists>g \<in> set (normalise_scopes (kr_scopes q)). x \<in> set (words g) \<and>
       (case cf_live_scopes cf of None \<Rightarrow> True
        | Some load \<Rightarrow> (case load r of None \<Rightarrow> False | Some live \<Rightarrow> g \<in> set (normalise_scopes live)))) \<and>
    (case cf_tenant cf of None \<Rightarrow> True
     | Some tenant \<Rightarrow> (case tenant request of None \<Rightarrow> False | Some w \<Rightarrow> strip (kr_tenant_id q) \<in> {[], w}))"
proof -
  let ?s = "key_run hash_key es" and ?p = "bearer_credential request"
  let ?v = "verify_key (memory_key_ops now) hash_key now True ?s ?p"
  obtain r sc where r: "fst ?v = Inr (Some r)"
    "tenant_checked st cf (claims_for_key loads st r sc) request = Inr claims"
    "case cf_live_scopes cf of None \<Rightarrow> sc = None
     | Some load \<Rightarrow> (case load r of None \<Rightarrow> False | Some live \<Rightarrow> sc = Some (effective_scopes (ak_scopes r) live))"
    using assms(2-4) by (cases ?v) (auto simp: claims_or_api_key_def Let_def split: if_splits sum.splits option.splits)
  note v = mem_keys.verify_result [OF key_run_ok r(1)]
  obtain pre wall q secret i post where o: "es = pre @ (wall, MintKey q secret i) # post"
    "?p = api_key_prefix @ secret" "same_grant (snd (minted_key hash_key wall q secret i)) r"
    "\<forall>e \<in> set post. \<not> mints ?p (snd e) \<and>
      (\<not> ak_is_revoked r \<longrightarrow> \<not> ends_key hash_key es ?p (revoke_handle r) q (snd e))"
    using key_run_origin [OF assms(1) order_refl v(2)] by blast
  have grant: "ak_user_id r = kr_user_id q" "ak_tenant_id r = kr_tenant_id q" "ak_scopes r = normalise_scopes (kr_scopes q)"
    using same_grantD [OF o(3)] by (simp_all add: minted_key_def Let_def)
  note t = tenant_checkedD [OF r(2)]
  have c: "claims = claims_for_key loads st r sc" using t by blast
  have scopes: "\<exists>g \<in> set (normalise_scopes (kr_scopes q)). x \<in> set (words g) \<and>
      (case cf_live_scopes cf of None \<Rightarrow> True
       | Some load \<Rightarrow> (case load r of None \<Rightarrow> False | Some live \<Rightarrow> g \<in> set (normalise_scopes live)))"
    if "x \<in> set (scopes_of_claims st (ac_coerced claims))" for x
    using that r(3) unfolding c key_claims(3)
    by (auto simp: grant normalise_effective normalise_normalised split: option.splits)
  have "\<forall>e \<in> set post. \<not> ends_key hash_key es (api_key_prefix @ secret) (revoke_handle r) q (snd e)"
    using o(2,4) v(3) by (simp add: ak_is_usable_def)
  moreover have "case cf_tenant cf of None \<Rightarrow> True
     | Some tenant \<Rightarrow> (case tenant request of None \<Rightarrow> False | Some w \<Rightarrow> strip (kr_tenant_id q) \<in> {[], w})"
    using conjunct2 [OF t] unfolding c key_claims(2) grant .
  ultimately show ?thesis
    using o(1-3) v(2,3) scopes key_claims(1,2) [of st loads r sc] unfolding c grant by blast
qed

definition demo_key_request :: key_request where
  "demo_key_request = \<lparr>kr_user_id = ''u'', kr_tenant_id = ''t'', kr_scopes = ['' read '', ''write''], kr_name = [],
     kr_expires_at = None, kr_created_at = None, kr_kind = kind_user, kr_created_by = None, kr_metadata = [],
     kr_key_id = None\<rparr>"

definition demo_key_http :: http_request where
  "demo_key_http = \<lparr>rq_context = None, rq_authorization = ''bearer wpk_s'', rq_path = [], rq_path_params = []\<rparr>"

definition demo_access :: "key_memory access_config" where
  "demo_access = \<lparr>cf_store = Some (memory_key_ops 0), cf_live_scopes = Some (\<lambda>_. Some [''read'']),
     cf_tenant = Some (\<lambda>_. Some ''t''), cf_liveness = None\<rparr>"

theorem api_key_within_its_mint_witness:
  "\<exists>claims s'. claims_or_api_key (\<lambda>_. None) (\<lambda>_. []) demo_hash demo_access 0
       (key_run demo_hash [(0, MintKey demo_key_request ''s'' ''i'')]) demo_key_http = (Inr claims, s') \<and>
     scopes_of_claims (\<lambda>_. []) (ac_coerced claims) = [''read''] \<and>
     (\<exists>pre wall q secret i post r. [(0, MintKey demo_key_request ''s'' ''i'')] = pre @ (wall, MintKey q secret i) # post \<and>
        bearer_credential demo_key_http = api_key_prefix @ secret \<and>
        dget (key_run demo_hash [(0, MintKey demo_key_request ''s'' ''i'')])
          (demo_hash (bearer_credential demo_key_http)) = Some r \<and>
        (\<forall>e \<in> set post. \<not> ends_key demo_hash [(0, MintKey demo_key_request ''s'' ''i'')] (api_key_prefix @ secret)
          (revoke_handle r) q (snd e)) \<and>
        same_grant (snd (minted_key demo_hash wall q secret i)) r \<and> ak_is_usable 0 r \<and>
        text_claim (\<lambda>_. []) (ac_coerced claims) ''sub'' = kr_user_id q \<and>
        claims_tenant (\<lambda>_. []) (ac_coerced claims) = strip (kr_tenant_id q) \<and>
        (\<forall>x \<in> set (scopes_of_claims (\<lambda>_. []) (ac_coerced claims)).
          \<exists>g \<in> set (normalise_scopes (kr_scopes q)). x \<in> set (words g) \<and>
            (case cf_live_scopes demo_access of None \<Rightarrow> True
             | Some load \<Rightarrow> (case load r of None \<Rightarrow> False | Some live \<Rightarrow> g \<in> set (normalise_scopes live)))) \<and>
        (case cf_tenant demo_access of None \<Rightarrow> True
         | Some tenant \<Rightarrow> (case tenant demo_key_http of None \<Rightarrow> False | Some w \<Rightarrow> strip (kr_tenant_id q) \<in> {[], w})))"
proof -
  let ?run = "claims_or_api_key (\<lambda>_. None) (\<lambda>_. []) demo_hash demo_access 0
       (key_run demo_hash [(0, MintKey demo_key_request ''s'' ''i'')]) demo_key_http"
  have ok: "case fst ?run of Inr c \<Rightarrow> scopes_of_claims (\<lambda>_. []) (ac_coerced c) = [''read''] | Inl _ \<Rightarrow> False" by code_simp
  then obtain claims s' where run: "?run = (Inr claims, s')" by (cases ?run) (auto split: sum.splits)
  have scopes: "scopes_of_claims (\<lambda>_. []) (ac_coerced claims) = [''read'']" using ok unfolding run fst_conv sum.case .
  have inj: "inj demo_hash" by (simp add: inj_def demo_hash_def)
  have none: "identity_claims (\<lambda>_. None) (\<lambda>_. []) demo_key_http = None"
    by (simp add: identity_claims_def read_authorizer_claims_def gate_claims_def demo_key_http_def)
  have store: "cf_store demo_access = Some (memory_key_ops 0)" by (simp add: demo_access_def)
  show ?thesis
    by (rule exI [of _ claims], rule exI [of _ s'])
      (rule conjI [OF run conjI [OF scopes api_key_within_its_mint [OF inj none store run]]])
qed

text \<open>
  Two refusals the code documents and does not make: a context header that is not JSON counts as
  no authorizer, so a key is still taken; and a key id outside ASCII raises instead of naming
  nothing, as soon as the tenant holds a key.
\<close>

lemma unreadable_context_is_no_authorizer:
  "rq_context request = Some raw \<Longrightarrow> loads raw = None \<Longrightarrow> identity_claims loads st request = None"
  by (simp add: identity_claims_def read_authorizer_claims_def gate_claims_def)

lemma non_ascii_key_id_raises:
  "tenant_id \<noteq> [] \<Longrightarrow> \<not> list_all is_ascii key_id \<Longrightarrow> ko_list_for_tenant K s tenant_id \<noteq> [] \<Longrightarrow>
     ko_revoke_by_id K s tenant_id key_id c = (Inl KeyTypeError, s)"
  by (cases "ko_list_for_tenant K s tenant_id")
    (auto simp: ko_revoke_by_id_def ko_get_by_id_def compare_digest_def)

end
