(* ===== verification/ScimPatch.thy ===== *)
theory ScimPatch
  imports ScimResources
begin

text \<open>
  identity/scim/patch.py: PATCH applied to a rendered resource. The code works on a deep copy and
  every value it stores is built by \<open>normalise_value\<close> or is a scalar, so no two places of the
  document share an object and an update in place is the updated tree. A refusal ends the whole
  request. \<^verbatim>\<open>_MISSING\<close> is \<^const>\<open>None\<close>. A filter whose literal leaves Latin-1 is \<open>PatchOutsideText\<close>,
  where the model stops.
\<close>

datatype patch_error = Refused scim_refusal | PatchOutsideText

definition invalid_syntax :: scim_refusal where "invalid_syntax = Refusal 400 ''invalidSyntax''"
definition invalid_path :: scim_refusal where "invalid_path = Refusal 400 ''invalidPath''"
definition no_target :: scim_refusal where "no_target = Refusal 400 ''noTarget''"
definition mutability_refusal :: scim_refusal where "mutability_refusal = Refusal 400 ''mutability''"
definition too_many :: scim_refusal where "too_many = Refusal 413 ''tooMany''"

definition max_patch_operations :: nat where "max_patch_operations = 1000"
definition patch_op_schema :: string where "patch_op_schema = ''urn:ietf:params:scim:api:messages:2.0:PatchOp''"

datatype patch_op = PatchAdd | PatchReplace | PatchRemove

record patch_operation =
  po_op :: patch_op
  po_path :: string
  po_value :: json
  po_has_value :: bool

definition key_like :: "json_object \<Rightarrow> string \<Rightarrow> string option" where
  "key_like container name = map_option fst (find (\<lambda>(k, v). lower k = lower name) container)"

definition jget_like :: "json_object \<Rightarrow> string \<Rightarrow> json" where
  "jget_like container name = (case key_like container name of Some k \<Rightarrow> jget container k | None \<Rightarrow> JNull)"

section \<open>Parsing the request\<close>

definition text_json :: "(json \<Rightarrow> string) \<Rightarrow> json \<Rightarrow> string" where
  "text_json st v = (case v of JStr s \<Rightarrow> s | _ \<Rightarrow> st v)"

definition patch_op_of :: "string \<Rightarrow> patch_op option" where
  "patch_op_of s = map_of [(''add'', PatchAdd), (''replace'', PatchReplace), (''remove'', PatchRemove)] s"

definition parse_patch_operation :: "(json \<Rightarrow> string) \<Rightarrow> json \<Rightarrow> scim_refusal + patch_operation" where
  "parse_patch_operation st item =
     (case item of
        JObj o' \<Rightarrow>
          (let op_text = lower (strip (case key_like o' ''op'' of Some k \<Rightarrow> text_json st (jget o' k) | None \<Rightarrow> [])) in
           case patch_op_of op_text of
             None \<Rightarrow> Inl invalid_syntax
           | Some op \<Rightarrow>
               (let path = jget_like o' ''path''; has_value = (key_like o' ''value'' \<noteq> None) in
                case (case path of JNull \<Rightarrow> Some [] | JStr s \<Rightarrow> Some s | _ \<Rightarrow> None) of
                  None \<Rightarrow> Inl invalid_path
                | Some p \<Rightarrow>
                    if op \<noteq> PatchRemove \<and> \<not> has_value then Inl invalid_syntax
                    else if op = PatchRemove \<and> p = [] then Inl no_target
                    else Inr \<lparr>po_op = op, po_path = p, po_value = jget_like o' ''value'', po_has_value = has_value\<rparr>))
      | _ \<Rightarrow> Inl invalid_syntax)"

fun parse_patch_operations :: "(json \<Rightarrow> string) \<Rightarrow> json list \<Rightarrow> scim_refusal + patch_operation list" where
  "parse_patch_operations st [] = Inr []"
| "parse_patch_operations st (x # xs) =
     (case parse_patch_operation st x of Inl e \<Rightarrow> Inl e | Inr p \<Rightarrow> map_sum id ((#) p) (parse_patch_operations st xs))"

definition parse_patch_request :: "(json \<Rightarrow> string) \<Rightarrow> json \<Rightarrow> scim_refusal + patch_operation list" where
  "parse_patch_request st body =
     (case body of
        JObj o' \<Rightarrow>
          (let schemas_ok = (case jget o' ''schemas'' of
                 JNull \<Rightarrow> True
               | JArr xs \<Rightarrow> list_ex (\<lambda>x. lower (text_json st x) = lower patch_op_schema) xs
               | _ \<Rightarrow> False)
           in if \<not> schemas_ok then Inl invalid_syntax
              else
                (case jget_like o' ''Operations'' of
                   JArr raw \<Rightarrow>
                     if raw = [] then Inl invalid_syntax
                     else if length raw > max_patch_operations then Inl too_many
                     else parse_patch_operations st raw
                 | _ \<Rightarrow> Inl invalid_syntax))
      | _ \<Rightarrow> Inl invalid_syntax)"

section \<open>Elements of a multi-valued attribute\<close>

definition patch_definition :: "scim_resource_type \<Rightarrow> patch_path \<Rightarrow> scim_attribute option" where
  "patch_definition rt path =
     (let known = (if pp_urn path \<noteq> [] then schema_for rt (pp_urn path) else Some (rt_schema rt));
          found = (case known of Some s \<Rightarrow> schema_attribute s (pp_attribute path) | None \<Rightarrow> None)
      in if found = None \<and> pp_urn path = [] then named_attribute common_attributes (pp_attribute path) else found)"

fun eq_pairs :: "filter_node \<Rightarrow> json_object option" where
  "eq_pairs (Compare path op v) =
     (if op = OpEq \<and> ap_sub path = [] \<and> ap_urn path = [] then Some [(ap_attribute path, v)] else None)"
| "eq_pairs (FAnd l r) =
     (case (eq_pairs l, eq_pairs r) of (Some a, Some b) \<Rightarrow> Some (foldl (\<lambda>d (k, v). dset k v d) a b) | _ \<Rightarrow> None)"
| "eq_pairs _ = None"

definition scalar :: "json \<Rightarrow> json option" where
  "scalar v = (case v of JStr _ \<Rightarrow> Some v | JNum _ \<Rightarrow> Some v | JBool _ \<Rightarrow> Some v | _ \<Rightarrow> None)"

definition element_value :: "json \<Rightarrow> json option" where
  "element_value item = (case item of JObj o' \<Rightarrow> scalar (jget_like o' ''value'') | _ \<Rightarrow> scalar item)"

definition same_identity :: "json \<Rightarrow> json option \<Rightarrow> bool" where
  "same_identity identity v = (case v of Some w \<Rightarrow> literal_equal True identity w | None \<Rightarrow> False)"

definition is_primary :: "json \<Rightarrow> bool" where
  "is_primary item = (case item of JObj o' \<Rightarrow> dget o' ''primary'' = Some (JBool True) | _ \<Rightarrow> False)"

definition not_primary :: "json \<Rightarrow> json" where
  "not_primary item = (case item of JObj o' \<Rightarrow> if is_primary item then JObj (dset ''primary'' (JBool False) o') else item | _ \<Rightarrow> item)"

fun dedupe :: "json list \<Rightarrow> json list \<Rightarrow> json list" where
  "dedupe result [] = result"
| "dedupe result (item # incoming) =
     (let kept = (case element_value item of
            Some identity \<Rightarrow> filter (\<lambda>x. \<not> same_identity identity (element_value x)) result
          | None \<Rightarrow> result);
          demoted = (if is_primary item then map not_primary kept else kept)
      in dedupe (demoted @ [item]) incoming)"

definition put_like :: "string \<Rightarrow> json \<Rightarrow> json_object \<Rightarrow> json_object" where
  "put_like name v o' = dset (case key_like o' name of Some k \<Rightarrow> k | None \<Rightarrow> name) v o'"

definition del_like :: "string \<Rightarrow> json_object \<Rightarrow> json_object" where
  "del_like name o' = (case key_like o' name of Some k \<Rightarrow> ddel k o' | None \<Rightarrow> o')"

definition on_object :: "(json_object \<Rightarrow> json_object) \<Rightarrow> json \<Rightarrow> json" where
  "on_object f item = (case item of JObj o' \<Rightarrow> JObj (f o') | _ \<Rightarrow> item)"

definition element_hit :: "scim_resource_type \<Rightarrow> scim_filter \<Rightarrow> string \<Rightarrow> json \<Rightarrow> bool" where
  "element_hit rt f name item = (case item of JObj o' \<Rightarrow> matches_element f o' (Some rt) name | _ \<Rightarrow> False)"

section \<open>One operation on one attribute\<close>

definition remove_from :: "scim_resource_type \<Rightarrow> patch_path \<Rightarrow> scim_attribute \<Rightarrow> json option \<Rightarrow> json_object \<Rightarrow> json_object" where
  "remove_from rt path d v container =
     (case key_like container (at_name d) of
        None \<Rightarrow> container
      | Some key \<Rightarrow>
          (let current = jget container key in
           case pp_value_filter path of
             Some f \<Rightarrow>
               (case current of
                  JArr items \<Rightarrow>
                    if pp_sub path \<noteq> []
                    then dset key (JArr (map (\<lambda>x. if element_hit rt f (at_name d) x then on_object (del_like (pp_sub path)) x else x) items)) container
                    else dset key (JArr (filter (\<lambda>x. \<not> element_hit rt f (at_name d) x) items)) container
                | _ \<Rightarrow> container)
           | None \<Rightarrow>
               if pp_sub path \<noteq> []
               then dset key (case current of
                      JArr items \<Rightarrow> JArr (map (on_object (del_like (pp_sub path))) items)
                    | _ \<Rightarrow> on_object (del_like (pp_sub path)) current) container
               else
                 (case (if ai_multi_valued (at_info d) then current else JNull, v) of
                    (JArr items, Some w) \<Rightarrow>
                      if w = JNull then ddel key container
                      else
                        (let targets = (case w of JArr ws \<Rightarrow> ws | _ \<Rightarrow> [w]);
                             doomed = List.map_filter element_value targets
                         in dset key (JArr (filter (\<lambda>x. \<not> list_ex (\<lambda>i. same_identity i (element_value x)) doomed) items)) container)
                  | _ \<Rightarrow> ddel key container)))"

definition set_filtered ::
  "scim_resource_type \<Rightarrow> patch_path \<Rightarrow> scim_filter \<Rightarrow> scim_attribute \<Rightarrow> json \<Rightarrow> string \<Rightarrow> json_object \<Rightarrow> scim_refusal + json_object" where
  "set_filtered rt path f d v key container =
     (let items = (case jget container key of JArr xs \<Rightarrow> xs | _ \<Rightarrow> []);
          hit = element_hit rt f (at_name d)
      in case (if list_ex hit items then Inr (map (\<lambda>x. (x, hit x)) items)
               else
                 (case eq_pairs (sf_root f) of
                    None \<Rightarrow> Inl no_target
                  | Some pairs \<Rightarrow>
                      if \<not> ai_multi_valued (at_info d) then Inl no_target
                      else
                        (let seed = foldl (\<lambda>s (name, literal). case sub_attribute d name of
                               Some sub \<Rightarrow> dset (at_name sub) literal s | None \<Rightarrow> s) [] pairs
                         in Inr (map (\<lambda>x. (x, False)) items @ [(JObj seed, True)])))) of
           Inl e \<Rightarrow> Inl e
         | Inr marked \<Rightarrow>
             (let store = (\<lambda>g. dset key (JArr (map (\<lambda>(x, m). if m then on_object g x else x) marked)) container) in
              if pp_sub path \<noteq> []
              then
                (case sub_attribute d (pp_sub path) of
                   None \<Rightarrow> Inr (store id)
                 | Some sub \<Rightarrow> map_sum id (\<lambda>n. store (put_like (at_name sub) n)) (normalise_value sub v))
              else
                (case v of
                   JObj _ \<Rightarrow>
                     (case normalise_value (ScimAttribute (at_name d) (plain\<lparr>ai_type := ''complex''\<rparr>) (at_sub_attributes d)) v of
                        Inl e \<Rightarrow> Inl e
                      | Inr (JObj merged) \<Rightarrow> Inr (store (\<lambda>o'. foldl (\<lambda>d (k, v). dset k v d) o' merged))
                      | Inr _ \<Rightarrow> Inr container)
                 | _ \<Rightarrow> Inl invalid_value)))"

definition set_in ::
  "scim_resource_type \<Rightarrow> patch_op \<Rightarrow> patch_path \<Rightarrow> scim_attribute \<Rightarrow> json \<Rightarrow> json_object \<Rightarrow> scim_refusal + json_object" where
  "set_in rt op path d v container =
     (let key = (case key_like container (at_name d) of Some k \<Rightarrow> k | None \<Rightarrow> at_name d);
          current = jget container key
      in case pp_value_filter path of
           Some f \<Rightarrow> set_filtered rt path f d v key container
         | None \<Rightarrow>
             if pp_sub path \<noteq> []
             then
               (case sub_attribute d (pp_sub path) of
                  None \<Rightarrow> Inr container
                | Some sub \<Rightarrow>
                    (case normalise_value sub v of
                       Inl e \<Rightarrow> Inl e
                     | Inr n \<Rightarrow>
                         if ai_multi_valued (at_info d)
                         then Inr (case current of
                                JArr items \<Rightarrow> dset key (JArr (map (on_object (put_like (at_name sub) n)) items)) container
                              | _ \<Rightarrow> container)
                         else Inr (dset key (JObj (put_like (at_name sub) n (case current of JObj o' \<Rightarrow> o' | _ \<Rightarrow> []))) container)))
             else
               (case normalise_value d v of
                  Inl e \<Rightarrow> Inl e
                | Inr n \<Rightarrow>
                    if ai_multi_valued (at_info d)
                    then (let incoming = (case n of JArr xs \<Rightarrow> xs | _ \<Rightarrow> [n]) in
                          Inr (dset key (JArr (case (op, current) of
                                 (PatchAdd, JArr items) \<Rightarrow> dedupe items incoming
                               | _ \<Rightarrow> dedupe [] incoming)) container))
                    else
                      (case (if ai_type (at_info d) = ''complex'' then current else JNull, n) of
                         (JObj o', JObj m) \<Rightarrow> Inr (dset key (JObj (foldl (\<lambda>d (k, v). dset k v d) o' m)) container)
                       | _ \<Rightarrow> Inr (dset key n container))))"

text \<open>The object an attribute lives in: the document, or the object of its extension.\<close>

definition extension_object :: "json_object \<Rightarrow> string \<Rightarrow> json_object option" where
  "extension_object doc urn = (case jget_like doc urn of JObj o' \<Rightarrow> Some o' | _ \<Rightarrow> None)"

definition extension_key :: "json_object \<Rightarrow> string \<Rightarrow> string" where
  "extension_key doc urn = (case key_like doc urn of Some k \<Rightarrow> str_or k urn | None \<Rightarrow> urn)"

definition patch_attribute ::
  "scim_resource_type \<Rightarrow> patch_op \<Rightarrow> patch_path \<Rightarrow> scim_attribute \<Rightarrow> json option \<Rightarrow> json_object \<Rightarrow> scim_refusal + json_object" where
  "patch_attribute rt op path d v doc =
     (if op = PatchRemove
      then
        (if ai_required (at_info d) \<and> pp_sub path = [] \<and> pp_value_filter path = None then Inl mutability_refusal
         else if pp_urn path = [] then Inr (remove_from rt path d v doc)
         else
           (case extension_object doc (pp_urn path) of
              None \<Rightarrow> Inr doc
            | Some o' \<Rightarrow> Inr (dset (extension_key doc (pp_urn path)) (JObj (remove_from rt path d v o')) doc)))
      else
        (case v of
           None \<Rightarrow> Inl invalid_syntax
         | Some w \<Rightarrow>
             if pp_urn path = [] then set_in rt op path d w doc
             else map_sum id (\<lambda>o'. dset (extension_key doc (pp_urn path)) (JObj o') doc)
                    (set_in rt op path d w (case extension_object doc (pp_urn path) of Some o' \<Rightarrow> o' | None \<Rightarrow> []))))"

section \<open>The request\<close>

function (sequential)
  apply_path :: "scim_resource_type \<Rightarrow> patch_op \<Rightarrow> bool \<Rightarrow> string \<Rightarrow> json option \<Rightarrow> json_object \<Rightarrow> patch_error + json_object" and
  apply_entries :: "scim_resource_type \<Rightarrow> patch_op \<Rightarrow> string \<Rightarrow> json_object \<Rightarrow> json_object \<Rightarrow> patch_error + json_object" where
  "apply_path rt op lenient raw_path v doc =
     (case parse_patch_path raw_path rt of
        Inl InvalidPath \<Rightarrow> if lenient then Inr doc else Inl (Refused invalid_path)
      | Inl _ \<Rightarrow> Inl PatchOutsideText
      | Inr path \<Rightarrow>
          if pp_attribute path = []
          then
            (if op = PatchRemove then Inr (del_like (pp_urn path) doc)
             else (case v of Some (JObj kvs) \<Rightarrow> apply_entries rt op (pp_urn path) kvs doc | _ \<Rightarrow> Inl (Refused invalid_value)))
          else
            (case patch_definition rt path of
               None \<Rightarrow> Inr doc
             | Some d \<Rightarrow>
                 if ai_mutability (at_info d) = ''readOnly''
                 then (if lenient then Inr doc else Inl (Refused mutability_refusal))
                 else map_sum Refused id (patch_attribute rt op path d v doc)))"
| "apply_entries rt op urn [] doc = Inr doc"
| "apply_entries rt op urn ((k, v) # rest) doc =
     (case apply_path rt op True (urn @ '':'' @ k) (Some v) doc of
        Inl e \<Rightarrow> Inl e
      | Inr doc' \<Rightarrow> apply_entries rt op urn rest doc')"
  by pat_completeness auto

termination
  by (relation "measures [\<lambda>x. (case x of Inl (rt, op, l, p, v, d) \<Rightarrow> size_option size v
       | Inr (rt, op, urn, kvs, d) \<Rightarrow> Suc (size_list (size_prod (\<lambda>_. 0) size) kvs)),
     \<lambda>x. (case x of Inl _ \<Rightarrow> 0 | _ \<Rightarrow> 1)]") auto

declare apply_path.simps [simp del]

fun apply_members :: "scim_resource_type \<Rightarrow> patch_op \<Rightarrow> json_object \<Rightarrow> json_object \<Rightarrow> patch_error + json_object" where
  "apply_members rt op [] doc = Inr doc"
| "apply_members rt op ((key, v) # rest) doc =
     (if lower key = ''schemas'' then apply_members rt op rest doc
      else
        (case (case (rt_extension rt key, v) of
                 (Some ext, JObj kvs) \<Rightarrow> apply_entries rt op (sc_id ext) kvs doc
               | _ \<Rightarrow> apply_path rt op True key (Some v) doc) of
           Inl e \<Rightarrow> Inl e
         | Inr doc' \<Rightarrow> apply_members rt op rest doc'))"

definition apply_operation :: "scim_resource_type \<Rightarrow> patch_operation \<Rightarrow> json_object \<Rightarrow> patch_error + json_object" where
  "apply_operation rt p doc =
     (if po_path p = []
      then (case po_value p of JObj kvs \<Rightarrow> apply_members rt (po_op p) kvs doc | _ \<Rightarrow> Inl (Refused invalid_value))
      else apply_path rt (po_op p) False (po_path p) (if po_has_value p then Some (po_value p) else None) doc)"

fun apply_patch :: "scim_resource_type \<Rightarrow> patch_operation list \<Rightarrow> json_object \<Rightarrow> patch_error + json_object" where
  "apply_patch rt [] doc = Inr doc"
| "apply_patch rt (p # ps) doc =
     (case apply_operation rt p doc of Inl e \<Rightarrow> Inl e | Inr doc' \<Rightarrow> apply_patch rt ps doc')"

section \<open>Member changes\<close>

text \<open>\<^const>\<open>None\<close> is the answer that makes the caller load the whole group.\<close>

definition listed :: "json \<Rightarrow> json list" where
  "listed v = (case v of JArr xs \<Rightarrow> xs | _ \<Rightarrow> [v])"

fun string_values :: "json list \<Rightarrow> string list option" where
  "string_values [] = Some []"
| "string_values (x # xs) =
     (case element_value x of Some (JStr s) \<Rightarrow> map_option ((#) s) (string_values xs) | _ \<Rightarrow> None)"

fun member_changes :: "scim_resource_type \<Rightarrow> patch_operation list \<Rightarrow> (json list \<times> string list) option" where
  "member_changes rt [] = Some ([], [])"
| "member_changes rt (p # ps) =
     (if po_path p = [] then None
      else
        (case parse_patch_path (po_path p) rt of
           Inl _ \<Rightarrow> None
         | Inr path \<Rightarrow>
             if pp_urn path \<noteq> [] \<or> lower (pp_attribute path) \<noteq> ''members'' \<or> pp_sub path \<noteq> [] then None
             else if po_op p = PatchAdd \<and> pp_value_filter path = None
             then map_option (\<lambda>(a, r). (listed (po_value p) @ a, r)) (member_changes rt ps)
             else if po_op p \<noteq> PatchRemove then None
             else
               (case pp_value_filter path of
                  Some f \<Rightarrow>
                    (case eq_pairs (sf_root f) of
                       Some [(name, JStr literal)] \<Rightarrow>
                         if lower name \<noteq> ''value'' then None
                         else map_option (\<lambda>(a, r). (a, literal # r)) (member_changes rt ps)
                     | _ \<Rightarrow> None)
                | None \<Rightarrow>
                    if \<not> po_has_value p \<or> po_value p = JNull then None
                    else
                      (case string_values (listed (po_value p)) of
                         None \<Rightarrow> None
                       | Some ids \<Rightarrow> map_option (\<lambda>(a, r). (a, ids @ r)) (member_changes rt ps)))))"

end
