(* ===== verification/ScimService.thy ===== *)
theory ScimService
  imports ScimPatch ScimLists ApiKeys
begin

text \<open>
  ScimService of identity/scim/service.py over a product's hooks. A hook is an action on the
  product's state that may raise; what was written before a raise stays written. \<open>stamp\<close> is
  \<^verbatim>\<open>now_iso()\<close>. Log lines are left out. \<open>Fault\<close> is any exception other than \<^verbatim>\<open>ScimError\<close>,
  and where the model stops at text outside Latin-1.
\<close>

datatype service_error = ServiceRefusal scim_refusal | Fault

definition not_found :: scim_refusal where "not_found = Refusal 404 []"
definition unauthorized :: scim_refusal where "unauthorized = Refusal 401 []"
definition forbidden :: scim_refusal where "forbidden = Refusal 403 []"
definition uniqueness :: scim_refusal where "uniqueness = Refusal 409 ''uniqueness''"
definition invalid_filter :: scim_refusal where "invalid_filter = Refusal 400 ''invalidFilter''"

section \<open>Actions\<close>

type_synonym ('s, 'a) action = "'s \<Rightarrow> (service_error + 'a) \<times> 's"

definition done_with :: "'a \<Rightarrow> ('s, 'a) action" where
  "done_with x s = (Inr x, s)"

definition failing :: "service_error \<Rightarrow> ('s, 'a) action" where
  "failing e s = (Inl e, s)"

definition and_then :: "('s, 'a) action \<Rightarrow> ('a \<Rightarrow> ('s, 'b) action) \<Rightarrow> ('s, 'b) action" where
  "and_then m f s = (case m s of (Inl e, s') \<Rightarrow> (Inl e, s') | (Inr x, s') \<Rightarrow> f x s')"

definition refusing :: "scim_refusal + 'a \<Rightarrow> ('s, 'a) action" where
  "refusing r = (case r of Inl e \<Rightarrow> failing (ServiceRefusal e) | Inr x \<Rightarrow> done_with x)"

section \<open>The product's hooks\<close>

text \<open>Every hook is given the tenant first.\<close>

record 's scim_hooks =
  hk_get_user :: "string \<Rightarrow> string \<Rightarrow> ('s, scim_user option) action"
  hk_list_users :: "string \<Rightarrow> scim_query \<Rightarrow> ('s, scim_user scim_page) action"
  hk_create_user :: "string \<Rightarrow> scim_user \<Rightarrow> ('s, scim_user) action"
  hk_update_user :: "string \<Rightarrow> scim_user \<Rightarrow> ('s, scim_user) action"
  hk_deactivate_user :: "string \<Rightarrow> scim_user \<Rightarrow> ('s, unit) action"
  hk_reactivate_user :: "string \<Rightarrow> scim_user \<Rightarrow> ('s, unit) action"
  hk_delete_user :: "string \<Rightarrow> string \<Rightarrow> ('s, bool) action"
  hk_get_group :: "string \<Rightarrow> string \<Rightarrow> bool \<Rightarrow> ('s, scim_group option) action"
  hk_list_groups :: "string \<Rightarrow> scim_query \<Rightarrow> ('s, scim_group scim_page) action"
  hk_create_group :: "string \<Rightarrow> scim_group \<Rightarrow> ('s, scim_group) action"
  hk_update_group :: "string \<Rightarrow> scim_group \<Rightarrow> ('s, scim_group) action"
  hk_delete_group :: "string \<Rightarrow> string \<Rightarrow> ('s, bool) action"
  hk_add_group_members :: "string \<Rightarrow> string \<Rightarrow> scim_member list \<Rightarrow> ('s, unit) action"
  hk_remove_group_members :: "string \<Rightarrow> string \<Rightarrow> string list \<Rightarrow> ('s, unit) action"
  hk_scim_enabled :: "string \<Rightarrow> ('s, bool) action"

text \<open>
  The service: its root, and \<^verbatim>\<open>str\<close> and the digest of a resource, the parameters of ScimResources.
\<close>

record 's scim_service =
  sv_hooks :: "'s scim_hooks"
  sv_base_url :: string
  sv_str :: "json \<Rightarrow> string"
  sv_digest :: "json_object \<Rightarrow> string"

definition new_scim_service :: "'s scim_hooks \<Rightarrow> string \<Rightarrow> (json \<Rightarrow> string) \<Rightarrow> (json_object \<Rightarrow> string) \<Rightarrow> 's scim_service" where
  "new_scim_service H base_url st digest =
     \<lparr>sv_hooks = H, sv_base_url = rstrip_char (CHR ''/'') base_url, sv_str = st, sv_digest = digest\<rparr>"

section \<open>Tokens\<close>

definition scim_scope :: string where "scim_scope = ''scim''"
definition scim_token_kind :: string where "scim_token_kind = ''scim''"

record scim_principal =
  pr_tenant_id :: string
  pr_key_id :: string

definition scim_token_request ::
  "string \<Rightarrow> string \<Rightarrow> string \<Rightarrow> string option \<Rightarrow> (datetime + int) option \<Rightarrow> key_request" where
  "scim_token_request tenant_id user_id name created_by expires_at =
     \<lparr>kr_user_id = user_id, kr_tenant_id = tenant_id, kr_scopes = [scim_scope], kr_name = name,
      kr_expires_at = expires_at, kr_created_at = None, kr_kind = scim_token_kind,
      kr_created_by = created_by, kr_metadata = [], kr_key_id = None\<rparr>"

definition mint_scim_token ::
  "'k key_ops \<Rightarrow> (string \<Rightarrow> string) \<Rightarrow> datetime \<Rightarrow> 'k \<Rightarrow> string \<Rightarrow> string \<Rightarrow> string \<Rightarrow> string option \<Rightarrow>
     (datetime + int) option \<Rightarrow> string \<Rightarrow> string \<Rightarrow> (string \<times> api_key) \<times> 'k" where
  "mint_scim_token K hash_key wall k tenant_id user_id name created_by expires_at secret fresh_id =
     mint_key (Some K) hash_key wall k (scim_token_request tenant_id user_id name created_by expires_at) secret fresh_id"

text \<open>Authenticating works on the key store and the product's state.\<close>

definition authenticate ::
  "'s scim_service \<Rightarrow> 'k key_ops \<Rightarrow> (string \<Rightarrow> string) \<Rightarrow> datetime \<Rightarrow> string \<Rightarrow> ('k \<times> 's, scim_principal) action" where
  "authenticate sv K hash_key now authorization = (\<lambda>(k, s).
     (let (scheme, token) = partition_at (CHR '' '') (strip authorization) in
      if lower scheme \<noteq> ''bearer'' \<or> strip token = [] then (Inl (ServiceRefusal unauthorized), (k, s))
      else
        (case verify_key K hash_key now True k (strip token) of
           (Inl e, k') \<Rightarrow> (Inl Fault, (k', s))
         | (Inr None, k') \<Rightarrow> (Inl (ServiceRefusal unauthorized), (k', s))
         | (Inr (Some r), k') \<Rightarrow>
             if scim_scope \<notin> set (ak_scopes r) then (Inl (ServiceRefusal forbidden), (k', s))
             else
               (case hk_scim_enabled (sv_hooks sv) (ak_tenant_id r) s of
                  (Inl e, s') \<Rightarrow> (Inl e, (k', s'))
                | (Inr enabled, s') \<Rightarrow>
                    if \<not> enabled then (Inl (ServiceRefusal forbidden), (k', s'))
                    else (Inr \<lparr>pr_tenant_id = ak_tenant_id r, pr_key_id = ak_key_id r\<rparr>, (k', s'))))))"

section \<open>Users\<close>

definition render_user :: "'s scim_service \<Rightarrow> scim_user \<Rightarrow> json_object" where
  "render_user sv u = user_to_resource (sv_digest sv) u (sv_base_url sv)"

definition render_group :: "'s scim_service \<Rightarrow> scim_group \<Rightarrow> bool \<Rightarrow> json_object" where
  "render_group sv g include_members = group_to_resource (sv_digest sv) g (sv_base_url sv) include_members"

definition find_user :: "'s scim_service \<Rightarrow> string \<Rightarrow> string \<Rightarrow> ('s, scim_user) action" where
  "find_user sv t user_id =
     and_then (hk_get_user (sv_hooks sv) t user_id) (\<lambda>found.
       case found of None \<Rightarrow> failing (ServiceRefusal not_found) | Some u \<Rightarrow> done_with u)"

definition list_users :: "'s scim_service \<Rightarrow> string \<Rightarrow> scim_query \<Rightarrow> ('s, scim_user scim_page) action" where
  "list_users sv t q = hk_list_users (sv_hooks sv) t q"

definition name_free :: "'s scim_service \<Rightarrow> string \<Rightarrow> string \<Rightarrow> string \<Rightarrow> ('s, unit) action" where
  "name_free sv t user_name own_id =
     (case parse_filter (unique_filter_text user_name) of
        Inl InvalidFilter \<Rightarrow> failing (ServiceRefusal invalid_filter)
      | Inl _ \<Rightarrow> failing Fault
      | Inr f \<Rightarrow>
          and_then (hk_list_users (sv_hooks sv) t (name_query f)) (\<lambda>page.
            case ensure_unique (\<lambda>q. pg_resources page) user_name own_id of
              Inl _ \<Rightarrow> failing (ServiceRefusal uniqueness)
            | Inr u \<Rightarrow> done_with u))"

definition create_user :: "'s scim_service \<Rightarrow> string \<Rightarrow> string \<Rightarrow> json_object \<Rightarrow> ('s, scim_user) action" where
  "create_user sv stamp t body =
     and_then (refusing (user_from_resource (sv_str sv) body)) (\<lambda>parsed.
     and_then (name_free sv t (su_user_name parsed) []) (\<lambda>_.
     and_then (hk_create_user (sv_hooks sv) t (parsed\<lparr>su_created := stamp, su_last_modified := stamp\<rparr>)) (\<lambda>created.
       if su_active created then done_with created
       else and_then (hk_deactivate_user (sv_hooks sv) t created) (\<lambda>_. done_with created))))"

definition store_user :: "'s scim_service \<Rightarrow> string \<Rightarrow> string \<Rightarrow> scim_user \<Rightarrow> scim_user \<Rightarrow> ('s, scim_user) action" where
  "store_user sv stamp t before after =
     and_then (if lower (su_user_name after) \<noteq> lower (su_user_name before)
               then name_free sv t (su_user_name after) (su_id before) else done_with ()) (\<lambda>_.
     and_then (hk_update_user (sv_hooks sv) t
                (after\<lparr>su_id := su_id before, su_groups := su_groups before, su_created := su_created before,
                       su_last_modified := stamp, su_version := []\<rparr>)) (\<lambda>stored.
       if su_active before \<and> \<not> su_active stored
       then and_then (hk_deactivate_user (sv_hooks sv) t stored) (\<lambda>_. done_with stored)
       else if \<not> su_active before \<and> su_active stored
       then and_then (hk_reactivate_user (sv_hooks sv) t stored) (\<lambda>_. done_with stored)
       else done_with stored))"

definition version_checked :: "'s scim_service \<Rightarrow> json_object \<Rightarrow> string \<Rightarrow> ('s, unit) action" where
  "version_checked sv resource if_match = refusing (check_version (sv_str sv) resource if_match)"

definition replace_user :: "'s scim_service \<Rightarrow> string \<Rightarrow> string \<Rightarrow> string \<Rightarrow> json_object \<Rightarrow> string \<Rightarrow> ('s, scim_user) action" where
  "replace_user sv stamp t user_id body if_match =
     and_then (find_user sv t user_id) (\<lambda>before.
     and_then (version_checked sv (render_user sv before) if_match) (\<lambda>_.
     and_then (refusing (user_from_resource (sv_str sv) body)) (\<lambda>after.
       store_user sv stamp t before after)))"

definition patching :: "patch_error + 'a \<Rightarrow> ('s, 'a) action" where
  "patching r =
     (case r of
        Inl (Refused e) \<Rightarrow> failing (ServiceRefusal e)
      | Inl PatchOutsideText \<Rightarrow> failing Fault
      | Inr x \<Rightarrow> done_with x)"

definition patch_user :: "'s scim_service \<Rightarrow> string \<Rightarrow> string \<Rightarrow> string \<Rightarrow> json \<Rightarrow> string \<Rightarrow> ('s, scim_user) action" where
  "patch_user sv stamp t user_id body if_match =
     and_then (refusing (parse_patch_request (sv_str sv) body)) (\<lambda>operations.
     and_then (find_user sv t user_id) (\<lambda>before.
     and_then (version_checked sv (render_user sv before) if_match) (\<lambda>_.
     and_then (patching (apply_patch user_resource_type operations (render_user sv before))) (\<lambda>patched.
     and_then (refusing (user_from_resource (sv_str sv) patched)) (\<lambda>after.
       store_user sv stamp t before after)))))"

definition delete_user :: "'s scim_service \<Rightarrow> string \<Rightarrow> string \<Rightarrow> string \<Rightarrow> ('s, unit) action" where
  "delete_user sv t user_id if_match =
     and_then (if if_match \<noteq> []
               then and_then (find_user sv t user_id) (\<lambda>u. version_checked sv (render_user sv u) if_match)
               else done_with ()) (\<lambda>_.
     and_then (hk_delete_user (sv_hooks sv) t user_id) (\<lambda>existed.
       if existed then done_with () else failing (ServiceRefusal not_found)))"

section \<open>Groups\<close>

definition find_group :: "'s scim_service \<Rightarrow> string \<Rightarrow> string \<Rightarrow> bool \<Rightarrow> ('s, scim_group) action" where
  "find_group sv t group_id include_members =
     and_then (hk_get_group (sv_hooks sv) t group_id include_members) (\<lambda>found.
       case found of None \<Rightarrow> failing (ServiceRefusal not_found) | Some g \<Rightarrow> done_with g)"

definition list_groups :: "'s scim_service \<Rightarrow> string \<Rightarrow> scim_query \<Rightarrow> ('s, scim_group scim_page) action" where
  "list_groups sv t q = hk_list_groups (sv_hooks sv) t q"

definition create_group :: "'s scim_service \<Rightarrow> string \<Rightarrow> string \<Rightarrow> json_object \<Rightarrow> ('s, scim_group) action" where
  "create_group sv stamp t body =
     and_then (refusing (group_from_resource (sv_str sv) body)) (\<lambda>parsed.
     and_then (hk_create_group (sv_hooks sv) t
                (parsed\<lparr>sg_members := [], sg_created := stamp, sg_last_modified := stamp\<rparr>)) (\<lambda>created.
       if sg_members parsed = [] then done_with created
       else
         and_then (hk_add_group_members (sv_hooks sv) t (sg_id created) (sg_members parsed)) (\<lambda>_.
           done_with (created\<lparr>sg_members := sg_members parsed\<rparr>))))"

text \<open>Equality of JSON values as Python has it: dictionaries in any order, booleans as numbers.\<close>

fun json_equal :: "json \<Rightarrow> json \<Rightarrow> bool" where
  "json_equal (JObj a) (JObj b) =
     (length a = length b \<and> list_all (\<lambda>kv. case dget b (fst kv) of Some w \<Rightarrow> json_equal (snd kv) w | None \<Rightarrow> False) a)"
| "json_equal (JArr xs) (JArr ys) = list_all2 json_equal xs ys"
| "json_equal (JBool a) (JNum n) = (n = of_bool a)"
| "json_equal (JNum n) (JBool a) = (n = of_bool a)"
| "json_equal v w = (v = w)"

definition change_members ::
  "'s scim_service \<Rightarrow> string \<Rightarrow> string \<Rightarrow> scim_member list \<Rightarrow> string list \<Rightarrow> ('s, unit) action" where
  "change_members sv t group_id added removed =
     and_then (if removed \<noteq> [] then hk_remove_group_members (sv_hooks sv) t group_id removed else done_with ()) (\<lambda>_.
       if added \<noteq> [] then hk_add_group_members (sv_hooks sv) t group_id added else done_with ())"

definition same_attributes :: "scim_group \<Rightarrow> scim_group \<Rightarrow> bool" where
  "same_attributes a b =
     (sg_display_name a = sg_display_name b \<and> sg_external_id a = sg_external_id b \<and>
      json_equal (JObj (sg_attributes a)) (JObj (sg_attributes b)))"

text \<open>The ids to remove and the members to add that turn the members of one group into another's.\<close>

definition group_changes :: "scim_group \<Rightarrow> scim_group \<Rightarrow> string list \<times> scim_member list" where
  "group_changes before after =
     (map sm_value (filter (\<lambda>m. sm_value m \<notin> sm_value ` set (sg_members after)) (sg_members before)),
      filter (\<lambda>m. sm_value m \<notin> sm_value ` set (sg_members before)) (sg_members after))"

definition store_group :: "'s scim_service \<Rightarrow> string \<Rightarrow> string \<Rightarrow> scim_group \<Rightarrow> scim_group \<Rightarrow> ('s, scim_group) action" where
  "store_group sv stamp t before after =
     and_then (if same_attributes after before then done_with before
               else hk_update_group (sv_hooks sv) t
                 (after\<lparr>sg_id := sg_id before, sg_members := [], sg_created := sg_created before,
                        sg_last_modified := stamp, sg_version := []\<rparr>)) (\<lambda>stored.
     (let (removed, added) = group_changes before after in
      and_then (change_members sv t (sg_id before) added removed) (\<lambda>_.
        done_with (stored\<lparr>sg_members := sg_members after\<rparr>))))"

definition replace_group :: "'s scim_service \<Rightarrow> string \<Rightarrow> string \<Rightarrow> string \<Rightarrow> json_object \<Rightarrow> string \<Rightarrow> ('s, scim_group) action" where
  "replace_group sv stamp t group_id body if_match =
     and_then (find_group sv t group_id True) (\<lambda>before.
     and_then (version_checked sv (render_group sv before True) if_match) (\<lambda>_.
     and_then (refusing (group_from_resource (sv_str sv) body)) (\<lambda>after.
       store_group sv stamp t before after)))"

text \<open>The changes of a body that only adds and removes members.\<close>

definition fast_changes :: "(json \<Rightarrow> string) \<Rightarrow> json list \<times> string list \<Rightarrow> scim_refusal + string list \<times> scim_member list" where
  "fast_changes st changes =
     (case members_from st (fst changes) of
        Inl e \<Rightarrow> Inl e
      | Inr ms \<Rightarrow>
          Inr (fromkeys (snd changes), filter (\<lambda>m. sm_value m \<notin> set (snd changes)) (unique_members ms)))"

definition patch_group :: "'s scim_service \<Rightarrow> string \<Rightarrow> string \<Rightarrow> string \<Rightarrow> json \<Rightarrow> string \<Rightarrow> ('s, unit) action" where
  "patch_group sv stamp t group_id body if_match =
     and_then (refusing (parse_patch_request (sv_str sv) body)) (\<lambda>operations.
       case (if if_match \<noteq> [] then None else member_changes group_resource_type operations) of
         Some changes \<Rightarrow>
           and_then (find_group sv t group_id False) (\<lambda>_.
           and_then (refusing (fast_changes (sv_str sv) changes)) (\<lambda>(removed, added).
             change_members sv t group_id added removed))
       | None \<Rightarrow>
           and_then (find_group sv t group_id True) (\<lambda>before.
           and_then (version_checked sv (render_group sv before True) if_match) (\<lambda>_.
           and_then (patching (apply_patch group_resource_type operations (render_group sv before True))) (\<lambda>patched.
           and_then (refusing (group_from_resource (sv_str sv) patched)) (\<lambda>after.
           and_then (store_group sv stamp t before after) (\<lambda>_. done_with ()))))))"

definition delete_group :: "'s scim_service \<Rightarrow> string \<Rightarrow> string \<Rightarrow> string \<Rightarrow> ('s, unit) action" where
  "delete_group sv t group_id if_match =
     and_then (if if_match \<noteq> []
               then and_then (find_group sv t group_id True) (\<lambda>g. version_checked sv (render_group sv g True) if_match)
               else done_with ()) (\<lambda>_.
     and_then (hk_delete_group (sv_hooks sv) t group_id) (\<lambda>existed.
       if existed then done_with () else failing (ServiceRefusal not_found)))"

end
