(* ===== verification/ScimDirectory.thy ===== *)
theory ScimDirectory
  imports ScimService ScimListProperties
begin

text \<open>
  What ScimService relies on of a product's hooks, as a locale, and the directory in memory of
  tests/test_identity_scim.py, which keeps it. Keys are a tenant and an id. \<open>balance\<close> counts
  the calls of \<^verbatim>\<open>deactivate_user\<close> less those of \<^verbatim>\<open>reactivate_user\<close> for a stored user.
\<close>

declare split_paired_All [simp del] split_paired_Ex [simp del]

section \<open>The contract of the hooks\<close>

locale scim_directory =
  fixes H :: "'s scim_hooks"
    and users :: "'s \<Rightarrow> string \<times> string \<Rightarrow> scim_user option"
    and groups :: "'s \<Rightarrow> string \<times> string \<Rightarrow> scim_group option"
    and balance :: "'s \<Rightarrow> string \<times> string \<Rightarrow> int"
    and ok :: "'s \<Rightarrow> bool"
  assumes user_id: "ok s \<Longrightarrow> users s (t, i) = Some u \<Longrightarrow> su_id u = i \<and> i \<noteq> []"
    and group_id: "ok s \<Longrightarrow> groups s (t, i) = Some g \<Longrightarrow> sg_id g = i"
    and get_user: "ok s \<Longrightarrow> hk_get_user H t i s = (Inr (users s (t, i)), s)"
    and list_users_same: "ok s \<Longrightarrow> hk_list_users H t q s = (rp, s') \<Longrightarrow>
      ok s' \<and> users s' = users s \<and> groups s' = groups s \<and> balance s' = balance s"
    and named_users: "ok s \<Longrightarrow> query_equality q ''userName'' = Some n \<Longrightarrow> sq_start_index q = 1 \<Longrightarrow>
      hk_list_users H t q s = (Inr page, s') \<Longrightarrow>
      distinct (map su_id (pg_resources page)) \<and>
      (\<forall>u \<in> set (pg_resources page). users s (t, su_id u) = Some u \<and> lower (su_user_name u) = lower n) \<and>
      (int (length (pg_resources page)) < sq_count q \<longrightarrow>
        (\<forall>i u. users s (t, i) = Some u \<and> lower (su_user_name u) = lower n \<longrightarrow> u \<in> set (pg_resources page)))"
    and create_user: "ok s \<Longrightarrow> hk_create_user H t u s = (ru, s') \<Longrightarrow> ok s' \<and> groups s' = groups s \<and>
      (case ru of
         Inl e \<Rightarrow> users s' = users s \<and> balance s' = balance s
       | Inr u' \<Rightarrow> \<exists>i. u' = u\<lparr>su_id := i\<rparr> \<and> users s (t, i) = None \<and> users s' = (users s)((t, i) \<mapsto> u') \<and>
           balance s' = (balance s)((t, i) := 0))"
    and update_user: "ok s \<Longrightarrow> users s (t, su_id u) \<noteq> None \<Longrightarrow> hk_update_user H t u s = (ru, s') \<Longrightarrow>
      ok s' \<and> groups s' = groups s \<and> balance s' = balance s \<and>
      (case ru of Inl e \<Rightarrow> users s' = users s | Inr u' \<Rightarrow> u' = u \<and> users s' = (users s)((t, su_id u) \<mapsto> u))"
    and deactivate_user: "ok s \<Longrightarrow> users s (t, su_id u) \<noteq> None \<Longrightarrow> hk_deactivate_user H t u s = (rx, s') \<Longrightarrow>
      ok s' \<and> users s' = users s \<and> groups s' = groups s \<and>
      balance s' = (case rx of Inl e \<Rightarrow> balance s | Inr x \<Rightarrow> (balance s)((t, su_id u) := balance s (t, su_id u) + 1))"
    and reactivate_user: "ok s \<Longrightarrow> users s (t, su_id u) \<noteq> None \<Longrightarrow> hk_reactivate_user H t u s = (rx, s') \<Longrightarrow>
      ok s' \<and> users s' = users s \<and> groups s' = groups s \<and>
      balance s' = (case rx of Inl e \<Rightarrow> balance s | Inr x \<Rightarrow> (balance s)((t, su_id u) := balance s (t, su_id u) - 1))"
    and delete_user: "ok s \<Longrightarrow> hk_delete_user H t i s = (rb, s') \<Longrightarrow> ok s' \<and>
      (\<forall>k. fst k \<noteq> t \<longrightarrow> groups s' k = groups s k) \<and>
      (case rb of
         Inl e \<Rightarrow> users s' = users s \<and> balance s' = balance s
       | Inr existed \<Rightarrow> (existed \<longleftrightarrow> users s (t, i) \<noteq> None) \<and> users s' = (users s)((t, i) := None) \<and>
           (\<forall>k. k \<noteq> (t, i) \<longrightarrow> balance s' k = balance s k))"
    and get_group: "ok s \<Longrightarrow> hk_get_group H t i include s = (ro, s') \<Longrightarrow>
      ok s' \<and> users s' = users s \<and> groups s' = groups s \<and> balance s' = balance s \<and>
      (\<forall>found. ro = Inr found \<longrightarrow> found = map_option (\<lambda>g. if include then g else g\<lparr>sg_members := []\<rparr>) (groups s (t, i)))"
    and list_groups_same: "ok s \<Longrightarrow> hk_list_groups H t q s = (rq, s') \<Longrightarrow>
      ok s' \<and> users s' = users s \<and> groups s' = groups s \<and> balance s' = balance s"
    and create_group: "ok s \<Longrightarrow> sg_members g = [] \<Longrightarrow> hk_create_group H t g s = (rg, s') \<Longrightarrow>
      ok s' \<and> users s' = users s \<and> balance s' = balance s \<and>
      (case rg of
         Inl e \<Rightarrow> groups s' = groups s
       | Inr g' \<Rightarrow> \<exists>i. g' = g\<lparr>sg_id := i\<rparr> \<and> groups s (t, i) = None \<and> groups s' = (groups s)((t, i) \<mapsto> g'))"
    and update_group: "ok s \<Longrightarrow> groups s (t, sg_id g) = Some old \<Longrightarrow> sg_members g = [] \<Longrightarrow>
      hk_update_group H t g s = (rg, s') \<Longrightarrow> ok s' \<and> users s' = users s \<and> balance s' = balance s \<and>
      (case rg of
         Inl e \<Rightarrow> groups s' = groups s
       | Inr g' \<Rightarrow> g' = g \<and> groups s' = (groups s)((t, sg_id g) \<mapsto> g\<lparr>sg_members := sg_members old\<rparr>))"
    and delete_group: "ok s \<Longrightarrow> hk_delete_group H t i s = (rb, s') \<Longrightarrow>
      ok s' \<and> users s' = users s \<and> balance s' = balance s \<and>
      (case rb of
         Inl e \<Rightarrow> groups s' = groups s
       | Inr existed \<Rightarrow> (existed \<longleftrightarrow> groups s (t, i) \<noteq> None) \<and> groups s' = (groups s)((t, i) := None))"
    and add_members: "ok s \<Longrightarrow> groups s (t, i) = Some g \<Longrightarrow> hk_add_group_members H t i ms s = (rx, s') \<Longrightarrow>
      ok s' \<and> users s' = users s \<and> balance s' = balance s \<and>
      (case rx of
         Inl e \<Rightarrow> groups s' = groups s
       | Inr x \<Rightarrow> \<exists>after. groups s' = (groups s)((t, i) \<mapsto> g\<lparr>sg_members := after\<rparr>) \<and>
           sm_value ` set after = sm_value ` set (sg_members g) \<union> sm_value ` set ms)"
    and remove_members: "ok s \<Longrightarrow> groups s (t, i) = Some g \<Longrightarrow> hk_remove_group_members H t i ids s = (rx, s') \<Longrightarrow>
      ok s' \<and> users s' = users s \<and> balance s' = balance s \<and>
      (case rx of
         Inl e \<Rightarrow> groups s' = groups s
       | Inr x \<Rightarrow> \<exists>after. groups s' = (groups s)((t, i) \<mapsto> g\<lparr>sg_members := after\<rparr>) \<and>
           sm_value ` set after = sm_value ` set (sg_members g) - set ids)"
    and enabled_same: "ok s \<Longrightarrow> hk_scim_enabled H t s = (rb, s') \<Longrightarrow>
      ok s' \<and> users s' = users s \<and> groups s' = groups s \<and> balance s' = balance s"

text \<open>Hooks whose side effects do not raise.\<close>

locale steady_directory = scim_directory H users groups balance ok
  for H :: "'s scim_hooks" and users groups balance ok +
  assumes deactivates: "ok s \<Longrightarrow> isl (fst (hk_deactivate_user H t u s)) = False"
    and reactivates: "ok s \<Longrightarrow> isl (fst (hk_reactivate_user H t u s)) = False"

section \<open>The directory in memory\<close>

record memory_directory =
  md_users :: "(string \<times> string, scim_user) dict"
  md_groups :: "(string \<times> string, scim_group) dict"
  md_members :: "(string \<times> string, scim_member list) dict"
  md_deactivated :: "string list"
  md_reactivated :: "string list"
  md_member_loads :: nat
  md_disabled :: "string list"
  md_counter :: nat

definition empty_directory :: memory_directory where
  "empty_directory = \<lparr>md_users = [], md_groups = [], md_members = [], md_deactivated = [], md_reactivated = [],
     md_member_loads = 0, md_disabled = [], md_counter = 0\<rparr>"

definition tenant_values :: "string \<Rightarrow> (string \<times> string, 'a) dict \<Rightarrow> 'a list" where
  "tenant_values t d = map snd (filter (\<lambda>(k, v). fst k = t) d)"

definition mem_get_user :: "string \<Rightarrow> string \<Rightarrow> (memory_directory, scim_user option) action" where
  "mem_get_user t i s = (Inr (dget (md_users s) (t, i)), s)"

definition mem_list_users ::
  "(json_object \<Rightarrow> string) \<Rightarrow> string \<Rightarrow> scim_query \<Rightarrow> (memory_directory, scim_user scim_page) action" where
  "mem_list_users digest t q s =
     (let all = tenant_values t (md_users s) in
      (Inr (case query_equality q ''userName'' of
              Some user_name \<Rightarrow>
                apply_users digest \<lparr>sq_filter = None, sq_start_index = sq_start_index q, sq_count = sq_count q, sq_include_members = True\<rparr>
                  (filter (\<lambda>u. lower (su_user_name u) = lower user_name) all)
            | None \<Rightarrow> apply_users digest q all), s))"

definition mem_create_user :: "string \<Rightarrow> scim_user \<Rightarrow> (memory_directory, scim_user) action" where
  "mem_create_user t u s =
     (let n = Suc (md_counter s); stored = u\<lparr>su_id := ''u'' @ nat_str n\<rparr> in
      (Inr stored, s\<lparr>md_users := dset (t, su_id stored) stored (md_users s), md_counter := n\<rparr>))"

definition mem_update_user :: "string \<Rightarrow> scim_user \<Rightarrow> (memory_directory, scim_user) action" where
  "mem_update_user t u s = (Inr u, s\<lparr>md_users := dset (t, su_id u) u (md_users s)\<rparr>)"

definition mem_deactivate_user :: "string \<Rightarrow> scim_user \<Rightarrow> (memory_directory, unit) action" where
  "mem_deactivate_user t u s = (Inr (), s\<lparr>md_deactivated := md_deactivated s @ [su_id u]\<rparr>)"

definition mem_reactivate_user :: "string \<Rightarrow> scim_user \<Rightarrow> (memory_directory, unit) action" where
  "mem_reactivate_user t u s = (Inr (), s\<lparr>md_reactivated := md_reactivated s @ [su_id u]\<rparr>)"

definition mem_delete_user :: "string \<Rightarrow> string \<Rightarrow> (memory_directory, bool) action" where
  "mem_delete_user t i s =
     (Inr (dget (md_users s) (t, i) \<noteq> None),
      s\<lparr>md_users := ddel (t, i) (md_users s),
        md_members := map (\<lambda>(k, ms). (k, if fst k = t then filter (\<lambda>m. sm_value m \<noteq> i) ms else ms)) (md_members s)\<rparr>)"

definition members_at :: "memory_directory \<Rightarrow> string \<times> string \<Rightarrow> scim_member list" where
  "members_at s k = (case dget (md_members s) k of Some ms \<Rightarrow> ms | None \<Rightarrow> [])"

definition with_members :: "string \<Rightarrow> scim_group \<Rightarrow> bool \<Rightarrow> memory_directory \<Rightarrow> scim_group \<times> memory_directory" where
  "with_members t g include s =
     (if \<not> include then (g, s)
      else (g\<lparr>sg_members := members_at s (t, sg_id g)\<rparr>, s\<lparr>md_member_loads := Suc (md_member_loads s)\<rparr>))"

definition mem_get_group :: "string \<Rightarrow> string \<Rightarrow> bool \<Rightarrow> (memory_directory, scim_group option) action" where
  "mem_get_group t i include s =
     (case dget (md_groups s) (t, i) of
        None \<Rightarrow> (Inr None, s)
      | Some g \<Rightarrow> (case with_members t g include s of (g', s') \<Rightarrow> (Inr (Some g'), s')))"

fun all_with_members :: "string \<Rightarrow> bool \<Rightarrow> scim_group list \<Rightarrow> memory_directory \<Rightarrow> scim_group list \<times> memory_directory" where
  "all_with_members t include [] s = ([], s)"
| "all_with_members t include (g # gs) s =
     (case with_members t g include s of
        (g', s') \<Rightarrow> (case all_with_members t include gs s' of (gs', s'') \<Rightarrow> (g' # gs', s'')))"

definition mem_list_groups ::
  "(json_object \<Rightarrow> string) \<Rightarrow> string \<Rightarrow> scim_query \<Rightarrow> (memory_directory, scim_group scim_page) action" where
  "mem_list_groups digest t q s =
     (case all_with_members t (sq_include_members q) (tenant_values t (md_groups s)) s of
        (gs, s') \<Rightarrow> (Inr (apply_groups digest q gs), s'))"

definition mem_create_group :: "string \<Rightarrow> scim_group \<Rightarrow> (memory_directory, scim_group) action" where
  "mem_create_group t g s =
     (if sg_members g \<noteq> [] then (Inl Fault, s)
      else
        (let n = Suc (md_counter s); stored = g\<lparr>sg_id := ''g'' @ nat_str n\<rparr> in
         (Inr stored,
          s\<lparr>md_groups := dset (t, sg_id stored) stored (md_groups s),
            md_members := dset (t, sg_id stored) [] (md_members s), md_counter := n\<rparr>)))"

definition mem_update_group :: "string \<Rightarrow> scim_group \<Rightarrow> (memory_directory, scim_group) action" where
  "mem_update_group t g s =
     (if sg_members g \<noteq> [] then (Inl Fault, s)
      else (Inr g, s\<lparr>md_groups := dset (t, sg_id g) g (md_groups s)\<rparr>))"

definition mem_delete_group :: "string \<Rightarrow> string \<Rightarrow> (memory_directory, bool) action" where
  "mem_delete_group t i s =
     (Inr (dget (md_groups s) (t, i) \<noteq> None),
      s\<lparr>md_members := ddel (t, i) (md_members s), md_groups := ddel (t, i) (md_groups s)\<rparr>)"

definition mem_add_members :: "string \<Rightarrow> string \<Rightarrow> scim_member list \<Rightarrow> (memory_directory, unit) action" where
  "mem_add_members t i ms s =
     (let current = members_at s (t, i); known = sm_value ` set current in
      (Inr (), s\<lparr>md_members := dset (t, i) (current @ filter (\<lambda>m. sm_value m \<notin> known) ms) (md_members s)\<rparr>))"

definition mem_remove_members :: "string \<Rightarrow> string \<Rightarrow> string list \<Rightarrow> (memory_directory, unit) action" where
  "mem_remove_members t i ids s =
     (Inr (), s\<lparr>md_members := dset (t, i) (filter (\<lambda>m. sm_value m \<notin> set ids) (members_at s (t, i))) (md_members s)\<rparr>)"

definition mem_scim_enabled :: "string \<Rightarrow> (memory_directory, bool) action" where
  "mem_scim_enabled t s = (Inr (t \<notin> set (md_disabled s)), s)"

definition memory_hooks :: "(json_object \<Rightarrow> string) \<Rightarrow> memory_directory scim_hooks" where
  "memory_hooks digest =
     \<lparr>hk_get_user = mem_get_user, hk_list_users = mem_list_users digest, hk_create_user = mem_create_user,
      hk_update_user = mem_update_user, hk_deactivate_user = mem_deactivate_user,
      hk_reactivate_user = mem_reactivate_user, hk_delete_user = mem_delete_user,
      hk_get_group = mem_get_group, hk_list_groups = mem_list_groups digest, hk_create_group = mem_create_group,
      hk_update_group = mem_update_group, hk_delete_group = mem_delete_group,
      hk_add_group_members = mem_add_members, hk_remove_group_members = mem_remove_members,
      hk_scim_enabled = mem_scim_enabled\<rparr>"

section \<open>The directory keeps the contract\<close>

definition dir_users :: "memory_directory \<Rightarrow> string \<times> string \<Rightarrow> scim_user option" where
  "dir_users s = dget (md_users s)"

definition dir_groups :: "memory_directory \<Rightarrow> string \<times> string \<Rightarrow> scim_group option" where
  "dir_groups s k = map_option (\<lambda>g. g\<lparr>sg_members := members_at s k\<rparr>) (dget (md_groups s) k)"

definition dir_balance :: "memory_directory \<Rightarrow> string \<times> string \<Rightarrow> int" where
  "dir_balance s k =
     (if dir_users s k = None then 0
      else int (count_list (md_deactivated s) (snd k)) - int (count_list (md_reactivated s) (snd k)))"

definition issued :: "char \<Rightarrow> memory_directory \<Rightarrow> string \<Rightarrow> bool" where
  "issued c s i = (\<exists>n \<le> md_counter s. i = c # nat_str n)"

definition dir_ok :: "memory_directory \<Rightarrow> bool" where
  "dir_ok s =
     (dict_ok (md_users s) \<and>
      (\<forall>t i u. dget (md_users s) (t, i) = Some u \<longrightarrow> su_id u = i \<and> issued (CHR ''u'') s i) \<and>
      (\<forall>t t' i. dget (md_users s) (t, i) \<noteq> None \<and> dget (md_users s) (t', i) \<noteq> None \<longrightarrow> t = t') \<and>
      (\<forall>t i g. dget (md_groups s) (t, i) = Some g \<longrightarrow> sg_id g = i \<and> sg_members g = [] \<and> issued (CHR ''g'') s i) \<and>
      (\<forall>i \<in> set (md_deactivated s) \<union> set (md_reactivated s). issued (CHR ''u'') s i))"

lemma nat_str_inj: "nat_str m = nat_str n \<longleftrightarrow> m = n"
  using nat_str_digits by metis

lemma dir_okI:
  assumes "dict_ok (md_users s)"
    and "\<And>t i u. dget (md_users s) (t, i) = Some u \<Longrightarrow> su_id u = i \<and> issued (CHR ''u'') s i"
    and "\<And>t t' i. dget (md_users s) (t, i) \<noteq> None \<Longrightarrow> dget (md_users s) (t', i) \<noteq> None \<Longrightarrow> t = t'"
    and "\<And>t i g. dget (md_groups s) (t, i) = Some g \<Longrightarrow> sg_id g = i \<and> sg_members g = [] \<and> issued (CHR ''g'') s i"
    and "\<And>i. i \<in> set (md_deactivated s) \<union> set (md_reactivated s) \<Longrightarrow> issued (CHR ''u'') s i"
  shows "dir_ok s"
  unfolding dir_ok_def using assms by blast

lemma dir_okD:
  assumes "dir_ok s"
  shows "dict_ok (md_users s)"
    and "dget (md_users s) (t, i) = Some u \<Longrightarrow> su_id u = i \<and> issued (CHR ''u'') s i"
    and "dget (md_users s) (t, i) \<noteq> None \<Longrightarrow> dget (md_users s) (t', i) \<noteq> None \<Longrightarrow> t = t'"
    and "dget (md_groups s) (t, i) = Some g \<Longrightarrow> sg_id g = i \<and> sg_members g = [] \<and> issued (CHR ''g'') s i"
    and "i \<in> set (md_deactivated s) \<union> set (md_reactivated s) \<Longrightarrow> issued (CHR ''u'') s i"
  using assms unfolding dir_ok_def by blast+

lemma fresh_not_issued: "\<not> issued c s (c # nat_str (Suc (md_counter s)))"
  by (auto simp: issued_def nat_str_inj)

lemma issued_later: "issued c s i \<Longrightarrow> md_counter s \<le> md_counter s' \<Longrightarrow> issued c s' i"
  by (auto simp: issued_def intro: order_trans)

lemma dir_user_id: "dir_ok s \<Longrightarrow> dir_users s (t, i) = Some u \<Longrightarrow> su_id u = i \<and> i \<noteq> []"
  unfolding dir_users_def by (frule (1) dir_okD(2)) (auto simp: issued_def)

lemma dir_group_id: "dir_ok s \<Longrightarrow> dir_groups s (t, i) = Some g \<Longrightarrow> sg_id g = i"
  unfolding dir_groups_def by (auto dest: dir_okD(4))

lemma mem_tenant_values: "dict_ok d \<Longrightarrow> v \<in> set (tenant_values t d) \<longleftrightarrow> (\<exists>i. dget d (t, i) = Some v)"
  by (force simp: tenant_values_def dget_Some_mem)

lemma distinct_tenant_values:
  assumes "dict_ok d" "\<And>t i v. dget d (t, i) = Some v \<Longrightarrow> f v = i"
  shows "distinct (map f (tenant_values t d))"
proof -
  have "distinct d" using assms(1) by (simp add: distinct_map)
  moreover have "inj_on (f \<circ> snd) (set (filter (\<lambda>(k, v). fst k = t) d))"
  proof (rule inj_onI)
    fix x y
    assume x: "x \<in> set (filter (\<lambda>(k, v). fst k = t) d)" and y: "y \<in> set (filter (\<lambda>(k, v). fst k = t) d)"
      and same: "(f \<circ> snd) x = (f \<circ> snd) y"
    define i v j w where "i = snd (fst x)" and "v = snd x" and "j = snd (fst y)" and "w = snd y"
    then have xy: "x = ((t, i), v)" "y = ((t, j), w)" using x y by (simp_all add: prod_eq_iff split_beta)
    have at: "dget d (t, i) = Some v" "dget d (t, j) = Some w"
      using x y unfolding xy by (auto intro: map_of_is_SomeI [OF assms(1)])
    have "i = j" using assms(2) [OF at(1)] assms(2) [OF at(2)] same unfolding xy by simp
    then show "x = y" using at unfolding xy by simp
  qed
  ultimately show ?thesis by (simp add: tenant_values_def distinct_map)
qed

lemma named_page:
  assumes s: "dir_ok s" and q: "query_equality q ''userName'' = Some n" "sq_start_index q = 1"
    and page: "mem_list_users digest t q s = (Inr page, s')"
  shows "distinct (map su_id (pg_resources page)) \<and>
    (\<forall>u \<in> set (pg_resources page). dir_users s (t, su_id u) = Some u \<and> lower (su_user_name u) = lower n) \<and>
    (int (length (pg_resources page)) < sq_count q \<longrightarrow>
      (\<forall>i u. dir_users s (t, i) = Some u \<and> lower (su_user_name u) = lower n \<longrightarrow> u \<in> set (pg_resources page)))"
proof -
  let ?named = "filter (\<lambda>u. lower (su_user_name u) = lower n) (tenant_values t (md_users s))"
  have page: "pg_resources page = take (nat (max (sq_count q) 0)) ?named"
    using page q by (auto simp: mem_list_users_def Let_def apply_users_def apply_query_def)
  note d = dir_okD(1) [OF s]
  have i: "\<And>t i u. dget (md_users s) (t, i) = Some u \<Longrightarrow> su_id u = i" using dir_okD(2) [OF s] by blast
  have "distinct (map su_id (tenant_values t (md_users s)))" by (rule distinct_tenant_values [OF d i])
  then have "distinct (map su_id (pg_resources page))"
    unfolding page take_map [symmetric] by (intro distinct_take distinct_map_filter)
  moreover have "dir_users s (t, su_id u) = Some u \<and> lower (su_user_name u) = lower n" if "u \<in> set (pg_resources page)" for u
    using that i unfolding page dir_users_def by (auto dest!: in_set_takeD simp: mem_tenant_values [OF d])
  moreover have "u \<in> set (pg_resources page)"
    if "int (length (pg_resources page)) < sq_count q" "dir_users s (t, j) = Some u" "lower (su_user_name u) = lower n" for j u
  proof -
    have "take (nat (max (sq_count q) 0)) ?named = ?named" using that(1) unfolding page by (intro take_all) simp
    then show ?thesis using that(2,3) unfolding page dir_users_def by (auto simp: mem_tenant_values [OF d])
  qed
  ultimately show ?thesis by blast
qed

lemma dir_create_user:
  assumes s: "dir_ok s" and c: "mem_create_user t u s = (r, s')"
  shows "dir_ok s' \<and> dir_groups s' = dir_groups s \<and>
    (case r of
       Inl e \<Rightarrow> dir_users s' = dir_users s \<and> dir_balance s' = dir_balance s
     | Inr u' \<Rightarrow> \<exists>i. u' = u\<lparr>su_id := i\<rparr> \<and> dir_users s (t, i) = None \<and> dir_users s' = (dir_users s)((t, i) \<mapsto> u') \<and>
         dir_balance s' = (dir_balance s)((t, i) := 0))"
proof -
  define i where "i = CHR ''u'' # nat_str (Suc (md_counter s))"
  have s': "s' = s\<lparr>md_users := dset (t, i) (u\<lparr>su_id := i\<rparr>) (md_users s), md_counter := Suc (md_counter s)\<rparr>"
    and r: "r = Inr (u\<lparr>su_id := i\<rparr>)"
    using c by (auto simp: mem_create_user_def Let_def i_def)
  have fresh: "\<not> issued (CHR ''u'') s i" unfolding i_def by (rule fresh_not_issued)
  then have none: "dget (md_users s) (t', i) = None" for t'
    using dir_okD(2) [OF s] by (cases "dget (md_users s) (t', i)") blast+
  have zero: "count_list (md_deactivated s) i = 0" "count_list (md_reactivated s) i = 0"
    using dir_okD(5) [OF s] fresh by (auto simp: count_list_0_iff)
  have new: "issued (CHR ''u'') s' i" by (auto simp: issued_def s' i_def)
  have later: "issued c s j \<Longrightarrow> issued c s' j" for c j by (rule issued_later) (auto simp: s')
  have "dir_ok s'"
  proof (rule dir_okI)
    show "dict_ok (md_users s')" using dir_okD(1) [OF s] by (simp add: s')
    show "su_id v = j \<and> issued (CHR ''u'') s' j" if v: "dget (md_users s') (t', j) = Some v" for t' j v
    proof (cases "(t', j) = (t, i)")
      case True
      then have "v = u\<lparr>su_id := i\<rparr>" using v by (simp add: s')
      then show ?thesis using new True by simp
    next
      case False
      then have "dget (md_users s) (t', j) = Some v" using v by (auto simp: s' split: if_splits)
      from dir_okD(2) [OF s this] show ?thesis using later by blast
    qed
    show "t' = t''" if k: "dget (md_users s') (t', j) \<noteq> None" "dget (md_users s') (t'', j) \<noteq> None" for t' t'' j
    proof (cases "j = i")
      case True
      then show ?thesis using k none by (auto simp: s' split: if_splits)
    next
      case False
      then have "dget (md_users s) (t', j) \<noteq> None" "dget (md_users s) (t'', j) \<noteq> None" using k by (simp_all add: s')
      then show ?thesis by (rule dir_okD(3) [OF s])
    qed
    show "sg_id g = j \<and> sg_members g = [] \<and> issued (CHR ''g'') s' j" if g: "dget (md_groups s') (t', j) = Some g" for t' j g
    proof -
      have "dget (md_groups s) (t', j) = Some g" using g by (simp add: s')
      from dir_okD(4) [OF s this] show ?thesis using later by blast
    qed
    show "issued (CHR ''u'') s' j" if j: "j \<in> set (md_deactivated s') \<union> set (md_reactivated s')" for j
    proof -
      have "j \<in> set (md_deactivated s) \<union> set (md_reactivated s)" using j by (simp add: s')
      from dir_okD(5) [OF s this] show ?thesis by (rule later)
    qed
  qed
  moreover have "dir_groups s' = dir_groups s" by (auto simp: dir_groups_def members_at_def s')
  moreover have "dir_balance s' = (dir_balance s)((t, i) := 0)"
    using none zero by (auto simp: fun_eq_iff dir_balance_def dir_users_def s')
  moreover have "dir_users s' = (dir_users s)((t, i) \<mapsto> u\<lparr>su_id := i\<rparr>)" by (simp add: dir_users_def s' fun_eq_iff)
  ultimately show ?thesis using none unfolding r sum.case
    by (intro conjI exI [of _ i] refl) (auto simp: dir_users_def)
qed

lemma dir_update_user:
  assumes s: "dir_ok s" and u: "dir_users s (t, su_id u) \<noteq> None" and c: "mem_update_user t u s = (r, s')"
  shows "dir_ok s' \<and> dir_groups s' = dir_groups s \<and> dir_balance s' = dir_balance s \<and>
    (case r of Inl e \<Rightarrow> dir_users s' = dir_users s | Inr u' \<Rightarrow> u' = u \<and> dir_users s' = (dir_users s)((t, su_id u) \<mapsto> u))"
proof -
  have s': "s' = s\<lparr>md_users := dset (t, su_id u) u (md_users s)\<rparr>" and r: "r = Inr u"
    using c by (auto simp: mem_update_user_def)
  have same: "issued c s' = issued c s" for c by (simp add: issued_def s' fun_eq_iff)
  have keys: "dget (md_users s') k = None \<longleftrightarrow> dget (md_users s) k = None" for k
    using u by (auto simp: s' dir_users_def)
  have "dir_ok s'"
  proof (rule dir_okI)
    show "dict_ok (md_users s')" using dir_okD(1) [OF s] by (simp add: s')
    show "su_id v = j \<and> issued (CHR ''u'') s' j" if "dget (md_users s') (t', j) = Some v" for t' j v
      using that u dir_okD(2) [OF s] unfolding same
      by (cases "(t', j) = (t, su_id u)") (auto simp: s' dir_users_def split: if_splits)
    show "t' = t''" if "dget (md_users s') (t', j) \<noteq> None" "dget (md_users s') (t'', j) \<noteq> None" for t' t'' j
      using that dir_okD(3) [OF s] unfolding keys by blast
    show "sg_id g = j \<and> sg_members g = [] \<and> issued (CHR ''g'') s' j" if "dget (md_groups s') (t', j) = Some g" for t' j g
      using that dir_okD(4) [OF s] unfolding same by (simp add: s')
    show "issued (CHR ''u'') s' j" if "j \<in> set (md_deactivated s') \<union> set (md_reactivated s')" for j
      using that dir_okD(5) [OF s] unfolding same by (simp add: s')
  qed
  moreover have "dir_balance s' = dir_balance s"
    using u by (auto simp: fun_eq_iff dir_balance_def dir_users_def s')
  ultimately show ?thesis using r by (auto simp: dir_users_def dir_groups_def members_at_def s' fun_eq_iff)
qed

lemma dir_side_effects:
  assumes s: "dir_ok s" and u: "dir_users s (t, su_id u) \<noteq> None"
  shows "mem_deactivate_user t u s = (rx, s') \<Longrightarrow> dir_ok s' \<and> dir_users s' = dir_users s \<and> dir_groups s' = dir_groups s \<and>
      dir_balance s' = (case rx of Inl e \<Rightarrow> dir_balance s
        | Inr x \<Rightarrow> (dir_balance s)((t, su_id u) := dir_balance s (t, su_id u) + 1))"
    and "mem_reactivate_user t u s = (rx, s') \<Longrightarrow> dir_ok s' \<and> dir_users s' = dir_users s \<and> dir_groups s' = dir_groups s \<and>
      dir_balance s' = (case rx of Inl e \<Rightarrow> dir_balance s
        | Inr x \<Rightarrow> (dir_balance s)((t, su_id u) := dir_balance s (t, su_id u) - 1))"
proof -
  have id: "issued (CHR ''u'') s (su_id u)" using dir_okD(2) [OF s] u unfolding dir_users_def by blast
  have only: "dget (md_users s) (t', su_id u) \<noteq> None \<Longrightarrow> t' = t" for t'
    using dir_okD(3) [OF s] u unfolding dir_users_def by blast
  have ok: "dir_ok (s\<lparr>md_deactivated := md_deactivated s @ [su_id u]\<rparr>)" "dir_ok (s\<lparr>md_reactivated := md_reactivated s @ [su_id u]\<rparr>)"
    using s id unfolding dir_ok_def issued_def by simp_all
  have balance: "dir_balance (s\<lparr>md_deactivated := md_deactivated s @ [su_id u]\<rparr>) =
      (dir_balance s)((t, su_id u) := dir_balance s (t, su_id u) + 1)"
    "dir_balance (s\<lparr>md_reactivated := md_reactivated s @ [su_id u]\<rparr>) =
      (dir_balance s)((t, su_id u) := dir_balance s (t, su_id u) - 1)"
  proof -
    have other: "dget (md_users s) k = None \<or> snd k \<noteq> su_id u" if "k \<noteq> (t, su_id u)" for k
    proof (rule ccontr)
      assume "\<not> (dget (md_users s) k = None \<or> snd k \<noteq> su_id u)"
      then have "dget (md_users s) (fst k, su_id u) \<noteq> None" "k = (fst k, su_id u)" by (metis prod.collapse)+
      then show False using only that by metis
    qed
    have here: "dget (md_users s) (t, su_id u) \<noteq> None" using u unfolding dir_users_def .
    show "dir_balance (s\<lparr>md_deactivated := md_deactivated s @ [su_id u]\<rparr>) =
        (dir_balance s)((t, su_id u) := dir_balance s (t, su_id u) + 1)" (is "?lhs = ?rhs")
    proof (rule ext)
      fix k
      show "?lhs k = ?rhs k"
        using here other [of k] unfolding dir_balance_def dir_users_def by (cases "k = (t, su_id u)") auto
    qed
    show "dir_balance (s\<lparr>md_reactivated := md_reactivated s @ [su_id u]\<rparr>) =
        (dir_balance s)((t, su_id u) := dir_balance s (t, su_id u) - 1)" (is "?lhs = ?rhs")
    proof (rule ext)
      fix k
      show "?lhs k = ?rhs k"
        using here other [of k] unfolding dir_balance_def dir_users_def by (cases "k = (t, su_id u)") auto
    qed
  qed
  have views: "dir_users (s\<lparr>md_deactivated := xs\<rparr>) = dir_users s" "dir_groups (s\<lparr>md_deactivated := xs\<rparr>) = dir_groups s"
    "dir_users (s\<lparr>md_reactivated := xs\<rparr>) = dir_users s" "dir_groups (s\<lparr>md_reactivated := xs\<rparr>) = dir_groups s" for xs
    by (simp_all add: dir_users_def dir_groups_def members_at_def fun_eq_iff)
  show "mem_deactivate_user t u s = (rx, s') \<Longrightarrow> dir_ok s' \<and> dir_users s' = dir_users s \<and> dir_groups s' = dir_groups s \<and>
      dir_balance s' = (case rx of Inl e \<Rightarrow> dir_balance s
        | Inr x \<Rightarrow> (dir_balance s)((t, su_id u) := dir_balance s (t, su_id u) + 1))"
    unfolding mem_deactivate_user_def prod.inject
    by (elim conjE, hypsubst, unfold views balance(1) sum.case) (intro conjI refl ok)
  show "mem_reactivate_user t u s = (rx, s') \<Longrightarrow> dir_ok s' \<and> dir_users s' = dir_users s \<and> dir_groups s' = dir_groups s \<and>
      dir_balance s' = (case rx of Inl e \<Rightarrow> dir_balance s
        | Inr x \<Rightarrow> (dir_balance s)((t, su_id u) := dir_balance s (t, su_id u) - 1))"
    unfolding mem_reactivate_user_def prod.inject
    by (elim conjE, hypsubst, unfold views balance(2) sum.case) (intro conjI refl ok)
qed

lemma map_of_map_key: "map_of (map (\<lambda>(k, v). (k, f k v)) d) k = map_option (f k) (map_of d k)"
  by (induction d) auto

lemma dir_delete_user:
  assumes s: "dir_ok s" and c: "mem_delete_user t i s = (r, s')"
  shows "dir_ok s' \<and> (\<forall>k. fst k \<noteq> t \<longrightarrow> dir_groups s' k = dir_groups s k) \<and>
    (case r of
       Inl e \<Rightarrow> dir_users s' = dir_users s \<and> dir_balance s' = dir_balance s
     | Inr existed \<Rightarrow> (existed \<longleftrightarrow> dir_users s (t, i) \<noteq> None) \<and> dir_users s' = (dir_users s)((t, i) := None) \<and>
         (\<forall>k. k \<noteq> (t, i) \<longrightarrow> dir_balance s' k = dir_balance s k))"
proof -
  let ?ms = "map (\<lambda>(k, ms). (k, if fst k = t then filter (\<lambda>m. sm_value m \<noteq> i) ms else ms)) (md_members s)"
  have s': "s' = s\<lparr>md_users := ddel (t, i) (md_users s), md_members := ?ms\<rparr>" and r: "r = Inr (dget (md_users s) (t, i) \<noteq> None)"
    using c by (simp_all add: mem_delete_user_def)
  have old: "dget (md_users s) k = Some u" if "dget (md_users s') k = Some u" for k u
    using that by (simp add: s' split: if_splits)
  have same: "issued c s' = issued c s" for c by (simp add: issued_def s' fun_eq_iff)
  have "dir_ok s'"
  proof (rule dir_okI)
    show "dict_ok (md_users s')" using dir_okD(1) [OF s] by (simp add: s')
    show "su_id v = j \<and> issued (CHR ''u'') s' j" if "dget (md_users s') (t', j) = Some v" for t' j v
      using dir_okD(2) [OF s old [OF that]] unfolding same .
    show "t' = t''" if "dget (md_users s') (t', j) \<noteq> None" "dget (md_users s') (t'', j) \<noteq> None" for t' t'' j
      using that old dir_okD(3) [OF s] by (metis option.exhaust)
    show "sg_id g = j \<and> sg_members g = [] \<and> issued (CHR ''g'') s' j" if "dget (md_groups s') (t', j) = Some g" for t' j g
      using that dir_okD(4) [OF s] unfolding same by (simp add: s')
    show "issued (CHR ''u'') s' j" if "j \<in> set (md_deactivated s') \<union> set (md_reactivated s')" for j
      using that dir_okD(5) [OF s] unfolding same by (simp add: s')
  qed
  moreover have "dir_groups s' k = dir_groups s k" if "fst k \<noteq> t" for k
    using that by (simp add: dir_groups_def members_at_def s' map_of_map_key option.map_ident cong: map_option_cong)
  moreover have "dir_users s' = (dir_users s)((t, i) := None)" by (simp add: dir_users_def s' fun_eq_iff)
  moreover have "dir_balance s' k = dir_balance s k" if "k \<noteq> (t, i)" for k
    using that unfolding dir_balance_def dir_users_def by (simp add: s')
  moreover have "dget (md_users s) (t, i) = dir_users s (t, i)" by (simp add: dir_users_def)
  ultimately show ?thesis unfolding r sum.case by simp
qed

text \<open>A change of the groups alone keeps the rest of the invariant.\<close>

lemma dir_group_write:
  assumes s: "dir_ok s"
    and rest: "md_users s' = md_users s" "md_deactivated s' = md_deactivated s" "md_reactivated s' = md_reactivated s"
      "md_counter s \<le> md_counter s'"
    and gs: "\<And>t i g. dget (md_groups s') (t, i) = Some g \<Longrightarrow> dget (md_groups s) (t, i) = Some g \<or>
      sg_id g = i \<and> sg_members g = [] \<and> issued (CHR ''g'') s' i"
  shows "dir_ok s' \<and> dir_users s' = dir_users s \<and> dir_balance s' = dir_balance s"
proof -
  have later: "issued c s j \<Longrightarrow> issued c s' j" for c j using rest(4) by (rule issued_later [rotated])
  have "dir_ok s'"
  proof (rule dir_okI)
    show "dict_ok (md_users s')" using dir_okD(1) [OF s] by (simp add: rest)
    show "su_id v = j \<and> issued (CHR ''u'') s' j" if "dget (md_users s') (t', j) = Some v" for t' j v
      using dir_okD(2) [OF s] that later unfolding rest by blast
    show "t' = t''" if "dget (md_users s') (t', j) \<noteq> None" "dget (md_users s') (t'', j) \<noteq> None" for t' t'' j
      using that dir_okD(3) [OF s] unfolding rest by blast
    show "sg_id g = j \<and> sg_members g = [] \<and> issued (CHR ''g'') s' j" if "dget (md_groups s') (t', j) = Some g" for t' j g
      using gs [OF that] dir_okD(4) [OF s] later by blast
    show "issued (CHR ''u'') s' j" if "j \<in> set (md_deactivated s') \<union> set (md_reactivated s')" for j
      using dir_okD(5) [OF s] that later unfolding rest by blast
  qed
  then show ?thesis by (simp add: dir_users_def dir_balance_def rest fun_eq_iff)
qed

lemma dir_get_group:
  assumes s: "dir_ok s" and c: "mem_get_group t i include s = (r, s')"
  shows "dir_ok s' \<and> dir_users s' = dir_users s \<and> dir_groups s' = dir_groups s \<and> dir_balance s' = dir_balance s \<and>
    (\<forall>found. r = Inr found \<longrightarrow> found = map_option (\<lambda>g. if include then g else g\<lparr>sg_members := []\<rparr>) (dir_groups s (t, i)))"
proof -
  have s': "s' = s \<or> s' = s\<lparr>md_member_loads := Suc (md_member_loads s)\<rparr>"
    using c by (auto simp: mem_get_group_def with_members_def split: option.splits if_splits)
  have "dir_ok s' \<and> dir_users s' = dir_users s \<and> dir_balance s' = dir_balance s"
    by (rule dir_group_write [OF s]) (use s' in auto)
  moreover have "dir_groups s' = dir_groups s" using s' by (auto simp: dir_groups_def members_at_def fun_eq_iff)
  moreover have "found = map_option (\<lambda>g. if include then g else g\<lparr>sg_members := []\<rparr>) (dir_groups s (t, i))"
    if "r = Inr found" for found
  proof (cases "dget (md_groups s) (t, i)")
    case None
    then show ?thesis using c that by (simp add: mem_get_group_def dir_groups_def)
  next
    case (Some g)
    have "sg_id g = i" "sg_members g = []" using dir_okD(4) [OF s Some] by blast+
    then show ?thesis using c that Some
      by (cases g) (auto simp: mem_get_group_def dir_groups_def with_members_def split: if_splits)
  qed
  ultimately show ?thesis by blast
qed

lemma all_with_members_same:
  "all_with_members t include gs s = (gs', s') \<Longrightarrow> dir_ok s \<Longrightarrow>
     dir_ok s' \<and> dir_users s' = dir_users s \<and> dir_groups s' = dir_groups s \<and> dir_balance s' = dir_balance s"
proof (induction gs arbitrary: gs' s s')
  case Nil
  then show ?case by simp
next
  case (Cons g gs)
  obtain g1 s1 where one: "with_members t g include s = (g1, s1)" by (rule prod.exhaust)
  obtain gs2 s2 where many: "all_with_members t include gs s1 = (gs2, s2)" by (rule prod.exhaust)
  have s1: "s1 = s \<or> s1 = s\<lparr>md_member_loads := Suc (md_member_loads s)\<rparr>"
    using one by (auto simp: with_members_def split: if_splits)
  have "dir_ok s1 \<and> dir_users s1 = dir_users s \<and> dir_balance s1 = dir_balance s"
    by (rule dir_group_write [OF Cons.prems(2)]) (use s1 in auto)
  moreover have "dir_groups s1 = dir_groups s" using s1 by (auto simp: dir_groups_def members_at_def fun_eq_iff)
  ultimately show ?case using Cons.IH [OF many] Cons.prems(1) one many by simp
qed

lemma dir_list_groups:
  assumes "dir_ok s" "mem_list_groups digest t q s = (r, s')"
  shows "dir_ok s' \<and> dir_users s' = dir_users s \<and> dir_groups s' = dir_groups s \<and> dir_balance s' = dir_balance s"
  using assms all_with_members_same unfolding mem_list_groups_def by (simp split: prod.splits)

lemma dir_create_group:
  assumes s: "dir_ok s" and g: "sg_members g = []" and c: "mem_create_group t g s = (r, s')"
  shows "dir_ok s' \<and> dir_users s' = dir_users s \<and> dir_balance s' = dir_balance s \<and>
    (case r of
       Inl e \<Rightarrow> dir_groups s' = dir_groups s
     | Inr g' \<Rightarrow> \<exists>i. g' = g\<lparr>sg_id := i\<rparr> \<and> dir_groups s (t, i) = None \<and> dir_groups s' = (dir_groups s)((t, i) \<mapsto> g'))"
proof -
  define i where "i = CHR ''g'' # nat_str (Suc (md_counter s))"
  have s': "s' = s\<lparr>md_groups := dset (t, i) (g\<lparr>sg_id := i\<rparr>) (md_groups s), md_members := dset (t, i) [] (md_members s),
      md_counter := Suc (md_counter s)\<rparr>" and r: "r = Inr (g\<lparr>sg_id := i\<rparr>)"
    using c g by (auto simp: mem_create_group_def Let_def i_def)
  have "\<not> issued (CHR ''g'') s i" unfolding i_def by (rule fresh_not_issued)
  then have none: "dget (md_groups s) (t, i) = None"
    using dir_okD(4) [OF s] by (cases "dget (md_groups s) (t, i)") blast+
  have new: "issued (CHR ''g'') s' i" by (auto simp: issued_def s' i_def)
  have "dir_ok s' \<and> dir_users s' = dir_users s \<and> dir_balance s' = dir_balance s"
  proof (rule dir_group_write [OF s])
    show "dget (md_groups s) (t', j) = Some h \<or> sg_id h = j \<and> sg_members h = [] \<and> issued (CHR ''g'') s' j"
      if "dget (md_groups s') (t', j) = Some h" for t' j h
      using that new g by (cases "(t', j) = (t, i)") (auto simp: s' split: if_splits)
  qed (simp_all add: s')
  moreover have "dir_groups s' = (dir_groups s)((t, i) \<mapsto> g\<lparr>sg_id := i\<rparr>)"
  proof (rule ext)
    fix k
    show "dir_groups s' k = ((dir_groups s)((t, i) \<mapsto> g\<lparr>sg_id := i\<rparr>)) k"
      using g by (cases "k = (t, i)"; cases g) (simp_all add: dir_groups_def members_at_def s')
  qed
  ultimately show ?thesis using none unfolding r sum.case
    by (intro conjI exI [of _ i] refl) (simp_all add: dir_groups_def)
qed

lemma dir_update_group:
  assumes s: "dir_ok s" and old: "dir_groups s (t, sg_id g) = Some old" and g: "sg_members g = []"
    and c: "mem_update_group t g s = (r, s')"
  shows "dir_ok s' \<and> dir_users s' = dir_users s \<and> dir_balance s' = dir_balance s \<and>
    (case r of
       Inl e \<Rightarrow> dir_groups s' = dir_groups s
     | Inr g' \<Rightarrow> g' = g \<and> dir_groups s' = (dir_groups s)((t, sg_id g) \<mapsto> g\<lparr>sg_members := sg_members old\<rparr>))"
proof -
  have s': "s' = s\<lparr>md_groups := dset (t, sg_id g) g (md_groups s)\<rparr>" and r: "r = Inr g"
    using c g by (simp_all add: mem_update_group_def)
  obtain h where h: "dget (md_groups s) (t, sg_id g) = Some h" "old = h\<lparr>sg_members := members_at s (t, sg_id g)\<rparr>"
    using old by (auto simp: dir_groups_def)
  have "issued (CHR ''g'') s (sg_id g)" using dir_okD(4) [OF s h(1)] by blast
  then have id: "issued (CHR ''g'') s' (sg_id g)" by (simp add: issued_def s')
  have "dir_ok s' \<and> dir_users s' = dir_users s \<and> dir_balance s' = dir_balance s"
  proof (rule dir_group_write [OF s])
    show "dget (md_groups s) (t', j) = Some h \<or> sg_id h = j \<and> sg_members h = [] \<and> issued (CHR ''g'') s' j"
      if "dget (md_groups s') (t', j) = Some h" for t' j h
      using that id g by (cases "(t', j) = (t, sg_id g)") (auto simp: s' split: if_splits)
  qed (simp_all add: s')
  moreover have "dir_groups s' = (dir_groups s)((t, sg_id g) \<mapsto> g\<lparr>sg_members := sg_members old\<rparr>)"
    by (rule ext) (simp add: dir_groups_def members_at_def s' h(2))
  ultimately show ?thesis unfolding r sum.case by blast
qed

lemma dir_delete_group:
  assumes s: "dir_ok s" and c: "mem_delete_group t i s = (r, s')"
  shows "dir_ok s' \<and> dir_users s' = dir_users s \<and> dir_balance s' = dir_balance s \<and>
    (case r of
       Inl e \<Rightarrow> dir_groups s' = dir_groups s
     | Inr existed \<Rightarrow> (existed \<longleftrightarrow> dir_groups s (t, i) \<noteq> None) \<and> dir_groups s' = (dir_groups s)((t, i) := None))"
proof -
  have s': "s' = s\<lparr>md_members := ddel (t, i) (md_members s), md_groups := ddel (t, i) (md_groups s)\<rparr>"
    and r: "r = Inr (dget (md_groups s) (t, i) \<noteq> None)"
    using c by (simp_all add: mem_delete_group_def)
  have "dir_ok s' \<and> dir_users s' = dir_users s \<and> dir_balance s' = dir_balance s"
    by (rule dir_group_write [OF s]) (simp_all add: s' split: if_splits)
  moreover have "dir_groups s' = (dir_groups s)((t, i) := None)"
    by (rule ext) (simp add: dir_groups_def members_at_def s')
  ultimately show ?thesis unfolding r sum.case by (simp add: dir_groups_def)
qed

lemma dir_member_write:
  assumes s: "dir_ok s" and g: "dir_groups s (t, i) = Some g"
    and s': "s' = s\<lparr>md_members := dset (t, i) ms (md_members s)\<rparr>"
  shows "dir_ok s' \<and> dir_users s' = dir_users s \<and> dir_balance s' = dir_balance s \<and>
    dir_groups s' = (dir_groups s)((t, i) \<mapsto> g\<lparr>sg_members := ms\<rparr>)"
proof -
  have "dir_ok s' \<and> dir_users s' = dir_users s \<and> dir_balance s' = dir_balance s"
    by (rule dir_group_write [OF s]) (simp_all add: s')
  moreover have "dir_groups s' = (dir_groups s)((t, i) \<mapsto> g\<lparr>sg_members := ms\<rparr>)"
    by (rule ext) (use g in \<open>auto simp: dir_groups_def members_at_def s'\<close>)
  ultimately show ?thesis by blast
qed

lemma dir_members:
  assumes s: "dir_ok s" and g: "dir_groups s (t, i) = Some g"
  shows "mem_add_members t i ms s = (r, s') \<Longrightarrow> dir_ok s' \<and> dir_users s' = dir_users s \<and> dir_balance s' = dir_balance s \<and>
    (case r of
       Inl e \<Rightarrow> dir_groups s' = dir_groups s
     | Inr x \<Rightarrow> \<exists>after. dir_groups s' = (dir_groups s)((t, i) \<mapsto> g\<lparr>sg_members := after\<rparr>) \<and>
         sm_value ` set after = sm_value ` set (sg_members g) \<union> sm_value ` set ms)"
    and "mem_remove_members t i ids s = (r, s') \<Longrightarrow> dir_ok s' \<and> dir_users s' = dir_users s \<and> dir_balance s' = dir_balance s \<and>
    (case r of
       Inl e \<Rightarrow> dir_groups s' = dir_groups s
     | Inr x \<Rightarrow> \<exists>after. dir_groups s' = (dir_groups s)((t, i) \<mapsto> g\<lparr>sg_members := after\<rparr>) \<and>
         sm_value ` set after = sm_value ` set (sg_members g) - set ids)"
proof -
  have here: "members_at s (t, i) = sg_members g" using g by (auto simp: dir_groups_def)
  let ?added = "sg_members g @ filter (\<lambda>m. sm_value m \<notin> sm_value ` set (sg_members g)) ms"
  let ?kept = "filter (\<lambda>m. sm_value m \<notin> set ids) (sg_members g)"
  have vals: "sm_value ` set ?added = sm_value ` set (sg_members g) \<union> sm_value ` set ms"
    unfolding set_append image_Un set_filter by blast
  have added: "mem_add_members t i ms s = (Inr (), s\<lparr>md_members := dset (t, i) ?added (md_members s)\<rparr>)"
    by (simp add: mem_add_members_def Let_def here)
  show "mem_add_members t i ms s = (r, s') \<Longrightarrow> dir_ok s' \<and> dir_users s' = dir_users s \<and> dir_balance s' = dir_balance s \<and>
    (case r of
       Inl e \<Rightarrow> dir_groups s' = dir_groups s
     | Inr x \<Rightarrow> \<exists>after. dir_groups s' = (dir_groups s)((t, i) \<mapsto> g\<lparr>sg_members := after\<rparr>) \<and>
         sm_value ` set after = sm_value ` set (sg_members g) \<union> sm_value ` set ms)"
    unfolding added prod.inject using dir_member_write [OF s g, of s' ?added] vals
    by (elim conjE, hypsubst) (simp only: sum.case, blast)
  show "mem_remove_members t i ids s = (r, s') \<Longrightarrow> dir_ok s' \<and> dir_users s' = dir_users s \<and> dir_balance s' = dir_balance s \<and>
    (case r of
       Inl e \<Rightarrow> dir_groups s' = dir_groups s
     | Inr x \<Rightarrow> \<exists>after. dir_groups s' = (dir_groups s)((t, i) \<mapsto> g\<lparr>sg_members := after\<rparr>) \<and>
         sm_value ` set after = sm_value ` set (sg_members g) - set ids)"
    using dir_member_write [OF s g, of s' ?kept]
    by (auto simp: mem_remove_members_def here intro!: exI [of _ ?kept])
qed

lemma dir_list_users:
  "dir_ok s \<Longrightarrow> mem_list_users digest t q s = (r, s') \<Longrightarrow>
     dir_ok s' \<and> dir_users s' = dir_users s \<and> dir_groups s' = dir_groups s \<and> dir_balance s' = dir_balance s"
  by (simp add: mem_list_users_def Let_def)

lemma memory_hook_simps:
  "hk_get_user (memory_hooks digest) = mem_get_user" "hk_list_users (memory_hooks digest) = mem_list_users digest"
  "hk_create_user (memory_hooks digest) = mem_create_user" "hk_update_user (memory_hooks digest) = mem_update_user"
  "hk_deactivate_user (memory_hooks digest) = mem_deactivate_user"
  "hk_reactivate_user (memory_hooks digest) = mem_reactivate_user"
  "hk_delete_user (memory_hooks digest) = mem_delete_user" "hk_get_group (memory_hooks digest) = mem_get_group"
  "hk_list_groups (memory_hooks digest) = mem_list_groups digest" "hk_create_group (memory_hooks digest) = mem_create_group"
  "hk_update_group (memory_hooks digest) = mem_update_group" "hk_delete_group (memory_hooks digest) = mem_delete_group"
  "hk_add_group_members (memory_hooks digest) = mem_add_members"
  "hk_remove_group_members (memory_hooks digest) = mem_remove_members"
  "hk_scim_enabled (memory_hooks digest) = mem_scim_enabled"
  by (simp_all add: memory_hooks_def)

interpretation mem_dir: steady_directory "memory_hooks digest" dir_users dir_groups dir_balance dir_ok for digest
  apply unfold_locales
  apply (unfold memory_hook_simps)
  apply (erule (1) dir_user_id)
  apply (erule (1) dir_group_id)
  apply (simp add: mem_get_user_def dir_users_def)
  apply (erule (1) dir_list_users)
  apply (erule (3) named_page)
  apply (erule (1) dir_create_user)
  apply (erule (2) dir_update_user)
  apply (erule (2) dir_side_effects(1))
  apply (erule (2) dir_side_effects(2))
  apply (erule (1) dir_delete_user)
  apply (erule (1) dir_get_group)
  apply (erule (1) dir_list_groups)
  apply (erule (2) dir_create_group)
  apply (erule (3) dir_update_group)
  apply (erule (1) dir_delete_group)
  apply (erule (2) dir_members(1))
  apply (erule (2) dir_members(2))
  apply (simp add: mem_scim_enabled_def)
  apply (simp add: mem_deactivate_user_def)
  apply (simp add: mem_reactivate_user_def)
  done

end
