(* ===== verification/ScimPatchProperties.thy ===== *)
theory ScimPatchProperties
  imports ScimService
begin

text \<open>
  What PATCH can reach: the keys of the attributes a client may write and of the schemas. And
  the two ways a group's members are changed, which do not always agree.
\<close>

section \<open>The keys a PATCH can reach\<close>

definition writable_key :: "scim_resource_type \<Rightarrow> string \<Rightarrow> bool" where
  "writable_key rt k =
     (lower k \<in> lower ` at_name ` {d \<in> set (sc_attributes (rt_schema rt) @ common_attributes). ai_mutability (at_info d) \<noteq> ''readOnly''} \<or>
      lower k \<in> lower ` sc_id ` set (rt_schema rt # rt_extensions rt))"

lemma map_sum_left_Inr [simp]: "map_sum f id r = Inr y \<longleftrightarrow> r = Inr y"
  by (cases r) simp_all

lemma key_like_lower: "key_like c name = Some k \<Longrightarrow> lower k = lower name"
  by (auto simp: key_like_def find_Some_iff)

lemma named_attributeD: "named_attribute ds name = Some d \<Longrightarrow> d \<in> set ds \<and> lower (at_name d) = lower name"
  by (auto simp: named_attribute_def find_Some_iff)

lemma del_like_frame: "lower k \<noteq> lower name \<Longrightarrow> dget (del_like name c) k = dget c k"
  by (auto simp: del_like_def dest: key_like_lower split: option.split)

lemma remove_from_frame:
  assumes "lower k \<noteq> lower (at_name d)"
  shows "dget (remove_from rt path d v c) k = dget c k"
proof (cases "key_like c (at_name d)")
  case None
  then show ?thesis by (simp add: remove_from_def)
next
  case (Some key)
  then have "k \<noteq> key" using assms by (auto dest: key_like_lower)
  then show ?thesis using Some
    by (simp add: remove_from_def Let_def split: option.split json.split prod.split)
qed

lemma set_filtered_frame:
  assumes "set_filtered rt path f d v key c = Inr c'" "k \<noteq> key"
  shows "dget c' k = dget c k"
  using assms unfolding set_filtered_def Let_def
  by (auto split: sum.splits json.splits option.splits if_splits)

text \<open>Without a value filter, the container is left alone or stored to at the attribute's key.\<close>

definition attribute_key :: "json_object \<Rightarrow> scim_attribute \<Rightarrow> string" where
  "attribute_key c d = (case key_like c (at_name d) of Some k \<Rightarrow> k | None \<Rightarrow> at_name d)"

lemma attribute_key_lower: "lower (attribute_key c d) = lower (at_name d)"
  by (auto simp: attribute_key_def dest: key_like_lower split: option.split)

lemma set_in_sub:
  assumes "set_in rt op path d v c = Inr c'" "pp_value_filter path = None" "pp_sub path \<noteq> []"
  shows "c' = c \<or> (\<exists>w. c' = dset (attribute_key c d) w c)"
proof (cases "sub_attribute d (pp_sub path)")
  case None
  then show ?thesis using assms by (simp add: set_in_def Let_def)
next
  case (Some sub)
  then obtain n where "normalise_value sub v = Inr n"
    using assms by (cases "normalise_value sub v") (simp_all add: set_in_def Let_def)
  then show ?thesis using assms Some unfolding set_in_def Let_def attribute_key_def [symmetric]
    by (cases "ai_multi_valued (at_info d)"; cases "jget c (attribute_key c d)") auto
qed

lemma set_in_whole:
  assumes "set_in rt op path d v c = Inr c'" "pp_value_filter path = None" "pp_sub path = []"
  shows "\<exists>w. c' = dset (attribute_key c d) w c"
proof -
  obtain n where n: "normalise_value d v = Inr n"
    using assms by (cases "normalise_value d v") (simp_all add: set_in_def Let_def)
  show ?thesis
  proof (cases "ai_multi_valued (at_info d)")
    case True
    then show ?thesis using assms n unfolding set_in_def Let_def attribute_key_def [symmetric] by auto
  next
    case False
    then show ?thesis using assms n unfolding set_in_def Let_def attribute_key_def [symmetric]
      by (cases "if ai_type (at_info d) = ''complex'' then jget c (attribute_key c d) else JNull"; cases n) auto
  qed
qed

lemma set_in_frame:
  assumes s: "set_in rt op path d v c = Inr c'" and k: "lower k \<noteq> lower (at_name d)"
  shows "dget c' k = dget c k"
proof (cases "pp_value_filter path")
  case (Some f)
  have "k \<noteq> attribute_key c d" using k attribute_key_lower by metis
  then show ?thesis
    using s Some set_filtered_frame by (simp add: set_in_def Let_def attribute_key_def)
next
  case None
  have "k \<noteq> attribute_key c d" using k attribute_key_lower by metis
  then show ?thesis using set_in_sub [OF s None] set_in_whole [OF s None] by (cases "pp_sub path = []") auto
qed

lemma extension_key_lower: "lower (extension_key doc urn) = lower urn"
  by (auto simp: extension_key_def str_or_def dest: key_like_lower split: option.split)

lemma patch_attribute_frame:
  assumes p: "patch_attribute rt op path d v doc = Inr doc'"
    and k: "pp_urn path = [] \<Longrightarrow> lower k \<noteq> lower (at_name d)" "pp_urn path \<noteq> [] \<Longrightarrow> lower k \<noteq> lower (pp_urn path)"
  shows "dget doc' k = dget doc k"
proof (cases "pp_urn path = []")
  case True
  then show ?thesis using p k(1) remove_from_frame [of k d] set_in_frame [of _ _ _ d _ _ _ k]
    by (auto simp: patch_attribute_def split: if_splits option.splits)
next
  case False
  then have "k \<noteq> extension_key doc (pp_urn path)" using k(2) extension_key_lower by metis
  then show ?thesis using p False
    by (auto simp: patch_attribute_def split: if_splits option.splits)
qed

lemma split_urn_known:
  "split_urn ss raw = Some (Inl urn) \<Longrightarrow> urn \<in> sc_id ` set ss"
  "split_urn ss raw = Some (Inr (urn, rest)) \<Longrightarrow> urn \<in> sc_id ` set ss"
  by (induction ss) (auto split: if_splits)

lemma set_known_schemas: "set (known_schemas rt) = set (rt_schema rt # rt_extensions rt)"
  unfolding known_schemas_def by (rule set_sort)

lemma parse_patch_path_urn:
  assumes "parse_patch_path s rt = Inr path"
  shows "pp_urn path = [] \<or> pp_urn path \<in> sc_id ` set (known_schemas rt)"
proof -
  show ?thesis
    using assms unfolding parse_patch_path_def Let_def
    by (auto split: if_splits sum.splits option.splits prod.splits dest: split_urn_known)
qed

lemma parse_patch_path_attribute:
  assumes "parse_patch_path s rt = Inr path" "pp_attribute path = []"
  shows "pp_urn path \<in> sc_id ` set (known_schemas rt)"
proof -
  have "\<not> attr_name []" by code_simp
  then show ?thesis
    using assms unfolding parse_patch_path_def Let_def
    by (auto split: if_splits sum.splits option.splits prod.splits dest: split_urn_known)
qed

lemma patch_definition_writable:
  assumes "patch_definition rt path = Some d" "pp_urn path = []" "ai_mutability (at_info d) \<noteq> ''readOnly''" "lower k = lower (at_name d)"
  shows "writable_key rt k"
proof -
  have "d \<in> set (sc_attributes (rt_schema rt) @ common_attributes)"
    using assms(1,2) by (auto simp: patch_definition_def Let_def schema_attribute_def dest: named_attributeD split: if_splits)
  then show ?thesis using assms(3,4) by (auto simp: writable_key_def)
qed

lemma schema_key_writable: "urn \<in> sc_id ` set (known_schemas rt) \<Longrightarrow> lower k = lower urn \<Longrightarrow> writable_key rt k"
  unfolding set_known_schemas by (auto simp: writable_key_def)

text \<open>One operation on a parsed path: the case the loop over members and the request share.\<close>

lemma patch_attribute_keeps:
  assumes path: "parse_patch_path s rt = Inr path" and d: "patch_definition rt path = Some d"
    and w: "ai_mutability (at_info d) \<noteq> ''readOnly''" and p: "patch_attribute rt op path d v doc = Inr doc'"
    and k: "\<not> writable_key rt k"
  shows "dget doc' k = dget doc k"
proof (rule patch_attribute_frame [OF p])
  show "lower k \<noteq> lower (at_name d)" if "pp_urn path = []"
    using patch_definition_writable [OF d that w] k by blast
  show "lower k \<noteq> lower (pp_urn path)" if "pp_urn path \<noteq> []"
    using parse_patch_path_urn [OF path] that schema_key_writable [of "pp_urn path" rt k] k by blast
qed

lemma apply_path_keeps:
  "apply_path rt op lenient s v doc = Inr doc' \<Longrightarrow> \<not> writable_key rt k \<Longrightarrow> dget doc' k = dget doc k"
  "apply_entries rt op urn kvs doc = Inr doc' \<Longrightarrow> \<not> writable_key rt k \<Longrightarrow> dget doc' k = dget doc k"
proof (induction rt op lenient s v doc and rt op urn kvs doc arbitrary: doc' and doc' rule: apply_path_apply_entries.induct)
  case (1 rt op lenient s v doc)
  show ?case
  proof (cases "parse_patch_path s rt")
    case (Inl e)
    then show ?thesis using 1(2) by (subst (asm) apply_path.simps) (auto split: path_error.splits if_splits)
  next
    case path: (Inr path)
    show ?thesis
    proof (cases "pp_attribute path = []")
      case True
      have "lower k \<noteq> lower (pp_urn path)"
        using schema_key_writable [OF parse_patch_path_attribute [OF path True]] 1(3) by blast
      then have del: "dget (del_like (pp_urn path) doc) k = dget doc k" by (rule del_like_frame)
      show ?thesis
        using 1(2) path True del 1(1) [OF path True] 1(3)
        by (subst (asm) apply_path.simps) (auto split: if_splits option.splits json.splits)
    next
      case False
      show ?thesis
        using 1(2) path False patch_attribute_keeps [OF path _ _ _ 1(3)]
        by (subst (asm) apply_path.simps) (auto split: if_splits option.splits)
    qed
  qed
next
  case (2 rt op urn doc)
  then show ?case by simp
next
  case (3 rt op urn key v rest doc)
  then show ?case by (auto split: sum.splits)
qed

lemma apply_members_keeps:
  "apply_members rt op kvs doc = Inr doc' \<Longrightarrow> \<not> writable_key rt k \<Longrightarrow> dget doc' k = dget doc k"
proof (induction rt op kvs doc arbitrary: doc' rule: apply_members.induct)
  case (2 rt op key v rest doc)
  then show ?case
    by (auto split: if_splits sum.splits option.splits json.splits dest!: apply_path_keeps)
qed simp

lemma apply_operation_keeps:
  "apply_operation rt p doc = Inr doc' \<Longrightarrow> \<not> writable_key rt k \<Longrightarrow> dget doc' k = dget doc k"
  by (auto simp: apply_operation_def apply_members_keeps apply_path_keeps split: if_splits json.splits)

lemma apply_patch_keeps:
  "apply_patch rt ps doc = Inr doc' \<Longrightarrow> \<not> writable_key rt k \<Longrightarrow> dget doc' k = dget doc k"
proof (induction ps arbitrary: doc)
  case (Cons p ps)
  then show ?case by (auto split: sum.splits dest: apply_operation_keeps)
qed simp

lemma user_read_only: "lower k \<in> set [''id'', ''meta'', ''groups'', ''schemas''] \<Longrightarrow> \<not> writable_key user_resource_type k"
proof -
  have "list_all (\<lambda>l. l \<notin> lower ` at_name ` set (filter (\<lambda>d. ai_mutability (at_info d) \<noteq> ''readOnly'')
      (sc_attributes (rt_schema user_resource_type) @ common_attributes)) \<and>
      l \<notin> lower ` sc_id ` set (rt_schema user_resource_type # rt_extensions user_resource_type)) [''id'', ''meta'', ''groups'', ''schemas'']"
    by code_simp
  then show "lower k \<in> set [''id'', ''meta'', ''groups'', ''schemas''] \<Longrightarrow> \<not> writable_key user_resource_type k"
    unfolding writable_key_def set_filter [symmetric] list_all_iff by blast
qed

lemma group_read_only: "lower k \<in> set [''id'', ''meta'', ''schemas''] \<Longrightarrow> \<not> writable_key group_resource_type k"
proof -
  have "list_all (\<lambda>l. l \<notin> lower ` at_name ` set (filter (\<lambda>d. ai_mutability (at_info d) \<noteq> ''readOnly'')
      (sc_attributes (rt_schema group_resource_type) @ common_attributes)) \<and>
      l \<notin> lower ` sc_id ` set (rt_schema group_resource_type # rt_extensions group_resource_type)) [''id'', ''meta'', ''schemas'']"
    by code_simp
  then show "lower k \<in> set [''id'', ''meta'', ''schemas''] \<Longrightarrow> \<not> writable_key group_resource_type k"
    unfolding writable_key_def set_filter [symmetric] list_all_iff by blast
qed

text \<open>
  C38. Whatever operations a PATCH holds, an accepted one leaves the id, the meta, the schemas and,
  for a user, the groups of the resource as they were, in whatever case a path or a key spells them.
\<close>

theorem patch_keeps_read_only:
  assumes "apply_patch rt ops doc = Inr doc'"
    and "rt = user_resource_type \<and> lower k \<in> set [''id'', ''meta'', ''groups'', ''schemas''] \<or>
         rt = group_resource_type \<and> lower k \<in> set [''id'', ''meta'', ''schemas'']"
  shows "dget doc' k = dget doc k"
  using assms apply_patch_keeps user_read_only group_read_only by blast

definition renaming_patch :: "patch_operation list" where
  "renaming_patch =
     [\<lparr>po_op = PatchReplace, po_path = [], po_value = JObj [(''ID'', JStr ''other''), (''userName'', JStr ''b'')], po_has_value = True\<rparr>]"

theorem patch_keeps_read_only_witness:
  "\<exists>doc'. apply_patch user_resource_type renaming_patch [(''id'', JStr ''u1''), (''userName'', JStr ''a'')] = Inr doc' \<and>
     dget doc' ''id'' = Some (JStr ''u1'') \<and> dget doc' ''userName'' = Some (JStr ''b'')"
proof -
  let ?doc = "[(''id'', JStr ''u1''), (''userName'', JStr ''a'')]"
  have p: "apply_patch user_resource_type renaming_patch ?doc = Inr [(''id'', JStr ''u1''), (''userName'', JStr ''b'')]"
    by code_simp
  have "lower ''id'' \<in> set [''id'', ''meta'', ''groups'', ''schemas'']" by code_simp
  from patch_keeps_read_only [OF p disjI1 [OF conjI [OF refl this]]] p show ?thesis by simp
qed

section \<open>Two ways to change the members of a group\<close>

text \<open>
  A PATCH that removes a member and then adds it back keeps it when the group is loaded and the
  operations are applied in order, and drops it when the changes are taken from the operations.
\<close>

definition remove_then_add :: "patch_operation list" where
  "remove_then_add =
     [\<lparr>po_op = PatchRemove, po_path = ''members[value eq '' @ [dquote] @ ''u1'' @ [dquote] @ '']'', po_value = JNull, po_has_value = False\<rparr>,
      \<lparr>po_op = PatchAdd, po_path = ''members'', po_value = JArr [JObj [(''value'', JStr ''u1'')]], po_has_value = True\<rparr>]"

definition one_member_group :: scim_group where
  "one_member_group =
     \<lparr>sg_display_name = ''Staff'', sg_id = ''g1'', sg_external_id = [],
      sg_members = [\<lparr>sm_value = ''u1'', sm_display = [], sm_type = ''User''\<rparr>], sg_attributes = [],
      sg_created = [], sg_last_modified = [], sg_version = ''1''\<rparr>"

lemma member_added_back_is_dropped:
  "map_option (fast_changes (\<lambda>_. [])) (member_changes group_resource_type remove_then_add) = Some (Inr ([''u1''], []))"
  by code_simp

lemma member_added_back_stays:
  "(case apply_patch group_resource_type remove_then_add (group_to_resource (\<lambda>_. []) one_member_group [] True) of
      Inl e \<Rightarrow> None
    | Inr doc \<Rightarrow> map_option (group_changes one_member_group) (case group_from_resource (\<lambda>_. []) doc of Inl e \<Rightarrow> None | Inr g \<Rightarrow> Some g)) =
   Some ([], [])"
  by code_simp

end
