(* ===== verification/ScimServiceProperties.thy ===== *)
theory ScimServiceProperties
  imports ScimDirectory ScimPatchProperties
begin

text \<open>
  What a SCIM token can do to a directory: rules for actions that may raise, what each request
  keeps over hooks with the contract of ScimDirectory, and histories of calls over the directory
  in memory.
\<close>

declare split_paired_All [simp del] split_paired_Ex [simp del]

section \<open>Requests\<close>

datatype scim_request =
    CreateUser json_object
  | ReplaceUser string json_object string
  | PatchUser string json string
  | DeleteUser string string
  | ReadUser string
  | SearchUsers scim_query
  | CreateGroup json_object
  | ReplaceGroup string json_object string
  | PatchGroup string json string
  | DeleteGroup string string
  | ReadGroup string bool
  | SearchGroups scim_query

definition quiet :: "('s, 'a) action \<Rightarrow> ('s, unit) action" where
  "quiet m = and_then m (\<lambda>_. done_with ())"

fun serve :: "'s scim_service \<Rightarrow> string \<Rightarrow> string \<Rightarrow> scim_request \<Rightarrow> ('s, unit) action" where
  "serve sv stamp t (CreateUser body) = quiet (create_user sv stamp t body)"
| "serve sv stamp t (ReplaceUser i body if_match) = quiet (replace_user sv stamp t i body if_match)"
| "serve sv stamp t (PatchUser i body if_match) = quiet (patch_user sv stamp t i body if_match)"
| "serve sv stamp t (DeleteUser i if_match) = delete_user sv t i if_match"
| "serve sv stamp t (ReadUser i) = quiet (find_user sv t i)"
| "serve sv stamp t (SearchUsers q) = quiet (list_users sv t q)"
| "serve sv stamp t (CreateGroup body) = quiet (create_group sv stamp t body)"
| "serve sv stamp t (ReplaceGroup i body if_match) = quiet (replace_group sv stamp t i body if_match)"
| "serve sv stamp t (PatchGroup i body if_match) = patch_group sv stamp t i body if_match"
| "serve sv stamp t (DeleteGroup i if_match) = delete_group sv t i if_match"
| "serve sv stamp t (ReadGroup i include_members) = quiet (find_group sv t i include_members)"
| "serve sv stamp t (SearchGroups q) = quiet (list_groups sv t q)"

text \<open>A request with its \<^verbatim>\<open>Authorization\<close> header: the tenant is the one of the token.\<close>

definition on_directory :: "('s, 'a) action \<Rightarrow> ('k \<times> 's, 'a) action" where
  "on_directory m = (\<lambda>(k, s). case m s of (r, s') \<Rightarrow> (r, (k, s')))"

definition scim_call ::
  "'s scim_service \<Rightarrow> 'k key_ops \<Rightarrow> (string \<Rightarrow> string) \<Rightarrow> datetime \<Rightarrow> string \<Rightarrow> scim_request \<Rightarrow> ('k \<times> 's, unit) action" where
  "scim_call sv K hash_key now authorization req =
     and_then (authenticate sv K hash_key now authorization) (\<lambda>p.
       on_directory (serve sv (now_iso now) (pr_tenant_id p) req))"

section \<open>Rules for actions\<close>

text \<open>From \<open>P\<close>, the action ends in \<open>Q\<close> of its answer, or raises in \<open>E\<close>.\<close>

definition hoare :: "('s \<Rightarrow> bool) \<Rightarrow> ('s, 'a) action \<Rightarrow> ('a \<Rightarrow> 's \<Rightarrow> bool) \<Rightarrow> ('s \<Rightarrow> bool) \<Rightarrow> bool" where
  "hoare P m Q E = (\<forall>s. P s \<longrightarrow> (case m s of (Inl e, s') \<Rightarrow> E s' | (Inr x, s') \<Rightarrow> Q x s'))"

named_theorems hoare_rules

lemma hoareI: "(\<And>s e s'. P s \<Longrightarrow> m s = (Inl e, s') \<Longrightarrow> E s') \<Longrightarrow> (\<And>s x s'. P s \<Longrightarrow> m s = (Inr x, s') \<Longrightarrow> Q x s') \<Longrightarrow> hoare P m Q E"
  by (auto simp: hoare_def split: prod.split sum.split)

lemma hoareD: "hoare P m Q E \<Longrightarrow> P s \<Longrightarrow> m s = (Inl e, s') \<Longrightarrow> E s'"
  "hoare P m Q E \<Longrightarrow> P s \<Longrightarrow> m s = (Inr x, s') \<Longrightarrow> Q x s'"
  unfolding hoare_def by force+

lemma hoare_and_then: "hoare P m R E \<Longrightarrow> (\<And>x. hoare (R x) (f x) Q E) \<Longrightarrow> hoare P (and_then m f) Q E"
  by (intro hoareI) (auto simp: and_then_def split: prod.splits sum.splits dest: hoareD)

lemma hoare_done: "(\<And>s. P s \<Longrightarrow> Q x s) \<Longrightarrow> hoare P (done_with x) Q E"
  by (auto simp: hoare_def done_with_def)

lemma hoare_failing: "(\<And>s. P s \<Longrightarrow> E s) \<Longrightarrow> hoare P (failing e) Q E"
  by (auto simp: hoare_def failing_def)

lemma hoare_weaken: "hoare P m Q E \<Longrightarrow> (\<And>s. P' s \<Longrightarrow> P s) \<Longrightarrow> (\<And>x s. Q x s \<Longrightarrow> Q' x s) \<Longrightarrow> hoare P' m Q' E"
  by (intro hoareI) (blast dest: hoareD)+

lemma hoare_refusing: "(\<And>s. P s \<Longrightarrow> E s) \<Longrightarrow> hoare P (refusing r) (\<lambda>x s. P s \<and> r = Inr x) E"
  by (cases r) (auto simp: refusing_def hoare_def failing_def done_with_def)

lemma hoare_patching: "(\<And>s. P s \<Longrightarrow> E s) \<Longrightarrow> hoare P (patching r) (\<lambda>x s. P s \<and> r = Inr x) E"
  by (auto simp: patching_def hoare_def failing_def done_with_def split: sum.split patch_error.split)

lemma hoare_version: "(\<And>s. P s \<Longrightarrow> E s) \<Longrightarrow> hoare P (version_checked sv r if_match) (\<lambda>_ s. P s) E"
  unfolding version_checked_def by (rule hoare_weaken [OF hoare_refusing [of P]]) simp_all

lemma hoare_if: "(b \<Longrightarrow> hoare P m Q E) \<Longrightarrow> (\<not> b \<Longrightarrow> hoare P m' Q E) \<Longrightarrow> hoare P (if b then m else m') Q E"
  by simp

lemma hoare_quiet: "hoare P m (\<lambda>_. Q) E \<Longrightarrow> hoare P (quiet m) (\<lambda>_. Q) E"
  unfolding quiet_def by (rule hoare_and_then) (auto intro: hoare_done)

section \<open>What every request keeps\<close>

context scim_directory
begin

definition unique_names :: "'s \<Rightarrow> bool" where
  "unique_names s = (\<forall>t i j u v. users s (t, i) = Some u \<and> users s (t, j) = Some v \<and>
     lower (su_user_name u) = lower (su_user_name v) \<longrightarrow> i = j)"

lemma unique_namesD:
  "unique_names s \<Longrightarrow> users s (t, i) = Some u \<Longrightarrow> users s (t, j) = Some v \<Longrightarrow>
     lower (su_user_name u) = lower (su_user_name v) \<Longrightarrow> i = j"
  unfolding unique_names_def by blast

text \<open>
  The directory of other tenants is that of \<open>s0\<close>, no two users of a tenant share a name, and, when
  the side effects cannot raise, a stored user has one deactivation to its name exactly when it is
  inactive. \<open>owed\<close> is the state between the write of a user and its side effect.
\<close>

definition steady :: bool where
  "steady = (\<forall>s t u. ok s \<longrightarrow> \<not> isl (fst (hk_deactivate_user H t u s)) \<and> \<not> isl (fst (hk_reactivate_user H t u s)))"

definition framed :: "string \<Rightarrow> 's \<Rightarrow> 's \<Rightarrow> bool" where
  "framed t s0 s = (ok s \<and> unique_names s \<and> (\<forall>k. fst k \<noteq> t \<longrightarrow> users s k = users s0 k \<and> groups s k = groups s0 k))"

definition settled :: "'s \<Rightarrow> bool" where
  "settled s = (\<forall>k u. users s k = Some u \<longrightarrow> balance s k = (if su_active u then 0 else 1))"

definition kept :: "string \<Rightarrow> 's \<Rightarrow> 's \<Rightarrow> bool" where
  "kept t s0 s = (framed t s0 s \<and> (steady \<longrightarrow> settled s))"

definition owed :: "string \<Rightarrow> 's \<Rightarrow> string \<Rightarrow> int \<Rightarrow> 's \<Rightarrow> bool" where
  "owed t s0 i b s = (framed t s0 s \<and> (steady \<longrightarrow>
     (\<forall>k u. users s k = Some u \<longrightarrow> balance s k = (if k = (t, i) then b else if su_active u then 0 else 1))))"

lemma unique_names_cong: "users s' = users s \<Longrightarrow> unique_names s' = unique_names s"
  by (simp only: unique_names_def)

lemma framed_same: "framed t s0 s \<Longrightarrow> ok s' \<Longrightarrow> users s' = users s \<Longrightarrow> groups s' = groups s \<Longrightarrow> framed t s0 s'"
  unfolding framed_def using unique_names_cong [of s' s] by simp

lemma kept_same:
  "kept t s0 s \<Longrightarrow> ok s' \<Longrightarrow> users s' = users s \<Longrightarrow> groups s' = groups s \<Longrightarrow> balance s' = balance s \<Longrightarrow> kept t s0 s'"
  unfolding kept_def settled_def using framed_same [of t s0 s s'] by simp

lemma kept_ok: "kept t s0 s \<Longrightarrow> ok s"
  by (simp add: kept_def framed_def)

lemma kept_unique: "kept t s0 s \<Longrightarrow> unique_names s"
  by (simp add: kept_def framed_def)

lemma kept_group:
  "kept t s0 s \<Longrightarrow> ok s' \<Longrightarrow> users s' = users s \<Longrightarrow> balance s' = balance s \<Longrightarrow> groups s' = (groups s)((t, i) := v) \<Longrightarrow> kept t s0 s'"
  unfolding kept_def framed_def settled_def using unique_names_cong [of s' s] by auto

lemma framed_user:
  assumes "framed t s0 s" "ok s'" "groups s' = groups s" "users s' = (users s)((t, i) \<mapsto> u)"
    and "\<And>j v. users s (t, j) = Some v \<Longrightarrow> lower (su_user_name v) = lower (su_user_name u) \<Longrightarrow> j = i"
  shows "framed t s0 s'"
proof -
  have "unique_names s'"
    unfolding unique_names_def
  proof (intro allI impI, elim conjE)
    fix t' j k v w
    assume a: "users s' (t', j) = Some v" "users s' (t', k) = Some w" "lower (su_user_name v) = lower (su_user_name w)"
    have old: "users s (t', l) = Some x" if "users s' (t', l) = Some x" "(t', l) \<noteq> (t, i)" for l x
      using that unfolding assms(4) by (simp only: fun_upd_other simp_thms)
    have here: "x = u" if "users s' (t, i) = Some x" for x using that unfolding assms(4) by simp
    consider "(t', j) = (t, i)" "(t', k) = (t, i)" | "(t', j) = (t, i)" "(t', k) \<noteq> (t, i)"
      | "(t', j) \<noteq> (t, i)" "(t', k) = (t, i)" | "(t', j) \<noteq> (t, i)" "(t', k) \<noteq> (t, i)" by blast
    then show "j = k"
    proof cases
      case 1
      then show ?thesis by simp
    next
      case 2
      then show ?thesis using old [OF a(2) 2(2)] here [of v] assms(5) [of k w] a by simp
    next
      case 3
      then show ?thesis using old [OF a(1) 3(1)] here [of w] assms(5) [of j v] a by simp
    next
      case 4
      then show ?thesis
        using old [OF a(1) 4(1)] old [OF a(2) 4(2)] assms(1) a(3) unfolding framed_def unique_names_def by blast
    qed
  qed
  moreover have "users s' k = users s0 k \<and> groups s' k = groups s0 k" if "fst k \<noteq> t" for k
    using that assms(1) unfolding assms(3,4) framed_def by (cases k) auto
  ultimately show ?thesis using assms(2) unfolding framed_def by blast
qed

text \<open>Reads: the answer is a row of the directory as it stands.\<close>

lemma find_user_kept:
  assumes "sv_hooks sv = H"
  shows "hoare (kept t s0) (find_user sv t i) (\<lambda>u s. kept t s0 s \<and> users s (t, i) = Some u \<and> su_id u = i) (kept t s0)"
  unfolding find_user_def assms
proof (rule hoare_and_then)
  show "hoare (kept t s0) (hk_get_user H t i) (\<lambda>found s. kept t s0 s \<and> found = users s (t, i)) (kept t s0)"
    by (rule hoareI) (auto simp: get_user kept_ok)
  show "hoare (\<lambda>s. kept t s0 s \<and> found = users s (t, i))
      (case found of None \<Rightarrow> failing (ServiceRefusal not_found) | Some u \<Rightarrow> done_with u)
      (\<lambda>u s. kept t s0 s \<and> users s (t, i) = Some u \<and> su_id u = i) (kept t s0)" for found
    using user_id by (cases found) (auto intro!: hoare_failing hoare_done dest: kept_ok)
qed

lemma find_group_kept:
  assumes "sv_hooks sv = H"
  shows "hoare (kept t s0) (find_group sv t i inc) (\<lambda>g s. kept t s0 s \<and> groups s (t, i) \<noteq> None \<and> sg_id g = i) (kept t s0)"
  unfolding find_group_def assms
proof (rule hoare_and_then)
  show "hoare (kept t s0) (hk_get_group H t i inc)
      (\<lambda>found s. kept t s0 s \<and> found = map_option (\<lambda>g. if inc then g else g\<lparr>sg_members := []\<rparr>) (groups s (t, i))) (kept t s0)"
    by (rule hoareI; frule kept_ok, drule (1) get_group) (auto intro: kept_same)
  show "hoare (\<lambda>s. kept t s0 s \<and> found = map_option (\<lambda>g. if inc then g else g\<lparr>sg_members := []\<rparr>) (groups s (t, i)))
      (case found of None \<Rightarrow> failing (ServiceRefusal not_found) | Some g \<Rightarrow> done_with g)
      (\<lambda>g s. kept t s0 s \<and> groups s (t, i) \<noteq> None \<and> sg_id g = i) (kept t s0)" for found
  proof (cases found)
    case None
    then show ?thesis by (auto intro!: hoare_failing)
  next
    case (Some a)
    show ?thesis unfolding Some option.case
    proof (rule hoare_done, elim conjE)
      fix s
      assume k: "kept t s0 s" and a: "Some a = map_option (\<lambda>g. if inc then g else g\<lparr>sg_members := []\<rparr>) (groups s (t, i))"
      then obtain g where g: "groups s (t, i) = Some g" "a = (if inc then g else g\<lparr>sg_members := []\<rparr>)"
        by (cases "groups s (t, i)") auto
      show "kept t s0 s \<and> groups s (t, i) \<noteq> None \<and> sg_id a = i"
        using k g group_id [OF kept_ok [OF k] g(1)] by simp
    qed
  qed
qed

text \<open>A name that is free stays the only holder of its lower case form but for its owner.\<close>

definition free_for :: "string \<Rightarrow> string \<Rightarrow> string \<Rightarrow> 's \<Rightarrow> bool" where
  "free_for t name own s = (\<forall>j v. users s (t, j) = Some v \<longrightarrow> lower (su_user_name v) = lower name \<longrightarrow> j = own)"

lemma unique_query:
  assumes "parse_filter (unique_filter_text name) = Inr f"
  shows "query_equality (name_query f) ''userName'' = Some name"
proof -
  have "length (unique_filter_text name) \<le> max_filter_length"
    using assms by (auto simp: parse_filter_def split: if_splits)
  then have "f = \<lparr>sf_text = unique_filter_text name, sf_root = Compare user_name_path OpEq (JStr name)\<rparr>"
    using unique_filter_parses assms by simp
  then show ?thesis by (simp add: name_query_def query_equality_def filter_equality_def)
qed

lemma unique_page_free:
  assumes k: "kept t s0 s" and f: "parse_filter (unique_filter_text name) = Inr f"
    and page: "hk_list_users H t (name_query f) s = (Inr page, s')"
    and free: "ensure_unique (\<lambda>q. pg_resources page) name own = Inr x"
  shows "free_for t name own s"
  unfolding free_for_def
proof (intro allI impI)
  fix j v
  assume v: "users s (t, j) = Some v" "lower (su_user_name v) = lower name"
  let ?us = "pg_resources page"
  have start: "sq_start_index (name_query f) = 1" "sq_count (name_query f) = 2" by (simp_all add: name_query_def)
  note law = named_users [OF kept_ok [OF k] unique_query [OF f] start(1) page, unfolded start(2)]
  have one: "u = w" if "u \<in> set ?us" "w \<in> set ?us" for u w
  proof -
    have u: "users s (t, su_id u) = Some u" "lower (su_user_name u) = lower name" using law that(1) by blast+
    have w: "users s (t, su_id w) = Some w" "lower (su_user_name w) = lower name" using law that(2) by blast+
    have "unique_names s" using k by (rule kept_unique)
    from unique_namesD [OF this u(1) w(1) trans [OF u(2) w(2) [symmetric]]] have "users s (t, su_id u) = users s (t, su_id w)" by (rule arg_cong)
    then show ?thesis unfolding u(1) w(1) by (rule option.inject [THEN iffD1])
  qed
  have "length ?us < 2"
  proof (rule ccontr)
    assume "\<not> length ?us < 2"
    then have "Suc (Suc 0) \<le> length ?us" by simp
    then obtain a b us where us: "?us = a # b # us" unfolding Suc_le_length_iff by blast
    have "a = b" by (rule one) (simp_all add: us)
    then show False using conjunct1 [OF law] us by simp
  qed
  then have "int (length ?us) < 2" by simp
  then have "v \<in> set ?us" using law v by blast
  moreover have "find (\<lambda>u. su_id u \<noteq> own \<and> lower (su_user_name u) = lower name) ?us = None"
    using free f by (simp add: ensure_unique_def split: option.splits)
  ultimately have "su_id v = own" using v(2) by (auto simp: find_None_iff)
  then show "j = own" using user_id [OF kept_ok [OF k] v(1)] by simp
qed

lemma name_free_kept:
  assumes "sv_hooks sv = H"
  shows "hoare (\<lambda>s. kept t s0 s \<and> P (users s)) (name_free sv t name own)
    (\<lambda>_ s. kept t s0 s \<and> P (users s) \<and> free_for t name own s) (kept t s0)"
proof (cases "parse_filter (unique_filter_text name)")
  case (Inl e)
  then show ?thesis by (cases e) (auto simp: name_free_def intro!: hoare_failing)
next
  case (Inr f)
  let ?q = "name_query f"
  have same: "kept t s0 s \<Longrightarrow> hk_list_users H t ?q s = (r, s') \<Longrightarrow> kept t s0 s' \<and> users s' = users s" for s r s'
    by (frule kept_ok, drule (1) list_users_same) (auto intro: kept_same)
  show ?thesis unfolding name_free_def assms Inr sum.case
  proof (rule hoare_and_then)
    show "hoare (\<lambda>s. kept t s0 s \<and> P (users s)) (hk_list_users H t ?q)
        (\<lambda>page s. kept t s0 s \<and> P (users s) \<and>
           (\<forall>x. ensure_unique (\<lambda>q. pg_resources page) name own = Inr x \<longrightarrow> free_for t name own s)) (kept t s0)"
    proof (rule hoareI)
      show "kept t s0 s'" if "kept t s0 s \<and> P (users s)" "hk_list_users H t ?q s = (Inl e, s')" for s e s'
        using that same by blast
      show "kept t s0 s' \<and> P (users s') \<and>
           (\<forall>x. ensure_unique (\<lambda>q. pg_resources page) name own = Inr x \<longrightarrow> free_for t name own s')"
        if "kept t s0 s \<and> P (users s)" "hk_list_users H t ?q s = (Inr page, s')" for s page s'
        using that same [of s "Inr page" s'] unique_page_free [of t s0 s name f page s'] Inr by (simp add: free_for_def)
    qed
    show "hoare (\<lambda>s. kept t s0 s \<and> P (users s) \<and>
           (\<forall>x. ensure_unique (\<lambda>q. pg_resources page) name own = Inr x \<longrightarrow> free_for t name own s))
        (case ensure_unique (\<lambda>q. pg_resources page) name own of
           Inl e \<Rightarrow> failing (ServiceRefusal uniqueness) | Inr x \<Rightarrow> done_with x)
        (\<lambda>_ s. kept t s0 s \<and> P (users s) \<and> free_for t name own s) (kept t s0)" for page
      by (cases "ensure_unique (\<lambda>q. pg_resources page) name own") (auto intro!: hoare_failing hoare_done)
  qed
qed

section \<open>Writes\<close>

lemma framed_ok: "framed t s0 s \<Longrightarrow> ok s"
  by (simp add: framed_def)

lemma owed_settled:
  assumes o: "owed t s0 (su_id u) b s" and u: "users s (t, su_id u) = Some u" "b = (if su_active u then 0 else 1)"
  shows "kept t s0 s"
proof -
  have "settled s" if steady
  proof -
    have o': "balance s k = (if k = (t, su_id u) then b else if su_active v then 0 else 1)" if "users s k = Some v" for k v
      using o \<open>steady\<close> that unfolding owed_def by blast
    show ?thesis unfolding settled_def
    proof (intro allI impI)
      fix k v
      assume v: "users s k = Some v"
      show "balance s k = (if su_active v then 0 else 1)"
        using o' [OF v] v u by (cases "k = (t, su_id u)") simp_all
    qed
  qed
  then show ?thesis using o unfolding kept_def owed_def by blast
qed

lemma owed_paid:
  assumes o: "owed t s0 i b s" and s': "ok s'" "users s' = users s" "groups s' = groups s"
    and b: "balance s' = (balance s)((t, i) := balance s (t, i) + d)"
  shows "owed t s0 i (b + d) s'"
proof -
  have "framed t s0 s'" using o s' framed_same unfolding owed_def by blast
  moreover have "balance s' k = (if k = (t, i) then b + d else if su_active v then 0 else 1)"
    if "steady" "users s' k = Some v" for k v
  proof -
    have "balance s k = (if k = (t, i) then b else if su_active v then 0 else 1)"
      using o that unfolding owed_def s'(2) by blast
    then show ?thesis unfolding b by (cases "k = (t, i)") simp_all
  qed
  ultimately show ?thesis unfolding owed_def by blast
qed

text \<open>The side effect a change of \<^verbatim>\<open>active\<close> owes, or none.\<close>

lemma side_effects_kept:
  assumes "b = (if was then 0 else 1)"
  shows "hoare (\<lambda>s. owed t s0 (su_id u) b s \<and> users s (t, su_id u) = Some u)
    (if was \<and> \<not> su_active u then and_then (hk_deactivate_user H t u) (\<lambda>_. done_with u)
     else if \<not> was \<and> su_active u then and_then (hk_reactivate_user H t u) (\<lambda>_. done_with u)
     else done_with u) (\<lambda>_. kept t s0) (kept t s0)"
proof -
  let ?P = "\<lambda>s. owed t s0 (su_id u) b s \<and> users s (t, su_id u) = Some u"
  have steady: "kept t s0 s'" if "\<not> steady" "owed t s0 i c s'" for s' i c
    using that by (simp add: kept_def owed_def)
  have framed: "owed t s0 i c s'" if "\<not> steady" "owed t s0 i b s" "ok s'" "users s' = users s" "groups s' = groups s" for s s' i c
    using that framed_same [of t s0 s s'] by (simp add: owed_def)
  have d: "hoare ?P (hk_deactivate_user H t u) (\<lambda>_. kept t s0) (kept t s0)" if a: "was" "\<not> su_active u"
  proof (rule hoareI; elim conjE)
    fix s e s'
    assume o: "owed t s0 (su_id u) b s" and u: "users s (t, su_id u) = Some u" and c: "hk_deactivate_user H t u s = (Inl e, s')"
    have ok: "ok s" using o by (simp add: owed_def framed_def)
    have "\<not> steady" using c ok unfolding steady_def by (metis fst_conv sum.disc(1))
    moreover have "ok s' \<and> users s' = users s \<and> groups s' = groups s" using deactivate_user [OF ok _ c] u by simp
    ultimately show "kept t s0 s'" using o steady framed by blast
  next
    fix s x s'
    assume o: "owed t s0 (su_id u) b s" and u: "users s (t, su_id u) = Some u" and c: "hk_deactivate_user H t u s = (Inr x, s')"
    have ok: "ok s" using o by (simp add: owed_def framed_def)
    have l: "ok s'" "users s' = users s" "groups s' = groups s" "balance s' = (balance s)((t, su_id u) := balance s (t, su_id u) + 1)"
      using deactivate_user [OF ok _ c] u by simp_all
    show "kept t s0 s'" using owed_settled [OF owed_paid [OF o l]] u assms a l(2) by simp
  qed
  have r: "hoare ?P (hk_reactivate_user H t u) (\<lambda>_. kept t s0) (kept t s0)" if a: "\<not> was" "su_active u"
  proof (rule hoareI; elim conjE)
    fix s e s'
    assume o: "owed t s0 (su_id u) b s" and u: "users s (t, su_id u) = Some u" and c: "hk_reactivate_user H t u s = (Inl e, s')"
    have ok: "ok s" using o by (simp add: owed_def framed_def)
    have "\<not> steady" using c ok unfolding steady_def by (metis fst_conv sum.disc(1))
    moreover have "ok s' \<and> users s' = users s \<and> groups s' = groups s" using reactivate_user [OF ok _ c] u by simp
    ultimately show "kept t s0 s'" using o steady framed by blast
  next
    fix s x s'
    assume o: "owed t s0 (su_id u) b s" and u: "users s (t, su_id u) = Some u" and c: "hk_reactivate_user H t u s = (Inr x, s')"
    have ok: "ok s" using o by (simp add: owed_def framed_def)
    have l: "ok s'" "users s' = users s" "groups s' = groups s" "balance s' = (balance s)((t, su_id u) := balance s (t, su_id u) + - 1)"
      using reactivate_user [OF ok _ c] u by simp_all
    show "kept t s0 s'" using owed_settled [OF owed_paid [OF o l]] u assms a l(2) by simp
  qed
  show ?thesis
    by (intro hoare_if hoare_and_then [OF d] hoare_and_then [OF r] hoare_done)
      (simp_all, (elim conjE, erule (1) owed_settled, use assms in force)+)
qed

lemma create_user_kept:
  assumes "sv_hooks sv = H"
  shows "hoare (kept t s0) (create_user sv stamp t body) (\<lambda>_. kept t s0) (kept t s0)"
  unfolding create_user_def assms
proof (intro hoare_and_then)
  show "hoare (kept t s0) (refusing (user_from_resource (sv_str sv) body)) (\<lambda>_. kept t s0) (kept t s0)"
    by (rule hoare_weaken [OF hoare_refusing [of "kept t s0"]]) auto
  show "hoare (kept t s0) (name_free sv t (su_user_name parsed) []) (\<lambda>_ s. kept t s0 s \<and> free_for t (su_user_name parsed) [] s) (kept t s0)"
    for parsed
    by (rule hoare_weaken [OF name_free_kept [OF assms, where P = "\<lambda>_. True"]]) auto
  show "hoare (\<lambda>s. kept t s0 s \<and> free_for t (su_user_name parsed) [] s)
      (hk_create_user H t (parsed\<lparr>su_created := stamp, su_last_modified := stamp\<rparr>))
      (\<lambda>created s. owed t s0 (su_id created) 0 s \<and> users s (t, su_id created) = Some created) (kept t s0)" for parsed
  proof (rule hoareI; elim conjE)
    fix s e s'
    assume k: "kept t s0 s" and c: "hk_create_user H t (parsed\<lparr>su_created := stamp, su_last_modified := stamp\<rparr>) s = (Inl e, s')"
    show "kept t s0 s'" using create_user [OF kept_ok [OF k] c] by (auto intro: kept_same [OF k])
  next
    fix s u' s'
    assume k: "kept t s0 s" and f: "free_for t (su_user_name parsed) [] s"
      and c: "hk_create_user H t (parsed\<lparr>su_created := stamp, su_last_modified := stamp\<rparr>) s = (Inr u', s')"
    obtain i where i: "u' = parsed\<lparr>su_created := stamp, su_last_modified := stamp, su_id := i\<rparr>"
      "users s' = (users s)((t, i) \<mapsto> u')" "ok s'" "groups s' = groups s" "balance s' = (balance s)((t, i) := 0)"
      using create_user [OF kept_ok [OF k] c] by auto
    have framed: "framed t s0 s'"
    proof (rule framed_user [OF _ i(3,4,2)])
      show "framed t s0 s" using k by (simp add: kept_def)
      show "j = i" if "users s (t, j) = Some v" "lower (su_user_name v) = lower (su_user_name u')" for j v
        using that f user_id [OF kept_ok [OF k] that(1)] by (auto simp: free_for_def i(1))
    qed
    have "owed t s0 i 0 s'"
      using framed k unfolding owed_def kept_def settled_def i(2,5) by auto
    then show "owed t s0 (su_id u') 0 s' \<and> users s' (t, su_id u') = Some u'" unfolding i(2) by (simp add: i(1))
  qed
  show "hoare (\<lambda>s. owed t s0 (su_id created) 0 s \<and> users s (t, su_id created) = Some created)
      (if su_active created then done_with created
       else and_then (hk_deactivate_user H t created) (\<lambda>_. done_with created)) (\<lambda>_. kept t s0) (kept t s0)" for created
    using side_effects_kept [of 0 True t s0 created] by (cases "su_active created") simp_all
qed

lemma store_user_kept:
  assumes "sv_hooks sv = H"
  shows "hoare (\<lambda>s. kept t s0 s \<and> users s (t, su_id before) = Some before) (store_user sv stamp t before after)
    (\<lambda>_. kept t s0) (kept t s0)"
  unfolding store_user_def assms
proof (intro hoare_and_then)
  let ?merged = "after\<lparr>su_id := su_id before, su_groups := su_groups before, su_created := su_created before,
    su_last_modified := stamp, su_version := []\<rparr>"
  let ?ready = "\<lambda>s. kept t s0 s \<and> users s (t, su_id before) = Some before \<and> free_for t (su_user_name after) (su_id before) s"
  show "hoare (\<lambda>s. kept t s0 s \<and> users s (t, su_id before) = Some before)
      (if lower (su_user_name after) \<noteq> lower (su_user_name before)
       then name_free sv t (su_user_name after) (su_id before) else done_with ()) (\<lambda>_. ?ready) (kept t s0)"
  proof (rule hoare_if)
    show "hoare (\<lambda>s. kept t s0 s \<and> users s (t, su_id before) = Some before)
        (name_free sv t (su_user_name after) (su_id before)) (\<lambda>_. ?ready) (kept t s0)"
      using name_free_kept [OF assms, where P = "\<lambda>us. us (t, su_id before) = Some before"] .
    assume same: "\<not> lower (su_user_name after) \<noteq> lower (su_user_name before)"
    show "hoare (\<lambda>s. kept t s0 s \<and> users s (t, su_id before) = Some before) (done_with ()) (\<lambda>_. ?ready) (kept t s0)"
    proof (rule hoare_done, elim conjE, intro conjI)
      fix s
      assume k: "kept t s0 s" and b: "users s (t, su_id before) = Some before"
      show "free_for t (su_user_name after) (su_id before) s"
        unfolding free_for_def
      proof (intro allI impI)
        fix j v
        assume "users s (t, j) = Some v" "lower (su_user_name v) = lower (su_user_name after)"
        then show "j = su_id before" using unique_namesD [OF kept_unique [OF k], of t j v "su_id before" before] b same by simp
      qed
    qed
  qed
  let ?b = "if su_active before then 0 else 1 :: int"
  show "hoare ?ready (hk_update_user H t ?merged)
      (\<lambda>stored s. owed t s0 (su_id stored) ?b s \<and> users s (t, su_id stored) = Some stored) (kept t s0)"
  proof (rule hoareI; elim conjE)
    fix s e s'
    assume k: "kept t s0 s" and b: "users s (t, su_id before) = Some before" and c: "hk_update_user H t ?merged s = (Inl e, s')"
    have "users s (t, su_id ?merged) \<noteq> None" using b by simp
    from update_user [OF kept_ok [OF k] this c] show "kept t s0 s'" by (auto intro: kept_same [OF k])
  next
    fix s u' s'
    assume k: "kept t s0 s" and b: "users s (t, su_id before) = Some before"
      and f: "free_for t (su_user_name after) (su_id before) s" and c: "hk_update_user H t ?merged s = (Inr u', s')"
    have "users s (t, su_id ?merged) \<noteq> None" using b by simp
    from update_user [OF kept_ok [OF k] this c]
    have u: "u' = ?merged" "ok s'" "groups s' = groups s" "users s' = (users s)((t, su_id before) \<mapsto> ?merged)"
      "balance s' = balance s" by auto
    have framed: "framed t s0 s'"
    proof (rule framed_user [OF _ u(2-4)])
      show "framed t s0 s" using k by (simp add: kept_def)
    qed (use f in \<open>simp add: free_for_def\<close>)
    have "owed t s0 (su_id before) ?b s'"
      using framed k b unfolding owed_def kept_def settled_def u(4,5) by auto
    then show "owed t s0 (su_id u') ?b s' \<and> users s' (t, su_id u') = Some u'" unfolding u(1,4) by simp
  qed
  show "hoare (\<lambda>s. owed t s0 (su_id stored) ?b s \<and> users s (t, su_id stored) = Some stored)
      (if su_active before \<and> \<not> su_active stored
       then and_then (hk_deactivate_user H t stored) (\<lambda>_. done_with stored)
       else if \<not> su_active before \<and> su_active stored
       then and_then (hk_reactivate_user H t stored) (\<lambda>_. done_with stored)
       else done_with stored) (\<lambda>_. kept t s0) (kept t s0)" for stored
    by (rule side_effects_kept) simp
qed

lemma found_user_kept:
  assumes "sv_hooks sv = H" and "\<And>u. su_id u = i \<Longrightarrow> hoare (\<lambda>s. kept t s0 s \<and> users s (t, su_id u) = Some u) (f u) (\<lambda>_. kept t s0) (kept t s0)"
  shows "hoare (kept t s0) (and_then (find_user sv t i) f) (\<lambda>_. kept t s0) (kept t s0)"
proof (rule hoare_and_then [OF find_user_kept [OF assms(1)]])
  show "hoare (\<lambda>s. kept t s0 s \<and> users s (t, i) = Some u \<and> su_id u = i) (f u) (\<lambda>_. kept t s0) (kept t s0)" for u
    using assms(2) [of u] by (cases "su_id u = i") (auto simp: hoare_def)
qed

lemma check_kept:
  assumes "\<And>s. P s \<Longrightarrow> kept t s0 s" and "\<And>x. hoare P (f x) (\<lambda>_. kept t s0) (kept t s0)"
  shows "hoare P (and_then (refusing r) f) (\<lambda>_. kept t s0) (kept t s0)"
    and "hoare P (and_then (patching r') f) (\<lambda>_. kept t s0) (kept t s0)"
  by (rule hoare_and_then [where R = "\<lambda>_. P", OF hoare_weaken [OF hoare_refusing [of P]]]; use assms in simp)
    (rule hoare_and_then [where R = "\<lambda>_. P", OF hoare_weaken [OF hoare_patching [of P]]]; use assms in simp)

lemma version_kept:
  assumes "\<And>s. P s \<Longrightarrow> kept t s0 s" and "\<And>x. hoare P (f x) (\<lambda>_. kept t s0) (kept t s0)"
  shows "hoare P (and_then (version_checked sv doc if_match) f) (\<lambda>_. kept t s0) (kept t s0)"
  by (rule hoare_and_then [OF hoare_version assms(2)]) (rule assms(1))

lemma user_writes_kept:
  assumes "sv_hooks sv = H"
  shows "hoare (kept t s0) (replace_user sv stamp t i body if_match) (\<lambda>_. kept t s0) (kept t s0)"
    and "hoare (kept t s0) (patch_user sv stamp t i patch if_match) (\<lambda>_. kept t s0) (kept t s0)"
  unfolding replace_user_def patch_user_def
  by (intro found_user_kept check_kept version_kept store_user_kept assms; blast)+

lemma delete_user_kept:
  assumes "sv_hooks sv = H"
  shows "hoare (kept t s0) (delete_user sv t i if_match) (\<lambda>_. kept t s0) (kept t s0)"
  unfolding delete_user_def assms
proof (intro hoare_and_then)
  show "hoare (kept t s0) (if if_match \<noteq> [] then and_then (find_user sv t i) (\<lambda>u. version_checked sv (render_user sv u) if_match)
      else done_with ()) (\<lambda>_. kept t s0) (kept t s0)"
    by (intro hoare_if found_user_kept assms hoare_weaken [OF hoare_version] hoare_done) auto
  show "hoare (kept t s0) (hk_delete_user H t i) (\<lambda>_. kept t s0) (kept t s0)"
  proof -
    have "kept t s0 s'" if k: "kept t s0 s" and d: "hk_delete_user H t i s = (r, s')" for s r s'
    proof -
      have d: "ok s'" "\<forall>k. fst k \<noteq> t \<longrightarrow> groups s' k = groups s k"
        "users s' = users s \<and> balance s' = balance s \<or>
         users s' = (users s)((t, i) := None) \<and> (\<forall>k. k \<noteq> (t, i) \<longrightarrow> balance s' k = balance s k)"
        using delete_user [OF kept_ok [OF k] d] by (cases r; simp only: sum.case; blast)+
      have balance: "balance s' k = balance s k" if "users s' k \<noteq> None" for k
        using d(3) that by (metis fun_upd_same)
      have old: "users s k = Some v" if "users s' k = Some v" for k v using d(3) that by (auto split: if_splits)
      have "unique_names s'" using kept_unique [OF k] old unfolding unique_names_def by blast
      moreover have "steady \<longrightarrow> settled s'" using k old balance unfolding kept_def settled_def by (metis option.discI)
      moreover have "users s' k = users s0 k \<and> groups s' k = groups s0 k" if "fst k \<noteq> t" for k
        using d(2,3) that k unfolding kept_def framed_def by auto
      ultimately show ?thesis using d(1) unfolding kept_def framed_def by blast
    qed
    then show ?thesis by (intro hoareI)
  qed
  show "hoare (kept t s0) (if existed then done_with () else failing (ServiceRefusal not_found)) (\<lambda>_. kept t s0) (kept t s0)" for existed
    by (intro hoare_if hoare_done hoare_failing)
qed

section \<open>Groups\<close>

text \<open>A state in which the tenant has the group, as every write of a group finds it.\<close>

definition has_group :: "string \<Rightarrow> 's \<Rightarrow> string \<Rightarrow> 's \<Rightarrow> bool" where
  "has_group t s0 i s = (kept t s0 s \<and> groups s (t, i) \<noteq> None)"

lemma has_groupD: "has_group t s0 i s \<Longrightarrow> kept t s0 s"
  by (simp add: has_group_def)

lemma member_write_kept:
  assumes h: "has_group t s0 i s" and r: "ok s'" "users s' = users s" "balance s' = balance s"
    and g: "groups s' = groups s \<or> (\<exists>g. groups s' = (groups s)((t, i) \<mapsto> g))"
  shows "has_group t s0 i s'"
  using assms kept_same [of t s0 s s'] kept_group [of t s0 s s' i] by (auto simp: has_group_def)

lemma members_kept:
  "hoare (has_group t s0 i) (hk_remove_group_members H t i ids) (\<lambda>_. has_group t s0 i) (kept t s0)"
  "hoare (has_group t s0 i) (hk_add_group_members H t i ms) (\<lambda>_. has_group t s0 i) (kept t s0)"
proof -
  have rem: "has_group t s0 i s'" if h: "has_group t s0 i s" and c: "hk_remove_group_members H t i ids s = (r, s')" for s r s'
  proof -
    obtain g where "groups s (t, i) = Some g" using h by (auto simp: has_group_def)
    from remove_members [OF kept_ok [OF has_groupD [OF h]] this c] show ?thesis
      by (intro member_write_kept [OF h]) (auto split: sum.splits)
  qed
  have add: "has_group t s0 i s'" if h: "has_group t s0 i s" and c: "hk_add_group_members H t i ms s = (r, s')" for s r s'
  proof -
    obtain g where "groups s (t, i) = Some g" using h by (auto simp: has_group_def)
    from add_members [OF kept_ok [OF has_groupD [OF h]] this c] show ?thesis
      by (intro member_write_kept [OF h]) (auto split: sum.splits)
  qed
  show "hoare (has_group t s0 i) (hk_remove_group_members H t i ids) (\<lambda>_. has_group t s0 i) (kept t s0)"
    "hoare (has_group t s0 i) (hk_add_group_members H t i ms) (\<lambda>_. has_group t s0 i) (kept t s0)"
    using rem add has_groupD by (blast intro: hoareI)+
qed

lemma change_members_kept:
  assumes "sv_hooks sv = H"
  shows "hoare (has_group t s0 i) (change_members sv t i added removed) (\<lambda>_. kept t s0) (kept t s0)"
  unfolding change_members_def assms
  by (intro hoare_and_then [where R = "\<lambda>_. has_group t s0 i"] hoare_if hoare_done members_kept
      hoare_weaken [OF members_kept(2)]) (auto dest: has_groupD)

lemma store_group_kept:
  assumes "sv_hooks sv = H"
  shows "hoare (has_group t s0 (sg_id before)) (store_group sv stamp t before after) (\<lambda>_. kept t s0) (kept t s0)"
  unfolding store_group_def assms
proof (rule hoare_and_then)
  let ?g = "after\<lparr>sg_id := sg_id before, sg_members := [], sg_created := sg_created before,
    sg_last_modified := stamp, sg_version := []\<rparr>"
  have "has_group t s0 (sg_id before) s'"
    if h: "has_group t s0 (sg_id before) s" and c: "hk_update_group H t ?g s = (r, s')" for s r s'
  proof -
    obtain g where "groups s (t, sg_id ?g) = Some g" using h by (auto simp: has_group_def)
    from update_group [OF kept_ok [OF has_groupD [OF h]] this _ c] show ?thesis
      by (intro member_write_kept [OF h]) (auto split: sum.splits)
  qed
  then have update: "hoare (has_group t s0 (sg_id before)) (hk_update_group H t ?g) (\<lambda>_. has_group t s0 (sg_id before)) (kept t s0)"
    by (blast intro: hoareI has_groupD)
  show "hoare (has_group t s0 (sg_id before)) (if same_attributes after before then done_with before else hk_update_group H t ?g)
      (\<lambda>_. has_group t s0 (sg_id before)) (kept t s0)"
    by (intro hoare_if hoare_done update)
  show "hoare (has_group t s0 (sg_id before))
      (let (removed, added) = group_changes before after in
       and_then (change_members sv t (sg_id before) added removed) (\<lambda>_. done_with (stored\<lparr>sg_members := sg_members after\<rparr>)))
      (\<lambda>_. kept t s0) (kept t s0)" for stored
    unfolding Let_def by (cases "group_changes before after")
      (auto intro!: hoare_and_then [OF change_members_kept [OF assms]] hoare_done)
qed

lemma found_group_kept:
  assumes "sv_hooks sv = H" and "\<And>g. sg_id g = i \<Longrightarrow> hoare (has_group t s0 (sg_id g)) (f g) (\<lambda>_. kept t s0) (kept t s0)"
  shows "hoare (kept t s0) (and_then (find_group sv t i inc) f) (\<lambda>_. kept t s0) (kept t s0)"
proof (rule hoare_and_then [OF find_group_kept [OF assms(1)]])
  show "hoare (\<lambda>s. kept t s0 s \<and> groups s (t, i) \<noteq> None \<and> sg_id g = i) (f g) (\<lambda>_. kept t s0) (kept t s0)" for g
    using assms(2) [of g] by (cases "sg_id g = i") (auto simp: hoare_def has_group_def)
qed

lemma create_group_kept:
  assumes "sv_hooks sv = H"
  shows "hoare (kept t s0) (create_group sv stamp t body) (\<lambda>_. kept t s0) (kept t s0)"
  unfolding create_group_def assms
proof (intro check_kept(1) hoare_and_then)
  show "hoare (kept t s0) (hk_create_group H t (parsed\<lparr>sg_members := [], sg_created := stamp, sg_last_modified := stamp\<rparr>))
      (\<lambda>created. has_group t s0 (sg_id created)) (kept t s0)" for parsed
  proof (rule hoareI)
    let ?g = "parsed\<lparr>sg_members := [], sg_created := stamp, sg_last_modified := stamp\<rparr>"
    have empty: "sg_members ?g = []" by simp
    show "kept t s0 s'" if k: "kept t s0 s" and c: "hk_create_group H t ?g s = (Inl e, s')" for s e s'
      using create_group [OF kept_ok [OF k] empty c] by (auto intro: kept_same [OF k])
    show "has_group t s0 (sg_id g') s'" if k: "kept t s0 s" and c: "hk_create_group H t ?g s = (Inr g', s')" for s g' s'
    proof -
      obtain j where "g' = ?g\<lparr>sg_id := j\<rparr>" "groups s' = (groups s)((t, j) \<mapsto> g')" "ok s'" "users s' = users s"
        "balance s' = balance s"
        using create_group [OF kept_ok [OF k] empty c] by auto
      then show ?thesis using kept_group [OF k, of s' j] by (simp add: has_group_def)
    qed
  qed
  show "hoare (has_group t s0 (sg_id created))
      (if sg_members parsed = [] then done_with created
       else and_then (hk_add_group_members H t (sg_id created) (sg_members parsed))
              (\<lambda>_. done_with (created\<lparr>sg_members := sg_members parsed\<rparr>))) (\<lambda>_. kept t s0) (kept t s0)" for parsed created
    by (intro hoare_if hoare_done hoare_and_then [OF members_kept(2)]) (auto dest: has_groupD)
qed simp

lemma group_writes_kept:
  assumes "sv_hooks sv = H"
  shows "hoare (kept t s0) (replace_group sv stamp t i body if_match) (\<lambda>_. kept t s0) (kept t s0)"
    and "hoare (kept t s0) (patch_group sv stamp t i patch if_match) (\<lambda>_. kept t s0) (kept t s0)"
proof -
  show "hoare (kept t s0) (replace_group sv stamp t i body if_match) (\<lambda>_. kept t s0) (kept t s0)"
    unfolding replace_group_def
    by (intro found_group_kept check_kept version_kept store_group_kept assms; blast dest: has_groupD)
  have fast: "hoare (kept t s0)
      (and_then (find_group sv t i False) (\<lambda>_. and_then (refusing (fast_changes (sv_str sv) changes)) (\<lambda>(removed, added).
         change_members sv t i added removed))) (\<lambda>_. kept t s0) (kept t s0)" for changes
    by (intro found_group_kept check_kept assms)
      (auto simp: split_beta dest: has_groupD intro: change_members_kept [OF assms])
  have slow: "hoare (kept t s0)
      (and_then (find_group sv t i True) (\<lambda>before.
       and_then (version_checked sv (render_group sv before True) if_match) (\<lambda>_.
       and_then (patching (apply_patch group_resource_type operations (render_group sv before True))) (\<lambda>patched.
       and_then (refusing (group_from_resource (sv_str sv) patched)) (\<lambda>after.
       and_then (store_group sv stamp t before after) (\<lambda>_. done_with ())))))) (\<lambda>_. kept t s0) (kept t s0)" for operations
    by (intro found_group_kept check_kept version_kept assms hoare_and_then [OF store_group_kept [OF assms]] hoare_done)
      (auto dest: has_groupD)
  show "hoare (kept t s0) (patch_group sv stamp t i patch if_match) (\<lambda>_. kept t s0) (kept t s0)"
    unfolding patch_group_def
    by (rule check_kept(1)) (simp, split option.split, intro conjI allI impI fast slow)
qed

lemma delete_group_kept:
  assumes "sv_hooks sv = H"
  shows "hoare (kept t s0) (delete_group sv t i if_match) (\<lambda>_. kept t s0) (kept t s0)"
  unfolding delete_group_def assms
proof (intro hoare_and_then)
  show "hoare (kept t s0) (if if_match \<noteq> [] then and_then (find_group sv t i True) (\<lambda>g. version_checked sv (render_group sv g True) if_match)
      else done_with ()) (\<lambda>_. kept t s0) (kept t s0)"
    by (intro hoare_if found_group_kept assms hoare_weaken [OF hoare_version] hoare_done) (auto dest: has_groupD)
  have "kept t s0 s'" if k: "kept t s0 s" and d: "hk_delete_group H t i s = (r, s')" for s r s'
    using delete_group [OF kept_ok [OF k] d] kept_same [OF k, of s'] kept_group [OF k, of s' i] by (auto split: sum.splits)
  then show "hoare (kept t s0) (hk_delete_group H t i) (\<lambda>_. kept t s0) (kept t s0)" by (intro hoareI)
  show "hoare (kept t s0) (if existed then done_with () else failing (ServiceRefusal not_found)) (\<lambda>_. kept t s0) (kept t s0)" for existed
    by (intro hoare_if hoare_done hoare_failing)
qed

lemma searches_kept:
  assumes "sv_hooks sv = H"
  shows "hoare (kept t s0) (list_users sv t q) (\<lambda>_. kept t s0) (kept t s0)"
    and "hoare (kept t s0) (list_groups sv t q) (\<lambda>_. kept t s0) (kept t s0)"
  unfolding list_users_def list_groups_def assms
  by (rule hoareI; frule kept_ok, drule (1) list_users_same list_groups_same; blast intro: kept_same)+

lemma serve_kept:
  assumes "sv_hooks sv = H"
  shows "hoare (kept t s0) (serve sv stamp t req) (\<lambda>_. kept t s0) (kept t s0)"
  by (cases req)
    (simp_all add: hoare_quiet assms create_user_kept user_writes_kept delete_user_kept searches_kept create_group_kept
      group_writes_kept delete_group_kept hoare_weaken [OF find_user_kept] hoare_weaken [OF find_group_kept])

end

text \<open>A directory that keeps its own invariants, where \<open>kept\<close> starts.\<close>

context steady_directory
begin

definition good :: "'s \<Rightarrow> bool" where
  "good s = (ok s \<and> unique_names s \<and> settled s)"

lemma hooks_steady: "steady"
  unfolding steady_def using deactivates reactivates by blast

lemma good_kept: "good s \<Longrightarrow> kept t s s"
  by (simp add: good_def kept_def framed_def)

lemma kept_good: "kept t s0 s \<Longrightarrow> good s"
  using hooks_steady by (simp add: good_def kept_def framed_def)

lemma serve_good:
  assumes "sv_hooks sv = H" "good s" "serve sv stamp t req s = (r, s')"
  shows "kept t s s'"
  using hoareD [OF serve_kept [OF assms(1)] good_kept [OF assms(2)]] assms(3) by (cases r) blast+

lemma authenticate_same:
  assumes sv: "sv_hooks sv = H" and s: "good s" and a: "authenticate sv K hash_key now authorization (k, s) = (r, (k', s'))"
  shows "good s' \<and> users s' = users s \<and> groups s' = groups s \<and>
    (\<forall>p. r = Inr p \<longrightarrow> (\<exists>row. fst (verify_key K hash_key now True k (strip (snd (partition_at (CHR '' '') (strip authorization))))) = Inr (Some row) \<and>
       scim_scope \<in> set (ak_scopes row) \<and> pr_tenant_id p = ak_tenant_id row))"
proof -
  have same: "good s'' \<and> users s'' = users s \<and> groups s'' = groups s" if "hk_scim_enabled H t s = (e, s'')" for t e s''
  proof -
    have "ok s" using s by (simp add: good_def)
    from enabled_same [OF this that] have e: "ok s''" "users s'' = users s" "groups s'' = groups s" "balance s'' = balance s"
      by blast+
    then show ?thesis using s unique_names_cong [OF e(2)] by (simp add: good_def settled_def)
  qed
  show ?thesis
    using a s unfolding authenticate_def Let_def sv
    by (auto split: prod.splits if_splits sum.splits option.splits dest: same)
qed

lemma call_effect:
  assumes sv: "sv_hooks sv = H" and s: "good s" and c: "scim_call sv K hash_key now authorization req (k, s) = (r, (k', s'))"
  shows "good s' \<and>
    (users s' key \<noteq> users s key \<or> groups s' key \<noteq> groups s key \<longrightarrow>
      (\<exists>row. fst (verify_key K hash_key now True k (strip (snd (partition_at (CHR '' '') (strip authorization))))) = Inr (Some row) \<and>
         scim_scope \<in> set (ak_scopes row) \<and> ak_tenant_id row = fst key))"
proof -
  obtain ra k1 s1 where a: "authenticate sv K hash_key now authorization (k, s) = (ra, (k1, s1))" by (metis prod.collapse)
  note auth = authenticate_same [OF sv s a]
  show ?thesis
  proof (cases ra)
    case (Inl e)
    then show ?thesis using c a auth by (auto simp: scim_call_def and_then_def)
  next
    case (Inr p)
    then obtain row where row: "fst (verify_key K hash_key now True k (strip (snd (partition_at (CHR '' '') (strip authorization))))) = Inr (Some row)"
      "scim_scope \<in> set (ak_scopes row)" "pr_tenant_id p = ak_tenant_id row" using auth by blast
    have "serve sv (now_iso now) (ak_tenant_id row) req s1 = (r, s')"
      using c a Inr row(3) by (auto simp: scim_call_def and_then_def on_directory_def split: prod.splits)
    from serve_good [OF sv _ this] have k: "kept (ak_tenant_id row) s1 s'" using auth by blast
    have "users s' key = users s1 key \<and> groups s' key = groups s1 key" if "fst key \<noteq> ak_tenant_id row"
      using k that unfolding kept_def framed_def by blast
    then have "ak_tenant_id row = fst key" if "users s' key \<noteq> users s key \<or> groups s' key \<noteq> groups s key"
      using that auth by metis
    then show ?thesis using kept_good [OF k] row by blast
  qed
qed

end

section \<open>Histories over the directory in memory\<close>

fun scim_run ::
  "'s scim_service \<Rightarrow> 'k key_ops \<Rightarrow> (string \<Rightarrow> string) \<Rightarrow> (datetime \<times> string \<times> scim_request) list \<Rightarrow> 'k \<times> 's \<Rightarrow> 'k \<times> 's" where
  "scim_run sv K hash_key [] ks = ks"
| "scim_run sv K hash_key ((now, authorization, req) # calls) ks =
     scim_run sv K hash_key calls (snd (scim_call sv K hash_key now authorization req ks))"

definition memory_service :: "string \<Rightarrow> (json \<Rightarrow> string) \<Rightarrow> (json_object \<Rightarrow> string) \<Rightarrow> memory_directory scim_service" where
  "memory_service url st digest = new_scim_service (memory_hooks digest) url st digest"

lemma memory_service_hooks: "sv_hooks (memory_service url st digest) = memory_hooks digest"
  by (simp add: memory_service_def new_scim_service_def)

lemma empty_good: "mem_dir.good empty_directory"
  by (simp add: mem_dir.good_def mem_dir.unique_names_def mem_dir.settled_def dir_ok_def dir_users_def empty_directory_def)

lemma scim_run_good:
  "mem_dir.good (snd ks) \<Longrightarrow> mem_dir.good (snd (scim_run (memory_service url st digest) K hash_key calls ks))"
proof (induction calls arbitrary: ks)
  case (Cons call calls)
  obtain now authorization req where call: "call = (now, authorization, req)" by (metis prod.collapse)
  obtain k s where ks: "ks = (k, s)" by (cases ks)
  obtain r k' s' where c: "scim_call (memory_service url st digest) K hash_key now authorization req (k, s) = (r, (k', s'))"
    by (metis prod.collapse)
  have "mem_dir.good s'"
    using mem_dir.call_effect [OF memory_service_hooks _ c] Cons.prems unfolding ks by simp
  then show ?case using Cons.IH [of "(k', s')"] c unfolding call ks by simp
qed simp

text \<open>
  C39. After any history of SCIM calls, no two users of a tenant have user names that differ only
  in case, and a stored user was deactivated once more than it was reactivated exactly when it is
  inactive.
\<close>

theorem directory_names_and_effects:
  "let s = snd (scim_run (memory_service url st digest) K hash_key calls (k, empty_directory)) in
   (\<forall>t i j u v. dir_users s (t, i) = Some u \<and> dir_users s (t, j) = Some v \<and>
      lower (su_user_name u) = lower (su_user_name v) \<longrightarrow> i = j) \<and>
   (\<forall>t i u. dir_users s (t, i) = Some u \<longrightarrow>
      count_list (md_deactivated s) i = count_list (md_reactivated s) i + (if su_active u then 0 else 1))"
proof -
  let ?s = "snd (scim_run (memory_service url st digest) K hash_key calls (k, empty_directory))"
  have good: "mem_dir.good ?s" using scim_run_good [of "(k, empty_directory)"] empty_good by simp
  then have names: "mem_dir.unique_names ?s" and settled: "mem_dir.settled ?s" by (simp_all add: mem_dir.good_def)
  have "count_list (md_deactivated ?s) i = count_list (md_reactivated ?s) i + (if su_active u then 0 else 1)"
    if u: "dir_users ?s (t, i) = Some u" for t i u
  proof -
    have "dir_balance ?s (t, i) = (if su_active u then 0 else 1)"
      using settled u unfolding mem_dir.settled_def by blast
    then show ?thesis using u by (auto simp: dir_balance_def split: if_splits)
  qed
  then show ?thesis using names unfolding Let_def mem_dir.unique_names_def by blast
qed

text \<open>
  C40. A call changes a row of the directory only when it presents a key that verifies, carries the
  scim scope and belongs to the row's tenant.
\<close>

theorem scim_call_stays_in_tenant:
  assumes "scim_run (memory_service url st digest) K hash_key calls (k0, empty_directory) = (k, s)"
    and "scim_call (memory_service url st digest) K hash_key now authorization req (k, s) = (r, (k', s'))"
    and "dir_users s' (t, i) \<noteq> dir_users s (t, i) \<or> dir_groups s' (t, i) \<noteq> dir_groups s (t, i)"
  shows "\<exists>row. fst (verify_key K hash_key now True k (strip (snd (partition_at (CHR '' '') (strip authorization))))) = Inr (Some row) \<and>
    scim_scope \<in> set (ak_scopes row) \<and> ak_tenant_id row = t"
proof -
  have "mem_dir.good s" using scim_run_good [of "(k0, empty_directory)"] empty_good assms(1) by (metis snd_conv)
  from mem_dir.call_effect [OF memory_service_hooks this assms(2)] assms(3) show ?thesis by (metis fst_conv)
qed

definition scim_demo_token :: "string \<times> key_memory" where
  "scim_demo_token =
     (case mint_scim_token (memory_key_ops 0) demo_hash 0 [] ''t1'' ''admin'' ''SCIM'' None None ''s'' ''k'' of
        ((plaintext, row), k) \<Rightarrow> (''Bearer '' @ plaintext, k))"

definition scim_demo_call :: "memory_directory \<Rightarrow> (service_error + unit) \<times> key_memory \<times> memory_directory" where
  "scim_demo_call s = scim_call (memory_service [] (\<lambda>_. []) (\<lambda>_. [])) (memory_key_ops 0) demo_hash 0 (fst scim_demo_token)
     (CreateUser [(''userName'', JStr ''ann'')]) (snd scim_demo_token, s)"

lemma scim_demo_runs:
  "fst (scim_demo_call empty_directory) = Inr () \<and>
   map_option su_user_name (dir_users (snd (snd (scim_demo_call empty_directory))) (''t1'', ''u1'')) = Some ''ann''"
  by code_simp

theorem scim_call_stays_in_tenant_witness:
  "\<exists>row. fst (verify_key (memory_key_ops 0) demo_hash 0 True (snd scim_demo_token)
       (strip (snd (partition_at (CHR '' '') (strip (fst scim_demo_token)))))) = Inr (Some row) \<and>
     scim_scope \<in> set (ak_scopes row) \<and> ak_tenant_id row = ''t1''"
proof -
  obtain r k' s' where c: "scim_demo_call empty_directory = (r, (k', s'))" by (metis prod.collapse)
  have "dir_users s' (''t1'', ''u1'') \<noteq> dir_users empty_directory (''t1'', ''u1'')"
    using scim_demo_runs unfolding c by (auto simp: dir_users_def empty_directory_def)
  from scim_call_stays_in_tenant [OF _ c [unfolded scim_demo_call_def] disjI1 [OF this], where calls = "[]"]
  show ?thesis by simp
qed

definition scim_demo_state :: memory_directory where
  "scim_demo_state = snd (scim_run (memory_service [] (\<lambda>_. []) (\<lambda>_. [])) (memory_key_ops 0) demo_hash
     [(0, fst scim_demo_token, CreateUser [(''userName'', JStr ''ann''), (''active'', JBool False)])]
     (snd scim_demo_token, empty_directory))"

lemma scim_demo_inactive:
  "map_option su_active (dir_users scim_demo_state (''t1'', ''u1'')) = Some False \<and> md_reactivated scim_demo_state = []"
  by code_simp

theorem directory_names_and_effects_witness:
  "count_list (md_deactivated scim_demo_state) ''u1'' = 1"
proof -
  obtain u where u: "dir_users scim_demo_state (''t1'', ''u1'') = Some u" "\<not> su_active u"
    using scim_demo_inactive by auto
  have "count_list (md_deactivated scim_demo_state) ''u1'' = count_list (md_reactivated scim_demo_state) ''u1'' + (if su_active u then 0 else 1)"
    using directory_names_and_effects [of "[]" "\<lambda>_. []" "\<lambda>_. []" "memory_key_ops 0" demo_hash
      "[(0, fst scim_demo_token, CreateUser [(''userName'', JStr ''ann''), (''active'', JBool False)])]" "snd scim_demo_token"] u(1)
    unfolding scim_demo_state_def Let_def by blast
  then show ?thesis using u(2) scim_demo_inactive by simp
qed

end
