(* ===== verification/Spec2Isabelle.thy ===== *)
theory Spec2Isabelle
  imports SessionProperties Lockout MfaProperties RateMiddleware EmailCap DeviceProperties
    OAuthConsent OAuthRefresh
    ScimProperties ScimListProperties ApiKeyProperties ScimServiceProperties
begin

text \<open>
  Verification of the stateful core of webbpulse (the Python package under
  \<^verbatim>\<open>src/src/webbpulse\<close>): sign-in sessions, progressive lockout, emailed links and desktop
  handoff, the second factor, the device authorization grant, the OAuth authorization server, API
  keys and the scope guards, SCIM provisioning, the rate limiters and the email send caps. File names below are relative to
  that directory.

  \<^bold>\<open>The parts and how they interact.\<close> A request passes the rate limit middleware
  (\<^verbatim>\<open>ratelimit.py\<close>), which counts it in one DynamoDB table. The identity services
  (\<^verbatim>\<open>identity/sessions.py\<close>, \<^verbatim>\<open>identity/verification.py\<close>, \<^verbatim>\<open>identity/desktop_handoff.py\<close>,
  \<^verbatim>\<open>identity/mfa.py\<close>, \<^verbatim>\<open>identity/device_grant.py\<close>) keep refresh tokens, single-use tokens,
  factors, recovery codes, device codes and grants in the stores of \<^verbatim>\<open>identity/storage.py\<close> and
  \<^verbatim>\<open>identity/device_grant_storage.py\<close>, under hashes of what a client presents. Failed sign-ins
  are rows of \<^verbatim>\<open>identity/lockout.py\<close>, read back through \<^verbatim>\<open>identity/flows.py\<close>. A route takes the
  claims an authorizer verified (\<^verbatim>\<open>identity/claims.py\<close>) or an API key (\<^verbatim>\<open>identity/api_keys.py\<close>) and
  guards scopes and tenants with \<^verbatim>\<open>identity/scopes.py\<close>. The SCIM service
  (\<^verbatim>\<open>identity/scim/\<close>) authenticates with such a key and calls the product's directory hooks. Mail
  is capped by \<^verbatim>\<open>email_cap.py\<close> in the limiters' table.

  \<^bold>\<open>Theories.\<close>
  \<^item> Prelude: dictionaries as association lists in insertion order, JSON values, the string
    methods of Python on Latin-1, shared lemmas.
  \<^item> Clock: datetimes as microseconds since the epoch, ISO 8601 printing and parsing, and the
    readings of a stored timestamp.
  \<^item> Stores: the records of \<^verbatim>\<open>identity/storage.py\<close>, the refresh and token stores as records of
    operations, their in-memory implementations, and the locales \<open>refresh_store\<close> and
    \<open>token_store\<close> that say what the abstract classes promise.
  \<^item> Sessions, SessionLaws, SessionRuns, SessionProperties: \<^verbatim>\<open>SessionService\<close>. SessionRuns
    has the step relations: a whole request at a time, and the check and the write of a
    rotation separately, between which other requests run.
  \<^item> Lockout: login attempts, the lockout computed from them and its glue.
  \<^item> Links, LinkProperties: emailed links and desktop handoff codes over a \<open>token_store\<close>.
  \<^item> Mfa, MfaProperties: TOTP, recovery codes, enrolment and login tickets.
  \<^item> CounterTable: the table of the limiters as a parameter. The locale \<open>counter_table\<close>
    states DynamoDB's documented semantics of a conditional update, failing calls included;
    \<open>item_table\<close> and \<open>scripted_table\<close> are instances, the second one with calls that fail.
  \<^item> RateLimit, RateProperties: limit classes, the clock and first-request windows.
  \<^item> TieredLimit, TieredProperties: plan tiers and token leases. \<open>tier_step\<close> interleaves the
    two critical sections and the updates of \<^verbatim>\<open>check_key\<close> over any number of containers.
  \<^item> RateMiddleware: one request through the middleware, and the refusal it renders.
  \<^item> EmailCap: send caps; the locale \<open>transact_table\<close> adds DynamoDB's transactions.
  \<^item> DeviceStores, DeviceGrants, DeviceProperties: the device grant's two stores, with the
    locales \<open>device_code_store\<close> and \<open>device_grant_store\<close>, and its service.
  \<^item> Urls, OAuthStores, OAuthServer, OAuthRoutes, OAuthRuns, OAuthProperties, OAuthConsent,
    OAuthRefresh: the authorization server of \<^verbatim>\<open>identity/oauth_server.py\<close>: redirect URIs as
    \<^verbatim>\<open>urlsplit\<close> reads them, the stores with the locales \<open>oauth_client_store\<close>, \<open>oauth_code_store\<close> and
    \<open>oauth_consent_store\<close>, the service and what its routes decide. \<open>oauth_step\<close> is a request or
    library call, and a run remembers the approvals given and withdrawn and the codes spent.
  \<^item> ApiKeys, Claims, Access, ApiKeyProperties: keys and their store, the claims of a request,
    and the dependencies that take either credential and guard scope, tenant and the age of a
    sign-in. The locale \<open>api_key_store\<close> is the store's contract, \<open>key_run\<close> a history of its table.
  \<^item> ScimSchema, ScimFilter, ScimMatch, ScimPrinter, ScimProperties: the attribute definitions,
    the filter parser and evaluator of \<^verbatim>\<open>identity/scim/filters.py\<close>, a printer of filters, and the
    parser's properties.
  \<^item> ScimResources, ScimLists, ScimListProperties: users, groups and members as JSON and back,
    list requests, entity tags and the lookup behind unique names.
  \<^item> ScimPatch, ScimPatchProperties: PATCH on a rendered resource.
  \<^item> ScimService, ScimDirectory, ScimServiceProperties: \<^verbatim>\<open>ScimService\<close> over the product's hooks,
    actions that may raise with their state kept. The locale \<open>scim_directory\<close> is what the
    abstract hooks promise, \<open>steady_directory\<close> adds side effects that do not raise, and both are
    interpreted on the directory in memory of the repository's own tests. \<open>hoare\<close> gives the rules
    by which every request keeps the invariants.

  \<^bold>\<open>What is shown.\<close> 
  Sessions (C1 to C9): a refresh token rotates once under any interleaving, reuse revokes the
  family, a revoked family stays dead, every row keeps to its sign-in and its absolute cap, the
  read paths agree with rotation; and one race in which a rotation outruns a revocation. Lockout
  (C10 to C12): the computation meets its specification and its bounds, and refusals themselves
  can lift it. Links and handoff (C13 to C16): exactness, single use and the round trip of a
  handoff. Second factor (C17 to C20): steps strictly increase, codes and tickets are single use,
  and the methods a session reports. Limiters (C21 to C25): no window, minute or day is overrun
  under concurrency, leases and failures, except by the rollover of a first-request window; a
  table that is down refuses nobody. Email caps (C26): no counter is overrun. API keys (C27): the
  claims a key earns stay within what it was minted with. Device grant (C28 to C30): a device code
  signs in once and as approved, a grant never widens or outlives its cap, and reuse ends it.
  Authorization server (C31 to C34): every token stays within what its user approved and has not
  withdrawn, a code is good for one attempt, the browser is sent back only to a registered URI,
  and the signature of a consent page also stands for other scopes. OAuthConsent and OAuthRefresh
  add that a page's own form is accepted as shown and that one refusal of a refresh comes after
  the token is spent. SCIM (C35 to C40): the parser always answers and reads back what is printed,
  members need not be loaded when not wanted, PATCH keeps to what is writable, names stay unique,
  side effects follow the active flag, and a token changes its own tenant only.

  \<^bold>\<open>Parameters.\<close> SHA-256, HMAC and HOTP, the product's hooks, JWT minting, \<^verbatim>\<open>json.loads\<close>, \<^verbatim>\<open>str\<close> of
  a value that is not a string, random draws and clocks are arguments of the definitions. DynamoDB
  is seen through \<open>counter_table\<close> and \<open>transact_table\<close>. An exception is a value of an error type
  or \<^const>\<open>None\<close>.

  \<^bold>\<open>Bounds.\<close> Loops are recursions over lists or over the size of a JSON value, and the bounded
  retries of the code (\<^verbatim>\<open>_TIER_WRITE_ATTEMPTS\<close>, \<^verbatim>\<open>USER_CODE_ATTEMPTS\<close>) keep their bounds. The only
  fuel is that of the chains of a SCIM filter, the tokens left, which C35 shows is never used up.
  Python integers are unbounded and modelled as such; epoch floats are exact rationals. Text is
  Latin-1.

  \<^bold>\<open>Not modelled.\<close> HTTP routes and pages, the flows around the services, OAuth sign-in with external
  providers, SSO, SAML, passkeys, share tokens, the DynamoDB-backed identity
  stores, JWT verification, audit, telemetry, the command line tools and the test harness. Most of
  these are I/O or third-party protocols. TTL reclamation by DynamoDB, logs and metrics are left
  out everywhere.
\<close>

end
